(* ===== verification/Prelude.thy ===== *)
theory Prelude
  imports Main "HOL-Library.Char_ord" "HOL-Library.List_Lexorder"
    "HOL-Library.Product_Lexorder"
begin

text \<open>
  The vocabulary shared by every component of the development: the parts of the C++
  standard library that protoJS uses (\<open>std::string\<close> searching and slicing,
  \<open>std::map\<close>, exceptions), and the lemma collections the component proofs draw on.

  \<^item> A \<open>std::string\<close> is a \<open>string\<close>, that is, a list of bytes; \<open>npos\<close> is
    \<open>None\<close>. Comparison of strings is the lexicographic order of
    \<open>List_Lexorder\<close> over the unsigned order of bytes, as \<open>char_traits<char>\<close> has it.
  \<^item> A call that may throw returns \<open>cpp_exn + 'a\<close>.
  \<^item> A \<open>std::map<std::string, T>\<close> is an association list kept sorted by key, because
    the code iterates over such maps in key order.
\<close>

named_theorems str_simps \<open>searching and slicing of strings\<close>
named_theorems map_simps \<open>the sorted association lists that stand for std::map\<close>

section \<open>Exceptions\<close>

datatype cpp_exn = Out_of_range | Invalid_argument | Runtime_error

type_synonym 'a cpp = "cpp_exn + 'a"

fun cpp_bind :: "'a cpp \<Rightarrow> ('a \<Rightarrow> 'b cpp) \<Rightarrow> 'b cpp" where
  "cpp_bind (Inl e) f = Inl e"
| "cpp_bind (Inr x) f = f x"

lemma cpp_bind_Inr_iff:
  "cpp_bind m f = Inr y \<longleftrightarrow> (\<exists>x. m = Inr x \<and> f x = Inr y)"
  by (cases m) auto

lemma cpp_bind_Inl_iff:
  "cpp_bind m f = Inl e \<longleftrightarrow> m = Inl e \<or> (\<exists>x. m = Inr x \<and> f x = Inl e)"
  by (cases m) auto

section \<open>Searching in strings\<close>

text \<open>\<open>s.find(c)\<close>: the first position of a byte.\<close>

fun str_find :: "char \<Rightarrow> string \<Rightarrow> nat option" where
  "str_find c [] = None"
| "str_find c (x # xs) = (if x = c then Some 0 else map_option Suc (str_find c xs))"

text \<open>\<open>s.find(c, pos)\<close>; a position past the end finds nothing.\<close>

definition str_find_from :: "char \<Rightarrow> nat \<Rightarrow> string \<Rightarrow> nat option" where
  "str_find_from c pos s = map_option (\<lambda>i. pos + i) (str_find c (drop pos s))"

text \<open>\<open>s.find("word")\<close>: the first position at which the word starts.\<close>

fun starts_with :: "string \<Rightarrow> string \<Rightarrow> bool" where
  "starts_with [] s = True"
| "starts_with (p # ps) [] = False"
| "starts_with (p # ps) (x # xs) = (p = x \<and> starts_with ps xs)"

fun str_find_sub :: "string \<Rightarrow> string \<Rightarrow> nat option" where
  "str_find_sub w [] = (if w = [] then Some 0 else None)"
| "str_find_sub w (x # xs) =
     (if starts_with w (x # xs) then Some 0 else map_option Suc (str_find_sub w xs))"

definition str_find_sub_from :: "string \<Rightarrow> nat \<Rightarrow> string \<Rightarrow> nat option" where
  "str_find_sub_from w pos s =
     (if pos \<le> length s then map_option (\<lambda>i. pos + i) (str_find_sub w (drop pos s)) else None)"

text \<open>\<open>s.find_last_of(c)\<close>: the last position of a byte.\<close>

fun str_rfind :: "char \<Rightarrow> string \<Rightarrow> nat option" where
  "str_rfind c [] = None"
| "str_rfind c (x # xs) =
     (case str_rfind c xs of Some i \<Rightarrow> Some (Suc i) | None \<Rightarrow> if x = c then Some 0 else None)"

text \<open>\<open>s.substr(pos, n)\<close> throws when \<open>pos\<close> is past the end.\<close>

definition substr_from :: "nat \<Rightarrow> string \<Rightarrow> string cpp" where
  "substr_from pos s = (if pos \<le> length s then Inr (drop pos s) else Inl Out_of_range)"

definition ends_with :: "string \<Rightarrow> string \<Rightarrow> bool" where
  "ends_with e s \<longleftrightarrow> length e \<le> length s \<and> drop (length s - length e) s = e"

lemma str_find_Some [str_simps]:
  "str_find c s = Some i \<longleftrightarrow> i < length s \<and> s ! i = c \<and> c \<notin> set (take i s)"
proof (induction s arbitrary: i)
  case Nil
  then show ?case by simp
next
  case (Cons x xs)
  then show ?case by (cases i) auto
qed

lemma str_find_None [str_simps]: "str_find c s = None \<longleftrightarrow> c \<notin> set s"
  by (induction s) auto

lemma str_find_append:
  "c \<notin> set a \<Longrightarrow> str_find c (a @ b) = map_option (\<lambda>i. length a + i) (str_find c b)"
proof (induction a)
  case Nil
  then show ?case by (cases "str_find c b") auto
next
  case (Cons x a)
  then show ?case by (cases "str_find c b") auto
qed

lemma str_find_append_hd: "c \<notin> set a \<Longrightarrow> str_find c (a @ c # b) = Some (length a)"
  by (simp add: str_find_append)

lemma str_find_append_mem: "c \<in> set a \<Longrightarrow> str_find c (a @ b) = str_find c a"
  by (induction a) auto

lemma str_rfind_None [str_simps]: "str_rfind c s = None \<longleftrightarrow> c \<notin> set s"
  by (induction s) (auto split: option.splits)

lemma str_rfind_less: "str_rfind c s = Some i \<Longrightarrow> i < length s"
  by (induction s arbitrary: i) (auto split: option.splits if_splits)

lemma str_rfind_nth: "str_rfind c s = Some i \<Longrightarrow> s ! i = c \<and> c \<notin> set (drop (Suc i) s)"
proof (induction s arbitrary: i)
  case (Cons x xs)
  show ?case
  proof (cases "str_rfind c xs")
    case None
    with Cons.prems have "i = 0" "x = c" "c \<notin> set xs"
      by (auto simp: str_rfind_None split: if_splits)
    then show ?thesis by simp
  next
    case (Some j)
    with Cons.prems have "i = Suc j" by simp
    with Cons.IH [OF Some] show ?thesis by simp
  qed
qed simp

lemma starts_with_iff [str_simps]: "starts_with p s \<longleftrightarrow> (\<exists>r. s = p @ r)"
  by (induction p s rule: starts_with.induct) auto

lemma starts_with_append [simp]: "starts_with p (p @ r)"
  by (auto simp: starts_with_iff)

lemma str_find_sub_Some:
  "str_find_sub w s = Some i \<Longrightarrow> i \<le> length s \<and> starts_with w (drop i s)"
  by (induction s arbitrary: i) (auto split: if_splits)

lemma ends_with_iff [str_simps]: "ends_with e s \<longleftrightarrow> (\<exists>r. s = r @ e)"
  by (auto simp: ends_with_def) (metis append_take_drop_id)

section \<open>std::map with string keys\<close>

fun map_put :: "'k::linorder \<Rightarrow> 'v \<Rightarrow> ('k \<times> 'v) list \<Rightarrow> ('k \<times> 'v) list" where
  "map_put k v [] = [(k, v)]"
| "map_put k v ((a, b) # m) =
     (if k < a then (k, v) # (a, b) # m
      else if k = a then (k, v) # m
      else (a, b) # map_put k v m)"

fun map_erase :: "'k::linorder \<Rightarrow> ('k \<times> 'v) list \<Rightarrow> ('k \<times> 'v) list" where
  "map_erase k [] = []"
| "map_erase k ((a, b) # m) = (if k = a then m else (a, b) # map_erase k m)"

definition map_ok :: "('k::linorder \<times> 'v) list \<Rightarrow> bool" where
  "map_ok m \<longleftrightarrow> sorted_wrt (<) (map fst m)"

lemma map_ok_Nil [simp]: "map_ok []"
  by (simp add: map_ok_def)

lemma map_ok_Cons: "map_ok ((a, b) # m) \<longleftrightarrow> (\<forall>k\<in>fst ` set m. a < k) \<and> map_ok m"
  by (auto simp: map_ok_def)

lemma map_of_put [map_simps]: "map_of (map_put k v m) = (map_of m)(k \<mapsto> v)"
  by (induction k v m rule: map_put.induct) (auto simp: fun_eq_iff)

lemma keys_map_put [map_simps]: "fst ` set (map_put k v m) = insert k (fst ` set m)"
  by (induction k v m rule: map_put.induct) (auto simp: image_iff)

lemma map_ok_put [simp, intro]: "map_ok m \<Longrightarrow> map_ok (map_put k v m)"
proof (induction k v m rule: map_put.induct)
  case (2 k v a b m)
  then show ?case by (auto simp: map_ok_Cons keys_map_put)
qed (simp add: map_ok_def)

lemma keys_map_erase: "map_ok m \<Longrightarrow> fst ` set (map_erase k m) = fst ` set m - {k}"
  by (induction k m rule: map_erase.induct) (auto simp: map_ok_Cons)

lemma map_of_erase [map_simps]: "map_ok m \<Longrightarrow> map_of (map_erase k m) = (map_of m)(k := None)"
proof (induction k m rule: map_erase.induct)
  case (2 k a b m)
  then show ?case
    by (auto simp: map_ok_Cons fun_eq_iff map_of_eq_None_iff)
qed simp

lemma map_ok_erase [simp, intro]: "map_ok m \<Longrightarrow> map_ok (map_erase k m)"
proof (induction k m rule: map_erase.induct)
  case (2 k a b m)
  then show ?case by (auto simp: map_ok_Cons keys_map_erase)
qed simp

section \<open>Lines\<close>

definition newline :: char where
  "newline = CHR 0x0A"

text \<open>\<open>std::getline\<close> until it fails.\<close>

fun getlines :: "string \<Rightarrow> string list" where
  "getlines [] = []"
| "getlines (c # s) =
     (if c = newline then [] # getlines s
      else (case getlines s of [] \<Rightarrow> [[c]] | l # ls \<Rightarrow> (c # l) # ls))"

lemma getlines_line: "newline \<notin> set l \<Longrightarrow> getlines (l @ newline # s) = l # getlines s"
  by (induction l) auto

lemma getlines_newline: "l \<in> set (getlines s) \<Longrightarrow> newline \<notin> set l"
  by (induction s arbitrary: l rule: getlines.induct) (auto split: if_splits list.splits)

section \<open>Invariants of step relations\<close>

text \<open>A component with several actors is a step relation. What holds at the start and is kept by each step
  holds in every reachable state.\<close>

locale transition_invariant =
  fixes start :: "'s \<Rightarrow> bool"
    and step :: "'s \<Rightarrow> 's \<Rightarrow> bool"
    and inv :: "'s \<Rightarrow> bool"
  assumes start_inv: "start s \<Longrightarrow> inv s"
    and step_inv: "step s t \<Longrightarrow> inv s \<Longrightarrow> inv t"
begin

lemma steps_inv: "step\<^sup>*\<^sup>* s t \<Longrightarrow> inv s \<Longrightarrow> inv t"
  by (induction rule: rtranclp_induct) (auto intro: step_inv)

lemma reachable_inv: "step\<^sup>*\<^sup>* s t \<Longrightarrow> start s \<Longrightarrow> inv t"
  using steps_inv start_inv by blast

end

end
