(* ===== verification/Semver.thy ===== *)
theory Semver
  imports Prelude
begin

text \<open>
  Models \<open>src/npm/Semver.cpp\<close>: parsing, ordering, rng matching and normalisation of
  package versions. Machine integers are 32-bit \<open>int\<close>s read by \<open>std::istringstream\<close>,
  which refuses a number out of range; substrings past the end throw
  \<open>std::out_of_range\<close>, so every operation returns \<open>cpp_exn + 'a\<close>.
\<close>

section \<open>Reading with std::istringstream\<close>

definition is_space :: "char \<Rightarrow> bool" where
  "is_space c \<longleftrightarrow> c = CHR '' '' \<or> (CHR 0x09 \<le> c \<and> c \<le> CHR 0x0D)"

definition is_digit :: "char \<Rightarrow> bool" where
  "is_digit c \<longleftrightarrow> CHR ''0'' \<le> c \<and> c \<le> CHR ''9''"

definition digit_val :: "char \<Rightarrow> nat" where
  "digit_val c = of_char c - 48"

definition digits_val :: "string \<Rightarrow> nat" where
  "digits_val ds = foldl (\<lambda>a c. 10 * a + digit_val c) 0 ds"

definition int_max :: int where "int_max = 2147483647"

definition int_min :: int where "int_min = - 2147483648"

text \<open>\<open>iss >> n\<close> for an \<open>int\<close>: white space is skipped, an optional sign and the longest
  run of digits are read; no digit, or a value outside \<open>int\<close>, sets the fail bit.\<close>

definition skip_ws :: "string \<Rightarrow> string" where
  "skip_ws s = dropWhile is_space s"

definition read_sign :: "string \<Rightarrow> int \<times> string" where
  "read_sign s = (case s of
     [] \<Rightarrow> (1, [])
   | c # r \<Rightarrow> if c = CHR ''-'' then (- 1, r) else if c = CHR ''+'' then (1, r) else (1, c # r))"

definition read_int :: "string \<Rightarrow> (int \<times> string) option" where
  "read_int s =
     (let (sg, r) = read_sign (skip_ws s);
          ds = takeWhile is_digit r;
          n = sg * int (digits_val ds)
      in if ds = [] \<or> n < int_min \<or> int_max < n then None
         else Some (n, dropWhile is_digit r))"

text \<open>\<open>iss >> c\<close> for a \<open>char\<close>.\<close>

definition read_char :: "string \<Rightarrow> (char \<times> string) option" where
  "read_char s = (case skip_ws s of [] \<Rightarrow> None | c # r \<Rightarrow> Some (c, r))"

section \<open>Semver::parse\<close>

record version =
  major :: int
  minor :: int
  patch :: int
  prerelease :: string
  build :: string

definition strip_v :: "string \<Rightarrow> string" where
  "strip_v version = (case version of [] \<Rightarrow> [] | c # r \<Rightarrow> if c = CHR ''v'' then r else c # r)"

text \<open>The chain \<open>iss >> major >> dot1 >> minor >> dot2 >> patch\<close>, and the test of the dots.\<close>

definition read_triple :: "string \<Rightarrow> (int \<times> int \<times> int) option" where
  "read_triple v =
     Option.bind (read_int v) (\<lambda>(a, r1).
     Option.bind (read_char r1) (\<lambda>(dot1, r2).
     Option.bind (read_int r2) (\<lambda>(b, r3).
     Option.bind (read_char r3) (\<lambda>(dot2, r4).
     Option.bind (read_int r4) (\<lambda>(c, r5).
       if dot1 \<noteq> CHR ''.'' \<or> dot2 \<noteq> CHR ''.'' then None else Some (a, b, c))))))"

text \<open>\<open>parse\<close> finds both separators before it cuts anything off, then cuts at the plus sign
  first; \<open>Inr None\<close> is the return value \<open>false\<close>.\<close>

definition parse :: "string \<Rightarrow> version option cpp" where
  "parse version =
     (let v = strip_v version;
          prereleasePos = str_find CHR ''-'' v;
          buildPos = str_find CHR ''+'' v;
          (bld, v1) = (case buildPos of
             None \<Rightarrow> ([], v) | Some b \<Rightarrow> (drop (b + 1) v, take b v))
      in cpp_bind
           (case prereleasePos of
              None \<Rightarrow> Inr ([], v1)
            | Some p \<Rightarrow> cpp_bind (substr_from (p + 1) v1) (\<lambda>pre. Inr (pre, take p v1)))
           (\<lambda>(pre, v2). Inr (map_option
              (\<lambda>(a, b, c). \<lparr>major = a, minor = b, patch = c, prerelease = pre, build = bld\<rparr>)
              (read_triple v2))))"

section \<open>Semver::compare\<close>

definition comparePrerelease :: "string \<Rightarrow> string \<Rightarrow> int" where
  "comparePrerelease p1 p2 = (if p1 < p2 then - 1 else if p1 > p2 then 1 else 0)"

text \<open>The comparison of two parsed versions, branch by branch.\<close>

definition compare_parsed :: "version \<Rightarrow> version \<Rightarrow> int" where
  "compare_parsed a b =
     (if major a < major b then - 1 else if major a > major b then 1
      else if minor a < minor b then - 1 else if minor a > minor b then 1
      else if patch a < patch b then - 1 else if patch a > patch b then 1
      else if prerelease a = [] \<and> prerelease b \<noteq> [] then 1
      else if prerelease a \<noteq> [] \<and> prerelease b = [] then - 1
      else if prerelease a \<noteq> [] \<and> prerelease b \<noteq> []
           then comparePrerelease (prerelease a) (prerelease b)
      else 0)"

definition compare :: "string \<Rightarrow> string \<Rightarrow> int cpp" where
  "compare v1 v2 =
     cpp_bind (parse v1) (\<lambda>r1. case r1 of None \<Rightarrow> Inr 0 | Some a \<Rightarrow>
     cpp_bind (parse v2) (\<lambda>r2. case r2 of None \<Rightarrow> Inr 0 | Some b \<Rightarrow> Inr (compare_parsed a b)))"

section \<open>Semver::parseRange and Semver::satisfies\<close>

text \<open>White space is erased anywhere in the range; the operator is a prefix.\<close>

definition parseRange :: "string \<Rightarrow> (string \<times> string) option" where
  "parseRange rng =
     (let r = filter (\<lambda>c. \<not> is_space c) rng in
      if r = [] then None
      else if take 2 r = ''>='' then Some (''>='', drop 2 r)
      else if take 2 r = ''<='' then Some (''<='', drop 2 r)
      else if hd r = CHR ''>'' then Some (''>'', drop 1 r)
      else if hd r = CHR ''<'' then Some (''<'', drop 1 r)
      else if hd r = CHR ''='' then Some (''='', drop 1 r)
      else if hd r = CHR ''~'' then Some (''~'', drop 1 r)
      else if hd r = CHR ''^'' then Some (''^'', drop 1 r)
      else Some ([], r))"

text \<open>The tilde and caret branches parse the target, then the version.\<close>

definition with_both :: "string \<Rightarrow> string \<Rightarrow> (version \<Rightarrow> version \<Rightarrow> bool) \<Rightarrow> bool cpp" where
  "with_both targetVersion version f =
     cpp_bind (parse targetVersion) (\<lambda>rt. case rt of None \<Rightarrow> Inr False | Some t \<Rightarrow>
     cpp_bind (parse version) (\<lambda>rv. case rv of None \<Rightarrow> Inr False | Some v \<Rightarrow> Inr (f v t)))"

definition tilde_ok :: "version \<Rightarrow> version \<Rightarrow> bool" where
  "tilde_ok v t =
     (if major v \<noteq> major t then False
      else if minor v \<noteq> minor t then False
      else patch v \<ge> patch t)"

definition caret_ok :: "version \<Rightarrow> version \<Rightarrow> bool" where
  "caret_ok v t =
     (if major v \<noteq> major t then False
      else if major v = 0 then
        (if minor v \<noteq> minor t then False else patch v \<ge> patch t)
      else True)"

definition satisfies :: "string \<Rightarrow> string \<Rightarrow> bool cpp" where
  "satisfies version rng =
     (if rng = ''*'' \<or> rng = ''latest'' then Inr True
      else case parseRange rng of
        None \<Rightarrow> cpp_bind (compare version rng) (\<lambda>c. Inr (c = 0))
      | Some (opr, target) \<Rightarrow>
          cpp_bind (compare version target) (\<lambda>cmp.
            if opr = ''='' \<or> opr = [] then Inr (cmp = 0)
            else if opr = ''>'' then Inr (cmp > 0)
            else if opr = ''>='' then Inr (cmp \<ge> 0)
            else if opr = ''<'' then Inr (cmp < 0)
            else if opr = ''<='' then Inr (cmp \<le> 0)
            else if opr = ''~'' then with_both target version tilde_ok
            else if opr = ''^'' then with_both target version caret_ok
            else Inr False))"

section \<open>Semver::findHighest and Semver::normalize\<close>

text \<open>The loop, with its accumulator \<open>highest\<close>; the empty string means none so far.\<close>

fun findHighest_loop :: "string \<Rightarrow> string list \<Rightarrow> string \<Rightarrow> string cpp" where
  "findHighest_loop rng [] highest = Inr highest"
| "findHighest_loop rng (version # vs) highest =
     cpp_bind (satisfies version rng) (\<lambda>ok.
       if ok then
         (if highest = [] then findHighest_loop rng vs version
          else cpp_bind (compare version highest) (\<lambda>c.
            if c > 0 then findHighest_loop rng vs version
            else findHighest_loop rng vs highest))
       else findHighest_loop rng vs highest)"

definition findHighest :: "string list \<Rightarrow> string \<Rightarrow> string cpp" where
  "findHighest versions rng = findHighest_loop rng versions []"

text \<open>\<open>oss << n\<close> for an \<open>int\<close>.\<close>

fun show_nat :: "nat \<Rightarrow> string" where
  "show_nat n =
     (if n < 10 then [char_of (48 + n)] else show_nat (n div 10) @ [char_of (48 + n mod 10)])"

declare show_nat.simps [simp del]

definition show_int :: "int \<Rightarrow> string" where
  "show_int i = (if i < 0 then CHR ''-'' # show_nat (nat (- i)) else show_nat (nat i))"

definition render :: "version \<Rightarrow> string" where
  "render v = show_int (major v) @ ''.'' @ show_int (minor v) @ ''.'' @ show_int (patch v)
     @ (if prerelease v \<noteq> [] then ''-'' @ prerelease v else [])
     @ (if build v \<noteq> [] then ''+'' @ build v else [])"

definition normalize :: "string \<Rightarrow> string cpp" where
  "normalize version =
     cpp_bind (parse version) (\<lambda>r. case r of None \<Rightarrow> Inr version | Some v \<Rightarrow> Inr (render v))"

section \<open>The order behind compare\<close>

text \<open>
  The specification of \<open>compare\<close>: versions are ordered by the lexicographic order of a key
  in which a stable version (empty prerelease) is above every prerelease of the same triple.
\<close>

definition order_sign :: "'a::linorder \<Rightarrow> 'a \<Rightarrow> int" where
  "order_sign x y = (if x < y then - 1 else if y < x then 1 else 0)"

definition ver_key :: "version \<Rightarrow> int \<times> int \<times> int \<times> bool \<times> string" where
  "ver_key v = (major v, minor v, patch v, prerelease v = [], prerelease v)"

definition valid_version :: "string \<Rightarrow> bool" where
  "valid_version s \<longleftrightarrow> (case parse s of Inl e \<Rightarrow> False | Inr r \<Rightarrow> r \<noteq> None)"

definition parsed :: "string \<Rightarrow> version" where
  "parsed s = (case parse s of Inr (Some v) \<Rightarrow> v | _ \<Rightarrow> \<lparr>major = 0, minor = 0, patch = 0, prerelease = [], build = []\<rparr>)"

lemma parse_valid: "valid_version s \<Longrightarrow> parse s = Inr (Some (parsed s))"
  by (auto simp: valid_version_def parsed_def split: sum.splits option.splits)

lemma valid_version_iff: "valid_version s \<longleftrightarrow> (\<exists>v. parse s = Inr (Some v))"
  by (auto simp: valid_version_def split: sum.splits)

lemma compare_parsed_key: "compare_parsed a b = order_sign (ver_key a) (ver_key b)"
  by (auto simp: compare_parsed_def comparePrerelease_def order_sign_def ver_key_def
      less_prod_simp)

lemma compare_valid:
  "valid_version v \<Longrightarrow> valid_version w \<Longrightarrow>
   compare v w = Inr (order_sign (ver_key (parsed v)) (ver_key (parsed w)))"
  by (simp add: compare_def parse_valid compare_parsed_key)

lemma order_sign_le: "order_sign x y \<le> 0 \<longleftrightarrow> x \<le> y"
  by (auto simp: order_sign_def)

lemma order_sign_gt: "0 < order_sign x y \<longleftrightarrow> y < x"
  by (auto simp: order_sign_def)

lemma parse_Nil: "parse [] = Inr None"
  by (simp add: parse_def strip_v_def read_triple_def read_int_def read_sign_def skip_ws_def)

lemma valid_nonempty: "valid_version v \<Longrightarrow> v \<noteq> []"
  by (auto simp: valid_version_def parse_Nil)

section \<open>findHighest selects a maximum\<close>

text \<open>The conditions under which the loop meets no exception and no unparsable version.\<close>

definition candidates_ok :: "string list \<Rightarrow> string \<Rightarrow> bool" where
  "candidates_ok vs rng \<longleftrightarrow>
     (\<forall>v\<in>set vs. valid_version v \<and> (case satisfies v rng of Inl e \<Rightarrow> False | Inr b \<Rightarrow> True))"

definition in_range :: "string \<Rightarrow> string \<Rightarrow> bool" where
  "in_range rng v \<longleftrightarrow> satisfies v rng = Inr True"

definition is_highest :: "string set \<Rightarrow> string \<Rightarrow> string \<Rightarrow> bool" where
  "is_highest S rng r \<longleftrightarrow>
     (if \<exists>v\<in>S. in_range rng v
      then r \<in> S \<and> in_range rng r \<and>
           (\<forall>v\<in>S. in_range rng v \<longrightarrow> ver_key (parsed v) \<le> ver_key (parsed r))
      else r = [])"

lemma satisfies_candidate:
  "candidates_ok vs rng \<Longrightarrow> v \<in> set vs \<Longrightarrow> satisfies v rng = Inr (in_range rng v)"
  by (cases "satisfies v rng") (auto simp: candidates_ok_def in_range_def)

lemma candidates_ok_Cons:
  "candidates_ok (v # vs) rng \<longleftrightarrow>
     valid_version v \<and> satisfies v rng = Inr (in_range rng v) \<and> candidates_ok vs rng"
  by (auto simp: candidates_ok_def in_range_def split: sum.splits)

lemma is_highest_skip: "\<not> in_range rng v \<Longrightarrow> is_highest (insert v S) rng r = is_highest S rng r"
  by (auto simp: is_highest_def)

lemma findHighest_loop_Some:
  assumes "candidates_ok vs rng" and "valid_version h" and "in_range rng h"
  shows "\<exists>r. findHighest_loop rng vs h = Inr r \<and> is_highest (insert h (set vs)) rng r"
  using assms
proof (induction vs arbitrary: h)
  case Nil
  then show ?case by (auto simp: is_highest_def)
next
  case (Cons v vs)
  note prems = Cons.prems [unfolded candidates_ok_Cons]
  show ?case
  proof (cases "in_range rng v \<and> ver_key (parsed h) < ver_key (parsed v)")
    case True
    with prems Cons.IH [of v] obtain r where
      "findHighest_loop rng vs v = Inr r" "is_highest (insert v (set vs)) rng r" by blast
    with True prems show ?thesis
      by (auto simp: valid_nonempty compare_valid order_sign_gt is_highest_def split: if_splits)
  next
    case False
    from prems Cons.IH [of h] obtain r where
      "findHighest_loop rng vs h = Inr r" "is_highest (insert h (set vs)) rng r" by blast
    with False prems show ?thesis
      by (auto simp: valid_nonempty compare_valid order_sign_gt is_highest_def split: if_splits)
  qed
qed

lemma findHighest_loop_Nil:
  "candidates_ok vs rng \<Longrightarrow> \<exists>r. findHighest_loop rng vs [] = Inr r \<and> is_highest (set vs) rng r"
proof (induction vs)
  case Nil
  then show ?case by (simp add: is_highest_def)
next
  case (Cons v vs)
  show ?case
  proof (cases "in_range rng v")
    case True
    with Cons.prems findHighest_loop_Some [of vs rng v] show ?thesis
      by (auto simp: candidates_ok_Cons)
  next
    case False
    with Cons show ?thesis by (auto simp: candidates_ok_Cons is_highest_skip)
  qed
qed

section \<open>Ranges\<close>

definition no_space :: "string \<Rightarrow> bool" where
  "no_space s \<longleftrightarrow> list_all (\<lambda>c. \<not> is_space c) s"

lemma no_space_filter: "no_space s \<Longrightarrow> filter (\<lambda>c. \<not> is_space c) s = s"
  by (induction s) (auto simp: no_space_def)

lemma op_not_space [simp]:
  "\<not> is_space CHR ''>''" "\<not> is_space CHR ''=''" "\<not> is_space CHR ''^''" "\<not> is_space CHR ''~''"
  by (simp_all add: is_space_def less_eq_char_def)

lemma parseRange_ge: "no_space t \<Longrightarrow> parseRange (CHR ''>'' # CHR ''='' # t) = Some (''>='', t)"
  by (simp add: parseRange_def no_space_filter)

lemma parseRange_caret: "no_space t \<Longrightarrow> parseRange (CHR ''^'' # t) = Some (''^'', t)"
  by (simp add: parseRange_def no_space_filter)

lemma parseRange_tilde: "no_space t \<Longrightarrow> parseRange (CHR ''~'' # t) = Some (''~'', t)"
  by (simp add: parseRange_def no_space_filter)

lemma satisfies_caret:
  "no_space t \<Longrightarrow> satisfies v (CHR ''^'' # t) =
     cpp_bind (compare v t) (\<lambda>_. with_both t v caret_ok)"
  by (simp add: satisfies_def parseRange_caret)

lemma satisfies_tilde:
  "no_space t \<Longrightarrow> satisfies v (CHR ''~'' # t) =
     cpp_bind (compare v t) (\<lambda>_. with_both t v tilde_ok)"
  by (simp add: satisfies_def parseRange_tilde)

lemma satisfies_ge:
  "no_space t \<Longrightarrow> satisfies v (CHR ''>'' # CHR ''='' # t) =
     cpp_bind (compare v t) (\<lambda>cmp. Inr (cmp \<ge> 0))"
  by (simp add: satisfies_def parseRange_ge)

section \<open>Reading back what was printed\<close>

lemma is_digit_iff: "is_digit c \<longleftrightarrow> 48 \<le> (of_char c :: nat) \<and> (of_char c :: nat) \<le> 57"
  by (simp add: is_digit_def less_eq_char_def)

lemma digit_char:
  "d < 10 \<Longrightarrow> is_digit (char_of (48 + d)) \<and> digit_val (char_of (48 + d)) = d"
  for d :: nat
  by (simp add: is_digit_iff digit_val_def)

lemma digit_not_special:
  assumes "is_digit c"
  shows "\<not> is_space c" "c \<noteq> CHR ''-''" "c \<noteq> CHR ''+''" "c \<noteq> CHR ''v''" "c \<noteq> CHR ''.''"
  using assms by (auto simp: is_digit_def is_space_def less_eq_char_def)

lemma show_nat_digits: "list_all is_digit (show_nat n) \<and> show_nat n \<noteq> []"
proof (induction n rule: show_nat.induct)
  case (1 n)
  then show ?case by (subst (1 2) show_nat.simps) (auto simp: digit_char)
qed

lemma digits_val_snoc: "digits_val (ds @ [c]) = 10 * digits_val ds + digit_val c"
  by (simp add: digits_val_def)

lemma digits_val_show_nat [simp]: "digits_val (show_nat n) = n"
proof (induction n rule: show_nat.induct)
  case (1 n)
  show ?case
  proof (cases "n < 10")
    case True
    then show ?thesis by (subst show_nat.simps) (simp add: digits_val_def digit_char)
  next
    case False
    with 1 show ?thesis by (subst show_nat.simps) (simp add: digits_val_snoc digit_char)
  qed
qed

definition no_digit_hd :: "string \<Rightarrow> bool" where
  "no_digit_hd r \<longleftrightarrow> (case r of [] \<Rightarrow> True | c # _ \<Rightarrow> \<not> is_digit c)"

lemma span_digits:
  assumes "list_all is_digit ds" "no_digit_hd r"
  shows "takeWhile is_digit (ds @ r) = ds" "dropWhile is_digit (ds @ r) = r"
  using assms by (induction ds) (auto simp: no_digit_hd_def split: list.splits)

lemma read_int_show:
  assumes "0 \<le> i" "i \<le> int_max" "no_digit_hd r"
  shows "read_int (show_int i @ r) = Some (i, r)"
proof -
  let ?ds = "show_nat (nat i)"
  have ds: "list_all is_digit ?ds" "?ds \<noteq> []" using show_nat_digits by auto
  then obtain c cs where c: "?ds = c # cs" "is_digit c" by (cases ?ds) auto
  have "show_int i = ?ds" using assms(1) by (simp add: show_int_def)
  moreover have "read_sign (skip_ws (?ds @ r)) = (1, ?ds @ r)"
    using c digit_not_special [OF c(2)] by (simp add: read_sign_def skip_ws_def)
  ultimately show ?thesis
    using assms ds span_digits [OF ds(1) assms(3)]
    by (simp add: read_int_def int_min_def)
qed

lemma read_char_dot: "read_char (''.'' @ r) = Some (CHR ''.'', r)"
  by (simp add: read_char_def skip_ws_def is_space_def)

lemma show_int_hd:
  "0 \<le> i \<Longrightarrow> \<exists>c cs. show_int i = c # cs \<and> is_digit c"
  using show_nat_digits [of "nat i"] by (cases "show_nat (nat i)") (auto simp: show_int_def)

lemma show_int_digits: "0 \<le> i \<Longrightarrow> c \<in> set (show_int i) \<Longrightarrow> is_digit c"
  using show_nat_digits [of "nat i"] by (auto simp: show_int_def list_all_iff)

definition triple_str :: "version \<Rightarrow> string" where
  "triple_str v = show_int (major v) @ ''.'' @ show_int (minor v) @ ''.'' @ show_int (patch v)"

definition nums_ok :: "version \<Rightarrow> bool" where
  "nums_ok v \<longleftrightarrow> (\<forall>i\<in>{major v, minor v, patch v}. 0 \<le> i \<and> i \<le> int_max)"

lemma read_triple_str: "nums_ok v \<Longrightarrow> read_triple (triple_str v) = Some (major v, minor v, patch v)"
  using read_int_show [of "patch v" "[]"]
  by (simp add: read_triple_def triple_str_def nums_ok_def read_int_show no_digit_hd_def
      is_digit_def less_eq_char_def read_char_dot [simplified])

lemma triple_str_chars:
  assumes "nums_ok v"
  shows "CHR ''-'' \<notin> set (triple_str v)" "CHR ''+'' \<notin> set (triple_str v)"
    "strip_v (triple_str v @ r) = triple_str v @ r"
  using assms show_int_hd [of "major v"]
  by (auto simp: triple_str_def nums_ok_def strip_v_def dest!: show_int_digits
      dest: digit_not_special)

section \<open>What parse accepts\<close>

lemma read_int_bounds:
  assumes "read_int s = Some (i, r)" "CHR ''-'' \<notin> set s"
  shows "0 \<le> i \<and> i \<le> int_max \<and> CHR ''-'' \<notin> set r"
proof -
  have sub: "set (skip_ws s) \<subseteq> set s" by (auto simp: skip_ws_def dest: set_dropWhileD)
  have "fst (read_sign (skip_ws s)) = 1 \<and> set (snd (read_sign (skip_ws s))) \<subseteq> set s"
    using sub assms(2) by (auto simp: read_sign_def split: list.splits)
  with assms show ?thesis
    by (auto simp: read_int_def Let_def split: prod.splits if_splits dest!: set_dropWhileD)
qed

lemma read_char_rest: "read_char s = Some (c, r) \<Longrightarrow> set r \<subseteq> set s"
  by (auto simp: read_char_def skip_ws_def split: list.splits)
    (metis insertCI list.simps(15) set_dropWhileD)

lemma read_triple_bounds:
  assumes "read_triple s = Some (a, b, c)" "CHR ''-'' \<notin> set s"
  shows "(0 \<le> a \<and> a \<le> int_max) \<and> (0 \<le> b \<and> b \<le> int_max) \<and> (0 \<le> c \<and> c \<le> int_max)"
proof -
  from assms(1) obtain r1 d1 r2 r3 d2 r4 r5 where steps:
    "read_int s = Some (a, r1)" "read_char r1 = Some (d1, r2)" "read_int r2 = Some (b, r3)"
    "read_char r3 = Some (d2, r4)" "read_int r4 = Some (c, r5)"
    by (auto simp: read_triple_def bind_eq_Some_conv split: if_splits)
  have 1: "0 \<le> a \<and> a \<le> int_max" "CHR ''-'' \<notin> set r1" using read_int_bounds steps(1) assms(2) by auto
  then have "CHR ''-'' \<notin> set r2" using read_char_rest steps(2) by blast
  then have 2: "0 \<le> b \<and> b \<le> int_max" "CHR ''-'' \<notin> set r3" using read_int_bounds steps(3) by auto
  then have "CHR ''-'' \<notin> set r4" using read_char_rest steps(4) by blast
  then have 3: "0 \<le> c \<and> c \<le> int_max" using read_int_bounds steps(5) by auto
  from 1 2 3 show ?thesis by blast
qed

lemma parse_Some_nums: "parse s = Inr (Some v) \<Longrightarrow> nums_ok v"
  by (auto simp: parse_def Let_def cpp_bind_Inr_iff substr_from_def nums_ok_def str_find_None
      str_find_Some min_def
      split: option.splits if_splits dest!: read_triple_bounds dest: in_set_takeD)

lemma parse_Some_prerelease: "parse s = Inr (Some v) \<Longrightarrow> CHR ''+'' \<notin> set (prerelease v)"
  by (auto simp: parse_def Let_def cpp_bind_Inr_iff substr_from_def str_find_None
      str_find_Some split: option.splits if_splits dest: in_set_takeD in_set_dropD)

lemma parse_render:
  assumes nums: "nums_ok v" and pre: "CHR ''+'' \<notin> set (prerelease v)"
    and bld: "prerelease v \<noteq> [] \<or> CHR ''-'' \<notin> set (build v)"
  shows "parse (render v) = Inr (Some v)"
proof -
  let ?t = "triple_str v"
  let ?b = "if build v \<noteq> [] then ''+'' @ build v else []"
  note t = triple_str_chars [OF nums] read_triple_str [OF nums]
  have r: "render v = ?t @ (if prerelease v \<noteq> [] then ''-'' @ prerelease v else []) @ ?b"
    by (simp add: render_def triple_str_def)
  have sv: "strip_v (render v) = render v" unfolding r by (rule t(3))
  show ?thesis
  proof (cases "prerelease v = []")
    case True
    with bld have "str_find CHR ''-'' (render v) = None"
      using t by (auto simp: r str_find_None)
    moreover from True bld have "str_find CHR ''-'' (build v) = None"
      by (simp add: str_find_None)
    ultimately show ?thesis
      using t True by (auto simp: parse_def sv r Let_def str_find_append)
  next
    case False
    then have "str_find CHR ''-'' (render v) = Some (length ?t)"
      using t by (simp add: r str_find_append)
    with False show ?thesis
      using t pre by (auto simp: parse_def sv r Let_def str_find_append str_find_None substr_from_def)
  qed
qed

section \<open>Properties\<close>

text \<open>C1: on parsable versions \<open>compare\<close> is a three-way comparison of the lexicographic key
  (major, minor, patch, stable above prerelease, prerelease text): it never throws, exchanging
  the arguments negates the result, and it is transitive.\<close>

theorem semver_compare_total_preorder:
  assumes "valid_version u" "valid_version v" "valid_version w"
  shows "compare u v = Inr (order_sign (ver_key (parsed u)) (ver_key (parsed v))) \<and>
    (\<exists>c. compare u v = Inr c \<and> compare v u = Inr (- c)) \<and>
    (\<exists>a b c. compare u v = Inr a \<and> compare v w = Inr b \<and> compare u w = Inr c \<and>
       (a \<le> 0 \<and> b \<le> 0 \<longrightarrow> c \<le> 0))"
  using assms by (auto simp: compare_valid order_sign_def)

lemma semver_compare_total_preorder_witness:
  "compare ''1.2.3-rc'' ''1.2.3'' = Inr (- 1) \<and> compare ''1.2.3'' ''1.2.3-rc'' = Inr 1"
proof -
  have v: "valid_version ''1.2.3-rc''" "valid_version ''1.2.3''" by code_simp+
  have "order_sign (ver_key (parsed ''1.2.3-rc'')) (ver_key (parsed ''1.2.3'')) = - 1" by code_simp
  then show ?thesis
    using semver_compare_total_preorder [OF v(1) v(2) v(2)] by auto
qed

text \<open>C2: over a list of parsable versions whose range test does not throw, \<open>findHighest\<close>
  returns a version of the list that satisfies the range and is at least every other one that
  does, and the empty string exactly when none does.\<close>

theorem findHighest_maximum:
  assumes "candidates_ok vs rng"
  shows "\<exists>r. findHighest vs rng = Inr r \<and> is_highest (set vs) rng r"
  using findHighest_loop_Nil [OF assms] by (simp add: findHighest_def)

lemma findHighest_maximum_witness:
  "\<exists>r. findHighest [''1.2.3'', ''1.10.0'', ''2.0.0''] ''^1.0.0'' = Inr r \<and>
     is_highest (set [''1.2.3'', ''1.10.0'', ''2.0.0'']) ''^1.0.0'' r"
proof (rule findHighest_maximum)
  show "candidates_ok [''1.2.3'', ''1.10.0'', ''2.0.0''] ''^1.0.0''" by code_simp
qed

text \<open>C3: \<open>normalize\<close> is a printer for what \<open>parse\<close> read: parsing its output gives the
  same version back, unless the prerelease is empty and the build contains a hyphen.\<close>

theorem normalize_roundtrip:
  assumes "parse s = Inr (Some v)" and "prerelease v \<noteq> [] \<or> CHR ''-'' \<notin> set (build v)"
  shows "\<exists>t. normalize s = Inr t \<and> parse t = Inr (Some v)"
  using assms parse_render [OF parse_Some_nums parse_Some_prerelease]
  by (auto simp: normalize_def)

lemma normalize_roundtrip_witness:
  "\<exists>t. normalize ''v01.2.3-rc.1+x'' = Inr t \<and> parse t = parse ''v01.2.3-rc.1+x''"
proof -
  have p: "parse ''v01.2.3-rc.1+x'' = Inr (Some (parsed ''v01.2.3-rc.1+x''))" by code_simp
  have b: "prerelease (parsed ''v01.2.3-rc.1+x'') \<noteq> [] \<or>
    CHR ''-'' \<notin> set (build (parsed ''v01.2.3-rc.1+x''))" by code_simp
  from normalize_roundtrip [OF p b] p show ?thesis by simp
qed

text \<open>\<open>parse\<close> throws \<open>std::out_of_range\<close> exactly when the first plus sign comes before
  the first hyphen (as in the valid version 1.2.3+build-1), because the hyphen's position was
  taken before the build part was cut off.\<close>

theorem parse_throws_iff:
  "parse s = Inl e \<longleftrightarrow> e = Out_of_range \<and>
     (\<exists>b p. str_find CHR ''+'' (strip_v s) = Some b \<and> str_find CHR ''-'' (strip_v s) = Some p \<and> b < p)"
proof (cases "str_find CHR ''-'' (strip_v s)")
  case None
  then show ?thesis by (auto simp: parse_def Let_def split: option.splits)
next
  case (Some p)
  then have "p < length (strip_v s)" by (simp add: str_find_Some)
  moreover have "str_find CHR ''+'' (strip_v s) \<noteq> Some p"
    using Some by (auto simp: str_find_Some)
  moreover have "b < length (strip_v s)" if "str_find CHR ''+'' (strip_v s) = Some b" for b
    using that by (simp add: str_find_Some)
  ultimately show ?thesis
    using Some by (cases "str_find CHR ''+'' (strip_v s)")
      (auto simp: parse_def Let_def substr_from_def min_def split: if_splits)
qed

text \<open>the caret and tilde operators, on parsable operands: a tilde range fixes major and
  minor and bounds the patch below; a caret range fixes the major version and bounds nothing
  else unless the major version is 0, so it also accepts versions below its target.\<close>

theorem caret_tilde_ranges:
  assumes "valid_version v" "valid_version t" "no_space t"
  shows "satisfies v (CHR ''~'' # t) = Inr (major (parsed v) = major (parsed t) \<and>
      minor (parsed v) = minor (parsed t) \<and> patch (parsed t) \<le> patch (parsed v)) \<and>
    satisfies v (CHR ''^'' # t) = Inr (major (parsed v) = major (parsed t) \<and>
      (major (parsed v) = 0 \<longrightarrow>
         minor (parsed v) = minor (parsed t) \<and> patch (parsed t) \<le> patch (parsed v)))"
  using assms
  by (auto simp: satisfies_tilde satisfies_caret compare_valid with_both_def parse_valid
      tilde_ok_def caret_ok_def)

lemma caret_tilde_ranges_witness:
  "satisfies ''1.0.0'' ''^1.2.3'' = Inr True \<and> satisfies ''1.0.0'' ''~1.2.3'' = Inr False"
proof -
  have v: "valid_version ''1.0.0''" "valid_version ''1.2.3''" "no_space ''1.2.3''" by code_simp+
  have m: "major (parsed ''1.0.0'') = 1" "major (parsed ''1.2.3'') = 1"
    "minor (parsed ''1.0.0'') = 0" "minor (parsed ''1.2.3'') = 2" by code_simp+
  show ?thesis using caret_tilde_ranges [OF v] m by simp
qed

text \<open>A version that does not parse compares equal to everything, so it satisfies every
  \<open>>=\<close> range.\<close>

theorem unparsable_satisfies_ge:
  assumes "parse v = Inr None" "no_space t"
  shows "satisfies v (CHR ''>'' # CHR ''='' # t) = Inr True"
  using assms by (simp add: satisfies_ge compare_def)

lemma unparsable_satisfies_ge_witness: "satisfies ''nightly'' ''>=1.0.0'' = Inr True"
proof -
  have "parse ''nightly'' = Inr None" "no_space ''1.0.0''" by code_simp+
  from unparsable_satisfies_ge [OF this] show ?thesis by simp
qed

end
