(* ===== verification/Json.thy ===== *)
theory Json
  imports Prelude
begin

text \<open>
  Models \<open>src/npm/JsonParser.h\<close> and \<open>src/npm/JsonParser.cpp\<close>: the recursive-descent parser the
  npm client reads registry metadata with.

  \<^item> \<open>JsonValue\<close> is a datatype with the alternatives of the \<open>std::variant\<close>; an object is a
    \<open>std::map\<close>, so a sorted association list. The type of numbers is a parameter \<open>'n\<close> with a
    zero, and \<open>stod\<close>, the conversion of a numeral to it (\<open>None\<close>: it throws), an argument:
    floating-point rounding is not modelled.
  \<^item> The parser's position is the part of the input not yet read; past the end both \<open>peek\<close> and
    \<open>get\<close> return the byte 0.
  \<^item> The three functions that recurse carry fuel. \<open>json_run_enough\<close> shows that twice the
    length of the input plus one is enough, \<open>json_loops_mono\<close> that more changes nothing. The depth
    of the C++ call stack is not bounded in the model.
\<close>

datatype 'n json =
    JNull
  | JObject "(string \<times> 'n json) list"
  | JArray "'n json list"
  | JString string
  | JNumber 'n
  | JBool bool

section \<open>Accessors of JsonValue\<close>

fun json_get :: "'n json \<Rightarrow> string \<Rightarrow> 'n json option" where
  "json_get (JObject obj) key = map_of obj key"
| "json_get _ key = None"

definition getString :: "'n json \<Rightarrow> string \<Rightarrow> string" where
  "getString j key = (case json_get j key of Some (JString s) \<Rightarrow> s | _ \<Rightarrow> [])"

definition getNumber :: "'n json \<Rightarrow> string \<Rightarrow> 'n \<Rightarrow> 'n" where
  "getNumber j key defaultVal = (case json_get j key of Some (JNumber n) \<Rightarrow> n | _ \<Rightarrow> defaultVal)"

section \<open>The parser\<close>

definition json_ws :: "char \<Rightarrow> bool" where
  "json_ws c \<longleftrightarrow> c = CHR '' '' \<or> c = CHR 0x09 \<or> c = CHR 0x0A \<or> c = CHR 0x0D"

definition skipWhitespace :: "string \<Rightarrow> string" where
  "skipWhitespace s = dropWhile json_ws s"

definition peek :: "string \<Rightarrow> char" where
  "peek s = (case s of [] \<Rightarrow> CHR 0x00 | c # _ \<Rightarrow> c)"

definition get_char :: "string \<Rightarrow> char \<times> string" where
  "get_char s = (case s of [] \<Rightarrow> (CHR 0x00, []) | c # r \<Rightarrow> (c, r))"

definition digit_char :: "char \<Rightarrow> bool" where
  "digit_char c \<longleftrightarrow> CHR ''0'' \<le> c \<and> c \<le> CHR ''9''"

definition unescape :: "char \<Rightarrow> char" where
  "unescape e = (if e = CHR ''n'' then CHR 0x0A
     else if e = CHR ''r'' then CHR 0x0D
     else if e = CHR ''t'' then CHR 0x09 else e)"

text \<open>The loop of \<open>parseString\<close>; \<open>\u\<close> skips four bytes and yields a question mark.\<close>

function string_loop :: "string \<Rightarrow> string \<times> string" where
  "string_loop [] = ([], [])"
| "string_loop (c # r) =
     (if c = CHR 0x22 then ([], r)
      else if c = CHR 0x5C then
        (if fst (get_char r) = CHR ''u''
         then let (a, b) = string_loop (drop 4 (snd (get_char r))) in (CHR ''?'' # a, b)
         else let (a, b) = string_loop (snd (get_char r)) in (unescape (fst (get_char r)) # a, b))
      else let (a, b) = string_loop r in (c # a, b))"
  by pat_completeness auto
termination
  by (relation "measure length") (auto simp: get_char_def split: list.splits)

definition parseString :: "string \<Rightarrow> string \<times> string" where
  "parseString s = string_loop (snd (get_char s))"

text \<open>The loop of \<open>parseNumber\<close>; a minus sign continues a numeral only once something was read.\<close>

fun number_loop :: "bool \<Rightarrow> string \<Rightarrow> string \<times> string" where
  "number_loop moved [] = ([], [])"
| "number_loop moved (c # r) =
     (if digit_char c \<or> c = CHR ''.'' \<or> c = CHR ''e'' \<or> c = CHR ''E'' \<or> c = CHR ''+''
         \<or> (c = CHR ''-'' \<and> moved)
      then let (a, b) = number_loop True r in (c # a, b)
      else ([], c # r))"

definition parseNumber :: "(string \<Rightarrow> 'n option) \<Rightarrow> string \<Rightarrow> 'n::zero json \<times> string" where
  "parseNumber stod s =
     (let (a, b) = (if peek s = CHR ''-''
                    then (let (x, y) = number_loop True (snd (get_char s)) in (CHR ''-'' # x, y))
                    else number_loop False s)
      in (JNumber (case stod a of None \<Rightarrow> 0 | Some n \<Rightarrow> n), b))"

text \<open>\<open>expect\<close> consumes the word while it matches, and the first byte that does not.\<close>

fun expect :: "string \<Rightarrow> string \<Rightarrow> string" where
  "expect [] s = s"
| "expect (w # ws) [] = []"
| "expect (w # ws) (c # r) = (if c = w then expect ws r else r)"

fun parseValue :: "(string \<Rightarrow> 'n option) \<Rightarrow> nat \<Rightarrow> string \<Rightarrow> ('n::zero json \<times> string) option"
  and objectLoop :: "(string \<Rightarrow> 'n option) \<Rightarrow> nat \<Rightarrow> (string \<times> 'n::zero json) list \<Rightarrow> string
        \<Rightarrow> ((string \<times> 'n json) list \<times> string) option"
  and arrayLoop :: "(string \<Rightarrow> 'n option) \<Rightarrow> nat \<Rightarrow> 'n::zero json list \<Rightarrow> string
        \<Rightarrow> ('n json list \<times> string) option"
where
  "parseValue stod 0 s0 = None"
| "parseValue stod (Suc k) s0 =
     (let s = skipWhitespace s0; c = peek s in
      if c = CHR ''{'' then
        (let s1 = skipWhitespace (snd (get_char s)) in
         if peek s1 = CHR ''}'' then Some (JObject [], snd (get_char s1))
         else map_option (\<lambda>(ob, r). (JObject ob, r)) (objectLoop stod k [] s1))
      else if c = CHR ''['' then
        (let s1 = skipWhitespace (snd (get_char s)) in
         if peek s1 = CHR '']'' then Some (JArray [], snd (get_char s1))
         else map_option (\<lambda>(arr, r). (JArray arr, r)) (arrayLoop stod k [] s1))
      else if c = CHR 0x22 then (let (x, r) = parseString s in Some (JString x, r))
      else if c = CHR ''-'' \<or> digit_char c then Some (parseNumber stod s)
      else if c = CHR ''t'' then Some (JBool True, expect ''true'' s)
      else if c = CHR ''f'' then Some (JBool False, expect ''false'' s)
      else if c = CHR ''n'' then Some (JNull, expect ''null'' s)
      else Some (JNull, s))"
| "objectLoop stod 0 ob s0 = None"
| "objectLoop stod (Suc k) ob s0 =
     (let s = skipWhitespace s0 in
      if peek s \<noteq> CHR 0x22 then Some (ob, s)
      else
        (let (key, s1) = parseString s;
             (c, s2) = get_char (skipWhitespace s1)
         in if c \<noteq> CHR '':'' then Some (ob, s2)
            else case parseValue stod k (skipWhitespace s2) of
                None \<Rightarrow> None
              | Some (val, s3) \<Rightarrow>
                  (let (d, s4) = get_char (skipWhitespace s3) in
                   if d = CHR ''}'' then Some (map_put key val ob, s4)
                   else if d \<noteq> CHR '','' then Some (map_put key val ob, s4)
                   else objectLoop stod k (map_put key val ob) s4)))"
| "arrayLoop stod 0 arr s0 = None"
| "arrayLoop stod (Suc k) arr s0 =
     (case parseValue stod k s0 of
        None \<Rightarrow> None
      | Some (val, s1) \<Rightarrow>
          (let (c, s2) = get_char (skipWhitespace s1) in
           if c = CHR '']'' then Some (arr @ [val], s2)
           else if c \<noteq> CHR '','' then Some (arr @ [val], s2)
           else arrayLoop stod k (arr @ [val]) s2))"

definition json_run :: "(string \<Rightarrow> 'n option) \<Rightarrow> nat \<Rightarrow> string \<Rightarrow> 'n::zero json option" where
  "json_run stod fuel json =
     (let s = skipWhitespace json in
      if s = [] then Some JNull else map_option fst (parseValue stod fuel s))"

definition json_fuel :: "string \<Rightarrow> nat" where
  "json_fuel json = 2 * length json + 1"

definition JsonParse :: "(string \<Rightarrow> 'n option) \<Rightarrow> string \<Rightarrow> 'n::zero json" where
  "JsonParse stod json = (case json_run stod (json_fuel json) json of Some v \<Rightarrow> v | None \<Rightarrow> JNull)"

section \<open>The parser only moves forward\<close>

lemma skipWhitespace_length: "length (skipWhitespace s) \<le> length s"
  by (simp add: skipWhitespace_def length_dropWhile_le)

lemma get_char_length: "length (snd (get_char s)) = length s - 1"
  by (auto simp: get_char_def split: list.splits)

lemma get_char_less: "fst (get_char s) \<noteq> CHR 0x00 \<Longrightarrow> length (snd (get_char s)) < length s"
  by (auto simp: get_char_def split: list.splits)

lemma peek_less: "peek s \<noteq> CHR 0x00 \<Longrightarrow> length (snd (get_char s)) < length s"
  by (auto simp: peek_def get_char_def split: list.splits)

lemma string_loop_length: "length (snd (string_loop s)) \<le> length s"
proof (induction s rule: string_loop.induct)
  case 1
  then show ?case by simp
next
  case (2 c r)
  have g: "length (snd (get_char r)) \<le> length r" by (simp add: get_char_length)
  show ?case
  proof (cases "c = CHR 0x22")
    case True
    then show ?thesis by simp
  next
    case False
    show ?thesis
    proof (cases "c = CHR 0x5C")
      case True
      show ?thesis
      proof (cases "fst (get_char r) = CHR ''u''")
        case u: True
        have "length (snd (string_loop (drop 4 (snd (get_char r))))) \<le> length (drop 4 (snd (get_char r)))"
          using "2.IH"(1) False True u by blast
        with g True u show ?thesis by (simp add: split_beta)
      next
        case u: False
        have "length (snd (string_loop (snd (get_char r)))) \<le> length (snd (get_char r))"
          using "2.IH"(2) False True u by blast
        with g True u show ?thesis by (simp add: split_beta)
      qed
    next
      case bs: False
      with "2.IH"(3) False have "length (snd (string_loop r)) \<le> length r" by blast
      with False bs show ?thesis by (simp add: split_beta)
    qed
  qed
qed

lemma parseString_less:
  "peek s = CHR 0x22 \<Longrightarrow> length (snd (parseString s)) < length s"
  using string_loop_length [of "snd (get_char s)"] peek_less [of s]
  by (simp add: parseString_def)

lemma number_loop_length: "length (snd (number_loop m s)) \<le> length s"
  by (induction m s rule: number_loop.induct) (auto simp: split_beta)

lemma parseNumber_length: "length (snd (parseNumber stod s)) \<le> length s"
  using number_loop_length [of True "snd (get_char s)"] number_loop_length [of False s]
  by (auto simp: parseNumber_def split_beta Let_def get_char_length)

lemma expect_length: "length (expect w s) \<le> length s"
  by (induction w s rule: expect.induct) auto

lemmas json_lengths = skipWhitespace_length get_char_length string_loop_length
  number_loop_length parseNumber_length expect_length

section \<open>Enough fuel\<close>

declare parseValue.simps [simp del] objectLoop.simps [simp del] arrayLoop.simps [simp del]

text \<open>A run that returns, with no more input left than it was given.\<close>

definition returns :: "('a \<times> string) option \<Rightarrow> string \<Rightarrow> bool" where
  "returns res s \<longleftrightarrow> (case res of None \<Rightarrow> False | Some (_, r) \<Rightarrow> length r \<le> length s)"

lemma returns_Some [simp]: "returns (Some (v, r)) s \<longleftrightarrow> length r \<le> length s"
  by (simp add: returns_def)

lemma returns_map [simp]: "returns (map_option (\<lambda>(a, r). (f a, r)) res) s = returns res s"
  by (cases res) (auto simp: returns_def)

lemma returns_le: "returns res s \<Longrightarrow> length s \<le> length t \<Longrightarrow> returns res t"
  by (auto simp: returns_def split: option.splits)

lemma returnsE: "returns res s \<Longrightarrow> (\<And>v r. res = Some (v, r) \<Longrightarrow> length r \<le> length s \<Longrightarrow> P) \<Longrightarrow> P"
  by (auto simp: returns_def split: option.splits)

lemma parseValue_step:
  assumes ob: "\<And>ob s. 2 * length s + 2 \<le> k \<Longrightarrow> returns (objectLoop stod k ob s) s"
    and arr: "\<And>arr s. 2 * length s + 2 \<le> k \<Longrightarrow> returns (arrayLoop stod k arr s) s"
    and k: "2 * length s0 \<le> k"
  shows "returns (parseValue stod (Suc k) s0) s0"
proof -
  let ?s = "skipWhitespace s0" and ?s1 = "skipWhitespace (snd (get_char (skipWhitespace s0)))"
  have s: "length ?s \<le> length s0" by (rule skipWhitespace_length)
  have s1: "length ?s1 < length s0" if "peek ?s \<noteq> CHR 0x00"
    using peek_less [OF that] skipWhitespace_length [of "snd (get_char ?s)"] s by linarith
  have g: "length (snd (get_char t)) \<le> length t" for t by (simp add: get_char_length)
  have o: "returns (objectLoop stod k [] ?s1) s0" "returns (arrayLoop stod k [] ?s1) s0"
    if "peek ?s \<noteq> CHR 0x00"
    using s1 [OF that] ob [of ?s1 "[]"] arr [of ?s1 "[]"] k by (auto intro: returns_le)
  have p: "length (snd (parseString ?s)) \<le> length s0" if "peek ?s = CHR 0x22"
    using parseString_less [OF that] s by linarith
  have n: "returns (Some (parseNumber stod ?s)) s0"
    using parseNumber_length [of stod ?s] s by (simp add: returns_def split_beta)
  have e: "length (expect w ?s) \<le> length s0" for w using expect_length [of w ?s] s by linarith
  show ?thesis
    using s s1 o p n e g [of ?s1]
    by (auto simp: parseValue.simps Let_def split_beta returns_def [of "Some (JString _, _)"])
qed

lemma objectLoop_step:
  assumes val: "\<And>s. 2 * length s + 1 \<le> k \<Longrightarrow> returns (parseValue stod k s) s"
    and ob: "\<And>ob s. 2 * length s + 2 \<le> k \<Longrightarrow> returns (objectLoop stod k ob s) s"
    and k: "2 * length s0 + 1 \<le> k"
  shows "returns (objectLoop stod (Suc k) ob s0) s0"
proof (cases "peek (skipWhitespace s0) = CHR 0x22")
  case False
  then show ?thesis using skipWhitespace_length by (simp add: objectLoop.simps Let_def)
next
  case True
  let ?s = "skipWhitespace s0"
  let ?s1 = "snd (parseString ?s)"
  obtain c s2 where cs: "get_char (skipWhitespace ?s1) = (c, s2)" by fastforce
  have s1: "length ?s1 < length s0"
    using parseString_less [OF True] skipWhitespace_length [of s0] by linarith
  have s2: "length s2 \<le> length ?s1"
    using get_char_length [of "skipWhitespace ?s1"] skipWhitespace_length [of ?s1] cs by simp
  have s2': "length (skipWhitespace s2) < length s0"
    using skipWhitespace_length [of s2] s1 s2 by linarith
  from val [of "skipWhitespace s2"] s2' k
  have "returns (parseValue stod k (skipWhitespace s2)) (skipWhitespace s2)" by linarith
  then obtain v s3 where v: "parseValue stod k (skipWhitespace s2) = Some (v, s3)"
    and s3: "length s3 < length s0" using s2' by (auto elim!: returnsE)
  obtain d s4 where ds: "get_char (skipWhitespace s3) = (d, s4)" by fastforce
  have s4: "length s4 < length s0"
    using get_char_length [of "skipWhitespace s3"] skipWhitespace_length [of s3] s3 ds by simp
  have "returns (objectLoop stod k ob' s4) s0" for ob'
    using ob [of s4 ob'] s4 k by (auto intro: returns_le)
  then show ?thesis
    using True cs v ds s1 s2 s4 by (auto simp: objectLoop.simps Let_def split_beta)
qed

lemma arrayLoop_step:
  assumes val: "\<And>s. 2 * length s + 1 \<le> k \<Longrightarrow> returns (parseValue stod k s) s"
    and arr: "\<And>arr s. 2 * length s + 2 \<le> k \<Longrightarrow> returns (arrayLoop stod k arr s) s"
    and k: "2 * length s0 + 1 \<le> k"
  shows "returns (arrayLoop stod (Suc k) arr s0) s0"
proof -
  from val [OF k] obtain v s1 where v: "parseValue stod k s0 = Some (v, s1)"
    and s1: "length s1 \<le> length s0" by (auto elim!: returnsE)
  obtain c s2 where cs: "get_char (skipWhitespace s1) = (c, s2)" by fastforce
  have s2: "length s2 \<le> length s0"
    using get_char_length [of "skipWhitespace s1"] skipWhitespace_length [of s1] s1 cs by simp
  have "returns (arrayLoop stod k arr' s2) s0" if "c \<noteq> CHR 0x00" for arr'
  proof -
    have "length s2 < length s0"
      using get_char_less [of "skipWhitespace s1"] that skipWhitespace_length [of s1] s1 cs by simp
    then show ?thesis using arr [of s2 arr'] k by (auto intro: returns_le)
  qed
  then show ?thesis using v cs s2 by (auto simp: arrayLoop.simps Let_def)
qed

lemma json_loops_return:
  "(\<forall>s. 2 * length s + 1 \<le> k \<longrightarrow> returns (parseValue stod k s) s) \<and>
   (\<forall>ob s. 2 * length s + 2 \<le> k \<longrightarrow> returns (objectLoop stod k ob s) s) \<and>
   (\<forall>arr s. 2 * length s + 2 \<le> k \<longrightarrow> returns (arrayLoop stod k arr s) s)"
proof (induction k)
  case 0
  then show ?case by simp
next
  case (Suc k)
  then show ?case
    by (auto intro!: parseValue_step objectLoop_step arrayLoop_step)
qed

lemma parseValue_fuel: "2 * length s + 1 \<le> k \<Longrightarrow> returns (parseValue stod k s) s"
  using json_loops_return by blast

text \<open>More fuel gives the same result.\<close>

lemma parseValue_Suc_cong:
  assumes "\<And>t x. objectLoop stod k [] t = Some x \<Longrightarrow> objectLoop stod m [] t = Some x"
    and "\<And>t x. arrayLoop stod k [] t = Some x \<Longrightarrow> arrayLoop stod m [] t = Some x"
    and "parseValue stod (Suc k) s = Some x"
  shows "parseValue stod (Suc m) s = Some x"
proof -
  let ?s = "skipWhitespace s"
  let ?s1 = "skipWhitespace (snd (get_char ?s))"
  consider (ob) "peek ?s = CHR ''{''" "peek ?s1 \<noteq> CHR ''}''"
    | (arr) "peek ?s = CHR ''[''" "peek ?s1 \<noteq> CHR '']''"
    | (flat) "peek ?s = CHR ''{'' \<longrightarrow> peek ?s1 = CHR ''}''" "peek ?s = CHR ''['' \<longrightarrow> peek ?s1 = CHR '']''"
    by blast
  then show ?thesis
  proof cases
    case ob
    with assms(3) obtain y where "objectLoop stod k [] ?s1 = Some y"
      by (auto simp: parseValue.simps(2) Let_def)
    with ob assms show ?thesis by (simp add: parseValue.simps(2) Let_def)
  next
    case arr
    with assms(3) obtain y where "arrayLoop stod k [] ?s1 = Some y"
      by (auto simp: parseValue.simps(2) Let_def)
    with arr assms show ?thesis by (simp add: parseValue.simps(2) Let_def)
  next
    case flat
    have "parseValue stod (Suc m) s = parseValue stod (Suc k) s"
      using flat by (cases "peek ?s = CHR ''{''"; cases "peek ?s = CHR ''[''")
        (simp_all add: parseValue.simps(2) Let_def)
    with assms(3) show ?thesis by simp
  qed
qed

lemma objectLoop_Suc_cong:
  assumes val: "\<And>t x. parseValue stod k t = Some x \<Longrightarrow> parseValue stod m t = Some x"
    and ob: "\<And>ob t x. objectLoop stod k ob t = Some x \<Longrightarrow> objectLoop stod m ob t = Some x"
    and ret: "objectLoop stod (Suc k) ob s = Some x"
  shows "objectLoop stod (Suc m) ob s = Some x"
proof -
  let ?s = "skipWhitespace s"
  obtain key s1 where ks: "parseString ?s = (key, s1)" by fastforce
  obtain c s2 where cs: "get_char (skipWhitespace s1) = (c, s2)" by fastforce
  show ?thesis
  proof (cases "peek ?s = CHR 0x22 \<and> c = CHR '':''")
    case False
    with ret ks cs show ?thesis by (auto simp: objectLoop.simps(2) Let_def)
  next
    case True
    with ret ks cs obtain v s3 where v: "parseValue stod k (skipWhitespace s2) = Some (v, s3)"
      by (auto simp: objectLoop.simps(2) Let_def split: option.splits)
    obtain d s4 where ds: "get_char (skipWhitespace s3) = (d, s4)" by fastforce
    from ret True ks cs v ds have
      "(if d = CHR ''}'' \<or> d \<noteq> CHR '','' then Some (map_put key v ob, s4)
        else objectLoop stod k (map_put key v ob) s4) = Some x"
      by (simp add: objectLoop.simps(2) Let_def split: if_splits)
    with True ks cs val [OF v] ds ob show ?thesis
      by (auto simp: objectLoop.simps(2) Let_def split: if_splits)
  qed
qed

lemma arrayLoop_Suc_cong:
  assumes val: "\<And>t x. parseValue stod k t = Some x \<Longrightarrow> parseValue stod m t = Some x"
    and arr: "\<And>arr t x. arrayLoop stod k arr t = Some x \<Longrightarrow> arrayLoop stod m arr t = Some x"
    and ret: "arrayLoop stod (Suc k) arr s = Some x"
  shows "arrayLoop stod (Suc m) arr s = Some x"
proof -
  from ret obtain v s1 where v: "parseValue stod k s = Some (v, s1)"
    by (auto simp: arrayLoop.simps(2) split: option.splits)
  obtain c s2 where cs: "get_char (skipWhitespace s1) = (c, s2)" by fastforce
  from ret v cs have
    "(if c = CHR '']'' \<or> c \<noteq> CHR '','' then Some (arr @ [v], s2)
      else arrayLoop stod k (arr @ [v]) s2) = Some x"
    by (simp add: arrayLoop.simps(2) Let_def split: if_splits)
  with val [OF v] cs arr show ?thesis
    by (auto simp: arrayLoop.simps(2) Let_def split: if_splits)
qed

lemma json_loops_mono:
  "(\<forall>s x. parseValue stod k s = Some x \<longrightarrow> parseValue stod (Suc k) s = Some x) \<and>
   (\<forall>ob s x. objectLoop stod k ob s = Some x \<longrightarrow> objectLoop stod (Suc k) ob s = Some x) \<and>
   (\<forall>arr s x. arrayLoop stod k arr s = Some x \<longrightarrow> arrayLoop stod (Suc k) arr s = Some x)"
proof (induction k)
  case 0
  then show ?case by (simp add: parseValue.simps objectLoop.simps arrayLoop.simps)
next
  case (Suc k)
  have v: "parseValue stod (Suc (Suc k)) s = Some x" if "parseValue stod (Suc k) s = Some x" for s x
    using Suc.IH that by (blast intro: parseValue_Suc_cong)
  have o: "objectLoop stod (Suc (Suc k)) ob s = Some x" if "objectLoop stod (Suc k) ob s = Some x" for ob s x
    using Suc.IH that by (blast intro: objectLoop_Suc_cong)
  have a: "arrayLoop stod (Suc (Suc k)) arr s = Some x" if "arrayLoop stod (Suc k) arr s = Some x" for arr s x
    using Suc.IH that by (blast intro: arrayLoop_Suc_cong)
  from v o a show ?case by blast
qed

lemma parseValue_mono:
  assumes "k \<le> m" "parseValue stod k s = Some x"
  shows "parseValue stod m s = Some x"
  using assms by (induction m rule: dec_induct) (use json_loops_mono [of stod] in blast)+

lemma objectLoop_mono:
  assumes "k \<le> m" "objectLoop stod k ob s = Some x"
  shows "objectLoop stod m ob s = Some x"
  using assms by (induction m rule: dec_induct) (use json_loops_mono [of stod] in blast)+

lemma arrayLoop_mono:
  assumes "k \<le> m" "arrayLoop stod k arr s = Some x"
  shows "arrayLoop stod m arr s = Some x"
  using assms by (induction m rule: dec_induct) (use json_loops_mono [of stod] in blast)+

lemma parseValue_det:
  "parseValue stod k s = Some x \<Longrightarrow> parseValue stod m s = Some y \<Longrightarrow> x = y"
  using parseValue_mono [of k "max k m" stod s x] parseValue_mono [of m "max k m" stod s y] by simp

lemma json_run_enough: "json_fuel s \<le> k \<Longrightarrow> json_run stod k s = Some (JsonParse stod s)"
proof (cases "skipWhitespace s = []")
  case True
  then show ?thesis by (simp add: json_run_def JsonParse_def)
next
  case False
  assume k: "json_fuel s \<le> k"
  have "2 * length (skipWhitespace s) + 1 \<le> json_fuel s"
    using skipWhitespace_length [of s] by (simp add: json_fuel_def)
  then obtain v r where "parseValue stod (json_fuel s) (skipWhitespace s) = Some (v, r)"
    using parseValue_fuel by (blast elim: returnsE)
  with parseValue_mono [OF k this] show ?thesis
    using False by (simp add: json_run_def JsonParse_def)
qed

section \<open>A printer to parse back\<close>

text \<open>
  The specification of the parser: a compact printer of JSON values, over any notation
  \<open>shown\<close> for numbers that consists of numeral characters and that \<open>stod\<close> reads back.
\<close>

definition escape_char :: "char \<Rightarrow> string" where
  "escape_char c =
     (if c = CHR 0x22 then [CHR 0x5C, CHR 0x22]
      else if c = CHR 0x5C then [CHR 0x5C, CHR 0x5C]
      else if c = CHR 0x0A then [CHR 0x5C, CHR ''n'']
      else if c = CHR 0x0D then [CHR 0x5C, CHR ''r'']
      else if c = CHR 0x09 then [CHR 0x5C, CHR ''t'']
      else [c])"

definition show_string :: "string \<Rightarrow> string" where
  "show_string s = CHR 0x22 # concat (map escape_char s) @ [CHR 0x22]"

fun join_comma :: "string list \<Rightarrow> string" where
  "join_comma [] = []"
| "join_comma [x] = x"
| "join_comma (x # y # zs) = x @ CHR '','' # join_comma (y # zs)"

fun show_json :: "('n \<Rightarrow> string) \<Rightarrow> 'n json \<Rightarrow> string" where
  "show_json shown JNull = ''null''"
| "show_json shown (JObject ms) =
     ''{'' @ join_comma (map (\<lambda>(k, v). show_string k @ '':'' @ show_json shown v) ms) @ ''}''"
| "show_json shown (JArray vs) = ''['' @ join_comma (map (show_json shown) vs) @ '']''"
| "show_json shown (JString s) = show_string s"
| "show_json shown (JNumber n) = shown n"
| "show_json shown (JBool b) = (if b then ''true'' else ''false'')"

text \<open>A value a \<open>std::map\<close> can hold: the keys of every object are in order and distinct.\<close>

fun json_ok :: "'n json \<Rightarrow> bool" where
  "json_ok (JObject ms) \<longleftrightarrow> map_ok ms \<and> list_all (\<lambda>(k, v). json_ok v) ms"
| "json_ok (JArray vs) \<longleftrightarrow> list_all json_ok vs"
| "json_ok _ \<longleftrightarrow> True"

definition number_char :: "char \<Rightarrow> bool" where
  "number_char c \<longleftrightarrow> digit_char c \<or> c \<in> {CHR ''.'', CHR ''e'', CHR ''E'', CHR ''+'', CHR ''-''}"

definition number_text :: "string \<Rightarrow> bool" where
  "number_text t \<longleftrightarrow> (case t of [] \<Rightarrow> False
     | c # r \<Rightarrow> (c = CHR ''-'' \<or> digit_char c) \<and> list_all number_char r)"

definition notation_ok :: "('n \<Rightarrow> string) \<Rightarrow> (string \<Rightarrow> 'n option) \<Rightarrow> bool" where
  "notation_ok shown stod \<longleftrightarrow> (\<forall>n. number_text (shown n) \<and> stod (shown n) = Some n)"

text \<open>What may follow a value inside an array or an object.\<close>

definition delimited :: "string \<Rightarrow> bool" where
  "delimited r \<longleftrightarrow> (case r of [] \<Rightarrow> True | c # _ \<Rightarrow> c \<in> {CHR '','', CHR '']'', CHR ''}''})"

lemma string_loop_show: "string_loop (concat (map escape_char s) @ CHR 0x22 # r) = (s, r)"
  by (induction s) (auto simp: escape_char_def get_char_def unescape_def)

lemma parseString_show: "parseString (show_string s @ r) = (s, r)"
  by (simp add: parseString_def show_string_def get_char_def string_loop_show)

lemma number_loop_show:
  "list_all number_char t \<Longrightarrow> delimited r \<Longrightarrow> number_loop True (t @ r) = (t, r)"
proof (induction t)
  case Nil
  then show ?case by (cases r) (auto simp: delimited_def digit_char_def less_eq_char_def)
qed (auto simp: number_char_def)

lemma digit_char_not: "digit_char c \<Longrightarrow>
  c \<notin> {CHR ''-'', CHR ''{'', CHR ''['', CHR 0x22, CHR ''}'', CHR '']''} \<and> \<not> json_ws c"
  by (auto simp: digit_char_def json_ws_def less_eq_char_def)

lemma numeral_start:
  assumes "c = CHR ''-'' \<or> digit_char c"
  shows "\<not> json_ws c" "c \<noteq> CHR ''{''" "c \<noteq> CHR ''[''" "c \<noteq> CHR 0x22" "c \<noteq> CHR '']''" "c \<noteq> CHR ''}''"
proof -
  have "\<not> json_ws c \<and> c \<notin> {CHR ''{'', CHR ''['', CHR 0x22, CHR '']'', CHR ''}''}"
    using assms
  proof
    assume "c = CHR ''-''"
    then show ?thesis by (simp add: json_ws_def)
  next
    assume "digit_char c"
    from digit_char_not [OF this] show ?thesis by blast
  qed
  then show "\<not> json_ws c" "c \<noteq> CHR ''{''" "c \<noteq> CHR ''[''" "c \<noteq> CHR 0x22" "c \<noteq> CHR '']''" "c \<noteq> CHR ''}''"
    by blast+
qed

lemma shownE:
  assumes "notation_ok shown stod"
  obtains c t where "shown n = c # t" "c = CHR ''-'' \<or> digit_char c" "list_all number_char t"
    "stod (c # t) = Some n"
proof -
  from assms have "number_text (shown n)" "stod (shown n) = Some n" by (auto simp: notation_ok_def)
  then show thesis using that by (cases "shown n") (auto simp: number_text_def)
qed

lemma parseNumber_show:
  assumes "notation_ok shown stod" "delimited r"
  shows "parseNumber stod (shown n @ r) = (JNumber n, r)"
proof -
  obtain c t where t: "shown n = c # t" "c = CHR ''-'' \<or> digit_char c" "list_all number_char t"
    "stod (c # t) = Some n"
    by (rule shownE [OF assms(1)])
  with number_loop_show [OF t(3) assms(2)] digit_char_not [of c] show ?thesis
    by (auto simp: parseNumber_def peek_def get_char_def)
qed

lemma skip_not_ws: "\<not> json_ws c \<Longrightarrow> skipWhitespace (c # r) = c # r"
  by (simp add: skipWhitespace_def)

text \<open>The first byte of a printed value is no white space and closes nothing.\<close>

definition opens_value :: "string \<Rightarrow> bool" where
  "opens_value s \<longleftrightarrow> (case s of [] \<Rightarrow> False
     | c # _ \<Rightarrow> \<not> json_ws c \<and> c \<noteq> CHR '']'' \<and> c \<noteq> CHR ''}'')"

lemma opens_append: "opens_value s \<Longrightarrow> opens_value (s @ t)"
  by (cases s) (auto simp: opens_value_def)

lemma opens_skip: "opens_value s \<Longrightarrow> skipWhitespace s = s"
  by (cases s) (auto simp: opens_value_def skip_not_ws)

lemma opens_peek: "opens_value s \<Longrightarrow> peek s \<noteq> CHR '']'' \<and> peek s \<noteq> CHR ''}''"
  by (cases s) (auto simp: opens_value_def peek_def)

lemma show_json_opens:
  assumes "notation_ok shown stod"
  shows "opens_value (show_json shown v)"
proof (cases v)
  case (JNumber n)
  obtain c t where "shown n = c # t" "c = CHR ''-'' \<or> digit_char c"
    by (rule shownE [OF assms])
  with JNumber numeral_start [of c] show ?thesis by (simp add: opens_value_def)
qed (auto simp: opens_value_def json_ws_def show_string_def)

lemma map_put_snoc: "map_ok (m @ [(k, v)]) \<Longrightarrow> map_put k v m = m @ [(k, v)]"
proof (induction m)
  case (Cons a m)
  then show ?case by (cases a) (auto simp: map_ok_def)
qed simp

lemma foldl_put_sorted: "map_ok (m @ ms) \<Longrightarrow> foldl (\<lambda>ob (k, v). map_put k v ob) m ms = m @ ms"
proof (induction ms arbitrary: m)
  case (Cons a ms)
  then have "map_put (fst a) (snd a) m = m @ [a]"
    by (intro map_put_snoc [of m "fst a" "snd a", simplified])
      (auto simp: map_ok_def sorted_wrt_append)
  with Cons show ?case by (cases a) auto
qed simp

definition prints :: "('n \<Rightarrow> string) \<Rightarrow> (string \<Rightarrow> 'n option) \<Rightarrow> 'n::zero json \<Rightarrow> bool" where
  "prints shown stod v \<longleftrightarrow>
     (\<forall>r. delimited r \<longrightarrow> (\<exists>k. parseValue stod k (show_json shown v @ r) = Some (v, r)))"

lemma printsD: "prints shown stod v \<Longrightarrow> delimited r \<Longrightarrow>
   \<exists>k. \<forall>m\<ge>k. parseValue stod m (show_json shown v @ r) = Some (v, r)"
  unfolding prints_def using parseValue_mono by blast

lemma arrayLoop_show:
  assumes "\<forall>v\<in>set (v0 # vs). prints shown stod v"
  shows "\<exists>k. arrayLoop stod k arr (join_comma (map (show_json shown) (v0 # vs)) @ CHR '']'' # r)
    = Some (arr @ v0 # vs, r)"
  using assms
proof (induction vs arbitrary: v0 arr)
  case Nil
  have "delimited (CHR '']'' # r)" by (simp add: delimited_def)
  with Nil obtain k where "parseValue stod k (show_json shown v0 @ CHR '']'' # r) = Some (v0, CHR '']'' # r)"
    by (auto simp: prints_def)
  then show ?case
    by (intro exI [of _ "Suc k"]) (simp add: arrayLoop.simps(2) skip_not_ws json_ws_def get_char_def)
next
  case (Cons v1 vs)
  let ?rest = "join_comma (map (show_json shown) (v1 # vs)) @ CHR '']'' # r"
  obtain k where k: "arrayLoop stod k (arr @ [v0]) ?rest = Some ((arr @ [v0]) @ v1 # vs, r)"
    using Cons.IH [of v1 "arr @ [v0]"] Cons.prems by auto
  have "delimited (CHR '','' # ?rest)" by (simp add: delimited_def)
  moreover have "prints shown stod v0" using Cons.prems by simp
  ultimately obtain j where
    j: "\<forall>m\<ge>j. parseValue stod m (show_json shown v0 @ CHR '','' # ?rest) = Some (v0, CHR '','' # ?rest)"
    using printsD [of shown stod v0 "CHR '','' # ?rest"] by blast
  let ?m = "max j k"
  have "parseValue stod ?m (show_json shown v0 @ CHR '','' # ?rest) = Some (v0, CHR '','' # ?rest)"
    using j by simp
  moreover have "arrayLoop stod ?m (arr @ [v0]) ?rest = Some (arr @ v0 # v1 # vs, r)"
    using arrayLoop_mono [OF _ k, of ?m] by simp
  ultimately show ?case
    by (intro exI [of _ "Suc ?m"]) (simp add: arrayLoop.simps(2) skip_not_ws json_ws_def get_char_def)
qed

lemma objectLoop_member:
  assumes "parseValue stod m (skipWhitespace t) = Some (v, d # t')" "\<not> json_ws d"
  shows "objectLoop stod (Suc m) ob (show_string key @ CHR '':'' # t) =
     (if d = CHR '','' then objectLoop stod m (map_put key v ob) t'
      else Some (map_put key v ob, t'))"
proof -
  have "skipWhitespace (show_string key @ CHR '':'' # t) = show_string key @ CHR '':'' # t"
    "peek (show_string key @ CHR '':'' # t) = CHR 0x22"
    by (simp_all add: show_string_def skip_not_ws json_ws_def peek_def)
  moreover have "skipWhitespace (CHR '':'' # t) = CHR '':'' # t" by (simp add: skip_not_ws json_ws_def)
  ultimately show ?thesis
    using assms by (simp add: objectLoop.simps(2) parseString_show get_char_def skip_not_ws)
qed

definition show_member :: "('n \<Rightarrow> string) \<Rightarrow> string \<times> 'n json \<Rightarrow> string" where
  "show_member shown = (\<lambda>(k, v). show_string k @ '':'' @ show_json shown v)"

lemma printsE:
  assumes "notation_ok shown stod" "prints shown stod v" "delimited r"
  obtains j where "\<And>m. j \<le> m \<Longrightarrow>
    parseValue stod m (skipWhitespace (show_json shown v @ r)) = Some (v, r)"
  using printsD [OF assms(2,3)] opens_skip [OF opens_append [OF show_json_opens [OF assms(1)]]]
  by (metis)

lemma objectLoop_show:
  assumes nt: "notation_ok shown stod" and "\<forall>v\<in>snd ` set (p # ms). prints shown stod v"
  shows "\<exists>k. objectLoop stod k ob (join_comma (map (show_member shown) (p # ms)) @ CHR ''}'' # r)
    = Some (foldl (\<lambda>ob (k, v). map_put k v ob) ob (p # ms), r)"
  using assms(2)
proof (induction ms arbitrary: p ob)
  case Nil
  obtain key v where p: "p = (key, v)" by fastforce
  have "delimited (CHR ''}'' # r)" "prints shown stod v" using Nil p by (auto simp: delimited_def)
  then obtain j where
    "parseValue stod j (skipWhitespace (show_json shown v @ CHR ''}'' # r)) = Some (v, CHR ''}'' # r)"
    using printsE [OF nt] by blast
  from objectLoop_member [OF this] have
    "objectLoop stod (Suc j) ob (show_string key @ CHR '':'' # show_json shown v @ CHR ''}'' # r) =
      Some (map_put key v ob, r)" by (simp add: json_ws_def)
  then show ?case using p by (intro exI [of _ "Suc j"]) (simp add: show_member_def)
next
  case (Cons q ms)
  obtain key v where p: "p = (key, v)" by fastforce
  let ?rest = "join_comma (map (show_member shown) (q # ms)) @ CHR ''}'' # r"
  obtain k where k: "objectLoop stod k (map_put key v ob) ?rest
      = Some (foldl (\<lambda>ob (k, v). map_put k v ob) (map_put key v ob) (q # ms), r)"
    using Cons.IH [of q "map_put key v ob"] Cons.prems by auto
  have "delimited (CHR '','' # ?rest)" "prints shown stod v" using Cons p by (auto simp: delimited_def)
  then obtain j where j: "\<And>m. j \<le> m \<Longrightarrow>
      parseValue stod m (skipWhitespace (show_json shown v @ CHR '','' # ?rest)) = Some (v, CHR '','' # ?rest)"
    using printsE [OF nt] by blast
  let ?m = "max j k"
  from j have "parseValue stod ?m (skipWhitespace (show_json shown v @ CHR '','' # ?rest))
      = Some (v, CHR '','' # ?rest)" by simp
  from objectLoop_member [OF this] have
    "objectLoop stod (Suc ?m) ob (show_string key @ CHR '':'' # show_json shown v @ CHR '','' # ?rest)
      = objectLoop stod ?m (map_put key v ob) ?rest" by (simp add: json_ws_def)
  also have "\<dots> = Some (foldl (\<lambda>ob (k, v). map_put k v ob) (map_put key v ob) (q # ms), r)"
    using objectLoop_mono [OF _ k, of ?m] by simp
  finally show ?case using p by (intro exI [of _ "Suc ?m"]) (simp add: show_member_def)
qed

lemma parseValue_object:
  assumes "opens_value t" "objectLoop stod k [] t = Some (ob, r)"
  shows "parseValue stod (Suc k) (CHR ''{'' # t) = Some (JObject ob, r)"
  using assms opens_skip [OF assms(1)] opens_peek [OF assms(1)]
  by (simp add: parseValue.simps(2) Let_def skip_not_ws json_ws_def peek_def get_char_def)

lemma parseValue_array:
  assumes "opens_value t" "arrayLoop stod k [] t = Some (arr, r)"
  shows "parseValue stod (Suc k) (CHR ''['' # t) = Some (JArray arr, r)"
  using assms opens_skip [OF assms(1)] opens_peek [OF assms(1)]
  by (simp add: parseValue.simps(2) Let_def skip_not_ws json_ws_def peek_def get_char_def)

lemma opens_join: "opens_value x \<Longrightarrow> opens_value (join_comma (x # xs) @ t)"
  by (cases xs) (auto intro: opens_append)

lemma prints_flat:
  assumes "notation_ok shown stod"
  shows "prints shown stod JNull" "prints shown stod (JBool b)" "prints shown stod (JString s)"
    "prints shown stod (JNumber n)"
proof -
  show "prints shown stod JNull"
    unfolding prints_def by (auto intro!: exI [of _ 1] simp: parseValue.simps(2) [of stod 0, simplified]
      Let_def skip_not_ws json_ws_def peek_def digit_char_def less_eq_char_def)
  show "prints shown stod (JBool b)"
    unfolding prints_def by (auto intro!: exI [of _ 1] simp: parseValue.simps(2) [of stod 0, simplified]
      Let_def skip_not_ws json_ws_def peek_def digit_char_def less_eq_char_def)
  show "prints shown stod (JString s)"
    unfolding prints_def
    using parseString_show [of s]
    by (auto intro!: exI [of _ 1] simp: parseValue.simps(2) [of stod 0, simplified]
      Let_def skip_not_ws json_ws_def peek_def show_string_def)
  obtain c t where t: "shown n = c # t" "c = CHR ''-'' \<or> digit_char c" by (rule shownE [OF assms])
  note c = numeral_start [OF t(2)]
  have "parseValue stod 1 (shown n @ r) = Some (parseNumber stod (shown n @ r))" for r
    using t c by (simp add: parseValue.simps(2) [of stod 0, simplified] Let_def skip_not_ws peek_def)
  with parseNumber_show [OF assms, of _ n] show "prints shown stod (JNumber n)"
    unfolding prints_def by (intro allI impI exI [of _ 1]) simp
qed

lemma json_ok_prints:
  assumes nt: "notation_ok shown stod"
  shows "json_ok v \<Longrightarrow> prints shown stod v"
proof (induction v)
  case (JObject ms)
  show ?case
  proof (cases ms)
    case Nil
    show ?thesis unfolding prints_def Nil
      by (auto intro!: exI [of _ 1] simp: parseValue.simps(2) [of stod 0, simplified]
        Let_def skip_not_ws json_ws_def peek_def get_char_def)
  next
    case (Cons p ms')
    have all: "\<forall>v\<in>snd ` set (p # ms'). prints shown stod v"
      using JObject Cons by (fastforce simp: list_all_iff)
    have fold: "foldl (\<lambda>ob (k, v). map_put k v ob) [] (p # ms') = ms"
      using foldl_put_sorted [of "[]" ms] JObject.prems Cons by simp
    have op: "opens_value (join_comma (map (show_member shown) (p # ms')) @ t)" for t
      using opens_join [of "show_member shown p"]
      by (auto simp: show_member_def show_string_def opens_value_def json_ws_def split: prod.splits)
    show ?thesis unfolding prints_def
    proof (intro allI impI)
      fix r
      obtain k where "objectLoop stod k [] (join_comma (map (show_member shown) (p # ms')) @ CHR ''}'' # r)
          = Some (ms, r)"
        using objectLoop_show [OF nt all, of "[]" r] by (auto simp only: fold)
      from parseValue_object [OF op this]
      show "\<exists>k. parseValue stod k (show_json shown (JObject ms) @ r) = Some (JObject ms, r)"
        using Cons by (intro exI [of _ "Suc k"]) (simp add: show_member_def)
    qed
  qed
next
  case (JArray vs)
  show ?case
  proof (cases vs)
    case Nil
    show ?thesis unfolding prints_def Nil
      by (auto intro!: exI [of _ 1] simp: parseValue.simps(2) [of stod 0, simplified]
        Let_def skip_not_ws json_ws_def peek_def get_char_def)
  next
    case (Cons v0 vs')
    have all: "\<forall>v\<in>set (v0 # vs'). prints shown stod v"
      using JArray Cons by (auto simp: list_all_iff)
    have op: "opens_value (join_comma (map (show_json shown) (v0 # vs')) @ t)" for t
      using opens_join [OF show_json_opens [OF nt]] by simp
    show ?thesis unfolding prints_def
    proof (intro allI impI)
      fix r
      obtain k where "arrayLoop stod k [] (join_comma (map (show_json shown) (v0 # vs')) @ CHR '']'' # r)
          = Some (vs, r)"
        using arrayLoop_show [OF all, of "[]" r] Cons by auto
      from parseValue_array [OF op this]
      show "\<exists>k. parseValue stod k (show_json shown (JArray vs) @ r) = Some (JArray vs, r)"
        using Cons by (intro exI [of _ "Suc k"]) simp
    qed
  qed
qed (simp_all add: prints_flat [OF nt])

lemma JsonParse_show:
  assumes "notation_ok shown stod" "json_ok v"
  shows "JsonParse stod (show_json shown v) = v"
proof -
  let ?s = "show_json shown v"
  have s: "skipWhitespace ?s = ?s" "?s \<noteq> []"
    using show_json_opens [OF assms(1), of v] opens_skip by (auto simp: opens_value_def)
  from json_ok_prints [OF assms] obtain k where k: "parseValue stod k ?s = Some (v, [])"
    unfolding prints_def by (metis append.right_neutral delimited_def list.simps(4))
  have "json_run stod (max k (json_fuel ?s)) ?s = Some v"
    using parseValue_mono [OF _ k, of "max k (json_fuel ?s)"] s by (simp add: json_run_def)
  then show ?thesis using json_run_enough [of ?s "max k (json_fuel ?s)" stod] by simp
qed

section \<open>Properties\<close>

text \<open>C4: the recursive-descent parser terminates on every input: fuel twice the length of
  the input plus one always returns a value, and any larger fuel returns the same one.\<close>

theorem JsonParse_terminates:
  "\<exists>v. \<forall>fuel. 2 * length json + 1 \<le> fuel \<longrightarrow> json_run stod fuel json = Some v"
  using json_run_enough [of json _ stod] by (auto simp: json_fuel_def)

lemma JsonParse_terminates_witness:
  "\<exists>v. json_run (\<lambda>s. Some (length s)) 9 ''[1,{'' = Some v"
  using JsonParse_terminates [of "''[1,{''" "\<lambda>s. Some (length s)"] by auto

text \<open>C5: parsing the compact JSON text of a value gives the value back, for nested objects
  and arrays, escaped strings, booleans, null, and numbers in any notation \<open>stod\<close> reads back.\<close>

theorem JsonParse_print:
  assumes "notation_ok shown stod" "json_ok v"
  shows "JsonParse stod (show_json shown v) = v"
  using assms by (rule JsonParse_show)

definition unary :: "nat \<Rightarrow> string" where
  "unary n = CHR ''0'' # replicate n CHR ''0''"

definition of_unary :: "string \<Rightarrow> nat option" where
  "of_unary s = Some (length s - 1)"

lemma JsonParse_print_witness:
  "JsonParse of_unary ''{\"a\":[000,true],\"b\":null}'' =
     JObject [(''a'', JArray [JNumber 2, JBool True]), (''b'', JNull)]"
proof -
  let ?v = "JObject [(''a'', JArray [JNumber 2, JBool True]), (''b'', JNull)] :: nat json"
  have n: "notation_ok unary of_unary"
    by (auto simp: notation_ok_def unary_def of_unary_def number_text_def number_char_def
        digit_char_def list_all_iff)
  have "json_ok ?v" by code_simp
  from JsonParse_print [OF n this] have "JsonParse of_unary (show_json unary ?v) = ?v" .
  moreover have "show_json unary ?v = ''{\"a\":[000,true],\"b\":null}''" by code_simp
  ultimately show ?thesis by (simp only:)
qed

end
