(* ===== verification/Fifo.thy ===== *)
theory Fifo
  imports Prelude "HOL-Library.Sublist"
begin

text \<open>
  The contract shared by the components that queue work for later: the event loop, the thread
  pool and the streams. A service accepts items, takes them out one after the other,
  and keeps the ones not yet taken waiting. Its law is an invariant that accounts for everything:
  what was accepted is what was taken followed by what waits, in order. The lemmas that follow
  from the law (first in first out, nothing lost, nothing taken twice) are proved once, in the
  locale; each component interprets it on its own step relation.
\<close>

locale fifo_service = transition_invariant start step inv
  for start :: "'s \<Rightarrow> bool" and step :: "'s \<Rightarrow> 's \<Rightarrow> bool" and inv :: "'s \<Rightarrow> bool" +
  fixes accepted :: "'s \<Rightarrow> 'a list"
    and taken :: "'s \<Rightarrow> 'a list"
    and waiting :: "'s \<Rightarrow> 'a list"
  assumes inv_accounts: "inv s \<Longrightarrow> accepted s = taken s @ waiting s"
begin

lemma accounts: "step\<^sup>*\<^sup>* s t \<Longrightarrow> start s \<Longrightarrow> accepted t = taken t @ waiting t"
  using reachable_inv inv_accounts by blast

lemma in_order: "step\<^sup>*\<^sup>* s t \<Longrightarrow> start s \<Longrightarrow> prefix (taken t) (accepted t)"
  using accounts by (metis prefixI)

lemma idle: "step\<^sup>*\<^sup>* s t \<Longrightarrow> start s \<Longrightarrow> waiting t = [] \<Longrightarrow> taken t = accepted t"
  using accounts by fastforce

lemma taken_once: "step\<^sup>*\<^sup>* s t \<Longrightarrow> start s \<Longrightarrow> distinct (accepted t) \<Longrightarrow> distinct (taken t)"
  using accounts by (metis distinct_append)

end

section \<open>An abstract queue\<close>

text \<open>The items taken so far, and the items waiting.\<close>

inductive queue_step :: "'a list \<times> 'a list \<Rightarrow> 'a list \<times> 'a list \<Rightarrow> bool" where
  enqueue: "queue_step (ts, ws) (ts, ws @ [x])"
| dequeue: "queue_step (ts, x # ws) (ts @ [x], ws)"

lemma enqueue_all: "queue_step\<^sup>*\<^sup>* (ts, ws) (ts, ws @ xs)"
proof (induction xs rule: rev_induct)
  case (snoc x xs)
  then show ?case using queue_step.enqueue [of ts "ws @ xs" x] by auto
qed simp

lemma dequeue_enqueue: "queue_step\<^sup>*\<^sup>* (ts, x # ws) (ts @ [x], ws @ xs)"
  by (rule converse_rtranclp_into_rtranclp [OF queue_step.dequeue enqueue_all])

end
