(* ===== verification/EventLoop.thy ===== *)
theory EventLoop
  imports Fifo
begin

text \<open>
  Models \<open>src/EventLoop.h\<close> and \<open>src/EventLoop.cpp\<close>: the queue through which worker threads hand
  callbacks to the main thread. A callback is a name \<open>'cb\<close>; what running it does is given by a
  parameter \<open>eff\<close> (the callbacks come from the rest of the program): the callbacks it enqueues,
  whether it calls \<open>stop\<close>, whether it throws. \<open>executed\<close> and \<open>accepted\<close> are histories the code
  does not keep.

  Two views: \<open>processCallbacks\<close> as a function of the state, and the loop of \<open>run\<close> as a step
  relation in which other threads may enqueue or stop between any two of its steps.
\<close>

record 'cb effect =
  enqueues :: "'cb list"
  stops :: bool
  throws :: bool

datatype 'cb loop_pc =
    Idle                        \<comment> \<open>\<open>run\<close> not entered\<close>
  | While_test                  \<comment> \<open>at \<open>while (running)\<close>\<close>
  | Waiting                     \<comment> \<open>at \<open>condition.wait\<close>\<close>
  | Swapping                    \<comment> \<open>lock released, \<open>processCallbacks\<close> called\<close>
  | Running_callbacks "'cb list" \<comment> \<open>the local queue \<open>callbacksToProcess\<close>\<close>
  | Exited

record 'cb event_loop =
  callbackQueue :: "'cb list"
  running :: bool
  loop_pc :: "'cb loop_pc"
  executed :: "'cb list"
  accepted :: "'cb list"

definition loop_init :: "'cb event_loop" where
  "loop_init = \<lparr>callbackQueue = [], running = False, loop_pc = Idle, executed = [], accepted = []\<rparr>"

section \<open>Operations\<close>

definition enqueueCallback :: "'cb \<Rightarrow> 'cb event_loop \<Rightarrow> 'cb event_loop" where
  "enqueueCallback cb s = s\<lparr>callbackQueue := callbackQueue s @ [cb], accepted := accepted s @ [cb]\<rparr>"

definition stop :: "'cb event_loop \<Rightarrow> 'cb event_loop" where
  "stop s = s\<lparr>running := False\<rparr>"

definition hasPendingCallbacks :: "'cb event_loop \<Rightarrow> bool" where
  "hasPendingCallbacks s \<longleftrightarrow> callbackQueue s \<noteq> []"

text \<open>One callback: its own calls into the loop happen, then it returns or throws; either way
  the handler around it returns to the loop.\<close>

definition call :: "('cb \<Rightarrow> 'cb effect) \<Rightarrow> 'cb \<Rightarrow> 'cb event_loop \<Rightarrow> bool \<times> 'cb event_loop" where
  "call eff cb s =
     (let s1 = fold enqueueCallback (enqueues (eff cb)) (s\<lparr>executed := executed s @ [cb]\<rparr>);
          s2 = (if stops (eff cb) then stop s1 else s1)
      in (throws (eff cb), s2))"

definition guarded_call :: "('cb \<Rightarrow> 'cb effect) \<Rightarrow> 'cb \<Rightarrow> 'cb event_loop \<Rightarrow> 'cb event_loop" where
  "guarded_call eff cb s = (case call eff cb s of (True, t) \<Rightarrow> t | (False, t) \<Rightarrow> t)"

fun drain :: "('cb \<Rightarrow> 'cb effect) \<Rightarrow> 'cb list \<Rightarrow> 'cb event_loop \<Rightarrow> 'cb event_loop" where
  "drain eff [] s = s"
| "drain eff (cb # cbs) s = drain eff cbs (guarded_call eff cb s)"

definition processCallbacks :: "('cb \<Rightarrow> 'cb effect) \<Rightarrow> 'cb event_loop \<Rightarrow> 'cb event_loop" where
  "processCallbacks eff s = drain eff (callbackQueue s) (s\<lparr>callbackQueue := []\<rparr>)"

section \<open>The loop of run, interleaved with other threads\<close>

inductive loop_step :: "('cb \<Rightarrow> 'cb effect) \<Rightarrow> 'cb event_loop \<Rightarrow> 'cb event_loop \<Rightarrow> bool"
  for eff :: "'cb \<Rightarrow> 'cb effect" where
  other_enqueue: "loop_step eff s (enqueueCallback cb s)"
| other_stop: "loop_step eff s (stop s)"
| enter: "loop_pc s = Idle \<Longrightarrow> loop_step eff s (s\<lparr>running := True, loop_pc := While_test\<rparr>)"
| test_true: "loop_pc s = While_test \<Longrightarrow> running s \<Longrightarrow> loop_step eff s (s\<lparr>loop_pc := Waiting\<rparr>)"
| test_false: "loop_pc s = While_test \<Longrightarrow> \<not> running s \<Longrightarrow> loop_step eff s (s\<lparr>loop_pc := Exited\<rparr>)"
| wait_break: "loop_pc s = Waiting \<Longrightarrow> \<not> running s \<Longrightarrow> callbackQueue s = [] \<Longrightarrow>
    loop_step eff s (s\<lparr>loop_pc := Exited\<rparr>)"
| wait_work: "loop_pc s = Waiting \<Longrightarrow> callbackQueue s \<noteq> [] \<Longrightarrow>
    loop_step eff s (s\<lparr>loop_pc := Swapping\<rparr>)"
| swap: "loop_pc s = Swapping \<Longrightarrow>
    loop_step eff s (s\<lparr>loop_pc := Running_callbacks (callbackQueue s), callbackQueue := []\<rparr>)"
| callback: "loop_pc s = Running_callbacks (cb # cbs) \<Longrightarrow>
    loop_step eff s ((guarded_call eff cb s)\<lparr>loop_pc := Running_callbacks cbs\<rparr>)"
| drained: "loop_pc s = Running_callbacks [] \<Longrightarrow> loop_step eff s (s\<lparr>loop_pc := While_test\<rparr>)"

definition local_queue :: "'cb event_loop \<Rightarrow> 'cb list" where
  "local_queue s = (case loop_pc s of Running_callbacks cbs \<Rightarrow> cbs | _ \<Rightarrow> [])"

section \<open>Lemmas\<close>

lemma fold_enqueue:
  "fold enqueueCallback cbs s =
     s\<lparr>callbackQueue := callbackQueue s @ cbs, accepted := accepted s @ cbs\<rparr>"
  by (induction cbs arbitrary: s) (simp_all add: enqueueCallback_def)

lemma guarded_call_eq:
  "guarded_call eff cb s = s\<lparr>callbackQueue := callbackQueue s @ enqueues (eff cb),
     running := running s \<and> \<not> stops (eff cb),
     executed := executed s @ [cb], accepted := accepted s @ enqueues (eff cb)\<rparr>"
  by (simp add: guarded_call_def call_def fold_enqueue stop_def Let_def split: bool.splits)

lemma drain_eq:
  "drain eff cbs s = s\<lparr>callbackQueue := callbackQueue s @ concat (map (enqueues \<circ> eff) cbs),
     running := running s \<and> (\<forall>cb\<in>set cbs. \<not> stops (eff cb)),
     executed := executed s @ cbs,
     accepted := accepted s @ concat (map (enqueues \<circ> eff) cbs)\<rparr>"
  by (induction cbs arbitrary: s) (simp_all add: guarded_call_eq)

definition loop_inv :: "'cb event_loop \<Rightarrow> bool" where
  "loop_inv s \<longleftrightarrow> accepted s = executed s @ local_queue s @ callbackQueue s"

lemma loop_step_inv: "loop_step eff s t \<Longrightarrow> loop_inv s \<Longrightarrow> loop_inv t"
  by (induction rule: loop_step.induct)
    (auto simp: loop_inv_def local_queue_def enqueueCallback_def stop_def guarded_call_eq
      split: loop_pc.splits)

lemma loop_inv_init: "loop_inv loop_init"
  by (simp add: loop_inv_def loop_init_def local_queue_def)

interpretation loop_fifo: fifo_service "\<lambda>s. s = loop_init" "loop_step eff" loop_inv accepted executed
  "\<lambda>s. local_queue s @ callbackQueue s"
  for eff :: "'cb \<Rightarrow> 'cb effect"
  by unfold_locales (auto simp: loop_inv_init loop_step_inv, simp add: loop_inv_def)

section \<open>The abstract queue\<close>

definition loop_abs :: "'cb event_loop \<Rightarrow> 'cb list \<times> 'cb list" where
  "loop_abs s = (executed s, local_queue s @ callbackQueue s)"

text \<open>Each step of the loop, its swap of the queue included, is no step, a dequeue or some enqueues.\<close>

lemma loop_step_simulates:
  assumes "loop_step eff s t"
  shows "queue_step\<^sup>*\<^sup>* (loop_abs s) (loop_abs t)"
  using assms
proof cases
  case (other_enqueue cb)
  then show ?thesis
    using enqueue_all [of "executed s" "local_queue s @ callbackQueue s" "[cb]"]
    by (simp add: loop_abs_def local_queue_def enqueueCallback_def)
next
  case (callback cb cbs)
  then show ?thesis
    using dequeue_enqueue [of "executed s" cb "cbs @ callbackQueue s" "enqueues (eff cb)"]
    by (simp add: loop_abs_def local_queue_def guarded_call_eq)
qed (simp_all add: loop_abs_def local_queue_def stop_def)

section \<open>Properties\<close>

text \<open>One call of \<open>processCallbacks\<close> runs exactly the callbacks that were queued, in order,
  whether or not they throw or stop the loop, and leaves in the queue exactly the callbacks
  they enqueued, in order, for the next call.\<close>

theorem processCallbacks_snapshot:
  "processCallbacks eff s = s\<lparr>callbackQueue := concat (map (enqueues \<circ> eff) (callbackQueue s)),
     running := running s \<and> list_all (\<lambda>cb. \<not> stops (eff cb)) (callbackQueue s),
     executed := executed s @ callbackQueue s,
     accepted := accepted s @ concat (map (enqueues \<circ> eff) (callbackQueue s))\<rparr>"
  by (simp add: processCallbacks_def drain_eq list_all_iff)

text \<open>whatever other threads do, the callbacks run so far are always a prefix of the
  callbacks enqueued, in the order of enqueueing, and if the callbacks enqueued are distinct
  none has run twice.\<close>

theorem event_loop_fifo:
  assumes "(loop_step eff)\<^sup>*\<^sup>* loop_init s"
  shows "prefix (executed s) (accepted s) \<and> (distinct (accepted s) \<longrightarrow> distinct (executed s))"
  using loop_fifo.in_order [OF assms] loop_fifo.taken_once [OF assms] by blast

definition no_effect :: "nat \<Rightarrow> nat effect" where
  "no_effect cb = \<lparr>enqueues = [], stops = False, throws = True\<rparr>"

lemma event_loop_fifo_witness:
  "prefix (executed (enqueueCallback 2 (enqueueCallback 1 loop_init))) [1, 2 :: nat]"
proof -
  have "(loop_step no_effect)\<^sup>*\<^sup>* loop_init (enqueueCallback 2 (enqueueCallback 1 loop_init))"
    by (meson loop_step.other_enqueue r_into_rtranclp rtranclp.rtrancl_into_rtrancl)
  from event_loop_fifo [OF this] show ?thesis
    by (simp add: enqueueCallback_def loop_init_def)
qed

text \<open>The states in which the loop left through its \<open>break\<close> rather than the \<open>while\<close> test.\<close>

definition stop_self :: "nat \<Rightarrow> nat effect" where
  "stop_self cb = (if cb = 0 then \<lparr>enqueues = [1], stops = True, throws = False\<rparr>
                   else \<lparr>enqueues = [], stops = False, throws = False\<rparr>)"

text \<open>Stopping the loop abandons work: there is a run in which the loop has exited, because
  a callback that enqueued another one called \<open>stop\<close>, and the second callback is still queued
  and was never run.\<close>

theorem stop_abandons_callbacks:
  "\<exists>s. (loop_step stop_self)\<^sup>*\<^sup>* loop_init s \<and> loop_pc s = Exited \<and> hasPendingCallbacks s"
proof -
  let ?s0 = "enqueueCallback 0 loop_init :: nat event_loop"
  let ?s1 = "?s0\<lparr>running := True, loop_pc := While_test\<rparr>"
  let ?s2 = "?s1\<lparr>loop_pc := Waiting\<rparr>"
  let ?s3 = "?s2\<lparr>loop_pc := Swapping\<rparr>"
  let ?s4 = "?s3\<lparr>loop_pc := Running_callbacks (callbackQueue ?s3), callbackQueue := []\<rparr>"
  let ?s5 = "(guarded_call stop_self 0 ?s4)\<lparr>loop_pc := Running_callbacks []\<rparr>"
  let ?s6 = "?s5\<lparr>loop_pc := While_test\<rparr>"
  let ?s7 = "?s6\<lparr>loop_pc := Exited\<rparr>"
  note d = enqueueCallback_def loop_init_def guarded_call_eq stop_self_def
  have "loop_step stop_self loop_init ?s0" by (rule other_enqueue)
  moreover have "loop_step stop_self ?s0 ?s1" by (rule enter) (simp add: d)
  moreover have "loop_step stop_self ?s1 ?s2" by (rule test_true) (simp_all add: d)
  moreover have "loop_step stop_self ?s2 ?s3" by (rule wait_work) (simp_all add: d)
  moreover have "loop_step stop_self ?s3 ?s4" by (rule swap) (simp add: d)
  moreover have "loop_step stop_self ?s4 ?s5" by (rule callback) (simp add: d)
  moreover have "loop_step stop_self ?s5 ?s6" by (rule drained) (simp add: d)
  moreover have "loop_step stop_self ?s6 ?s7" by (rule test_false) (simp_all add: d)
  ultimately have "(loop_step stop_self)\<^sup>*\<^sup>* loop_init ?s7"
    by (meson converse_rtranclp_into_rtranclp rtranclp.rtrancl_refl)
  moreover have "loop_pc ?s7 = Exited" "hasPendingCallbacks ?s7"
    by (simp_all add: d hasPendingCallbacks_def)
  ultimately show ?thesis by blast
qed



end
