(* ===== verification/ThreadPool.thy ===== *)
theory ThreadPool
  imports Fifo Complex_Main "HOL-Library.Multiset"
begin

text \<open>
  Models \<open>src/ThreadPoolExecutor.h\<close>, \<open>src/ThreadPoolExecutor.cpp\<close> and the two singletons
  \<open>src/CPUThreadPool.cpp\<close> and \<open>src/IOThreadPool.cpp\<close>.

  The pool is a state machine: every worker has a program counter, and so have the thread that
  calls \<open>shutdown\<close> and the one that calls \<open>shutdownNow\<close>. A critical section under
  \<open>queueMutex\<close> is one step, with one exception: the thread in \<open>shutdown\<close> holds the mutex
  between testing the predicate of \<open>condition.wait\<close> and blocking, and a worker needs no mutex
  to decrement \<open>activeCount\<close> and to notify, so those may come in between. While it holds the
  mutex no other critical section runs. There are no spurious wakeups in the relation.

  \<open>submitted\<close>, \<open>started\<close>, \<open>finished\<close> and \<open>dropped\<close> are histories the code does not keep.
\<close>

datatype 'a worker_pc =
    W_top             \<comment> \<open>about to lock at the top of the loop (or woken)\<close>
  | W_blocked         \<comment> \<open>in \<open>condition.wait\<close>\<close>
  | W_task 'a         \<comment> \<open>running the task it popped\<close>
  | W_done            \<comment> \<open>task returned or threw; \<open>activeCount--\<close> is next\<close>
  | W_notify          \<comment> \<open>\<open>condition.notify_all()\<close> is next\<close>
  | W_exit

datatype shutdown_pc =
    S_none | S_notify | S_test
  | S_holding         \<comment> \<open>the predicate was false, the mutex is held, about to block\<close>
  | S_blocked | S_join | S_done

datatype now_pc = N_none | N_notify | N_join | N_done

record 'a pool =
  taskQueue :: "'a list"
  shutdownFlag :: bool
  shutdownNowFlag :: bool
  activeCount :: nat
  workers :: "'a worker_pc list"
  notifies :: nat             \<comment> \<open>\<open>submit\<close> calls that still have to \<open>notify_one\<close>\<close>
  shut :: shutdown_pc
  now :: now_pc
  submitted :: "'a list"
  started :: "'a list"
  finished :: "'a list"
  dropped :: "'a list"

section \<open>Operations\<close>

text \<open>The constructor throws \<open>std::invalid_argument\<close> for an empty pool.\<close>

definition ThreadPoolExecutor :: "nat \<Rightarrow> 'a pool cpp" where
  "ThreadPoolExecutor numThreads =
     (if numThreads = 0 then Inl Invalid_argument
      else Inr \<lparr>taskQueue = [], shutdownFlag = False, shutdownNowFlag = False, activeCount = 0,
        workers = replicate numThreads W_top, notifies = 0, shut = S_none, now = N_none,
        submitted = [], started = [], finished = [], dropped = []\<rparr>)"

definition mutex_free :: "'a pool \<Rightarrow> bool" where
  "mutex_free s \<longleftrightarrow> shut s \<noteq> S_holding"

text \<open>\<open>submit\<close> up to the end of its critical section; \<open>notify_one\<close> is a later step.\<close>

definition submit :: "'a \<Rightarrow> 'a pool \<Rightarrow> 'a pool cpp" where
  "submit task s =
     (if shutdownFlag s then Inl Runtime_error
      else Inr (s\<lparr>taskQueue := taskQueue s @ [task], notifies := notifies s + 1,
                  submitted := submitted s @ [task]\<rparr>))"

definition wake_worker :: "'a worker_pc \<Rightarrow> 'a worker_pc" where
  "wake_worker w = (case w of W_blocked \<Rightarrow> W_top | _ \<Rightarrow> w)"

definition wake_shutdown :: "shutdown_pc \<Rightarrow> shutdown_pc" where
  "wake_shutdown c = (case c of S_blocked \<Rightarrow> S_test | _ \<Rightarrow> c)"

definition notify_all :: "'a pool \<Rightarrow> 'a pool" where
  "notify_all s = s\<lparr>workers := map wake_worker (workers s), shut := wake_shutdown (shut s)\<rparr>"

text \<open>The critical section of \<open>workerThread\<close>: wait for work or shutdown, then leave the loop or
  pop a task.\<close>

definition worker_section :: "nat \<Rightarrow> 'a pool \<Rightarrow> 'a pool" where
  "worker_section i s =
     (if taskQueue s = [] \<and> \<not> shutdownFlag s then s\<lparr>workers := (workers s)[i := W_blocked]\<rparr>
      else if shutdownFlag s \<and> (taskQueue s = [] \<or> shutdownNowFlag s)
           then s\<lparr>workers := (workers s)[i := W_exit]\<rparr>
      else (case taskQueue s of
              [] \<Rightarrow> s\<lparr>workers := (workers s)[i := W_notify]\<rparr>
            | task # q \<Rightarrow> s\<lparr>taskQueue := q, activeCount := activeCount s + 1,
                 workers := (workers s)[i := W_task task], started := started s @ [task]\<rparr>))"

text \<open>The test of \<open>shutdown\<close>'s wait, and the body of \<open>shutdownNow\<close>'s critical section.\<close>

definition shutdown_test :: "'a pool \<Rightarrow> 'a pool" where
  "shutdown_test s =
     (if taskQueue s = [] \<and> activeCount s = 0 then s\<lparr>shut := S_join\<rparr> else s\<lparr>shut := S_holding\<rparr>)"

definition shutdownNow_section :: "'a pool \<Rightarrow> 'a pool" where
  "shutdownNow_section s = s\<lparr>shutdownNowFlag := True, shutdownFlag := True, taskQueue := [],
     dropped := dropped s @ taskQueue s, now := N_notify\<rparr>"

definition all_exited :: "'a pool \<Rightarrow> bool" where
  "all_exited s \<longleftrightarrow> list_all (\<lambda>w. w = W_exit) (workers s)"

inductive pool_step :: "'a pool \<Rightarrow> 'a pool \<Rightarrow> bool" where
  submit_ok: "mutex_free s \<Longrightarrow> submit task s = Inr t \<Longrightarrow> pool_step s t"
| notify_worker: "notifies s > 0 \<Longrightarrow> i < length (workers s) \<Longrightarrow> workers s ! i = W_blocked \<Longrightarrow>
    pool_step s (s\<lparr>notifies := notifies s - 1, workers := (workers s)[i := W_top]\<rparr>)"
| notify_shutdown: "notifies s > 0 \<Longrightarrow> shut s = S_blocked \<Longrightarrow>
    pool_step s (s\<lparr>notifies := notifies s - 1, shut := S_test\<rparr>)"
| notify_nobody: "notifies s > 0 \<Longrightarrow> W_blocked \<notin> set (workers s) \<Longrightarrow> shut s \<noteq> S_blocked \<Longrightarrow>
    pool_step s (s\<lparr>notifies := notifies s - 1\<rparr>)"
| worker: "i < length (workers s) \<Longrightarrow> workers s ! i = W_top \<Longrightarrow> mutex_free s \<Longrightarrow>
    pool_step s (worker_section i s)"
| task_returns: "i < length (workers s) \<Longrightarrow> workers s ! i = W_task task \<Longrightarrow>
    pool_step s (s\<lparr>workers := (workers s)[i := W_done], finished := finished s @ [task]\<rparr>)"
| decrement: "i < length (workers s) \<Longrightarrow> workers s ! i = W_done \<Longrightarrow>
    pool_step s (s\<lparr>activeCount := activeCount s - 1, workers := (workers s)[i := W_notify]\<rparr>)"
| notify: "i < length (workers s) \<Longrightarrow> workers s ! i = W_notify \<Longrightarrow>
    pool_step s (notify_all (s\<lparr>workers := (workers s)[i := W_top]\<rparr>))"
| shutdown_begin: "shut s = S_none \<Longrightarrow> pool_step s (s\<lparr>shutdownFlag := True, shut := S_notify\<rparr>)"
| shutdown_notify: "shut s = S_notify \<Longrightarrow> pool_step s (notify_all (s\<lparr>shut := S_test\<rparr>))"
| shutdown_tests: "shut s = S_test \<Longrightarrow> pool_step s (shutdown_test s)"
| shutdown_blocks: "shut s = S_holding \<Longrightarrow> pool_step s (s\<lparr>shut := S_blocked\<rparr>)"
| shutdown_joins: "shut s = S_join \<Longrightarrow> all_exited s \<Longrightarrow> pool_step s (s\<lparr>shut := S_done\<rparr>)"
| now_begin: "now s = N_none \<Longrightarrow> mutex_free s \<Longrightarrow> pool_step s (shutdownNow_section s)"
| now_notify: "now s = N_notify \<Longrightarrow> pool_step s (notify_all (s\<lparr>now := N_join\<rparr>))"
| now_joins: "now s = N_join \<Longrightarrow> all_exited s \<Longrightarrow> pool_step s (s\<lparr>now := N_done\<rparr>)"

definition pool_start :: "'a pool \<Rightarrow> bool" where
  "pool_start s \<longleftrightarrow> (case ThreadPoolExecutor (length (workers s)) of Inl e \<Rightarrow> False | Inr t \<Rightarrow> s = t)"

section \<open>Invariant\<close>

definition tasks_of :: "'a worker_pc \<Rightarrow> 'a list" where
  "tasks_of w = (case w of W_task x \<Rightarrow> [x] | _ \<Rightarrow> [])"

definition busy :: "'a worker_pc \<Rightarrow> bool" where
  "busy w \<longleftrightarrow> (case w of W_task x \<Rightarrow> True | W_done \<Rightarrow> True | _ \<Rightarrow> False)"

definition running_tasks :: "'a pool \<Rightarrow> 'a list" where
  "running_tasks s = concat (map tasks_of (workers s))"

definition busy_count :: "'a worker_pc list \<Rightarrow> nat" where
  "busy_count ws = length (filter busy ws)"

definition pool_inv :: "'a pool \<Rightarrow> bool" where
  "pool_inv s \<longleftrightarrow>
     submitted s = started s @ taskQueue s @ dropped s \<and>
     activeCount s = busy_count (workers s) \<and>
     mset (started s) = mset (finished s) + mset (running_tasks s) \<and>
     (dropped s \<noteq> [] \<longrightarrow> shutdownNowFlag s) \<and>
     (shutdownNowFlag s \<longrightarrow> shutdownFlag s \<and> taskQueue s = []) \<and>
     (shut s \<noteq> S_none \<longrightarrow> shutdownFlag s) \<and>
     (W_exit \<in> set (workers s) \<longrightarrow> shutdownFlag s \<and> taskQueue s = []) \<and>
     (shut s \<in> {S_join, S_done} \<longrightarrow> taskQueue s = []) \<and>
     (shut s = S_done \<longrightarrow> all_exited s)"

lemma wake_worker_simps [simp]:
  "tasks_of (wake_worker w) = tasks_of w" "busy (wake_worker w) = busy w"
  "wake_worker w = W_exit \<longleftrightarrow> w = W_exit"
  by (auto simp: wake_worker_def tasks_of_def busy_def split: worker_pc.splits)

lemma busy_count_wake [simp]: "busy_count (map wake_worker ws) = busy_count ws"
  by (induction ws) (auto simp: busy_count_def)

lemma tasks_wake [simp]: "tasks_of \<circ> wake_worker = tasks_of"
  by (simp add: fun_eq_iff)

lemma wake_exit [simp]: "wake_worker W_exit = W_exit" "W_exit = wake_worker w \<longleftrightarrow> w = W_exit"
  by (auto simp: wake_worker_def split: worker_pc.splits)

lemma exit_wake [simp]: "W_exit \<in> wake_worker ` S \<longleftrightarrow> W_exit \<in> S"
  by (auto simp: image_iff)

lemma busy_count_update:
  "i < length ws \<Longrightarrow> busy_count (ws[i := w]) + (if busy (ws ! i) then 1 else 0) =
     busy_count ws + (if busy w then 1 else 0)"
proof (induction ws arbitrary: i)
  case (Cons a ws)
  then show ?case by (cases i) (auto simp: busy_count_def)
qed simp

lemma tasks_update:
  "i < length ws \<Longrightarrow> mset (concat (map tasks_of (ws[i := w]))) + mset (tasks_of (ws ! i)) =
     mset (concat (map tasks_of ws)) + mset (tasks_of w)"
proof (induction ws arbitrary: i)
  case (Cons a ws)
  then show ?case by (cases i) (auto simp: ac_simps)
qed simp

lemma exit_update: "i < length ws \<Longrightarrow> w \<noteq> W_exit \<Longrightarrow> W_exit \<in> set (ws[i := w]) \<Longrightarrow> W_exit \<in> set ws"
  by (metis in_set_conv_nth length_list_update nth_list_update_eq nth_list_update_neq)

text \<open>One lemma per kind of step.\<close>

lemma inv_notify_all: "pool_inv s \<Longrightarrow> pool_inv (notify_all s)"
proof -
  have "wake_shutdown (shut s) \<in> {S_join, S_done} \<longleftrightarrow> shut s \<in> {S_join, S_done}"
    "wake_shutdown (shut s) = S_done \<longleftrightarrow> shut s = S_done"
    "wake_shutdown (shut s) = S_none \<longleftrightarrow> shut s = S_none"
    by (auto simp: wake_shutdown_def split: shutdown_pc.splits)
  then show "pool_inv s \<Longrightarrow> pool_inv (notify_all s)"
    by (simp add: pool_inv_def notify_all_def running_tasks_def all_exited_def list_all_iff)
qed

lemma inv_submit: "pool_inv s \<Longrightarrow> submit task s = Inr t \<Longrightarrow> pool_inv t"
  by (auto simp: pool_inv_def submit_def running_tasks_def all_exited_def split: if_splits)

text \<open>A worker moves between two idle places.\<close>

lemma inv_idle_move:
  assumes "pool_inv s" "i < length (workers s)" "\<not> busy (workers s ! i)" "\<not> busy w" "w \<noteq> W_exit"
    "workers s ! i \<noteq> W_exit"
  shows "pool_inv (s\<lparr>workers := (workers s)[i := w]\<rparr>)"
proof -
  have "tasks_of (workers s ! i) = []" "tasks_of w = []"
    using assms(3,4) by (auto simp: tasks_of_def busy_def split: worker_pc.splits)
  then have "mset (concat (map tasks_of ((workers s)[i := w]))) = mset (concat (map tasks_of (workers s)))"
    using tasks_update [OF assms(2), of w] by simp
  moreover have "busy_count ((workers s)[i := w]) = busy_count (workers s)"
    using busy_count_update [OF assms(2), of w] assms(3,4) by simp
  moreover have "\<not> all_exited s"
    using assms(2,6) by (auto simp: all_exited_def list_all_length)
  ultimately show ?thesis
    using assms(1) exit_update [OF assms(2,5)]
    by (auto simp: pool_inv_def running_tasks_def)
qed

lemma inv_worker:
  assumes "pool_inv s" "i < length (workers s)" "workers s ! i = W_top"
  shows "pool_inv (worker_section i s)"
proof -
  have idle: "\<not> busy (workers s ! i)" "tasks_of (workers s ! i) = []"
    using assms(3) by (simp_all add: busy_def tasks_of_def)
  have ne: "\<not> all_exited s" using assms(2,3) by (auto simp: all_exited_def list_all_length)
  consider (block) "taskQueue s = []" "\<not> shutdownFlag s"
    | (exit) "shutdownFlag s" "taskQueue s = []"
    | (take) x q where "taskQueue s = x # q"
    using assms(1) by (cases "taskQueue s") (auto simp: pool_inv_def)
  then show ?thesis
  proof cases
    case block
    with assms idle show ?thesis
      by (simp add: worker_section_def inv_idle_move busy_def)
  next
    case exit
    have "busy_count ((workers s)[i := W_exit]) = busy_count (workers s)"
      using busy_count_update [OF assms(2), of W_exit] idle by (simp add: busy_def)
    moreover have "mset (concat (map tasks_of ((workers s)[i := W_exit]))) =
        mset (concat (map tasks_of (workers s)))"
      using tasks_update [OF assms(2), of W_exit] idle by (simp add: tasks_of_def)
    ultimately show ?thesis
      using assms(1) exit ne by (auto simp: worker_section_def pool_inv_def running_tasks_def)
  next
    case (take x q)
    have now: "\<not> shutdownNowFlag s" using assms(1) take by (auto simp: pool_inv_def)
    have "busy_count ((workers s)[i := W_task x]) = busy_count (workers s) + 1"
      using busy_count_update [OF assms(2), of "W_task x"] idle by (simp add: busy_def)
    moreover have "mset (concat (map tasks_of ((workers s)[i := W_task x]))) =
        mset (concat (map tasks_of (workers s))) + {#x#}"
      using tasks_update [OF assms(2), of "W_task x"] idle by (simp add: tasks_of_def)
    moreover have "W_exit \<notin> set ((workers s)[i := W_task x])"
      using assms(1) take exit_update [OF assms(2), of "W_task x"] by (auto simp: pool_inv_def)
    ultimately show ?thesis
      using assms(1) take now by (auto simp: worker_section_def pool_inv_def running_tasks_def)
  qed
qed

lemma inv_task_returns:
  assumes "pool_inv s" "i < length (workers s)" "workers s ! i = W_task x"
  shows "pool_inv (s\<lparr>workers := (workers s)[i := W_done], finished := finished s @ [x]\<rparr>)"
proof -
  have "\<not> all_exited s" using assms(2,3) by (auto simp: all_exited_def list_all_length)
  moreover have "busy_count ((workers s)[i := W_done]) = busy_count (workers s)"
    using busy_count_update [OF assms(2), of W_done] assms(3) by (simp add: busy_def)
  moreover have "mset (concat (map tasks_of ((workers s)[i := W_done]))) + {#x#} =
      mset (concat (map tasks_of (workers s)))"
    using tasks_update [OF assms(2), of W_done] assms(3) by (simp add: tasks_of_def)
  ultimately show ?thesis
    using assms(1) exit_update [OF assms(2), of W_done]
    by (auto simp: pool_inv_def running_tasks_def)
qed

lemma inv_decrement:
  assumes "pool_inv s" "i < length (workers s)" "workers s ! i = W_done"
  shows "pool_inv (s\<lparr>activeCount := activeCount s - 1, workers := (workers s)[i := W_notify]\<rparr>)"
proof -
  have "\<not> all_exited s" using assms(2,3) by (auto simp: all_exited_def list_all_length)
  moreover have "busy_count ((workers s)[i := W_notify]) = busy_count (workers s) - 1"
    using busy_count_update [OF assms(2), of W_notify] assms(3) by (simp add: busy_def)
  moreover have "mset (concat (map tasks_of ((workers s)[i := W_notify]))) =
      mset (concat (map tasks_of (workers s)))"
    using tasks_update [OF assms(2), of W_notify] assms(3) by (simp add: tasks_of_def)
  ultimately show ?thesis
    using assms(1) exit_update [OF assms(2), of W_notify]
    by (auto simp: pool_inv_def running_tasks_def)
qed

lemma inv_notify:
  assumes "pool_inv s" "i < length (workers s)" "workers s ! i = W_notify"
  shows "pool_inv (notify_all (s\<lparr>workers := (workers s)[i := W_top]\<rparr>))"
  using assms by (intro inv_notify_all inv_idle_move) (auto simp: busy_def)

lemma inv_wake_one:
  assumes "pool_inv s" "i < length (workers s)" "workers s ! i = W_blocked"
  shows "pool_inv (s\<lparr>notifies := n, workers := (workers s)[i := W_top]\<rparr>)"
proof -
  have "pool_inv (s\<lparr>workers := (workers s)[i := W_top]\<rparr>)"
    using assms by (intro inv_idle_move) (auto simp: busy_def)
  then show ?thesis by (simp add: pool_inv_def running_tasks_def all_exited_def)
qed

lemma inv_shut:
  assumes "pool_inv s" "c \<in> {S_notify, S_test, S_holding, S_blocked}" "shut s = S_none \<longrightarrow> f"
    "shutdownFlag s \<longrightarrow> f"
  shows "pool_inv (s\<lparr>shutdownFlag := f, shut := c\<rparr>)"
  using assms by (auto simp: pool_inv_def running_tasks_def all_exited_def)

lemma pool_step_inv: "pool_step s t \<Longrightarrow> pool_inv s \<Longrightarrow> pool_inv t"
proof (induction rule: pool_step.induct)
  case (submit_ok s task t)
  then show ?case by (blast intro: inv_submit)
next
  case (notify_worker s i)
  then show ?case by (blast intro: inv_wake_one)
next
  case (shutdown_begin s)
  then show ?case by (intro inv_shut) auto
next
  case (shutdown_notify s)
  then have "pool_inv (s\<lparr>shut := S_test\<rparr>)"
    using inv_shut [of s S_test "shutdownFlag s"] by simp
  then show ?case by (rule inv_notify_all)
next
  case (shutdown_tests s)
  then show ?case by (auto simp: shutdown_test_def pool_inv_def running_tasks_def all_exited_def)
next
  case (now_begin s)
  then show ?case
    by (auto simp: shutdownNow_section_def pool_inv_def running_tasks_def all_exited_def)
next
  case (now_notify s)
  then have "pool_inv (s\<lparr>now := N_join\<rparr>)"
    by (simp add: pool_inv_def running_tasks_def all_exited_def)
  then show ?case by (rule inv_notify_all)
next
  case (worker i s)
  then show ?case by (blast intro: inv_worker)
next
  case (task_returns i s task)
  then show ?case by (blast intro: inv_task_returns)
next
  case (decrement i s)
  then show ?case by (blast intro: inv_decrement)
next
  case (notify i s)
  then show ?case by (blast intro: inv_notify)
qed (auto simp: pool_inv_def running_tasks_def all_exited_def)

lemma ThreadPoolExecutor_inv: "ThreadPoolExecutor n = Inr s \<Longrightarrow> pool_inv s"
  by (auto simp: ThreadPoolExecutor_def pool_inv_def running_tasks_def busy_count_def
      tasks_of_def busy_def all_exited_def split: if_splits)

lemma pool_start_inv: "pool_start s \<Longrightarrow> pool_inv s"
  using ThreadPoolExecutor_inv [of "length (workers s)" s]
  by (auto simp: pool_start_def split: sum.splits)

interpretation pool_fifo: fifo_service pool_start pool_step pool_inv submitted started
  "\<lambda>s. taskQueue s @ dropped s"
  by unfold_locales (auto simp: pool_start_inv pool_step_inv, simp add: pool_inv_def)

lemma all_exited_idle: "all_exited s \<Longrightarrow> running_tasks s = []"
  by (auto simp: all_exited_def running_tasks_def list_all_iff tasks_of_def)

text \<open>Once the flag is set it stays, and nothing more is accepted.\<close>

lemma flag_step: "pool_step s t \<Longrightarrow> shutdownFlag s \<Longrightarrow> shutdownFlag t \<and> submitted t = submitted s"
  by (induction rule: pool_step.induct)
    (auto simp: submit_def worker_section_def notify_all_def shutdown_test_def shutdownNow_section_def
      split: if_splits list.splits)

lemma flag_steps: "pool_step\<^sup>*\<^sup>* s t \<Longrightarrow> shutdownFlag s \<Longrightarrow> shutdownFlag t \<and> submitted t = submitted s"
  by (induction rule: rtranclp_induct) (auto dest: flag_step)

text \<open>The state of a missed notification: every worker has left, \<open>shutdown\<close> is blocked.\<close>

definition missed_wakeup :: "'a pool \<Rightarrow> bool" where
  "missed_wakeup s \<longleftrightarrow> all_exited s \<and> shutdownFlag s \<and> shut s = S_blocked \<and> notifies s = 0
     \<and> taskQueue s = [] \<and> activeCount s = 0"

lemma missed_wakeup_step:
  "pool_step s t \<Longrightarrow> missed_wakeup s \<and> now s = N_none \<Longrightarrow> now t \<noteq> N_none \<or> missed_wakeup t"
  by (induction rule: pool_step.induct)
    (auto simp: missed_wakeup_def submit_def all_exited_def list_all_length shutdownNow_section_def)

lemma now_step: "pool_step s t \<Longrightarrow> now s \<noteq> N_none \<Longrightarrow> now t \<noteq> N_none"
  by (induction rule: pool_step.induct)
    (auto simp: submit_def worker_section_def notify_all_def shutdown_test_def shutdownNow_section_def
      split: if_splits list.splits)

lemma missed_wakeup_steps:
  "pool_step\<^sup>*\<^sup>* s t \<Longrightarrow> missed_wakeup s \<and> now s = N_none \<Longrightarrow> now t \<noteq> N_none \<or> missed_wakeup t"
  by (induction rule: rtranclp_induct) (auto dest: missed_wakeup_step now_step)

section \<open>Properties\<close>

text \<open>C6: in every reachable state each submitted task is exactly one of: run to its end,
  being run, queued, or dropped by \<open>shutdownNow\<close>; tasks are started in the order they were
  submitted; and \<open>activeCount\<close> is the number of workers that hold a task.\<close>

theorem pool_accounts:
  assumes "pool_start s0" "pool_step\<^sup>*\<^sup>* s0 s"
  shows "mset (submitted s) = mset (finished s) + mset (running_tasks s) + mset (taskQueue s)
      + mset (dropped s) \<and> prefix (started s) (submitted s) \<and>
    activeCount s = busy_count (workers s)"
  using pool_fifo.reachable_inv [OF assms(2,1)] pool_fifo.in_order [OF assms(2,1)]
  by (simp add: pool_inv_def ac_simps)

definition one_worker :: "nat pool" where
  "one_worker = (case ThreadPoolExecutor 1 of Inr s \<Rightarrow> s)"

lemma one_worker_start: "pool_start one_worker"
  by (simp add: pool_start_def one_worker_def ThreadPoolExecutor_def)

lemma pool_accounts_witness:
  "mset (submitted one_worker) = mset (finished one_worker) + mset (running_tasks one_worker)
     + mset (taskQueue one_worker) + mset (dropped one_worker)"
  using pool_accounts [OF one_worker_start rtranclp.rtrancl_refl] by blast

text \<open>C7: when \<open>shutdown\<close> has returned, the queue is empty and every worker has left; if nobody
  called \<open>shutdownNow\<close>, every task ever submitted has run to its end exactly once.\<close>

theorem shutdown_completes:
  assumes "pool_start s0" "pool_step\<^sup>*\<^sup>* s0 s" "shut s = S_done"
  shows "taskQueue s = [] \<and> all_exited s \<and>
    (\<not> shutdownNowFlag s \<longrightarrow> mset (finished s) = mset (submitted s))"
  using pool_fifo.reachable_inv [OF assms(2,1)] assms(3) all_exited_idle [of s]
  by (auto simp: pool_inv_def)

lemma shutdown_completes_witness:
  "\<exists>s :: nat pool. shut s = S_done \<and> all_exited s \<and> mset (finished s) = mset (submitted s)"
proof -
  let ?s1 = "one_worker\<lparr>shutdownFlag := True, shut := S_notify\<rparr>"
  let ?s2 = "notify_all (?s1\<lparr>shut := S_test\<rparr>)"
  let ?s3 = "shutdown_test ?s2"
  let ?s4 = "worker_section 0 ?s3"
  let ?s5 = "?s4\<lparr>shut := S_done\<rparr>"
  note d = one_worker_def ThreadPoolExecutor_def worker_section_def notify_all_def shutdown_test_def
    mutex_free_def wake_worker_def wake_shutdown_def all_exited_def
  have "pool_step one_worker ?s1" by (rule shutdown_begin) (simp add: d)
  moreover have "pool_step ?s1 ?s2" by (rule shutdown_notify) (simp add: d)
  moreover have "pool_step ?s2 ?s3" by (rule shutdown_tests) (simp add: d)
  moreover have "pool_step ?s3 ?s4" by (rule worker) (simp_all add: d)
  moreover have "pool_step ?s4 ?s5" by (rule shutdown_joins) (simp_all add: d)
  ultimately have r: "pool_step\<^sup>*\<^sup>* one_worker ?s5"
    by (meson converse_rtranclp_into_rtranclp rtranclp.rtrancl_refl)
  have "shut ?s5 = S_done" "\<not> shutdownNowFlag ?s5" by (simp_all add: d)
  with shutdown_completes [OF one_worker_start r] show ?thesis by blast
qed

text \<open>After the shutdown flag is set, \<open>submit\<close> throws and no later step accepts a task.\<close>

theorem no_submit_after_shutdown:
  assumes "shutdownFlag s" "pool_step\<^sup>*\<^sup>* s t"
  shows "submit task t = Inl Runtime_error \<and> submitted t = submitted s"
  using flag_steps [OF assms(2,1)] by (simp add: submit_def)

lemma no_submit_after_shutdown_witness:
  "submit (7 :: nat) (one_worker\<lparr>shutdownFlag := True\<rparr>) = Inl Runtime_error"
  using no_submit_after_shutdown [of "one_worker\<lparr>shutdownFlag := True\<rparr>" _ 7] by simp

text \<open>A run of one worker and one task in which the worker's notification falls between the
  test of \<open>shutdown\<close> and its blocking.\<close>

lemma missed_wakeup_reachable:
  "\<exists>s :: nat pool. pool_step\<^sup>*\<^sup>* one_worker s \<and> missed_wakeup s \<and> now s = N_none"
proof -
  let ?s0 = "one_worker"
  let ?s1 = "?s0\<lparr>taskQueue := [5], notifies := 1, submitted := [5]\<rparr>"
  let ?s2 = "?s1\<lparr>notifies := notifies ?s1 - 1\<rparr>"
  let ?s3 = "worker_section 0 ?s2"
  let ?s4 = "?s3\<lparr>shutdownFlag := True, shut := S_notify\<rparr>"
  let ?s5 = "notify_all (?s4\<lparr>shut := S_test\<rparr>)"
  let ?s6 = "shutdown_test ?s5"
  let ?s7 = "?s6\<lparr>workers := (workers ?s6)[0 := W_done], finished := finished ?s6 @ [5]\<rparr>"
  let ?s8 = "?s7\<lparr>activeCount := activeCount ?s7 - 1, workers := (workers ?s7)[0 := W_notify]\<rparr>"
  let ?s9 = "notify_all (?s8\<lparr>workers := (workers ?s8)[0 := W_top]\<rparr>)"
  let ?s10 = "?s9\<lparr>shut := S_blocked\<rparr>"
  let ?s11 = "worker_section 0 ?s10"
  note d = one_worker_def ThreadPoolExecutor_def worker_section_def notify_all_def shutdown_test_def
    mutex_free_def wake_worker_def wake_shutdown_def submit_def
  have "pool_step ?s0 ?s1" by (rule submit_ok [where task = 5]) (simp_all add: d)
  moreover have "pool_step ?s1 ?s2" by (rule notify_nobody) (simp_all add: d)
  moreover have "pool_step ?s2 ?s3" by (rule worker) (simp_all add: d)
  moreover have "pool_step ?s3 ?s4" by (rule shutdown_begin) (simp add: d)
  moreover have "pool_step ?s4 ?s5" by (rule shutdown_notify) (simp add: d)
  moreover have "pool_step ?s5 ?s6" by (rule shutdown_tests) (simp add: d)
  moreover have "pool_step ?s6 ?s7" by (rule task_returns) (simp_all add: d)
  moreover have "pool_step ?s7 ?s8" by (rule decrement) (simp_all add: d)
  moreover have "pool_step ?s8 ?s9" by (rule notify) (simp_all add: d)
  moreover have "pool_step ?s9 ?s10" by (rule shutdown_blocks) (simp add: d)
  moreover have "pool_step ?s10 ?s11" by (rule worker) (simp_all add: d)
  ultimately have "pool_step\<^sup>*\<^sup>* ?s0 ?s11"
    by (meson converse_rtranclp_into_rtranclp rtranclp.rtrancl_refl)
  moreover have "missed_wakeup ?s11 \<and> now ?s11 = N_none"
    by (simp add: missed_wakeup_def all_exited_def d)
  ultimately show ?thesis by blast
qed

text \<open>\<open>shutdown\<close> can block forever: from a pool of one worker a state is reachable in which
  \<open>shutdown\<close> is blocked although its condition (no task queued, none active) holds, and in no
  continuation without a call of \<open>shutdownNow\<close> does it ever leave the wait, because the only
  notification was sent, without the mutex, between its test and its blocking.\<close>

theorem shutdown_lost_wakeup:
  "\<exists>s :: nat pool. pool_step\<^sup>*\<^sup>* one_worker s \<and> taskQueue s = [] \<and> activeCount s = 0 \<and>
     \<not> (\<exists>t. pool_step\<^sup>*\<^sup>* s t \<and> now t = N_none \<and> shut t \<noteq> S_blocked)"
proof -
  obtain s :: "nat pool" where s: "pool_step\<^sup>*\<^sup>* one_worker s" "missed_wakeup s" "now s = N_none"
    using missed_wakeup_reachable by blast
  then have "\<not> (\<exists>t. pool_step\<^sup>*\<^sup>* s t \<and> now t = N_none \<and> shut t \<noteq> S_blocked)"
    using missed_wakeup_steps by (fastforce simp: missed_wakeup_def)
  with s show ?thesis by (auto simp: missed_wakeup_def)
qed

section \<open>The CPU and the I/O pool\<close>

text \<open>\<open>getOptimalThreadCount\<close> of both pools, over the core count the system reports (0 when it
  cannot tell); the I/O factor is a rational, without floating-point rounding, and a negative
  product, whose conversion to \<open>size_t\<close> C++ leaves undefined, counts as 0.\<close>

definition cpu_getOptimalThreadCount :: "nat \<Rightarrow> nat" where
  "cpu_getOptimalThreadCount cores = (if cores > 0 then cores else 1)"

definition io_getOptimalThreadCount :: "nat \<Rightarrow> rat \<Rightarrow> nat" where
  "io_getOptimalThreadCount cores factor =
     nat \<lceil>of_nat (if cores = 0 then 1 else cores) * factor\<rceil>"

definition CPUThreadPool :: "nat \<Rightarrow> nat \<Rightarrow> 'a pool cpp" where
  "CPUThreadPool cores numThreads =
     ThreadPoolExecutor (if numThreads = 0 then cpu_getOptimalThreadCount cores else numThreads)"

definition IOThreadPool :: "nat \<Rightarrow> rat \<Rightarrow> nat \<Rightarrow> 'a pool cpp" where
  "IOThreadPool cores factor numThreads =
     ThreadPoolExecutor (if numThreads = 0 then io_getOptimalThreadCount cores factor else numThreads)"

text \<open>Constructing the CPU pool never throws, and constructing the I/O pool throws exactly
  when the thread count is automatic and the factor is not positive.\<close>

theorem pool_constructors:
  "(\<exists>s :: 'a pool. CPUThreadPool cores n = Inr s \<and> pool_start s) \<and>
   ((IOThreadPool cores factor n :: 'a pool cpp) = Inl Invalid_argument \<longleftrightarrow> n = 0 \<and> factor \<le> 0)"
proof -
  have c: "of_nat (if cores = 0 then 1 else cores) > (0 :: rat)" by simp
  have "io_getOptimalThreadCount cores factor = 0 \<longleftrightarrow> factor \<le> 0"
    using mult_le_0_iff [of "of_nat (if cores = 0 then 1 else cores)" factor] c
    by (simp add: io_getOptimalThreadCount_def del: of_nat_eq_0_iff)
  then show ?thesis
    by (auto simp: CPUThreadPool_def IOThreadPool_def ThreadPoolExecutor_def
        cpu_getOptimalThreadCount_def pool_start_def)
qed

end
