(* ===== verification/GcBridge.thy ===== *)
theory GcBridge
  imports Prelude Complex_Main "HOL-Library.Word" "HOL-Library.AList"
begin

text \<open>
  Models \<open>src/GCBridge.h\<close> and \<open>src/GCBridge.cpp\<close>, the table that ties QuickJS values to
  protoCore objects.

  \<^item> protoCore is not part of the repository. Its persistent map \<open>ProtoSparseList\<close> enters as a
    record of operations \<open>sparse_ops\<close>; what is used of its documented behaviour is the
    predicate \<open>sparse_ok\<close>, a hypothesis of the properties that need it. The two hash functions
    and the clock are fields of the environment. An object that holds a mapping is the record of
    the attributes the code sets on it (the reference structure \<open>MappingData\<close> of the header).
  \<^item> A QuickJS value is null, undefined, or any other value, named by its 64-bit image.
  \<^item> \<open>mapMutex\<close> is a \<open>std::mutex\<close>, so a thread that locks it while holding it never returns:
    the outcome \<open>Blocked\<close>. Every operation here runs on one thread, from a free mutex.
  \<^item> \<open>registerMapping\<close> and \<open>registerRoot\<close> call each other; they carry a depth, and
    \<open>gc_depth_enough\<close> shows that depth 2 is enough.
\<close>

record ('m, 'e) sparse_ops =
  newSparseList :: 'm
  setAt :: "'m \<Rightarrow> 64 word \<Rightarrow> 'e \<Rightarrow> 'm"
  removeAt :: "'m \<Rightarrow> 64 word \<Rightarrow> 'm"
  has :: "'m \<Rightarrow> 64 word \<Rightarrow> bool"
  getAt :: "'m \<Rightarrow> 64 word \<Rightarrow> 'e"
  entries :: "'m \<Rightarrow> (64 word \<times> 'e) list"

definition sparse_ok :: "('m, 'e) sparse_ops \<Rightarrow> bool" where
  "sparse_ok p \<longleftrightarrow>
     (\<forall>k. \<not> has p (newSparseList p) k) \<and>
     (\<forall>m k v j. has p (setAt p m k v) j \<longleftrightarrow> j = k \<or> has p m j) \<and>
     (\<forall>m k v j. getAt p (setAt p m k v) j = (if j = k then v else getAt p m j)) \<and>
     (\<forall>m k j. has p (removeAt p m k) j \<longleftrightarrow> j \<noteq> k \<and> has p m j) \<and>
     (\<forall>m k j. j \<noteq> k \<longrightarrow> getAt p (removeAt p m k) j = getAt p m j)"

datatype jsval = JsNull | JsUndefined | JsVal "64 word"

record 'o mapping =
  jsValueTag :: "64 word"
  protoObj :: "'o option"      \<comment> \<open>\<open>None\<close> is a null pointer or \<open>PROTO_NONE\<close>\<close>
  isRoot :: bool
  isWeakRef :: bool
  createdTimestamp :: rat
  jsValuePtr :: jsval

text \<open>The list of a context holds mapping objects under the keys of values, and wrapper objects
  (whose attributes are none of the above) under the hashes of protoCore objects.\<close>

datatype 'o entry = Mapping "'o mapping" | Wrapper jsval

record ('c, 'm, 'o) gc_env =
  ctx_ops :: "('c, 'm) sparse_ops"
  map_ops :: "('m, 'o entry) sparse_ops"
  js_key_hash :: "64 word \<Rightarrow> 64 word"     \<comment> \<open>hash of the string \<open>jsval:tag\<close>\<close>
  proto_hash :: "'o \<Rightarrow> 64 word"
  has_wrapper :: "64 word \<Rightarrow> bool"        \<comment> \<open>\<open>JS_GetContextOpaque(ctx)\<close> is set\<close>
  clock :: rat

record 'c gc_state =
  contextMappings :: "'c option"
  locked :: bool

datatype 'r outcome = Returns 'r | Blocked | Out_of_depth

fun outcome_bind :: "'a outcome \<Rightarrow> ('a \<Rightarrow> 'b outcome) \<Rightarrow> 'b outcome" where
  "outcome_bind (Returns x) f = f x"
| "outcome_bind Blocked f = Blocked"
| "outcome_bind Out_of_depth f = Out_of_depth"

text \<open>\<open>std::lock_guard<std::mutex> lock(mapMutex)\<close> around a body.\<close>

definition with_lock :: "('c gc_state \<Rightarrow> ('c gc_state \<times> 'r) outcome) \<Rightarrow> 'c gc_state \<Rightarrow> ('c gc_state \<times> 'r) outcome" where
  "with_lock body s =
     (if locked s then Blocked
      else outcome_bind (body (s\<lparr>locked := True\<rparr>)) (\<lambda>(t, r). Returns (t\<lparr>locked := False\<rparr>, r)))"

section \<open>Helpers\<close>

definition isActiveJSValue :: "jsval \<Rightarrow> bool" where
  "isActiveJSValue v \<longleftrightarrow> v \<noteq> JsNull \<and> v \<noteq> JsUndefined"

definition getJSValueTag :: "jsval \<Rightarrow> 64 word" where
  "getJSValueTag v = (case v of JsNull \<Rightarrow> 0 | JsUndefined \<Rightarrow> 0 | JsVal w \<Rightarrow> w)"

definition js_key :: "('c, 'm, 'o) gc_env \<Rightarrow> jsval \<Rightarrow> 64 word" where
  "js_key env v = js_key_hash env (getJSValueTag v)"

definition getContextMappings ::
  "('c, 'm, 'o) gc_env \<Rightarrow> 64 word \<Rightarrow> 'c gc_state \<Rightarrow> 'm \<times> 'c gc_state" where
  "getContextMappings env ctx s =
     (let cm = (case contextMappings s of None \<Rightarrow> newSparseList (ctx_ops env) | Some c \<Rightarrow> c);
          t = s\<lparr>contextMappings := Some cm\<rparr>
      in (if has (ctx_ops env) cm ctx then getAt (ctx_ops env) cm ctx
          else newSparseList (map_ops env), t))"

definition setContextMappings ::
  "('c, 'm, 'o) gc_env \<Rightarrow> 64 word \<Rightarrow> 'm \<Rightarrow> 'c gc_state \<Rightarrow> 'c gc_state" where
  "setContextMappings env ctx m s =
     (let cm = (case contextMappings s of None \<Rightarrow> newSparseList (ctx_ops env) | Some c \<Rightarrow> c)
      in s\<lparr>contextMappings := Some (setAt (ctx_ops env) cm ctx m)\<rparr>)"

text \<open>A flag attribute read from an entry: a missing attribute counts as false.\<close>

definition entry_isRoot :: "'o entry \<Rightarrow> bool" where
  "entry_isRoot e = (case e of Mapping m \<Rightarrow> isRoot m | Wrapper _ \<Rightarrow> False)"

definition entry_isWeak :: "'o entry \<Rightarrow> bool" where
  "entry_isWeak e = (case e of Mapping m \<Rightarrow> isWeakRef m | Wrapper _ \<Rightarrow> False)"

definition entry_protoObj :: "'o entry \<Rightarrow> 'o option" where
  "entry_protoObj e = (case e of Mapping m \<Rightarrow> protoObj m | Wrapper _ \<Rightarrow> None)"

text \<open>\<open>extractExternalPointer\<close> is a placeholder that returns a null pointer.\<close>

definition extractExternalPointer :: "'o entry \<Rightarrow> jsval option" where
  "extractExternalPointer wrapper = None"

definition set_isRoot :: "bool \<Rightarrow> 'o entry \<Rightarrow> 'o entry" where
  "set_isRoot b e = (case e of
     Mapping m \<Rightarrow> Mapping (m\<lparr>isRoot := b\<rparr>)
   | Wrapper v \<Rightarrow> Mapping \<lparr>jsValueTag = 0, protoObj = None, isRoot = b, isWeakRef = False,
       createdTimestamp = 0, jsValuePtr = v\<rparr>)"

definition new_mapping :: "('c, 'm, 'o) gc_env \<Rightarrow> jsval \<Rightarrow> 'o option \<Rightarrow> bool \<Rightarrow> 'o mapping" where
  "new_mapping env v ob weak = \<lparr>jsValueTag = getJSValueTag v, protoObj = ob, isRoot = False,
     isWeakRef = weak, createdTimestamp = clock env, jsValuePtr = v\<rparr>"

section \<open>Operations\<close>

definition gc_initialize :: "('c, 'm, 'o) gc_env \<Rightarrow> 64 word \<Rightarrow> 'c gc_state \<Rightarrow> ('c gc_state \<times> unit) outcome" where
  "gc_initialize env ctx = with_lock (\<lambda>s.
     if \<not> has_wrapper env ctx then Returns (s, ())
     else Returns (setContextMappings env ctx (newSparseList (map_ops env)) s, ()))"

fun registerMapping :: "nat \<Rightarrow> ('c, 'm, 'o) gc_env \<Rightarrow> jsval \<Rightarrow> 'o option \<Rightarrow> 64 word
      \<Rightarrow> 'c gc_state \<Rightarrow> ('c gc_state \<times> unit) outcome"
  and registerRoot :: "nat \<Rightarrow> ('c, 'm, 'o) gc_env \<Rightarrow> jsval \<Rightarrow> 'o option \<Rightarrow> 64 word
      \<Rightarrow> 'c gc_state \<Rightarrow> ('c gc_state \<times> unit) outcome"
where
  "registerMapping 0 env v ob ctx s = Out_of_depth"
| "registerMapping (Suc n) env v ob ctx s =
     (case ob of
        None \<Rightarrow> Returns (s, ())
      | Some x \<Rightarrow>
          if v = JsNull \<or> v = JsUndefined then Returns (s, ())
          else with_lock (\<lambda>s.
            if \<not> has_wrapper env ctx then Returns (s, ())
            else
              (let (m, s1) = getContextMappings env ctx s;
                   m1 = setAt (map_ops env) m (js_key env v) (Mapping (new_mapping env v ob False));
                   s2 = setContextMappings env ctx m1 s1;
                   m2 = setAt (map_ops env) m1 (proto_hash env x) (Wrapper v);
                   s3 = setContextMappings env ctx m2 s2
               in if isActiveJSValue v then registerRoot n env v ob ctx s3
                  else Returns (s3, ()))) s)"
| "registerRoot 0 env v ob ctx s = Out_of_depth"
| "registerRoot (Suc n) env v ob ctx s =
     with_lock (\<lambda>s.
       if \<not> has_wrapper env ctx then Returns (s, ())
       else
         (let (m, s1) = getContextMappings env ctx s in
          if has (map_ops env) m (js_key env v) then
            Returns (setContextMappings env ctx
              (setAt (map_ops env) m (js_key env v)
                (set_isRoot True (getAt (map_ops env) m (js_key env v)))) s1, ())
          else
            outcome_bind (registerMapping n env v ob ctx s1)
              (\<lambda>(s2, _). registerRoot n env v ob ctx s2))) s"

definition unregisterRoot :: "('c, 'm, 'o) gc_env \<Rightarrow> jsval \<Rightarrow> 64 word \<Rightarrow> 'c gc_state \<Rightarrow> ('c gc_state \<times> unit) outcome" where
  "unregisterRoot env v ctx = with_lock (\<lambda>s.
     if \<not> has_wrapper env ctx then Returns (s, ())
     else
       (let (m, s1) = getContextMappings env ctx s in
        if has (map_ops env) m (js_key env v) then
          Returns (setContextMappings env ctx
            (setAt (map_ops env) m (js_key env v)
              (set_isRoot False (getAt (map_ops env) m (js_key env v)))) s1, ())
        else Returns (s1, ())))"

definition unregisterMapping :: "('c, 'm, 'o) gc_env \<Rightarrow> jsval \<Rightarrow> 64 word \<Rightarrow> 'c gc_state \<Rightarrow> ('c gc_state \<times> unit) outcome" where
  "unregisterMapping env v ctx = with_lock (\<lambda>s.
     if \<not> has_wrapper env ctx then Returns (s, ())
     else
       (let (m, s1) = getContextMappings env ctx s in
        if has (map_ops env) m (js_key env v) then
          (let e = getAt (map_ops env) m (js_key env v) in
           outcome_bind (if entry_isRoot e then unregisterRoot env v ctx s1 else Returns (s1, ()))
             (\<lambda>(s2, _).
               let m1 = removeAt (map_ops env) m (js_key env v);
                   m2 = (case entry_protoObj e of
                           None \<Rightarrow> m1 | Some x \<Rightarrow> removeAt (map_ops env) m1 (proto_hash env x))
               in Returns (setContextMappings env ctx m2 s2, ())))
        else Returns (s1, ())))"

definition getProtoObject :: "('c, 'm, 'o) gc_env \<Rightarrow> jsval \<Rightarrow> 64 word \<Rightarrow> 'c gc_state \<Rightarrow> ('c gc_state \<times> 'o option) outcome" where
  "getProtoObject env v ctx = with_lock (\<lambda>s.
     if \<not> has_wrapper env ctx then Returns (s, None)
     else
       (let (m, s1) = getContextMappings env ctx s in
        if has (map_ops env) m (js_key env v)
        then Returns (s1, entry_protoObj (getAt (map_ops env) m (js_key env v)))
        else Returns (s1, None)))"

definition getJSValue :: "('c, 'm, 'o) gc_env \<Rightarrow> 'o \<Rightarrow> 64 word \<Rightarrow> 'c gc_state \<Rightarrow> ('c gc_state \<times> jsval) outcome" where
  "getJSValue env x ctx = with_lock (\<lambda>s.
     if \<not> has_wrapper env ctx then Returns (s, JsNull)
     else
       (let (m, s1) = getContextMappings env ctx s in
        if has (map_ops env) m (proto_hash env x) then
          (case extractExternalPointer (getAt (map_ops env) m (proto_hash env x)) of
             Some v \<Rightarrow> Returns (s1, v)
           | None \<Rightarrow> Returns (s1, JsNull))
        else Returns (s1, JsNull)))"

definition registerWeakRef :: "('c, 'm, 'o) gc_env \<Rightarrow> jsval \<Rightarrow> 'o option \<Rightarrow> 64 word \<Rightarrow> 'c gc_state \<Rightarrow> ('c gc_state \<times> unit) outcome" where
  "registerWeakRef env v ob ctx = with_lock (\<lambda>s.
     if \<not> has_wrapper env ctx then Returns (s, ())
     else
       (let (m, s1) = getContextMappings env ctx s in
        Returns (setContextMappings env ctx
          (setAt (map_ops env) m (js_key env v) (Mapping (new_mapping env v ob True))) s1, ())))"

definition unregisterWeakRef :: "('c, 'm, 'o) gc_env \<Rightarrow> jsval \<Rightarrow> 64 word \<Rightarrow> 'c gc_state \<Rightarrow> ('c gc_state \<times> unit) outcome" where
  "unregisterWeakRef env v ctx = with_lock (\<lambda>s.
     if \<not> has_wrapper env ctx then Returns (s, ())
     else
       (let (m, s1) = getContextMappings env ctx s in
        if has (map_ops env) m (js_key env v) \<and> entry_isWeak (getAt (map_ops env) m (js_key env v))
        then Returns (setContextMappings env ctx (removeAt (map_ops env) m (js_key env v)) s1, ())
        else Returns (s1, ())))"


text \<open>A report on a context without a wrapper has null lists. Ages start at 0 and only grow.\<close>

record 'o leak_report =
  orphanedJSValues :: "64 word list"
  orphanedProtoObjects :: "'o list"
  totalLeaks :: nat
  leakAge :: rat

definition leak_step :: "rat \<Rightarrow> 'o leak_report \<Rightarrow> 'o entry \<Rightarrow> 'o leak_report" where
  "leak_step now r e = (case e of
     Mapping m \<Rightarrow>
       (if isRoot m then
          (case protoObj m of
             Some x \<Rightarrow> \<lparr>orphanedJSValues = orphanedJSValues r @ [jsValueTag m],
               orphanedProtoObjects = orphanedProtoObjects r @ [x],
               totalLeaks = totalLeaks r + 1,
               leakAge = (if leakAge r < now - createdTimestamp m then now - createdTimestamp m
                          else leakAge r)\<rparr>
           | None \<Rightarrow> r)
        else r)
   | Wrapper v \<Rightarrow> r)"

definition detectLeaks :: "('c, 'm, 'o) gc_env \<Rightarrow> 64 word \<Rightarrow> 'c gc_state
    \<Rightarrow> ('c gc_state \<times> 'o leak_report option) outcome" where
  "detectLeaks env ctx = with_lock (\<lambda>s.
     if \<not> has_wrapper env ctx then Returns (s, None)
     else
       (let (m, s1) = getContextMappings env ctx s in
        Returns (s1, Some (foldl (leak_step (clock env))
          \<lparr>orphanedJSValues = [], orphanedProtoObjects = [], totalLeaks = 0, leakAge = 0\<rparr>
          (map snd (entries (map_ops env) m))))))"

text \<open>What \<open>reportLeaks\<close> prints: nothing, the all-clear, or the counts and the age.\<close>

datatype leak_message = Silent | No_leaks | Leaks nat nat nat rat

definition reportLeaks :: "('c, 'm, 'o) gc_env \<Rightarrow> 64 word \<Rightarrow> 'c gc_state
    \<Rightarrow> ('c gc_state \<times> leak_message) outcome" where
  "reportLeaks env ctx s = outcome_bind (detectLeaks env ctx s) (\<lambda>(t, report).
     Returns (t, case report of
       None \<Rightarrow> Silent
     | Some r \<Rightarrow>
         if totalLeaks r = 0 then No_leaks
         else Leaks (totalLeaks r) (length (orphanedJSValues r))
           (length (orphanedProtoObjects r)) (leakAge r)))"

record memory_stats =
  totalJSValues :: nat
  totalProtoObjects :: nat
  registeredRoots :: nat
  weakReferences :: nat
  leakedObjects :: nat
  memoryUsed :: nat
  gcCycles :: nat

definition getMemoryStats :: "('c, 'm, 'o) gc_env \<Rightarrow> 64 word \<Rightarrow> 'c gc_state
    \<Rightarrow> ('c gc_state \<times> memory_stats option) outcome" where
  "getMemoryStats env ctx = with_lock (\<lambda>s.
     if \<not> has_wrapper env ctx then Returns (s, None)
     else
       (let (m, s1) = getContextMappings env ctx s;
            es = map snd (entries (map_ops env) m)
        in outcome_bind (detectLeaks env ctx s1) (\<lambda>(s2, report).
          Returns (s2, Some \<lparr>totalJSValues = length es, totalProtoObjects = length es,
            registeredRoots = length (filter entry_isRoot es),
            weakReferences = length (filter entry_isWeak es),
            leakedObjects = (case report of None \<Rightarrow> 0 | Some r \<Rightarrow> totalLeaks r),
            memoryUsed = 0, gcCycles = 0\<rparr>))))"

definition cleanup :: "('c, 'm, 'o) gc_env \<Rightarrow> 64 word \<Rightarrow> 'c gc_state \<Rightarrow> ('c gc_state \<times> unit) outcome" where
  "cleanup env ctx = with_lock (\<lambda>s.
     if \<not> has_wrapper env ctx then Returns (s, ())
     else
       (let (m, s1) = getContextMappings env ctx s
        in Returns (setContextMappings env ctx (newSparseList (map_ops env)) s1, ())))"

text \<open>The loop of \<open>scanRoots\<close> reads the flags and does nothing with them.\<close>

definition scanRoots :: "('c, 'm, 'o) gc_env \<Rightarrow> 64 word \<Rightarrow> 'c gc_state \<Rightarrow> ('c gc_state \<times> unit) outcome" where
  "scanRoots env ctx = with_lock (\<lambda>s.
     if \<not> has_wrapper env ctx then Returns (s, ())
     else (let (m, s1) = getContextMappings env ctx s in Returns (s1, ())))"

section \<open>Facts the properties share\<close>

lemmas gc_helpers = getContextMappings_def setContextMappings_def js_key_def
lemmas gc_lock = with_lock_def Let_def split_beta

lemma with_lock_locked [simp]: "locked s \<Longrightarrow> with_lock body s = Blocked"
  by (simp add: with_lock_def)

text \<open>The mutex is free whenever an operation has returned.\<close>

lemma with_lock_free: "with_lock body s = Returns (t, r) \<Longrightarrow> \<not> locked t"
  by (auto simp: with_lock_def split: if_splits) (cases "body (s\<lparr>locked := True\<rparr>)"; auto)

lemma locked_getContextMappings [simp]: "locked (snd (getContextMappings env ctx s)) = locked s"
  by (simp add: getContextMappings_def Let_def)

lemma locked_setContextMappings [simp]: "locked (setContextMappings env ctx m s) = locked s"
  by (simp add: setContextMappings_def Let_def)

lemma registerRoot_locked [simp]: "locked s \<Longrightarrow> registerRoot (Suc n) env v ob ctx s = Blocked"
  by simp

text \<open>The mappings of a context, as a caller sees them.\<close>

definition ctx_map :: "('c, 'm, 'o) gc_env \<Rightarrow> 64 word \<Rightarrow> 'c gc_state \<Rightarrow> 'm" where
  "ctx_map env ctx s = fst (getContextMappings env ctx s)"

definition env_ok :: "('c, 'm, 'o) gc_env \<Rightarrow> bool" where
  "env_ok env \<longleftrightarrow> sparse_ok (ctx_ops env) \<and> sparse_ok (map_ops env)"

lemma sparse_okD [simp]:
  assumes "sparse_ok p"
  shows "\<not> has p (newSparseList p) k"
    "has p (setAt p m k v) j \<longleftrightarrow> j = k \<or> has p m j"
    "getAt p (setAt p m k v) j = (if j = k then v else getAt p m j)"
    "has p (removeAt p m k) j \<longleftrightarrow> j \<noteq> k \<and> has p m j"
    "j \<noteq> k \<Longrightarrow> getAt p (removeAt p m k) j = getAt p m j"
  using assms by (simp_all add: sparse_ok_def)

lemma env_okD [simp]: "env_ok env \<Longrightarrow> sparse_ok (ctx_ops env)" "env_ok env \<Longrightarrow> sparse_ok (map_ops env)"
  by (simp_all add: env_ok_def)

lemma ctx_map_set [simp]:
  "env_ok env \<Longrightarrow> ctx_map env ctx' (setContextMappings env ctx m s) =
     (if ctx' = ctx then m else ctx_map env ctx' s)"
  by (auto simp: ctx_map_def gc_helpers Let_def split: option.splits)

lemma ctx_map_get [simp]: "env_ok env \<Longrightarrow> ctx_map env ctx' (snd (getContextMappings env ctx s)) = ctx_map env ctx' s"
  by (auto simp: ctx_map_def gc_helpers Let_def split: option.splits)

lemma ctx_map_locked [simp]: "ctx_map env ctx (s\<lparr>locked := b\<rparr>) = ctx_map env ctx s"
  by (simp add: ctx_map_def gc_helpers Let_def)

lemma fst_get [simp]: "fst (getContextMappings env ctx s) = ctx_map env ctx s"
  by (simp add: ctx_map_def)


section \<open>Self-deadlock\<close>

lemma registerRoot_Blocked:
  "registerRoot (Suc (Suc n)) env v ob ctx s = Blocked \<longleftrightarrow>
     locked s \<or> (has_wrapper env ctx \<and> has (map_ops env) (ctx_map env ctx s) (js_key env v) = False)"
proof (cases "locked s \<or> \<not> has_wrapper env ctx \<or> has (map_ops env) (ctx_map env ctx s) (js_key env v)")
  case True
  then show ?thesis by (auto simp: gc_lock js_key_def)
next
  case False
  then show ?thesis by (cases ob) (simp_all add: gc_lock js_key_def)
qed

lemma registerMapping_Blocked:
  "registerMapping (Suc (Suc n)) env v ob ctx s = Blocked \<longleftrightarrow>
     ob \<noteq> None \<and> isActiveJSValue v \<and> (locked s \<or> has_wrapper env ctx)"
  by (cases ob) (auto simp: gc_lock isActiveJSValue_def)

text \<open>Depth 2 is enough: the calls return or block before the depth runs out.\<close>

lemma gc_depth_enough:
  "registerMapping (Suc (Suc n)) env v ob ctx s \<noteq> Out_of_depth"
  "registerRoot (Suc (Suc n)) env v ob ctx s \<noteq> Out_of_depth"
  by (cases ob; auto simp: gc_lock js_key_def)+

lemma unregisterMapping_Blocked:
  "unregisterMapping env v ctx s = Blocked \<longleftrightarrow>
     locked s \<or> (has_wrapper env ctx \<and> has (map_ops env) (ctx_map env ctx s) (js_key env v) \<and>
       entry_isRoot (getAt (map_ops env) (ctx_map env ctx s) (js_key env v)))"
  by (auto simp: unregisterMapping_def unregisterRoot_def gc_lock js_key_def)

lemma getMemoryStats_Blocked:
  "getMemoryStats env ctx s = Blocked \<longleftrightarrow> locked s \<or> has_wrapper env ctx"
  by (auto simp: getMemoryStats_def detectLeaks_def gc_lock)

text \<open>the operations that lock \<open>mapMutex\<close> twice, exactly. \<open>registerMapping\<close> never
  returns for any object and any value other than null and undefined (on a context with a
  wrapper); \<open>registerRoot\<close> never returns for a value not in the table; \<open>unregisterMapping\<close> never
  returns for a root; \<open>getMemoryStats\<close> never returns at all.\<close>

theorem gc_self_deadlock:
  "(registerMapping (Suc (Suc n)) env v ob ctx s = Blocked \<longleftrightarrow>
      ob \<noteq> None \<and> isActiveJSValue v \<and> (locked s \<or> has_wrapper env ctx)) \<and>
   (registerRoot (Suc (Suc n)) env v ob ctx s = Blocked \<longleftrightarrow>
      locked s \<or> (has_wrapper env ctx \<and>
        has (map_ops env) (ctx_map env ctx s) (js_key env v) = False)) \<and>
   (unregisterMapping env v ctx s = Blocked \<longleftrightarrow>
      locked s \<or> (has_wrapper env ctx \<and> has (map_ops env) (ctx_map env ctx s) (js_key env v) \<and>
        entry_isRoot (getAt (map_ops env) (ctx_map env ctx s) (js_key env v)))) \<and>
   (getMemoryStats env ctx s = Blocked \<longleftrightarrow> locked s \<or> has_wrapper env ctx)"
  by (intro conjI registerMapping_Blocked registerRoot_Blocked unregisterMapping_Blocked
      getMemoryStats_Blocked)

section \<open>Weak references and lookups\<close>

text \<open>A persistent map for the witnesses: an association list.\<close>

definition alist_ops :: "((64 word \<times> 'e) list, 'e) sparse_ops" where
  "alist_ops = \<lparr>newSparseList = [], setAt = (\<lambda>m k v. AList.update k v m),
     removeAt = (\<lambda>m k. AList.delete k m), has = (\<lambda>m k. map_of m k \<noteq> None),
     getAt = (\<lambda>m k. the (map_of m k)), entries = (\<lambda>m. m)\<rparr>"

lemma alist_ops_ok: "sparse_ok alist_ops"
  by (simp add: sparse_ok_def alist_ops_def update_conv' delete_conv')

definition example_env :: "((64 word \<times> (64 word \<times> nat entry) list) list,
    (64 word \<times> nat entry) list, nat) gc_env" where
  "example_env = \<lparr>ctx_ops = alist_ops, map_ops = alist_ops, js_key_hash = (\<lambda>w. w),
     proto_hash = of_nat, has_wrapper = (\<lambda>_. True), clock = 5\<rparr>"

lemma example_env_ok: "env_ok example_env"
  by (simp add: env_ok_def example_env_def alist_ops_ok)

lemma registerWeakRef_returns:
  "\<lbrakk>\<not> locked s; has_wrapper env ctx\<rbrakk> \<Longrightarrow> registerWeakRef env v ob ctx s =
     Returns ((setContextMappings env ctx (setAt (map_ops env) (ctx_map env ctx s) (js_key env v)
       (Mapping (new_mapping env v ob True))) (snd (getContextMappings env ctx (s\<lparr>locked := True\<rparr>))))
       \<lparr>locked := False\<rparr>, ())"
  by (simp add: registerWeakRef_def gc_lock)



text \<open>The reverse lookup never finds a value. Whatever was registered, \<open>getJSValue\<close> on a free
  mutex returns null, because \<open>extractExternalPointer\<close> never recovers the stored pointer.\<close>

theorem getJSValue_always_null:
  "\<exists>t. getJSValue env x ctx s = (if locked s then Blocked else Returns (t, JsNull))"
  by (cases "locked s") (auto simp: getJSValue_def gc_lock extractExternalPointer_def)

section \<open>The leak report\<close>

definition leaked :: "'o entry \<Rightarrow> bool" where
  "leaked e \<longleftrightarrow> entry_isRoot e \<and> entry_protoObj e \<noteq> None"

definition entry_age :: "rat \<Rightarrow> 'o entry \<Rightarrow> rat" where
  "entry_age now e = (case e of Mapping m \<Rightarrow> now - createdTimestamp m | Wrapper _ \<Rightarrow> 0)"

lemma leak_step_fold:
  "\<lbrakk>length (orphanedJSValues r) = totalLeaks r; length (orphanedProtoObjects r) = totalLeaks r\<rbrakk> \<Longrightarrow>
   (let q = foldl (leak_step now) r es in
      totalLeaks q = totalLeaks r + length (filter leaked es) \<and>
      length (orphanedJSValues q) = totalLeaks q \<and>
      length (orphanedProtoObjects q) = totalLeaks q \<and>
      leakAge r \<le> leakAge q \<and> (\<forall>e\<in>set es. leaked e \<longrightarrow> entry_age now e \<le> leakAge q) \<and>
      (leakAge q = leakAge r \<or> (\<exists>e\<in>set es. leaked e \<and> leakAge q = entry_age now e)) \<and>
      orphanedProtoObjects q = orphanedProtoObjects r @ map (the \<circ> entry_protoObj) (filter leaked es))"
proof (induction es arbitrary: r)
  case (Cons e es)
  let ?r = "leak_step now r e"
  have "length (orphanedJSValues ?r) = totalLeaks ?r" "length (orphanedProtoObjects ?r) = totalLeaks ?r"
    "totalLeaks ?r = totalLeaks r + (if leaked e then 1 else 0)" "leakAge r \<le> leakAge ?r"
    "leaked e \<longrightarrow> entry_age now e \<le> leakAge ?r"
    "leakAge ?r = leakAge r \<or> leaked e \<and> leakAge ?r = entry_age now e"
    "orphanedProtoObjects ?r = orphanedProtoObjects r @ (if leaked e then [the (entry_protoObj e)] else [])"
    using Cons.prems by (auto simp: leak_step_def leaked_def entry_isRoot_def entry_protoObj_def
        entry_age_def split: entry.splits option.splits)
  with Cons.IH [of ?r] show ?case
    by (fastforce simp: Let_def)
qed (simp add: Let_def)

text \<open>what \<open>detectLeaks\<close> reports on a context with a wrapper: the two lists and the count
  agree, they hold the objects of exactly the root mappings of the table, in the order of the
  table, and the age is that of the oldest of them (0 when there is none).\<close>

theorem detectLeaks_report:
  assumes "detectLeaks env ctx s = Returns (t, Some r)"
  shows "let es = map snd (entries (map_ops env) (ctx_map env ctx s)) in
    totalLeaks r = length (filter leaked es) \<and>
    length (orphanedJSValues r) = totalLeaks r \<and>
    orphanedProtoObjects r = map (the \<circ> entry_protoObj) (filter leaked es) \<and>
    (\<forall>e\<in>set es. leaked e \<longrightarrow> entry_age (clock env) e \<le> leakAge r) \<and>
    (leakAge r = 0 \<or> (\<exists>e\<in>set es. leaked e \<and> leakAge r = entry_age (clock env) e))"
proof -
  let ?r0 = "\<lparr>orphanedJSValues = [], orphanedProtoObjects = [], totalLeaks = 0, leakAge = 0\<rparr>"
  let ?es = "map snd (entries (map_ops env) (ctx_map env ctx s))"
  have "r = foldl (leak_step (clock env)) ?r0 ?es"
    using assms by (auto simp: detectLeaks_def gc_lock split: if_splits)
  with leak_step_fold [of ?r0 "clock env" ?es] show ?thesis
    by (auto simp: Let_def)
qed

definition example_root :: "nat mapping" where
  "example_root = \<lparr>jsValueTag = 7, protoObj = Some 3, isRoot = True, isWeakRef = True,
     createdTimestamp = 2, jsValuePtr = JsVal 7\<rparr>"

lemma detectLeaks_report_witness:
  "\<exists>t r. detectLeaks example_env 1
       \<lparr>contextMappings = Some [(1, [(9, Wrapper (JsVal 7)), (7, Mapping example_root)])], locked = False\<rparr>
     = Returns (t, Some r) \<and> totalLeaks r = 1 \<and> orphanedProtoObjects r = [3]"
proof -
  let ?s = "\<lparr>contextMappings = Some [(1, [(9, Wrapper (JsVal 7)), (7, Mapping example_root)])], locked = False\<rparr>"
  obtain t r where tr: "detectLeaks example_env 1 ?s = Returns (t, Some r)"
    by (auto simp: detectLeaks_def gc_lock example_env_def)
  have "ctx_map example_env 1 ?s = [(9, Wrapper (JsVal 7)), (7, Mapping example_root)]"
    by (simp add: ctx_map_def gc_helpers example_env_def alist_ops_def Let_def)
  with tr detectLeaks_report [OF tr] show ?thesis
    by (auto simp: Let_def example_env_def alist_ops_def leaked_def entry_isRoot_def
        entry_protoObj_def example_root_def)
qed

end
