(* ===== verification/Deferred.thy ===== *)
theory Deferred
  imports Prelude "HOL-Library.Word"
begin

text \<open>
  Models \<open>src/Deferred.cpp\<close> and \<open>src/Deferred.h\<close>: one Deferred object from its constructor to its
  finalizer, the job it hands to the CPU pool, and the callbacks the worker posts to the event
  loop.

  \<^item> The constructor makes a task held by \<open>shared_ptr\<close> (captured by the pool job and by the posted
    callbacks) and a bitwise copy of it, owned by the JavaScript object. Both copies hold the
    address of the same bytecode buffer. \<open>release\<close> runs the destructor of the shared copy when the
    last holder is gone.
  \<^item> The heap of the main runtime is a partial map from addresses; freeing an address that is not
    live counts in \<open>bad_frees\<close>, reading one or calling a released function in \<open>stale_uses\<close>.
  \<^item> QuickJS is not part of this development: serialisation, deserialisation and calls are fields
    of \<open>engine\<close>. Whether an allocation succeeds is a field of \<open>luck\<close>, given to each run of the
    worker. The C calls do not throw, so the \<open>catch\<close> handler at the end of the worker is left out.
  \<^item> The JavaScript functions passed as \<open>resolve\<close> and \<open>reject\<close> are C lambdas that return undefined
    and do nothing else; a call of one is recorded in \<open>settles\<close>. A call of a function given by the
    user to \<open>then\<close> or \<open>catch\<close> is recorded in \<open>user_calls\<close>.
\<close>

type_synonym bytes = "8 word list"

record 'v engine =
  is_function :: "'v \<Rightarrow> bool"
  write_object :: "'v \<Rightarrow> bytes"                \<comment> \<open>\<open>[]\<close>: a null pointer or size 0\<close>
  read_worker :: "bytes \<Rightarrow> string + 'v"       \<comment> \<open>\<open>Inl\<close>: an exception, as text\<close>
  read_main :: "bytes \<Rightarrow> 'v option"           \<comment> \<open>\<open>None\<close>: an exception\<close>
  call0 :: "'v \<Rightarrow> 'v + 'v"                     \<comment> \<open>\<open>Inl\<close>: the value that marks an exception\<close>

record luck =
  have_context :: bool     \<comment> \<open>this thread made its context earlier\<close>
  runtime_ok :: bool
  context_ok :: bool
  malloc_ok :: bool
  garbage :: bytes         \<comment> \<open>what a read through a dead address yields\<close>

record 'v task =
  func :: 'v
  serializedFunc :: "nat option"
  serializedFuncSize :: nat
  result :: "'v option"
  error :: "'v option"
  isResolved :: bool
  isRejected :: bool
  thenCallback :: "'v option"
  catchCallback :: "'v option"
  serializedResult :: "nat option"
  serializedResultSize :: nat
  hasError :: bool

datatype callback = Reject_message string | Deliver

datatype 'v settle = Resolve "'v option" | Reject "string + 'v"

record 'v world =
  heap :: "nat \<Rightarrow> bytes option"
  next_addr :: nat
  bad_frees :: nat
  stale_uses :: nat
  shared :: "'v task option"
  job :: bool                     \<comment> \<open>the pool still holds the job\<close>
  obj :: "'v task option"         \<comment> \<open>the copy behind the JavaScript object\<close>
  functions_live :: bool          \<comment> \<open>\<open>resolve\<close> and \<open>reject\<close> have not been released\<close>
  events :: "callback list"
  settles :: "'v settle list"
  user_calls :: "('v \<times> 'v) list"

section \<open>The heap of the main runtime\<close>

definition js_free_rt :: "nat option \<Rightarrow> 'v world \<Rightarrow> 'v world" where
  "js_free_rt p w = (case p of
     None \<Rightarrow> w
   | Some a \<Rightarrow>
       (case heap w a of
          None \<Rightarrow> w\<lparr>bad_frees := bad_frees w + 1\<rparr>
        | Some _ \<Rightarrow> w\<lparr>heap := (heap w)(a := None)\<rparr>))"

definition js_malloc_rt :: "bytes \<Rightarrow> 'v world \<Rightarrow> nat \<times> 'v world" where
  "js_malloc_rt bs w =
     (next_addr w, w\<lparr>heap := (heap w)(next_addr w := Some bs), next_addr := next_addr w + 1\<rparr>)"

definition deref :: "bytes \<Rightarrow> nat option \<Rightarrow> 'v world \<Rightarrow> bytes \<times> 'v world" where
  "deref junk p w = (case p of
     None \<Rightarrow> ([], w)
   | Some a \<Rightarrow>
       (case heap w a of
          Some bs \<Rightarrow> (bs, w)
        | None \<Rightarrow> (junk, w\<lparr>stale_uses := stale_uses w + 1\<rparr>)))"

section \<open>Constructor and finalizer\<close>

definition new_task :: "'v \<Rightarrow> nat \<Rightarrow> nat \<Rightarrow> 'v task" where
  "new_task f a n = \<lparr>func = f, serializedFunc = Some a, serializedFuncSize = n, result = None,
     error = None, isResolved = False, isRejected = False, thenCallback = None,
     catchCallback = None, serializedResult = None, serializedResultSize = 0, hasError = False\<rparr>"

definition empty_world :: "'v world" where
  "empty_world = \<lparr>heap = (\<lambda>_. None), next_addr = 0, bad_frees = 0, stale_uses = 0, shared = None,
     job = False, obj = None, functions_live = False, events = [], settles = [], user_calls = []\<rparr>"

text \<open>\<open>None\<close>: a TypeError is thrown and no Deferred exists. The constructor's own reference to the
  shared task dies when it returns; the pool's job keeps the task alive.\<close>

definition Deferred_constructor :: "'v engine \<Rightarrow> bool \<Rightarrow> bool \<Rightarrow> 'v list \<Rightarrow> 'v world option" where
  "Deferred_constructor eng wrapper malloc args = (case args of
     [] \<Rightarrow> None
   | f # _ \<Rightarrow>
       if \<not> is_function eng f then None
       else if \<not> wrapper then None
       else if write_object eng f = [] then None
       else if \<not> malloc then None
       else
         (let (a, w) = js_malloc_rt (write_object eng f) empty_world;
              t = new_task f a (length (write_object eng f))
          in Some (w\<lparr>shared := Some t, obj := Some t, functions_live := True, job := True\<rparr>)))"

definition Deferred_finalizer :: "'v world \<Rightarrow> 'v world" where
  "Deferred_finalizer w = (case obj w of
     None \<Rightarrow> w
   | Some t \<Rightarrow>
       js_free_rt (serializedResult t) (js_free_rt (serializedFunc t)
         (w\<lparr>functions_live := False, obj := None\<rparr>)))"

text \<open>\<open>~DeferredTask\<close> of the shared copy, when its last holder lets go of it.\<close>

definition release :: "'v world \<Rightarrow> 'v world" where
  "release w = (case shared w of
     None \<Rightarrow> w
   | Some t \<Rightarrow>
       if job w \<or> events w \<noteq> [] then w
       else js_free_rt (serializedResult t) (js_free_rt (serializedFunc t) (w\<lparr>shared := None\<rparr>)))"

section \<open>then and catch\<close>

text \<open>\<open>None\<close>: a TypeError.\<close>

definition Deferred_then :: "'v engine \<Rightarrow> 'v list \<Rightarrow> 'v world \<Rightarrow> 'v world option" where
  "Deferred_then eng args w = (case args of
     [] \<Rightarrow> None
   | f # _ \<Rightarrow>
       if \<not> is_function eng f then None
       else (case obj w of
          None \<Rightarrow> None
        | Some t \<Rightarrow>
            (let w1 = w\<lparr>obj := Some (t\<lparr>thenCallback := Some f\<rparr>)\<rparr> in
             Some (case result t of
               Some v \<Rightarrow> if isResolved t then w1\<lparr>user_calls := user_calls w1 @ [(f, v)]\<rparr> else w1
             | None \<Rightarrow> w1))))"

definition Deferred_catch :: "'v engine \<Rightarrow> 'v list \<Rightarrow> 'v world \<Rightarrow> 'v world option" where
  "Deferred_catch eng args w = (case args of
     [] \<Rightarrow> None
   | f # _ \<Rightarrow>
       if \<not> is_function eng f then None
       else (case obj w of
          None \<Rightarrow> None
        | Some t \<Rightarrow>
            (let w1 = w\<lparr>obj := Some (t\<lparr>catchCallback := Some f\<rparr>)\<rparr> in
             Some (case error t of
               Some v \<Rightarrow> if isRejected t then w1\<lparr>user_calls := user_calls w1 @ [(f, v)]\<rparr> else w1
             | None \<Rightarrow> w1))))"

section \<open>The worker\<close>

definition enqueueCallback :: "callback \<Rightarrow> 'v world \<Rightarrow> 'v world" where
  "enqueueCallback c w = w\<lparr>events := events w @ [c]\<rparr>"

definition set_task :: "'v task \<Rightarrow> 'v world \<Rightarrow> 'v world" where
  "set_task t w = w\<lparr>shared := Some t\<rparr>"

text \<open>After the call: store the serialised exception or result in the main runtime's memory.\<close>

definition store_exception :: "'v engine \<Rightarrow> luck \<Rightarrow> 'v task \<Rightarrow> 'v \<Rightarrow> 'v world \<Rightarrow> 'v world" where
  "store_exception eng lk t ex w =
     (let t1 = t\<lparr>hasError := True\<rparr>; bs = write_object eng ex in
      if bs \<noteq> [] then
        (if malloc_ok lk then
           (let (a, w1) = js_malloc_rt bs w
            in set_task (t1\<lparr>serializedResult := Some a, serializedResultSize := length bs\<rparr>) w1)
         else enqueueCallback (Reject_message ''Function execution failed (serialization error)'')
           (set_task t1 w))
      else enqueueCallback (Reject_message ''Function execution failed (serialization error)'')
        (set_task t1 w))"

definition store_result :: "'v engine \<Rightarrow> luck \<Rightarrow> 'v task \<Rightarrow> 'v \<Rightarrow> 'v world \<Rightarrow> 'v world" where
  "store_result eng lk t v w =
     (let bs = write_object eng v in
      if bs \<noteq> [] \<and> malloc_ok lk then
        (let (a, w1) = js_malloc_rt bs w
         in set_task (t\<lparr>serializedResult := Some a, serializedResultSize := length bs,
              hasError := False\<rparr>) w1)
      else set_task (t\<lparr>serializedResult := None, serializedResultSize := 0, hasError := False\<rparr>) w)"

definition worker_body :: "'v engine \<Rightarrow> luck \<Rightarrow> 'v task \<Rightarrow> 'v world \<Rightarrow> 'v world" where
  "worker_body eng lk t w =
     (let (bs, w1) = deref (garbage lk) (serializedFunc t) w in
      case read_worker eng bs of
        Inl msg \<Rightarrow> enqueueCallback (Reject_message msg) (set_task (t\<lparr>hasError := True\<rparr>) w1)
      | Inr f \<Rightarrow>
          enqueueCallback Deliver
            (case call0 eng f of
               Inl ex \<Rightarrow> store_exception eng lk t ex w1
             | Inr v \<Rightarrow> store_result eng lk t v w1))"

definition workerThreadExecution :: "'v engine \<Rightarrow> luck \<Rightarrow> 'v world \<Rightarrow> 'v world" where
  "workerThreadExecution eng lk w = (case shared w of
     None \<Rightarrow> w
   | Some t \<Rightarrow>
       release ((if \<not> have_context lk \<and> \<not> runtime_ok lk then
            enqueueCallback (Reject_message ''Failed to create worker thread runtime'')
              (set_task (t\<lparr>hasError := True, serializedResultSize := 0\<rparr>) w)
          else if \<not> have_context lk \<and> \<not> context_ok lk then
            enqueueCallback (Reject_message ''Failed to create worker thread context'')
              (set_task (t\<lparr>hasError := True\<rparr>) w)
          else worker_body eng lk t w)\<lparr>job := False\<rparr>))"

section \<open>The posted callbacks\<close>

text \<open>\<open>JS_Call\<close> of \<open>task->resolve\<close> or \<open>task->reject\<close>, which may have been released by then.\<close>

definition settle_call :: "'v settle \<Rightarrow> 'v world \<Rightarrow> 'v world" where
  "settle_call c w = w\<lparr>settles := settles w @ [c],
     stale_uses := (if functions_live w then stale_uses w else stale_uses w + 1)\<rparr>"

definition deliver :: "'v engine \<Rightarrow> 'v task \<Rightarrow> 'v world \<Rightarrow> 'v world" where
  "deliver eng t w =
     (let (bs, w1) = deref [] (serializedResult t) w;
          w2 = settle_call
            (if hasError t then
               (if serializedResult t \<noteq> None \<and> 0 < serializedResultSize t then
                  (case read_main eng bs of
                     Some v \<Rightarrow> Reject (Inr v)
                   | None \<Rightarrow> Reject (Inl ''Function execution failed''))
                else Reject (Inl ''Function execution failed''))
             else
               (if serializedResult t \<noteq> None \<and> 0 < serializedResultSize t then
                  (case read_main eng bs of Some v \<Rightarrow> Resolve (Some v) | None \<Rightarrow> Resolve None)
                else Resolve None)) w1
      in if serializedResult t \<noteq> None then
           set_task (t\<lparr>serializedResult := None, serializedResultSize := 0\<rparr>)
             (js_free_rt (serializedResult t) w2)
         else w2)"

text \<open>The event loop takes the first callback, runs it and drops it.\<close>

definition fire :: "'v engine \<Rightarrow> 'v world \<Rightarrow> 'v world" where
  "fire eng w = (case events w of
     [] \<Rightarrow> w
   | c # cs \<Rightarrow>
       (let w1 = w\<lparr>events := cs\<rparr> in
        release (case c of
          Reject_message m \<Rightarrow> settle_call (Reject (Inl m)) w1
        | Deliver \<Rightarrow> (case shared w1 of None \<Rightarrow> w1 | Some t \<Rightarrow> deliver eng t w1))))"

section \<open>Runs\<close>

text \<open>The pool thread, the event loop and the JavaScript program in any order. The garbage
  collector runs the finalizer once, when the program has dropped the object.\<close>

inductive deferred_step :: "'v engine \<Rightarrow> 'v world \<Rightarrow> 'v world \<Rightarrow> bool" for eng where
  Work: "job w \<Longrightarrow> deferred_step eng w (workerThreadExecution eng lk w)"
| Fire: "events w \<noteq> [] \<Longrightarrow> deferred_step eng w (fire eng w)"
| Then: "Deferred_then eng args w = Some w' \<Longrightarrow> deferred_step eng w w'"
| Catch: "Deferred_catch eng args w = Some w' \<Longrightarrow> deferred_step eng w w'"
| Collect: "obj w \<noteq> None \<Longrightarrow> deferred_step eng w (Deferred_finalizer w)"


section \<open>The invariant of a run\<close>

text \<open>\<open>a\<close> is the address of the bytecode, which both copies of the task hold.\<close>

definition obj_ok :: "nat \<Rightarrow> 'v task \<Rightarrow> bool" where
  "obj_ok a t \<longleftrightarrow> serializedFunc t = Some a \<and> serializedResult t = None \<and>
     \<not> isResolved t \<and> \<not> isRejected t"

definition events_ok :: "callback list \<Rightarrow> bool" where
  "events_ok es \<longleftrightarrow> es = [] \<or> (\<exists>m. es = [Reject_message m]) \<or> es = [Deliver] \<or>
     (\<exists>m. es = [Reject_message m, Deliver])"

definition result_ok :: "nat \<Rightarrow> (nat \<Rightarrow> bytes option) \<Rightarrow> callback list \<Rightarrow> nat option \<Rightarrow> bool" where
  "result_ok a h es r = (case r of
     None \<Rightarrow> (\<forall>b. b \<noteq> a \<longrightarrow> h b = None)
   | Some b \<Rightarrow> es = [Deliver] \<and> b \<noteq> a \<and> h b \<noteq> None \<and> (\<forall>c. c \<noteq> a \<and> c \<noteq> b \<longrightarrow> h c = None))"

definition shared_ok :: "nat \<Rightarrow> (nat \<Rightarrow> bytes option) \<Rightarrow> callback list \<Rightarrow> bool \<Rightarrow> 'v task option \<Rightarrow> bool" where
  "shared_ok a h es j sh = (case sh of
     None \<Rightarrow> (\<forall>b. b \<noteq> a \<longrightarrow> h b = None) \<and> \<not> j \<and> es = []
   | Some t \<Rightarrow> serializedFunc t = Some a \<and> result_ok a h es (serializedResult t) \<and>
       (j \<or> es \<noteq> []) \<and> (j \<longrightarrow> serializedResult t = None))"

definition deferred_inv :: "nat \<Rightarrow> 'v world \<Rightarrow> bool" where
  "deferred_inv a w \<longleftrightarrow>
     (heap w a = None \<longleftrightarrow> obj w = None \<or> shared w = None) \<and>
     bad_frees w = (if obj w = None \<and> shared w = None then 1 else 0) \<and>
     pred_option (obj_ok a) (obj w) \<and> a < next_addr w \<and>
     shared_ok a (heap w) (events w) (job w) (shared w) \<and>
     (job w \<longrightarrow> events w = [] \<and> settles w = []) \<and>
     (\<not> job w \<longrightarrow> length (settles w) + length (events w) \<in> {1, 2}) \<and>
     events_ok (events w) \<and> user_calls w = []"

lemmas deferred_prims = js_free_rt_def js_malloc_rt_def deref_def enqueueCallback_def set_task_def
  settle_call_def release_def Let_def split_beta

lemma deferred_inv_start:
  "Deferred_constructor eng wr ml args = Some w \<Longrightarrow> deferred_inv 0 w"
  by (auto simp: Deferred_constructor_def deferred_prims empty_world_def new_task_def
      deferred_inv_def obj_ok_def events_ok_def shared_ok_def result_ok_def
      split: list.splits if_splits)

lemma js_free_rt_simps [simp]:
  "js_free_rt None w = w"
  "heap w a = None \<Longrightarrow> js_free_rt (Some a) w = w\<lparr>bad_frees := bad_frees w + 1\<rparr>"
  "heap w a = Some bs \<Longrightarrow> js_free_rt (Some a) w = w\<lparr>heap := (heap w)(a := None)\<rparr>"
  by (simp_all add: js_free_rt_def)

lemma shared_ok_free:
  "shared_ok a h es j (Some t) \<Longrightarrow> shared_ok a (h(a := x)) es j (Some t)"
  by (auto simp: shared_ok_def result_ok_def split: option.splits)

lemma deferred_inv_finalizer:
  assumes "deferred_inv a w"
  shows "deferred_inv a (Deferred_finalizer w)"
proof (cases "obj w")
  case None
  with assms show ?thesis by (simp add: Deferred_finalizer_def)
next
  case (Some t)
  then have t: "serializedFunc t = Some a" "serializedResult t = None"
    using assms by (auto simp: deferred_inv_def obj_ok_def)
  show ?thesis
  proof (cases "shared w")
    case None
    with Some assms t show ?thesis
      by (simp add: deferred_inv_def Deferred_finalizer_def)
  next
    case (Some u)
    with \<open>obj w = Some t\<close> assms obtain bs where "heap w a = Some bs"
      by (auto simp: deferred_inv_def)
    with Some \<open>obj w = Some t\<close> assms t show ?thesis
      by (auto simp: deferred_inv_def Deferred_finalizer_def intro: shared_ok_free)
  qed
qed

lemma deferred_inv_obj:
  assumes "deferred_inv a w" and "obj w \<noteq> None" and "obj_ok a t"
  shows "deferred_inv a (w\<lparr>obj := Some t\<rparr>)"
proof -
  obtain t0 where "obj w = Some t0" using assms(2) by auto
  with assms(1,3) show ?thesis by (simp add: deferred_inv_def)
qed

lemma Deferred_then_obj:
  assumes "Deferred_then eng args w = Some w'" and "deferred_inv a w"
  shows "\<exists>t. w' = w\<lparr>obj := Some t\<rparr> \<and> obj w \<noteq> None \<and> obj_ok a t"
proof -
  obtain f fs t where *: "args = f # fs" "obj w = Some t" "is_function eng f"
    using assms(1) by (auto simp: Deferred_then_def split: list.splits if_splits option.splits)
  then have "obj_ok a t" using assms(2) by (simp add: deferred_inv_def)
  with * assms(1) show ?thesis
    by (cases "result t") (auto simp: Deferred_then_def obj_ok_def Let_def)
qed

lemma Deferred_catch_obj:
  assumes "Deferred_catch eng args w = Some w'" and "deferred_inv a w"
  shows "\<exists>t. w' = w\<lparr>obj := Some t\<rparr> \<and> obj w \<noteq> None \<and> obj_ok a t"
proof -
  obtain f fs t where *: "args = f # fs" "obj w = Some t" "is_function eng f"
    using assms(1) by (auto simp: Deferred_catch_def split: list.splits if_splits option.splits)
  then have "obj_ok a t" using assms(2) by (simp add: deferred_inv_def)
  with * assms(1) show ?thesis
    by (cases "error t") (auto simp: Deferred_catch_def obj_ok_def Let_def)
qed

text \<open>The two states a run of the worker can leave, before the job lets go of the task.\<close>

definition posted :: "'v task \<Rightarrow> 'v world \<Rightarrow> 'v world \<Rightarrow> bool" where
  "posted t w w' \<longleftrightarrow> (\<exists>s t' es. serializedResult t' = None \<and> serializedFunc t' = serializedFunc t \<and>
     es \<noteq> [] \<and> events_ok es \<and>
     w' = w\<lparr>stale_uses := s, shared := Some t', events := es, job := False\<rparr>)"

definition stored :: "'v task \<Rightarrow> 'v world \<Rightarrow> 'v world \<Rightarrow> bool" where
  "stored t w w' \<longleftrightarrow> (\<exists>s t' bs. serializedResult t' = Some (next_addr w) \<and>
     serializedFunc t' = serializedFunc t \<and>
     w' = w\<lparr>heap := (heap w)(next_addr w := Some bs), next_addr := next_addr w + 1,
       stale_uses := s, shared := Some t', events := [Deliver], job := False\<rparr>)"

lemma deref_stale: "\<exists>s. snd (deref g p w) = w\<lparr>stale_uses := s\<rparr>"
proof -
  have "\<exists>s. w = w\<lparr>stale_uses := s\<rparr>" by (rule exI [of _ "stale_uses w"]) simp
  then show ?thesis
    by (auto simp: deref_def split: option.splits)
qed

lemma events_ok_simps [simp]:
  "events_ok []" "events_ok [Reject_message m]" "events_ok [Deliver]"
  "events_ok [Reject_message m, Deliver]"
  by (simp_all add: events_ok_def)

lemma worker_body_shape:
  assumes "job w" and "events w = []" and "serializedResult t = None"
  shows "posted t w ((worker_body eng lk t w)\<lparr>job := False\<rparr>) \<or>
    stored t w ((worker_body eng lk t w)\<lparr>job := False\<rparr>)"
proof -
  obtain s where s: "snd (deref (garbage lk) (serializedFunc t) w) = w\<lparr>stale_uses := s\<rparr>"
    using deref_stale by blast
  define bs where "bs = fst (deref (garbage lk) (serializedFunc t) w)"
  have wb: "worker_body eng lk t w = (case read_worker eng bs of
        Inl msg \<Rightarrow> enqueueCallback (Reject_message msg) (set_task (t\<lparr>hasError := True\<rparr>) (w\<lparr>stale_uses := s\<rparr>))
      | Inr f \<Rightarrow>
          enqueueCallback Deliver
            (case call0 eng f of
               Inl ex \<Rightarrow> store_exception eng lk t ex (w\<lparr>stale_uses := s\<rparr>)
             | Inr v \<Rightarrow> store_result eng lk t v (w\<lparr>stale_uses := s\<rparr>)))"
    by (simp add: worker_body_def split_beta s bs_def)
  show ?thesis
  proof (cases "read_worker eng bs")
    case (Inl msg)
    then show ?thesis
      unfolding wb posted_def using assms
      by (intro disjI1 exI [of _ s] exI [of _ "t\<lparr>hasError := True\<rparr>"] exI [of _ "[Reject_message msg]"])
        (simp add: enqueueCallback_def set_task_def)
  next
    case f: (Inr f)
    show ?thesis
    proof (cases "call0 eng f")
      case (Inl ex)
      show ?thesis
      proof (cases "write_object eng ex \<noteq> [] \<and> malloc_ok lk")
        case True
        then show ?thesis unfolding wb stored_def using assms f Inl
          by (intro disjI2 exI [of _ s] exI [of _ "t\<lparr>hasError := True, serializedResult := Some (next_addr w),
                serializedResultSize := length (write_object eng ex)\<rparr>"] exI [of _ "write_object eng ex"])
            (simp add: enqueueCallback_def set_task_def store_exception_def js_malloc_rt_def Let_def)
      next
        case False
        then show ?thesis unfolding wb posted_def using assms f Inl
          by (intro disjI1 exI [of _ s] exI [of _ "t\<lparr>hasError := True\<rparr>"]
              exI [of _ "[Reject_message ''Function execution failed (serialization error)'', Deliver]"])
            (auto simp: enqueueCallback_def set_task_def store_exception_def Let_def)
      qed
    next
      case (Inr v)
      show ?thesis
      proof (cases "write_object eng v \<noteq> [] \<and> malloc_ok lk")
        case True
        then show ?thesis unfolding wb stored_def using assms f Inr
          by (intro disjI2 exI [of _ s] exI [of _ "t\<lparr>serializedResult := Some (next_addr w),
                serializedResultSize := length (write_object eng v), hasError := False\<rparr>"]
                exI [of _ "write_object eng v"])
            (simp add: enqueueCallback_def set_task_def store_result_def js_malloc_rt_def Let_def)
      next
        case False
        then show ?thesis unfolding wb posted_def using assms f Inr
          by (intro disjI1 exI [of _ s] exI [of _ "t\<lparr>serializedResult := None, serializedResultSize := 0,
                hasError := False\<rparr>"] exI [of _ "[Deliver]"])
            (auto simp: enqueueCallback_def set_task_def store_result_def Let_def)
      qed
    qed
  qed
qed

lemma release_waiting [simp]: "job w \<or> events w \<noteq> [] \<Longrightarrow> release w = w"
  by (auto simp: release_def split: option.splits)

lemma worker_shape:
  assumes "job w" and "events w = []" and "shared w = Some t" and "serializedResult t = None"
  shows "posted t w (workerThreadExecution eng lk w) \<or> stored t w (workerThreadExecution eng lk w)"
proof -
  let ?m1 = "Reject_message ''Failed to create worker thread runtime''"
    and ?m2 = "Reject_message ''Failed to create worker thread context''"
  have wst: "w = w\<lparr>stale_uses := stale_uses w\<rparr>" by simp
  consider (rt) "\<not> have_context lk" "\<not> runtime_ok lk"
    | (cx) "\<not> have_context lk" "runtime_ok lk" "\<not> context_ok lk"
    | (body) "have_context lk \<or> runtime_ok lk \<and> context_ok lk" by blast
  then show ?thesis
  proof cases
    case rt
    then show ?thesis unfolding posted_def using assms
      by (intro disjI1 exI [of _ "stale_uses w"]
          exI [of _ "t\<lparr>hasError := True, serializedResultSize := 0\<rparr>"] exI [of _ "[?m1]"])
        (simp add: workerThreadExecution_def enqueueCallback_def set_task_def)
  next
    case cx
    then show ?thesis unfolding posted_def using assms
      by (intro disjI1 exI [of _ "stale_uses w"] exI [of _ "t\<lparr>hasError := True\<rparr>"] exI [of _ "[?m2]"])
        (simp add: workerThreadExecution_def enqueueCallback_def set_task_def)
  next
    case body
    let ?b = "(worker_body eng lk t w)\<lparr>job := False\<rparr>"
    have shape: "posted t w ?b \<or> stored t w ?b" using assms by (intro worker_body_shape)
    then have "events ?b \<noteq> []" by (auto simp: posted_def stored_def dest!: arg_cong [where f = events])
    then have "workerThreadExecution eng lk w = ?b"
      using body assms(3) by (auto simp: workerThreadExecution_def)
    with shape show ?thesis by simp
  qed
qed

lemma deferred_inv_worker:
  assumes "deferred_inv a w" and "job w"
  shows "deferred_inv a (workerThreadExecution eng lk w)"
proof -
  obtain t where t: "shared w = Some t" "serializedResult t = None" "serializedFunc t = Some a"
      "events w = []" "settles w = []" "\<forall>b. b \<noteq> a \<longrightarrow> heap w b = None"
    using assms by (auto simp: deferred_inv_def shared_ok_def result_ok_def split: option.splits)
  have len: "length es = Suc 0" if "events_ok es" "es \<noteq> []" "length es \<noteq> 2" for es
    using that by (auto simp: events_ok_def)
  from worker_shape [OF assms(2) t(4,1,2), of eng lk] show ?thesis
  proof
    assume "posted t w (workerThreadExecution eng lk w)"
    with assms t len show ?thesis
      by (auto simp: posted_def deferred_inv_def shared_ok_def result_ok_def)
  next
    assume "stored t w (workerThreadExecution eng lk w)"
    with assms t show ?thesis
      by (auto simp: stored_def deferred_inv_def shared_ok_def result_ok_def)
  qed
qed

text \<open>A posted callback, by the kind of the first one.\<close>

lemma deferred_inv_pop_message:
  assumes "deferred_inv a w" and "events w = Reject_message m # es"
  shows "deferred_inv a (release (settle_call c (w\<lparr>events := es\<rparr>)))"
proof -
  obtain t where t: "shared w = Some t" "serializedResult t = None" "serializedFunc t = Some a" "\<not> job w"
      "\<forall>b. b \<noteq> a \<longrightarrow> heap w b = None" "es = [] \<or> es = [Deliver]"
    using assms by (auto simp: deferred_inv_def shared_ok_def result_ok_def events_ok_def split: option.splits)
  show ?thesis
  proof (cases "es = []")
    case False
    with t assms show ?thesis
      by (auto simp: settle_call_def deferred_inv_def shared_ok_def result_ok_def)
  next
    case True
    with t assms show ?thesis
      by (cases "obj w"; cases "heap w a")
        (auto simp: settle_call_def release_def deferred_inv_def shared_ok_def)
  qed
qed

lemma deferred_inv_deliver:
  assumes "deferred_inv a w" and "events w = [Deliver]" and t: "shared w = Some t"
  shows "deferred_inv a (release (deliver eng t (w\<lparr>events := []\<rparr>)))"
proof -
  have job: "\<not> job w" using assms by (auto simp: deferred_inv_def)
  have f: "serializedFunc t = Some a" using assms by (auto simp: deferred_inv_def shared_ok_def)
  show ?thesis
  proof (cases "serializedResult t")
    case None
    with assms job f show ?thesis
      by (cases "obj w"; cases "heap w a")
        (auto simp: deliver_def deref_def settle_call_def release_def deferred_inv_def shared_ok_def
          result_ok_def Let_def)
  next
    case (Some b)
    with assms job f obtain bs where b: "b \<noteq> a" "heap w b = Some bs" "\<forall>c. c \<noteq> a \<and> c \<noteq> b \<longrightarrow> heap w c = None"
      by (auto simp: deferred_inv_def shared_ok_def result_ok_def)
    with Some assms job f show ?thesis
      by (cases "obj w"; cases "heap w a")
        (auto simp: deliver_def deref_def settle_call_def set_task_def release_def deferred_inv_def
          shared_ok_def Let_def)
  qed
qed

lemma deferred_inv_fire:
  assumes "deferred_inv a w" and "events w \<noteq> []"
  shows "deferred_inv a (fire eng w)"
proof -
  obtain t where t: "shared w = Some t"
    using assms by (auto simp: deferred_inv_def shared_ok_def split: option.splits)
  obtain c cs where e: "events w = c # cs" using assms(2) by (cases "events w") auto
  show ?thesis
  proof (cases c)
    case (Reject_message m)
    with e deferred_inv_pop_message [OF assms(1), of m cs] show ?thesis by (simp add: fire_def Let_def)
  next
    case Deliver
    then have "cs = []" using e assms(1) by (auto simp: deferred_inv_def events_ok_def)
    with Deliver e t deferred_inv_deliver [OF assms(1) _ t, of eng] show ?thesis
      by (simp add: fire_def Let_def)
  qed
qed

lemma deferred_inv_step: "\<lbrakk>deferred_step eng w w'; deferred_inv a w\<rbrakk> \<Longrightarrow> deferred_inv a w'"
proof (induction rule: deferred_step.induct)
  case (Then args w w')
  then show ?case using Deferred_then_obj deferred_inv_obj by metis
next
  case (Catch args w w')
  then show ?case using Deferred_catch_obj deferred_inv_obj by metis
qed (auto intro: deferred_inv_worker deferred_inv_fire deferred_inv_finalizer)

lemma deferred_inv_run:
  assumes "Deferred_constructor eng wr ml args = Some w0" and "(deferred_step eng)\<^sup>*\<^sup>* w0 w"
  shows "deferred_inv 0 w"
  using assms(2) deferred_inv_start [OF assms(1)] by induction (blast dest: deferred_inv_step)+


section \<open>Properties\<close>

text \<open>An engine for the witnesses: a value is a number, serialised as that many bytes plus one; a
  call adds 1, except that 9 raises an exception that does not serialise.\<close>

definition example_engine :: "nat engine" where
  "example_engine = \<lparr>is_function = (\<lambda>_. True),
     write_object = (\<lambda>n. if n = 99 then [] else replicate (n + 1) 0),
     read_worker = (\<lambda>bs. Inr (length bs - 1)), read_main = (\<lambda>bs. Some (length bs - 1)),
     call0 = (\<lambda>n. if n = 9 then Inl 99 else Inr (n + 1))\<rparr>"

definition good_luck :: luck where
  "good_luck = \<lparr>have_context = False, runtime_ok = True, context_ok = True, malloc_ok = True,
     garbage = []\<rparr>"

definition example_start :: "nat \<Rightarrow> nat world" where
  "example_start n = the (Deferred_constructor example_engine True True [n])"

lemma example_start:
  "Deferred_constructor example_engine True True [4] = Some (example_start 4)"
  "Deferred_constructor example_engine True True [9] = Some (example_start 9)"
  by (simp_all add: example_start_def Deferred_constructor_def example_engine_def js_malloc_rt_def Let_def)

definition example_end :: "nat world" where
  "example_end = Deferred_finalizer (fire example_engine
     (workerThreadExecution example_engine good_luck (example_start 4)))"

lemmas example_run = example_start_def Deferred_constructor_def example_engine_def good_luck_def
  empty_world_def new_task_def workerThreadExecution_def worker_body_def store_result_def
  store_exception_def fire_def deliver_def deferred_prims

lemma example_states:
  "job (example_start 4)" "events (workerThreadExecution example_engine good_luck (example_start 4)) = [Deliver]"
  "obj (fire example_engine (workerThreadExecution example_engine good_luck (example_start 4))) \<noteq> None"
  "obj example_end = None" "shared example_end = None"
  by (simp_all add: example_end_def Deferred_finalizer_def example_run)

lemma example_reach: "(deferred_step example_engine)\<^sup>*\<^sup>* (example_start 4) example_end"
proof -
  let ?w = "workerThreadExecution example_engine good_luck (example_start 4)"
  have "deferred_step example_engine (example_start 4) ?w"
    by (rule deferred_step.Work) (rule example_states)
  moreover have "deferred_step example_engine ?w (fire example_engine ?w)"
    by (rule deferred_step.Fire) (simp add: example_states)
  moreover have "deferred_step example_engine (fire example_engine ?w) example_end"
    unfolding example_end_def by (rule deferred_step.Collect) (rule example_states)
  ultimately show ?thesis
    by (meson converse_rtranclp_into_rtranclp rtranclp.rtrancl_refl)
qed

text \<open>in every run of a Deferred, in any order of worker, event loop, program and collector, a
  bad free happens exactly when both copies of the task are gone: the destructor of one copy frees
  the bytecode buffer that the other has already freed. No other free is bad.\<close>

theorem deferred_double_free:
  assumes "Deferred_constructor eng wr ml args = Some w0" and "(deferred_step eng)\<^sup>*\<^sup>* w0 w"
  shows "bad_frees w = (if obj w = None \<and> shared w = None then 1 else 0)"
  using deferred_inv_run [OF assms] by (simp add: deferred_inv_def)

lemma deferred_double_free_witness: "bad_frees example_end = 1"
  using deferred_double_free [OF example_start(1) example_reach] by (simp add: example_states)

text \<open>no function given to \<open>then\<close> or \<open>catch\<close> is ever called, and no Deferred is ever marked
  resolved or rejected, whatever the worker returns and whenever the callbacks are attached.\<close>

theorem deferred_callbacks_never_run:
  assumes "Deferred_constructor eng wr ml args = Some w0" and "(deferred_step eng)\<^sup>*\<^sup>* w0 w"
  shows "user_calls w = [] \<and> (\<forall>t. obj w = Some t \<longrightarrow> \<not> isResolved t \<and> \<not> isRejected t)"
  using deferred_inv_run [OF assms] by (auto simp: deferred_inv_def obj_ok_def)

lemma deferred_callbacks_never_run_witness: "user_calls example_end = []"
  using deferred_callbacks_never_run [OF example_start(1) example_reach] by simp

text \<open>C9: no run leaks a buffer, and every run settles. When both copies of the task are gone, the
  heap is empty; once the job is done and its callbacks have run, resolve or reject has been called
  once or twice, never more.\<close>

theorem deferred_settles_and_frees:
  assumes "Deferred_constructor eng wr ml args = Some w0" and "(deferred_step eng)\<^sup>*\<^sup>* w0 w"
  shows "(obj w = None \<and> shared w = None \<longrightarrow> (\<forall>b. heap w b = None)) \<and>
    (shared w = None \<longrightarrow> length (settles w) \<in> {1, 2}) \<and> length (settles w) \<le> 2"
proof -
  have i: "deferred_inv 0 w" using deferred_inv_run [OF assms] .
  have "heap w b = None" if "obj w = None" "shared w = None" for b
    using i that by (cases "b = 0") (auto simp: deferred_inv_def shared_ok_def)
  moreover have "length (settles w) \<le> 2" using i by (cases "job w") (auto simp: deferred_inv_def)
  moreover have "length (settles w) \<in> {1, 2}" if "shared w = None"
    using i that by (auto simp: deferred_inv_def shared_ok_def)
  ultimately show ?thesis by blast
qed

lemma deferred_settles_and_frees_witness:
  "(\<forall>b. heap example_end b = None) \<and> length (settles example_end) \<in> {1, 2}"
  using deferred_settles_and_frees [OF example_start(1) example_reach] by (simp add: example_states)

text \<open>C10: delivery. When the function runs in the worker and its value survives serialisation, the
  worker followed by the event loop calls resolve once, with the value read back, and touches no
  dead memory.\<close>

theorem deferred_delivers:
  assumes "Deferred_constructor eng wr ml (f # fs) = Some w0"
    and "have_context lk \<or> runtime_ok lk \<and> context_ok lk" and "malloc_ok lk"
    and "read_worker eng (write_object eng f) = Inr g" and "call0 eng g = Inr v"
    and "write_object eng v \<noteq> []" and "read_main eng (write_object eng v) = Some v'"
  shows "settles (fire eng (workerThreadExecution eng lk w0)) = [Resolve (Some v')] \<and>
    stale_uses (fire eng (workerThreadExecution eng lk w0)) = 0 \<and>
    shared (fire eng (workerThreadExecution eng lk w0)) = None"
  using assms
  by (auto simp: Deferred_constructor_def empty_world_def new_task_def workerThreadExecution_def
      worker_body_def store_result_def fire_def deliver_def deferred_prims split: if_splits)

lemma deferred_delivers_witness:
  "settles (fire example_engine (workerThreadExecution example_engine good_luck (example_start 4)))
     = [Resolve (Some 5)]"
  using deferred_delivers [of example_engine True True 4 "[]" "example_start 4" good_luck 4 5 5]
    example_start(1)
  by (simp add: example_engine_def good_luck_def)

text \<open>A function that throws something that does not serialise rejects twice: the worker posts
  the fallback message and then, having left the branch, the ordinary delivery too.\<close>

theorem deferred_rejects_twice:
  assumes "Deferred_constructor eng wr ml (f # fs) = Some w0"
    and "have_context lk \<or> runtime_ok lk \<and> context_ok lk"
    and "read_worker eng (write_object eng f) = Inr g" and "call0 eng g = Inl ex"
    and "write_object eng ex = []"
  shows "settles (fire eng (fire eng (workerThreadExecution eng lk w0))) =
    [Reject (Inl ''Function execution failed (serialization error)''),
     Reject (Inl ''Function execution failed'')]"
  using assms
  by (auto simp: Deferred_constructor_def empty_world_def new_task_def workerThreadExecution_def
      worker_body_def store_exception_def fire_def deliver_def deferred_prims split: if_splits)

lemma deferred_rejects_twice_witness:
  "length (settles (fire example_engine (fire example_engine
     (workerThreadExecution example_engine good_luck (example_start 9))))) = 2"
  using deferred_rejects_twice [of example_engine True True 9 "[]" "example_start 9" good_luck 9 99]
    example_start(2)
  by (simp add: example_engine_def good_luck_def)

end
