(* ===== verification/Buffer.thy ===== *)
theory Buffer
  imports Prelude
begin

text \<open>
  Models \<open>src/modules/buffer/BufferModule.cpp\<close>, the \<open>Buffer\<close> class of the runtime.

  \<^item> The store is the list of all buffers; a buffer is its bytes, a \<open>string\<close>. The arguments of a
    native function are a list of \<open>jsarg\<close>, a number being its integral part.
  \<^item> \<open>int\<close>, \<open>unsigned long\<close> and \<open>size_t\<close> arithmetic is written with the wrap-around of the code's
    conversions (\<open>to_int32\<close>, \<open>mod 2 ^ 64\<close>).
  \<^item> \<open>memcpy\<close> and \<open>memset\<close> outside a buffer, and a \<open>memcpy\<close> whose regions overlap, have no defined
    result in C++: the outcome \<open>Undefined\<close>.
  \<^item> protoCore's \<open>newBuffer\<close> is a parameter, \<open>fresh n\<close>: the bytes of a new buffer of that size, which
    the code does not rely on; \<open>fresh_ok\<close> says that the size is as asked for. \<open>JS_ToInt32\<close> on
    something that is not a number is the parameter \<open>coerce\<close> (\<open>None\<close>: an exception).
\<close>

datatype jsarg = Undef | Num int | Str string | Buf nat | Arr "jsarg list" | Other

record buf_env =
  fresh :: "nat \<Rightarrow> string"
  coerce :: "jsarg \<Rightarrow> int option"
  wrapper :: bool                   \<comment> \<open>the context has its \<open>JSContextWrapper\<close>\<close>

definition fresh_ok :: "buf_env \<Rightarrow> bool" where
  "fresh_ok env \<longleftrightarrow> (\<forall>n. length (fresh env n) = n)"

datatype buf_result =
  Ret_buffer nat | Ret_bool bool | Ret_int int | Ret_string string
| Type_error string | Exception | Undefined

type_synonym buf_store = "string list"

section \<open>Machine integers, arguments and memory\<close>

definition to_int32 :: "int \<Rightarrow> int" where
  "to_int32 x = (x + 2147483648) mod 4294967296 - 2147483648"

definition JS_ToInt32 :: "buf_env \<Rightarrow> jsarg \<Rightarrow> int option" where
  "JS_ToInt32 env a = (case a of Num i \<Rightarrow> Some (to_int32 i) | _ \<Rightarrow> map_option to_int32 (coerce env a))"

text \<open>An optional number among the arguments: \<open>argc > i && JS_IsNumber(argv[i])\<close>.\<close>

definition int_arg :: "jsarg list \<Rightarrow> nat \<Rightarrow> int \<Rightarrow> int" where
  "int_arg args i d = (if i < length args then (case args ! i of Num n \<Rightarrow> to_int32 n | _ \<Rightarrow> d) else d)"

definition str_arg :: "jsarg list \<Rightarrow> nat \<Rightarrow> string \<Rightarrow> string" where
  "str_arg args i d = (if i < length args then (case args ! i of Str s \<Rightarrow> s | _ \<Rightarrow> d) else d)"

text \<open>A C string ends before its first NUL byte.\<close>

definition c_str :: "string \<Rightarrow> string" where
  "c_str s = takeWhile (\<lambda>c. c \<noteq> CHR 0x00) s"

definition byte_of :: "int \<Rightarrow> char" where
  "byte_of i = char_of (nat (i mod 256))"

text \<open>Reading or writing \<open>n\<close> bytes at \<open>start\<close>; no byte at all is always fine.\<close>

definition region_ok :: "string \<Rightarrow> int \<Rightarrow> int \<Rightarrow> bool" where
  "region_ok b start n \<longleftrightarrow> n = 0 \<or> (0 \<le> start \<and> 0 < n \<and> start + n \<le> int (length b))"

definition mem_read :: "string \<Rightarrow> int \<Rightarrow> int \<Rightarrow> string" where
  "mem_read b start n = take (nat n) (drop (nat start) b)"

definition mem_write :: "string \<Rightarrow> int \<Rightarrow> string \<Rightarrow> string" where
  "mem_write b start bs =
     (if bs = [] then b
      else take (nat start) b @ bs @ drop (nat start + length bs) b)"

section \<open>Encodings\<close>

definition isspace :: "char \<Rightarrow> bool" where
  "isspace c \<longleftrightarrow> c \<in> {CHR 0x09, CHR 0x0A, CHR 0x0B, CHR 0x0C, CHR 0x0D, CHR '' ''}"

definition hex_value :: "char \<Rightarrow> nat option" where
  "hex_value c =
     (if c \<in> set ''0123456789'' then Some (of_char c - 48)
      else if c \<in> set ''abcdef'' then Some (of_char c - 87)
      else if c \<in> set ''ABCDEF'' then Some (of_char c - 55) else None)"

fun hex_digits :: "nat \<Rightarrow> string \<Rightarrow> nat" where
  "hex_digits acc [] = acc"
| "hex_digits acc (c # cs) =
     (case hex_value c of None \<Rightarrow> acc | Some d \<Rightarrow> hex_digits (16 * acc + d) cs)"

text \<open>\<open>strtoul(hex, nullptr, 16)\<close>: white space, a sign, an optional \<open>0x\<close>, digits; a minus sign
  negates modulo \<open>2 ^ 64\<close>.\<close>

definition skip_0x :: "string \<Rightarrow> string" where
  "skip_0x s = (case s of
     a # b # c # r \<Rightarrow> if a = CHR ''0'' \<and> b \<in> set ''xX'' \<and> hex_value c \<noteq> None then c # r else s
   | _ \<Rightarrow> s)"

definition strtoul16 :: "string \<Rightarrow> int" where
  "strtoul16 s = (case dropWhile isspace s of
     [] \<Rightarrow> 0
   | c # r \<Rightarrow>
       if c = CHR ''-'' then (- int (hex_digits 0 (skip_0x r))) mod 2 ^ 64
       else if c = CHR ''+'' then int (hex_digits 0 (skip_0x r))
       else int (hex_digits 0 (skip_0x (c # r))))"

text \<open>The loop that decodes hexadecimal text two characters at a time; a last odd one is dropped.\<close>

fun decode_hex :: "string \<Rightarrow> string" where
  "decode_hex (a # b # r) = byte_of (strtoul16 (c_str [a, b])) # decode_hex r"
| "decode_hex _ = []"

definition hex_digit :: "nat \<Rightarrow> char" where
  "hex_digit n = ''0123456789abcdef'' ! n"

definition encode_hex :: "string \<Rightarrow> string" where
  "encode_hex bs = concat (map (\<lambda>c. [hex_digit (of_char c div 16), hex_digit (of_char c mod 16)]) bs)"

definition is_utf8_name :: "string \<Rightarrow> bool" where
  "is_utf8_name e \<longleftrightarrow> e = ''utf8'' \<or> e = ''utf-8''"

text \<open>The bytes of a string argument: UTF-8, any unknown encoding, or hexadecimal.\<close>

definition decode_arg :: "string \<Rightarrow> string \<Rightarrow> string" where
  "decode_arg s e =
     (if is_utf8_name (c_str e) then c_str s
      else if c_str e = ''hex'' then decode_hex (c_str s)
      else c_str s)"

definition base64_chars :: string where
  "base64_chars = ''ABCDEFGHIJKLMNOPQRSTUVWXYZabcdefghijklmnopqrstuvwxyz0123456789+/''"

text \<open>\<open>encodeStringHelper\<close> and \<open>decodeStringHelper\<close>, helpers that no other function calls.\<close>

fun encode_base64 :: "string \<Rightarrow> string" where
  "encode_base64 [] = []"
| "encode_base64 [a] =
     (let v = of_char a * 65536 :: nat in
      [base64_chars ! (v div 262144 mod 64), base64_chars ! (v div 4096 mod 64), CHR ''='', CHR ''=''])"
| "encode_base64 [a, b] =
     (let v = of_char a * 65536 + of_char b * 256 :: nat in
      [base64_chars ! (v div 262144 mod 64), base64_chars ! (v div 4096 mod 64),
       base64_chars ! (v div 64 mod 64), CHR ''=''])"
| "encode_base64 (a # b # c # r) =
     (let v = of_char a * 65536 + of_char b * 256 + of_char c :: nat in
      [base64_chars ! (v div 262144 mod 64), base64_chars ! (v div 4096 mod 64),
       base64_chars ! (v div 64 mod 64), base64_chars ! (v mod 64)] @ encode_base64 r)"

definition encodeStringHelper :: "string \<Rightarrow> string \<Rightarrow> string" where
  "encodeStringHelper d e =
     (if is_utf8_name e then d
      else if e = ''hex'' then encode_hex d
      else if e = ''base64'' then encode_base64 d
      else if e = ''ascii'' then map (\<lambda>c. char_of (of_char c mod 128 :: nat)) d
      else if e = ''latin1'' then d
      else d)"

text \<open>\<open>strchr\<close> also finds the NUL byte at the end of the table, at position 64. A character that is
  not found, such as the padding, leaves the accumulator as it is.\<close>

definition base64_add :: "nat \<Rightarrow> char \<Rightarrow> nat" where
  "base64_add v c = (case str_find c (base64_chars @ [CHR 0x00]) of
     None \<Rightarrow> v
   | Some p \<Rightarrow> or (v * 64 mod 2 ^ 32) p)"

fun decode_base64 :: "string \<Rightarrow> string" where
  "decode_base64 [] = []"
| "decode_base64 (a # r) =
     (let g = take 4 (a # r); v = foldl base64_add 0 g in
      char_of (v div 65536 mod 256) #
      (if 2 < length g \<and> g ! 2 \<noteq> CHR ''='' then [char_of (v div 256 mod 256)] else []) @
      (if 3 < length g \<and> g ! 3 \<noteq> CHR ''='' then [char_of (v mod 256)] else []) @
      decode_base64 (drop 3 r))"

definition decodeStringHelper :: "string \<Rightarrow> string \<Rightarrow> string" where
  "decodeStringHelper s e =
     (if is_utf8_name e then s
      else if e = ''hex'' then decode_hex s
      else if e = ''base64'' then decode_base64 s
      else s)"

section \<open>Construction\<close>

definition new_buffer :: "buf_store \<Rightarrow> string \<Rightarrow> buf_store \<times> buf_result" where
  "new_buffer st bs = (st @ [bs], Ret_buffer (length st))"

text \<open>An item that does not convert leaves the byte of the new buffer as it is.\<close>

fun array_bytes :: "buf_env \<Rightarrow> jsarg list \<Rightarrow> string \<Rightarrow> string" where
  "array_bytes env (x # xs) (b # bs) =
     (case JS_ToInt32 env x of None \<Rightarrow> b | Some i \<Rightarrow> byte_of i) # array_bytes env xs bs"
| "array_bytes env _ bs = bs"

definition BufferConstructor :: "buf_env \<Rightarrow> jsarg list \<Rightarrow> buf_store \<Rightarrow> buf_store \<times> buf_result" where
  "BufferConstructor env args st =
     (if \<not> wrapper env then (st, Type_error ''JSContextWrapper not found'')
      else (case args of
        [] \<Rightarrow> (st, Type_error ''Buffer constructor requires at least one argument'')
      | a # _ \<Rightarrow>
          (case a of
             Num i \<Rightarrow>
               (if to_int32 i < 0 then (st, Type_error ''Buffer size must be non-negative'')
                else new_buffer st (fresh env (nat (to_int32 i))))
           | Str s \<Rightarrow> new_buffer st (decode_arg s (str_arg args 1 ''utf8''))
           | Arr xs \<Rightarrow> new_buffer st (array_bytes env xs (fresh env (length xs mod 2 ^ 32)))
           | _ \<Rightarrow> (st, Type_error ''Buffer constructor: invalid argument type''))))"

definition bufferFrom :: "buf_env \<Rightarrow> jsarg list \<Rightarrow> buf_store \<Rightarrow> buf_store \<times> buf_result" where
  "bufferFrom env args st = BufferConstructor env args st"

text \<open>The byte of a fill argument: a number modulo 256, the first byte of a string, else 0.\<close>

definition fill_byte :: "jsarg \<Rightarrow> char" where
  "fill_byte a = (case a of
     Num i \<Rightarrow> byte_of (to_int32 i)
   | Str s \<Rightarrow> (case c_str s of [] \<Rightarrow> CHR 0x00 | c # _ \<Rightarrow> c)
   | _ \<Rightarrow> CHR 0x00)"

definition bufferAlloc :: "buf_env \<Rightarrow> jsarg list \<Rightarrow> buf_store \<Rightarrow> buf_store \<times> buf_result" where
  "bufferAlloc env args st = (case args of
     [] \<Rightarrow> (st, Type_error ''Buffer.alloc requires size'')
   | a # r \<Rightarrow>
       (case JS_ToInt32 env a of
          None \<Rightarrow> (st, Exception)
        | Some sz \<Rightarrow>
            if sz < 0 then (st, Type_error ''Buffer size must be non-negative'')
            else if \<not> wrapper env then (st, Type_error ''JSContextWrapper not found'')
            else new_buffer st
              (mem_write (fresh env (nat sz)) 0
                (replicate (nat sz) (case r of [] \<Rightarrow> CHR 0x00 | f # _ \<Rightarrow> fill_byte f)))))"

definition getBufferData :: "buf_store \<Rightarrow> jsarg \<Rightarrow> string option" where
  "getBufferData st a = (case a of Buf i \<Rightarrow> if i < length st then Some (st ! i) else None | _ \<Rightarrow> None)"

definition bufferConcat :: "buf_env \<Rightarrow> jsarg list \<Rightarrow> buf_store \<Rightarrow> buf_store \<times> buf_result" where
  "bufferConcat env args st = (case args of
     Arr xs # _ \<Rightarrow>
       (if \<not> wrapper env then (st, Type_error ''JSContextWrapper not found'')
        else
          (let bufs = List.map_filter (getBufferData st) xs;
               total = sum_list (map length bufs);
               (out, off) = foldl (\<lambda>(out, off) b. (mem_write out (int off) b, off + length b))
                 (fresh env total, 0) bufs
           in new_buffer st out))
   | _ \<Rightarrow> (st, Type_error ''Buffer.concat requires array of buffers''))"

definition bufferIsBuffer :: "jsarg list \<Rightarrow> buf_store \<Rightarrow> buf_store \<times> buf_result" where
  "bufferIsBuffer args st = (case args of
     [] \<Rightarrow> (st, Ret_bool False) | a # _ \<Rightarrow> (st, Ret_bool (getBufferData st a \<noteq> None)))"

section \<open>Methods\<close>

text \<open>Each method clamps its bounds to the buffer in its own way.\<close>

definition clamp_toString :: "int \<Rightarrow> int \<Rightarrow> int \<Rightarrow> int \<times> int" where
  "clamp_toString sz start end =
     (let s = (if start < 0 then 0 else start);
          e = (if end > to_int32 sz then to_int32 sz else end)
      in (if s > e then e else s, e))"

definition bufferToString :: "buf_env \<Rightarrow> jsarg \<Rightarrow> jsarg list \<Rightarrow> buf_store \<Rightarrow> buf_store \<times> buf_result" where
  "bufferToString env this args st = (case getBufferData st this of
     None \<Rightarrow> (st, Type_error ''Not a Buffer'')
   | Some b \<Rightarrow>
       if \<not> wrapper env then (st, Type_error ''JSContextWrapper not found'')
       else
         (let sz = int (length b);
              enc = c_str (str_arg args 0 ''utf8'');
              (s, e) = clamp_toString sz (int_arg args 1 0) (int_arg args 2 (to_int32 sz))
          in if \<not> region_ok b s (e - s) then (st, Undefined)
             else (st, Ret_string (c_str
               (if is_utf8_name enc then mem_read b s (e - s)
                else if enc = ''hex'' then encode_hex (mem_read b s (e - s))
                else mem_read b s (e - s))))))"

definition clamp_slice :: "int \<Rightarrow> int \<Rightarrow> int \<Rightarrow> int \<times> int" where
  "clamp_slice sz start end =
     (let s = (if start < 0 then to_int32 (start + sz) else start);
          e = (if end < 0 then to_int32 (end + sz) else end);
          s = (if s < 0 then 0 else s);
          e = (if e > to_int32 sz then to_int32 sz else e)
      in (if s > e then e else s, e))"

definition bufferSlice :: "buf_env \<Rightarrow> jsarg \<Rightarrow> jsarg list \<Rightarrow> buf_store \<Rightarrow> buf_store \<times> buf_result" where
  "bufferSlice env this args st = (case getBufferData st this of
     None \<Rightarrow> (st, Type_error ''Not a Buffer'')
   | Some b \<Rightarrow>
       if \<not> wrapper env then (st, Type_error ''JSContextWrapper not found'')
       else
         (let sz = int (length b);
              (s, e) = clamp_slice sz (int_arg args 0 0) (int_arg args 1 (to_int32 sz))
          in if \<not> region_ok b s (e - s) then (st, Undefined)
             else new_buffer st (mem_write (fresh env (nat (e - s))) 0 (mem_read b s (e - s)))))"

definition clamp_copy :: "int \<Rightarrow> int \<Rightarrow> int \<Rightarrow> int \<Rightarrow> int \<Rightarrow> int \<times> int" where
  "clamp_copy srcSize targetSize targetStart sourceStart sourceEnd =
     (let s1 = (if sourceStart > to_int32 srcSize then to_int32 srcSize else sourceStart);
          e1 = (if sourceEnd > to_int32 srcSize then to_int32 srcSize else sourceEnd);
          s2 = (if s1 > e1 then e1 else s1)
      in (s2, min ((e1 - s2) mod 2 ^ 64) ((targetSize - targetStart) mod 2 ^ 64)))"

definition bufferCopy :: "buf_env \<Rightarrow> jsarg \<Rightarrow> jsarg list \<Rightarrow> buf_store \<Rightarrow> buf_store \<times> buf_result" where
  "bufferCopy env this args st = (case getBufferData st this of
     None \<Rightarrow> (st, Type_error ''Not a Buffer'')
   | Some src \<Rightarrow>
       (case args of
          [] \<Rightarrow> (st, Type_error ''copy requires target buffer'')
        | t # _ \<Rightarrow>
            (case getBufferData st t of
               None \<Rightarrow> (st, Type_error ''target must be a Buffer'')
             | Some tgt \<Rightarrow>
                 if \<not> wrapper env then (st, Type_error ''JSContextWrapper not found'')
                 else
                   (let srcSize = int (length src); targetSize = int (length tgt);
                        targetStart = int_arg args 1 0;
                        sourceStart = int_arg args 2 0;
                        sourceEnd = int_arg args 3 (to_int32 srcSize)
                    in if targetStart < 0 \<or> sourceStart < 0 \<or> sourceEnd < 0 then (st, Ret_int 0)
                       else
                         (let (s2, n) = clamp_copy srcSize targetSize targetStart sourceStart sourceEnd
                          in if n = 0 then (st, Ret_int 0)
                             else if \<not> region_ok tgt targetStart n \<or> \<not> region_ok src s2 n then (st, Undefined)
                             else if this = t \<and> targetStart < s2 + n \<and> s2 < targetStart + n then (st, Undefined)
                             else
                               (case t of
                                  Buf i \<Rightarrow> (st[i := mem_write tgt targetStart (mem_read src s2 n)],
                                    Ret_int (to_int32 n))
                                | _ \<Rightarrow> (st, Undefined)))))))"

definition bufferFill :: "buf_env \<Rightarrow> jsarg \<Rightarrow> jsarg list \<Rightarrow> buf_store \<Rightarrow> buf_store \<times> buf_result" where
  "bufferFill env this args st = (case this of
     Buf i \<Rightarrow>
       (case getBufferData st this of
          None \<Rightarrow> (st, Type_error ''Not a Buffer'')
        | Some b \<Rightarrow>
            (case args of
               [] \<Rightarrow> (st, Type_error ''fill requires a value'')
             | v # _ \<Rightarrow>
                 if \<not> wrapper env then (st, Type_error ''JSContextWrapper not found'')
                 else
                   (let sz = int (length b);
                        (s, e) = clamp_toString sz (int_arg args 1 0) (int_arg args 2 (to_int32 sz))
                    in if \<not> region_ok b s (e - s) then (st, Undefined)
                       else (st[i := mem_write b s (replicate (nat (e - s)) (fill_byte v))],
                         Ret_buffer i))))
   | _ \<Rightarrow> (st, Type_error ''Not a Buffer''))"

section \<open>Search\<close>

text \<open>The loop over the start positions, from \<open>i\<close>, with the buffer from there on.\<close>

fun search_from :: "nat \<Rightarrow> string \<Rightarrow> string \<Rightarrow> int" where
  "search_from i pat [] = -1"
| "search_from i pat (b # bs) =
     (if starts_with pat (b # bs) then int i else search_from (Suc i) pat bs)"

definition search_bytes :: "jsarg list \<Rightarrow> buf_store \<Rightarrow> jsarg \<Rightarrow> string" where
  "search_bytes args st a = (case a of
     Num i \<Rightarrow> [byte_of (to_int32 i)]
   | Str s \<Rightarrow> decode_arg s (str_arg args 2 ''utf8'')
   | _ \<Rightarrow> (case getBufferData st a of Some p \<Rightarrow> p | None \<Rightarrow> []))"

definition bufferIndexOf :: "buf_env \<Rightarrow> jsarg \<Rightarrow> jsarg list \<Rightarrow> buf_store \<Rightarrow> buf_store \<times> buf_result" where
  "bufferIndexOf env this args st = (case getBufferData st this of
     None \<Rightarrow> (st, Type_error ''Not a Buffer'')
   | Some b \<Rightarrow>
       (case args of
          [] \<Rightarrow> (st, Ret_int (-1))
        | a # _ \<Rightarrow>
            if \<not> wrapper env then (st, Type_error ''JSContextWrapper not found'')
            else
              (let pat = search_bytes args st a; sz = int (length b) in
               if pat = [] then (st, Ret_int (-1))
               else
                 (let off = int_arg args 1 0;
                      off = (if off < 0 then to_int32 (off + sz) else off);
                      off = (if off < 0 then 0 else off)
                  in if off \<ge> to_int32 sz then (st, Ret_int (-1))
                     else (st, Ret_int (search_from (nat off) pat (drop (nat off) b)))))))"

definition bufferIncludes :: "buf_env \<Rightarrow> jsarg \<Rightarrow> jsarg list \<Rightarrow> buf_store \<Rightarrow> buf_store \<times> buf_result" where
  "bufferIncludes env this args st = (case bufferIndexOf env this args st of
     (st1, Ret_int i) \<Rightarrow> (st1, Ret_bool (i \<ge> 0))
   | r \<Rightarrow> r)"


section \<open>Facts the properties share\<close>

lemma to_int32_id [simp]: "\<lbrakk>-2147483648 \<le> x; x < 2147483648\<rbrakk> \<Longrightarrow> to_int32 x = x"
  by (simp add: to_int32_def)

lemma to_int32_range: "-2147483648 \<le> to_int32 x" "to_int32 x < 2147483648"
proof -
  have "0 \<le> (x + 2147483648) mod 4294967296" "(x + 2147483648) mod 4294967296 < 4294967296"
    by (simp_all add: pos_mod_bound)
  then show "-2147483648 \<le> to_int32 x" "to_int32 x < 2147483648"
    unfolding to_int32_def by linarith+
qed

text \<open>The buffers whose size an \<open>int\<close> can hold; the code truncates larger sizes.\<close>

definition small :: "string \<Rightarrow> bool" where
  "small b \<longleftrightarrow> int (length b) < 2147483648"

lemma small_size [simp]: "small b \<Longrightarrow> to_int32 (int (length b)) = int (length b)"
  by (simp add: small_def)

lemma int_arg_range: "\<lbrakk>-2147483648 \<le> d; d < 2147483648\<rbrakk> \<Longrightarrow>
    -2147483648 \<le> int_arg args i d \<and> int_arg args i d < 2147483648"
  by (auto simp: int_arg_def to_int32_range split: jsarg.splits)

lemma clamp_toString_region:
  "small b \<Longrightarrow> (case clamp_toString (int (length b)) x y of (s, e) \<Rightarrow> region_ok b s (e - s) \<and> s \<le> e)"
  by (auto simp: clamp_toString_def Let_def region_ok_def)

text \<open>How \<open>slice\<close> is meant to read an index: from the end when negative, clamped to the buffer.\<close>

definition rel_index :: "int \<Rightarrow> int \<Rightarrow> int" where
  "rel_index n x = (if x < 0 then max 0 (x + n) else min x n)"

lemma clamp_slice_spec:
  assumes "0 \<le> n" "n < 2147483648" "-2147483648 \<le> x" "x < 2147483648" "-2147483648 \<le> y" "y < 2147483648"
  shows "(case clamp_slice n x y of (s, e) \<Rightarrow> s \<le> e \<and> (s < e \<longrightarrow> s = rel_index n x \<and> e = rel_index n y) \<and>
    (s = e \<longrightarrow> rel_index n y \<le> rel_index n x))"
proof -
  have "to_int32 (x + n) = x + n" if "x < 0" using assms that by (intro to_int32_id) auto
  moreover have "to_int32 (y + n) = y + n" if "y < 0" using assms that by (intro to_int32_id) auto
  ultimately show ?thesis using assms
    by (auto simp: clamp_slice_def Let_def rel_index_def)
qed

lemma mem_write_all [simp]: "length bs = length b \<Longrightarrow> mem_write b 0 bs = bs"
  by (auto simp: mem_write_def)

lemma length_mem_write:
  "region_ok b start (int (length bs)) \<Longrightarrow> length (mem_write b start bs) = length b"
  by (cases "bs = []") (auto simp: mem_write_def region_ok_def)

lemma length_mem_read:
  "region_ok b start n \<Longrightarrow> length (mem_read b start n) = nat n"
  by (auto simp: mem_read_def region_ok_def)

lemma mem_read_all [simp]: "mem_read b 0 (int (length b)) = b"
  by (simp add: mem_read_def)

lemma nth_mem_write:
  assumes "region_ok b start (int (length bs))" and "k < length b"
  shows "mem_write b start bs ! k =
    (if int k < start \<or> start + int (length bs) \<le> int k then b ! k else bs ! (k - nat start))"
proof (cases "bs = []")
  case True
  then show ?thesis by (auto simp: mem_write_def)
next
  case False
  with assms have "0 \<le> start" "nat start + length bs \<le> length b"
    by (auto simp: region_ok_def)
  with False assms(2) show ?thesis
    by (auto simp: mem_write_def nth_append min_def)
qed

section \<open>Encodings round trip\<close>

lemma hex_digit_facts:
  assumes "n < 16"
  shows "hex_value (hex_digit n) = Some n" "\<not> isspace (hex_digit n)" "hex_digit n \<noteq> CHR ''-''"
    "hex_digit n \<noteq> CHR ''+''" "hex_digit n \<noteq> CHR 0x00"
proof -
  have "\<forall>n \<in> set [0..<16]. hex_value (hex_digit n) = Some n \<and> \<not> isspace (hex_digit n) \<and>
      hex_digit n \<noteq> CHR ''-'' \<and> hex_digit n \<noteq> CHR ''+'' \<and> hex_digit n \<noteq> CHR 0x00"
    by code_simp
  with assms show "hex_value (hex_digit n) = Some n" "\<not> isspace (hex_digit n)" "hex_digit n \<noteq> CHR ''-''"
    "hex_digit n \<noteq> CHR ''+''" "hex_digit n \<noteq> CHR 0x00" by auto
qed

lemma hex_pair_roundtrip:
  assumes "n < 256"
  shows "byte_of (strtoul16 (c_str [hex_digit (n div 16), hex_digit (n mod 16)])) = char_of n"
proof -
  have d: "n div 16 < 16" "n mod 16 < 16" using assms by auto
  note facts = hex_digit_facts [OF d(1)] hex_digit_facts [OF d(2)]
  have "strtoul16 (c_str [hex_digit (n div 16), hex_digit (n mod 16)]) = int n"
    using facts by (simp add: c_str_def strtoul16_def skip_0x_def)
  then show ?thesis using assms by (simp add: byte_of_def)
qed

lemma decode_encode_hex: "decode_hex (encode_hex bs) = bs"
proof (induction bs)
  case (Cons c bs)
  have "of_char c < (256::nat)" by simp
  from hex_pair_roundtrip [OF this] Cons show ?case
    by (simp add: encode_hex_def)
qed (simp add: encode_hex_def)

lemma c_str_id_iff: "c_str s = s \<longleftrightarrow> CHR 0x00 \<notin> set s"
  by (auto simp: c_str_def takeWhile_eq_all_conv)

lemma of_char_div_16: "of_char (c :: char) div 16 < (16 :: nat)"
proof -
  have "of_char c < (256::nat)" by simp
  then show ?thesis by linarith
qed

lemma c_str_encode_hex [simp]: "c_str (encode_hex bs) = encode_hex bs"
proof -
  have "CHR 0x00 \<noteq> hex_digit (of_char c div 16)" "CHR 0x00 \<noteq> hex_digit (of_char c mod 16)" for c :: char
    using hex_digit_facts(5) [OF of_char_div_16, of c] hex_digit_facts(5) [of "of_char c mod 16"] by auto
  then show ?thesis
    by (auto simp: c_str_id_iff encode_hex_def)
qed


section \<open>Properties of the methods\<close>

definition example_buf_env :: buf_env where
  "example_buf_env = \<lparr>fresh = (\<lambda>n. replicate n CHR ''?''), coerce = (\<lambda>_. None), wrapper = True\<rparr>"

lemma example_buf_env [simp]: "fresh_ok example_buf_env" "wrapper example_buf_env"
  by (simp_all add: fresh_ok_def example_buf_env_def)

text \<open>hexadecimal text is a faithful copy of a buffer. \<open>toString('hex')\<close> of any buffer returns
  text from which \<open>Buffer.from(text, 'hex')\<close> makes a new buffer with the same bytes.\<close>

theorem buffer_hex_roundtrip:
  assumes "i < length st" and "small (st ! i)" and "wrapper env"
  shows "\<exists>t. bufferToString env (Buf i) [Str ''hex''] st = (st, Ret_string t) \<and>
    bufferFrom env [Str t, Str ''hex''] st = (st @ [st ! i], Ret_buffer (length st))"
  using assms
  by (simp add: bufferToString_def getBufferData_def str_arg_def int_arg_def c_str_def [of "''hex''"]
      clamp_toString_def is_utf8_name_def region_ok_def bufferFrom_def BufferConstructor_def
      new_buffer_def decode_arg_def decode_encode_hex small_def)

lemma buffer_hex_roundtrip_witness:
  "\<exists>t. bufferToString example_buf_env (Buf 0) [Str ''hex''] [[CHR ''A'', CHR 0x00, CHR 0xFF]] =
      ([[CHR ''A'', CHR 0x00, CHR 0xFF]], Ret_string t) \<and>
    bufferFrom example_buf_env [Str t, Str ''hex''] [[CHR ''A'', CHR 0x00, CHR 0xFF]] =
      ([[CHR ''A'', CHR 0x00, CHR 0xFF], [CHR ''A'', CHR 0x00, CHR 0xFF]], Ret_buffer 1)"
  using buffer_hex_roundtrip [of 0 "[[CHR ''A'', CHR 0x00, CHR 0xFF]]" example_buf_env]
  by (simp add: small_def)





text \<open>\<open>fill\<close> never writes outside the buffer: it keeps its size, sets the bytes from the clamped
  start to the clamped end to the value's byte, and leaves every other byte and buffer alone.\<close>

theorem bufferFill_correct:
  assumes "i < length st" and "small (st ! i)" and "wrapper env"
  shows "\<exists>b'. bufferFill env (Buf i) (v # args) st = (st[i := b'], Ret_buffer i) \<and>
    length b' = length (st ! i) \<and>
    (\<forall>k < length b'. b' ! k =
      (if int_arg (v # args) 1 0 \<le> int k \<and> int k < int_arg (v # args) 2 (int (length (st ! i)))
       then fill_byte v else st ! i ! k))"
proof -
  let ?b = "st ! i" and ?n = "int (length (st ! i))"
  let ?x = "int_arg (v # args) 1 0" and ?y = "int_arg (v # args) 2 ?n"
  obtain s e where se: "clamp_toString ?n ?x ?y = (s, e)" by force
  have reg: "region_ok ?b s (e - s)" "s \<le> e"
    using clamp_toString_region [OF assms(2), of ?x ?y] se by auto
  let ?bs = "replicate (nat (e - s)) (fill_byte v)"
  have reg': "region_ok ?b s (int (length ?bs))" using reg by simp
  have "length (mem_write ?b s ?bs) = length ?b" using length_mem_write [OF reg'] .
  moreover have "mem_write ?b s ?bs ! k =
      (if ?x \<le> int k \<and> int k < ?y then fill_byte v else ?b ! k)" if "k < length ?b" for k
    using nth_mem_write [OF reg' that] se assms(2) that reg(2)
    by (auto simp: clamp_toString_def Let_def split: if_splits)
  ultimately show ?thesis using assms se reg
    by (intro exI [of _ "mem_write ?b s ?bs"]) (simp add: bufferFill_def getBufferData_def)
qed

lemma bufferFill_correct_witness:
  "\<exists>b'. bufferFill example_buf_env (Buf 0) [Str ''xyz'', Num 1, Num 9] [''abcd''] = ([b'], Ret_buffer 0) \<and>
    b' ! 0 = CHR ''a'' \<and> b' ! 3 = CHR ''x''"
  using bufferFill_correct [of 0 "[''abcd'']" example_buf_env "Str ''xyz''" "[Num 1, Num 9]"]
  by (fastforce simp: small_def int_arg_def fill_byte_def c_str_def)


lemma clamp_copy_spec:
  assumes "0 \<le> S" "S < 2147483648" "0 \<le> T" "T < 2147483648" "0 \<le> ts" "ts \<le> T"
    "0 \<le> ss" "ss < 2147483648" "0 \<le> se" "se < 2147483648"
    and "clamp_copy S T ts ss se = (s, n)"
  shows "n = min (max 0 (min se S - ss)) (T - ts) \<and> (n \<noteq> 0 \<longrightarrow> s = ss) \<and> 0 \<le> s \<and> s + n \<le> S \<and>
    0 \<le> n \<and> n < 2147483648"
proof -
  define e where "e = min se S"
  have s: "s = min (min ss S) e" and n: "n = min ((e - s) mod 2 ^ 64) ((T - ts) mod 2 ^ 64)"
    using assms by (auto simp: clamp_copy_def Let_def e_def min_def)
  have "(e - s) mod 2 ^ 64 = e - s" "(T - ts) mod 2 ^ 64 = T - ts"
    using assms s by (auto intro!: mod_pos_pos_trivial simp: e_def)
  with n have "n = min (e - s) (T - ts)" by simp
  with s e_def assms show ?thesis by (simp add: min_def max_def split: if_splits)
qed

text \<open>\<open>copy\<close> between two different buffers, with \<open>targetStart\<close> inside the target. The bytes that
  fit are written, their number is returned, everything else stays. A negative index copies nothing.\<close>

theorem bufferCopy_correct:
  assumes "i < length st" and "j < length st" and "i \<noteq> j" and "small (st ! i)" and "small (st ! j)"
    and "wrapper env" and "0 \<le> ts" and "ts \<le> int (length (st ! j))"
    and "-2147483648 \<le> ss" and "ss < 2147483648" and "-2147483648 \<le> se" and "se < 2147483648"
  shows "let n = (if ss < 0 \<or> se < 0 then 0 else
      min (max 0 (min se (int (length (st ! i))) - ss)) (int (length (st ! j)) - ts)) in
    bufferCopy env (Buf i) [Buf j, Num ts, Num ss, Num se] st =
      (st[j := mem_write (st ! j) ts (take (nat n) (drop (nat ss) (st ! i)))], Ret_int n)"
proof -
  let ?S = "int (length (st ! i))" and ?T = "int (length (st ! j))"
  have S: "0 \<le> ?S" "?S < 2147483648" "0 \<le> ?T" "?T < 2147483648"
    using assms by (auto simp: small_def)
  have args: "int_arg [Buf j, Num ts, Num ss, Num se] 1 0 = ts"
      "int_arg [Buf j, Num ts, Num ss, Num se] 2 0 = ss"
      "int_arg [Buf j, Num ts, Num ss, Num se] 3 (to_int32 ?S) = se"
    using assms S by (simp_all add: int_arg_def)
  show ?thesis
  proof (cases "ss < 0 \<or> se < 0")
    case True
    with assms args show ?thesis
      by (auto simp: bufferCopy_def getBufferData_def mem_write_def)
  next
    case False
    then have nn: "0 \<le> ss" "0 \<le> se" by auto
    obtain s n where c: "clamp_copy ?S ?T ts ss se = (s, n)" by force
    have sp: "n = min (max 0 (min se ?S - ss)) (?T - ts)" "n \<noteq> 0 \<Longrightarrow> s = ss" "0 \<le> s" "s + n \<le> ?S"
        "0 \<le> n" "n < 2147483648"
      using clamp_copy_spec [OF S assms(7,8) nn(1) assms(10) nn(2) assms(12) c] by blast+
    have reg: "region_ok (st ! j) ts n" "region_ok (st ! i) s n"
      using sp(3-5) sp(1) [THEN eq_refl] assms(7,8) by (auto simp: region_ok_def)
    have "bufferCopy env (Buf i) [Buf j, Num ts, Num ss, Num se] st =
        (st[j := mem_write (st ! j) ts (take (nat n) (drop (nat ss) (st ! i)))], Ret_int n)"
    proof (cases "n = 0")
      case True
      with assms(1-7) False args c show ?thesis
        by (simp add: bufferCopy_def getBufferData_def Let_def mem_write_def)
    next
      case n: False
      with assms(1-7) False args c reg sp(2,5,6) show ?thesis
        by (simp add: bufferCopy_def getBufferData_def Let_def mem_read_def)
    qed
    with False show ?thesis by (simp only: Let_def sp(1) [symmetric] if_False)
  qed
qed

lemma bufferCopy_correct_witness:
  "bufferCopy example_buf_env (Buf 0) [Buf 1, Num 2, Num 1, Num 9] [''abcd'', ''WXYZ''] =
     ([''abcd'', ''WXbc''], Ret_int 2)"
  using bufferCopy_correct [of 0 "[''abcd'', ''WXYZ'']" 1 example_buf_env 2 1 9]
  by (simp add: small_def Let_def mem_write_def)

text \<open>\<open>copy\<close> with \<open>targetStart\<close> past the end of the target writes outside it. The room
  \<open>targetSize - targetStart\<close> is computed in \<open>unsigned long\<close> and wraps to a huge number, so all the
  source bytes are copied to memory behind the target.\<close>

theorem bufferCopy_out_of_bounds:
  assumes "i < length st" and "j < length st" and "small (st ! i)" and "small (st ! j)"
    and "wrapper env" and "int (length (st ! j)) < ts" and "ts < 2147483648" and "st ! i \<noteq> []"
  shows "bufferCopy env (Buf i) [Buf j, Num ts] st = (st, Undefined)"
proof -
  let ?S = "int (length (st ! i))" and ?T = "int (length (st ! j))"
  have S: "0 < ?S" "?S < 2147483648" "0 \<le> ?T" "?T < 2147483648"
    using assms by (auto simp: small_def)
  have args: "int_arg [Buf j, Num ts] 1 0 = ts" "int_arg [Buf j, Num ts] 2 0 = 0"
      "int_arg [Buf j, Num ts] 3 (to_int32 ?S) = ?S"
    using assms S by (simp_all add: int_arg_def)
  have m: "(?T - ts) mod 2 ^ 64 = ?T - ts + 2 ^ 64"
  proof -
    have "(?T - ts + 2 ^ 64) mod 2 ^ 64 = ?T - ts + 2 ^ 64"
      using S assms by (intro mod_pos_pos_trivial) auto
    then show ?thesis by simp
  qed
  have n: "clamp_copy ?S ?T ts 0 ?S = (0, ?S)"
    using S assms m by (simp add: clamp_copy_def)
  have "\<not> region_ok (st ! j) ts ?S" using S assms by (auto simp: region_ok_def)
  with n S assms args show ?thesis
    by (simp add: bufferCopy_def getBufferData_def Let_def)
qed

lemma bufferCopy_out_of_bounds_witness:
  "bufferCopy example_buf_env (Buf 0) [Buf 1, Num 5] [''abcd'', ''WXYZ''] =
     ([''abcd'', ''WXYZ''], Undefined)"
  using bufferCopy_out_of_bounds [of 0 "[''abcd'', ''WXYZ'']" 1 example_buf_env 5]
  by (simp add: small_def)


section \<open>Search and concatenation\<close>

lemma search_from_cases:
  "(search_from i pat bs = -1 \<and> (\<forall>k<length bs. \<not> starts_with pat (drop k bs))) \<or>
   (\<exists>k<length bs. search_from i pat bs = int (i + k) \<and> starts_with pat (drop k bs) \<and>
      (\<forall>j<k. \<not> starts_with pat (drop j bs)))"
proof (induction i pat bs rule: search_from.induct)
  case (2 i pat b bs)
  show ?case
  proof (cases "starts_with pat (b # bs)")
    case True
    then show ?thesis by (intro disjI2 exI [of _ 0]) simp
  next
    case False
    from 2 [OF False] show ?thesis
    proof (elim disjE conjE exE)
      assume "search_from (Suc i) pat bs = -1" "\<forall>k<length bs. \<not> starts_with pat (drop k bs)"
      with False show ?thesis by (simp add: All_less_Suc2)
    next
      fix k
      assume "k < length bs" "search_from (Suc i) pat bs = int (Suc i + k)"
        "starts_with pat (drop k bs)" "\<forall>j<k. \<not> starts_with pat (drop j bs)"
      with False show ?thesis
        by (intro disjI2 exI [of _ "Suc k"]) (simp add: All_less_Suc2)
    qed
  qed
qed simp

text \<open>\<open>indexOf\<close> with a nonnegative start returns the first position from there at which the
  pattern occurs, or -1 exactly when there is none.\<close>

theorem bufferIndexOf_first:
  assumes "i < length st" and "small (st ! i)" and "wrapper env"
    and "search_bytes [a, Num off] st a \<noteq> []" and "0 \<le> off" and "off < 2147483648"
  shows "\<exists>r. bufferIndexOf env (Buf i) [a, Num off] st = (st, Ret_int r) \<and>
    (let pat = search_bytes [a, Num off] st a;
         occurs = (\<lambda>k. nat off \<le> k \<and> k < length (st ! i) \<and> starts_with pat (drop k (st ! i))) in
     (r = -1 \<and> (\<nexists>k. occurs k)) \<or> (\<exists>k. r = int k \<and> occurs k \<and> (\<forall>j<k. \<not> occurs j)))"
proof -
  let ?b = "st ! i" and ?p = "search_bytes [a, Num off] st a"
  have arg: "int_arg [a, Num off] 1 0 = off" using assms by (simp add: int_arg_def)
  have call: "bufferIndexOf env (Buf i) [a, Num off] st =
      (if int (length ?b) \<le> off then (st, Ret_int (-1))
       else (st, Ret_int (search_from (nat off) ?p (drop (nat off) ?b))))"
    using assms arg by (simp add: bufferIndexOf_def getBufferData_def)
  show ?thesis
  proof (cases "int (length ?b) \<le> off")
    case True
    then show ?thesis using call by (auto simp: Let_def)
  next
    case False
    from search_from_cases [of "nat off" ?p "drop (nat off) ?b"] show ?thesis
    proof (elim disjE conjE exE)
      assume m: "search_from (nat off) ?p (drop (nat off) ?b) = -1"
        "\<forall>k<length (drop (nat off) ?b). \<not> starts_with ?p (drop k (drop (nat off) ?b))"
      have "\<not> starts_with ?p (drop k ?b)" if "nat off \<le> k" "k < length ?b" for k
        using m(2) [rule_format, of "k - nat off"] that by simp
      with call False m(1) show ?thesis by (auto simp: Let_def)
    next
      fix k
      assume k: "k < length (drop (nat off) ?b)"
        "search_from (nat off) ?p (drop (nat off) ?b) = int (nat off + k)"
        "starts_with ?p (drop k (drop (nat off) ?b))"
        "\<forall>j<k. \<not> starts_with ?p (drop j (drop (nat off) ?b))"
      have "\<not> starts_with ?p (drop j ?b)" if "nat off \<le> j" "j < nat off + k" for j
        using k(4) [rule_format, of "j - nat off"] that by simp
      with call False k show ?thesis
        by (intro exI [of _ "int (nat off + k)"])
          (auto simp: Let_def add.commute intro!: exI [of _ "nat off + k"])
    qed
  qed
qed

lemma bufferIndexOf_first_witness:
  "bufferIndexOf example_buf_env (Buf 0) [Str ''na'', Num 3] [''banana''] = ([''banana''], Ret_int 4)"
proof -
  have p: "search_bytes [Str ''na'', Num 3] [''banana''] (Str ''na'') = ''na''"
    by code_simp
  obtain r where r: "bufferIndexOf example_buf_env (Buf 0) [Str ''na'', Num 3] [''banana''] =
      ([''banana''], Ret_int r)" "r = -1 \<and> (\<nexists>k. 3 \<le> k \<and> k < 6 \<and> starts_with ''na'' (drop k ''banana'')) \<or>
      (\<exists>k. r = int k \<and> (3 \<le> k \<and> k < 6 \<and> starts_with ''na'' (drop k ''banana'')))"
    using bufferIndexOf_first [of 0 "[''banana'']" example_buf_env "Str ''na''" 3]
    by (auto simp: p small_def Let_def)
  have occ: "k = 4" if "3 \<le> k" "k < 6" "starts_with ''na'' (drop k ''banana'')" for k :: nat
  proof -
    have "k = 3 \<or> k = 4 \<or> k = 5" using that by linarith
    with that(3) show ?thesis by auto
  qed
  have "\<exists>k. 3 \<le> k \<and> k < 6 \<and> starts_with ''na'' (drop k ''banana'')"
    by (rule exI [of _ 4]) simp
  then obtain k where "r = int k" "3 \<le> k" "k < 6" "starts_with ''na'' (drop k ''banana'')"
    using r(2) by auto
  with r(1) occ [of k] show ?thesis by simp
qed


text \<open>\<open>concat\<close> copies its buffers one after the other; \<open>offset\<close> counts the bytes written.\<close>

lemma concat_fold:
  "length out = length pre + sum_list (map length bufs) + length suf \<Longrightarrow>
   take (length pre) out = pre \<Longrightarrow>
   foldl (\<lambda>(out, off) b. (mem_write out (int off) b, off + length b)) (out, length pre) bufs =
     (pre @ concat bufs @ drop (length pre + sum_list (map length bufs)) out,
      length pre + sum_list (map length bufs))"
proof (induction bufs arbitrary: out pre)
  case Nil
  then show ?case by (metis append_take_drop_id concat.simps(1) foldl_Nil list.simps(8) self_append_conv2 sum_list.Nil Nat.add_0_right)
next
  case (Cons b bufs)
  let ?out = "mem_write out (int (length pre)) b"
  have w: "?out = pre @ b @ drop (length pre + length b) out"
    using Cons.prems by (cases "b = []") (auto simp: mem_write_def, metis append_take_drop_id)
  have "length ?out = length (pre @ b) + sum_list (map length bufs) + length suf"
    using Cons.prems w by simp
  moreover have "take (length (pre @ b)) ?out = pre @ b" using w by simp
  ultimately have "foldl (\<lambda>(out, off) b. (mem_write out (int off) b, off + length b)) (?out, length (pre @ b)) bufs =
     ((pre @ b) @ concat bufs @ drop (length (pre @ b) + sum_list (map length bufs)) ?out,
      length (pre @ b) + sum_list (map length bufs))"
    by (rule Cons.IH)
  then show ?case using w by (simp add: ac_simps)
qed

text \<open>\<open>concat\<close> of an array makes a new buffer with the bytes of the array's buffers one after
  the other, skipping items that are not buffers, and leaves the others as they are.\<close>

theorem bufferConcat_correct:
  assumes "wrapper env" and "fresh_ok env"
  shows "bufferConcat env (Arr xs # args) st =
    (st @ [concat (List.map_filter (getBufferData st) xs)], Ret_buffer (length st))"
proof -
  let ?bufs = "List.map_filter (getBufferData st) xs"
  have "foldl (\<lambda>(out, off) b. (mem_write out (int off) b, off + length b))
      (fresh env (sum_list (map length ?bufs)), 0) ?bufs = (concat ?bufs, sum_list (map length ?bufs))"
    using concat_fold [of "fresh env (sum_list (map length ?bufs))" "[]" ?bufs "[]"] assms(2)
    by (simp add: fresh_ok_def)
  with assms show ?thesis
    by (simp add: bufferConcat_def new_buffer_def Let_def)
qed

lemma bufferConcat_correct_witness:
  "bufferConcat example_buf_env [Arr [Buf 1, Num 3, Buf 0]] [''ab'', ''c''] =
    ([''ab'', ''c'', ''cab''], Ret_buffer 2)"
  using bufferConcat_correct [of example_buf_env "[Buf 1, Num 3, Buf 0]" "[]" "[''ab'', ''c'']"]
  by (simp add: List.map_filter_def getBufferData_def)

section \<open>Base 64\<close>

lemma base64_add_char:
  assumes "n < 64"
  shows "base64_add v (base64_chars ! n) = or (v * 64 mod 2 ^ 32) n"
proof -
  have "\<forall>n \<in> set [0..<64]. str_find (base64_chars ! n) (base64_chars @ [CHR 0x00]) = Some n"
    by code_simp
  with assms show ?thesis by (simp add: base64_add_def)
qed

lemma base64_pad: "base64_add v CHR ''='' = v"
proof -
  have "str_find CHR ''='' (base64_chars @ [CHR 0x00]) = None" by code_simp
  then show ?thesis by (simp add: base64_add_def)
qed

lemma or_shifted:
  assumes "n < 64"
  shows "or (v * 64) n = v * 64 + (n :: nat)"
proof -
  have "and (push_bit 6 v) (take_bit 6 n) = 0"
    by (rule bit_eqI) (auto simp: bit_simps)
  moreover have "take_bit 6 n = n" using assms by (simp add: take_bit_nat_eq_self)
  ultimately have "and (v * 64) n = 0" by (simp add: push_bit_eq_mult)
  from disjunctive_add_eq_or [OF this] show ?thesis by simp
qed

lemma base64_add_step:
  "\<lbrakk>n < 64; v < 2 ^ 26\<rbrakk> \<Longrightarrow> base64_add v (base64_chars ! n) = v * 64 + n"
  by (simp add: base64_add_char or_shifted)

lemma base64_not_pad: "n < 64 \<Longrightarrow> base64_chars ! n \<noteq> CHR ''=''"
proof -
  have "\<forall>n \<in> set [0..<64]. base64_chars ! n \<noteq> CHR ''=''" by code_simp
  then show "n < 64 \<Longrightarrow> base64_chars ! n \<noteq> CHR ''=''" by simp
qed

text \<open>Four characters give back the 24 bits they were made of.\<close>

lemma base64_split:
  assumes "v < 2 ^ 24"
  shows "((v div 262144 mod 64) * 64 + v div 4096 mod 64) * 64 + v div 64 mod 64 = v div (64 :: nat)"
proof -
  define v1 v2 where "v1 = v div 64" and "v2 = v1 div 64"
  have q: "v div 4096 = v2" "v div 262144 = v2 div 64"
    using div_mult2_eq [of v 64 64] div_mult2_eq [of v 64 4096] div_mult2_eq [of v1 64 64]
    by (simp_all add: v1_def v2_def)
  have "v2 div 64 < 64" using assms by (simp add: q(2) [symmetric])
  then show ?thesis
    using div_mult_mod_eq [of v1 64] div_mult_mod_eq [of v2 64]
    by (simp add: q v1_def [symmetric] v2_def [symmetric])
qed

lemma base64_group:
  assumes "v < 2 ^ 24"
  shows "foldl base64_add 0 [base64_chars ! (v div 262144 mod 64), base64_chars ! (v div 4096 mod 64),
     base64_chars ! (v div 64 mod 64), base64_chars ! (v mod 64)] = v"
proof -
  have "foldl base64_add 0 [base64_chars ! (v div 262144 mod 64), base64_chars ! (v div 4096 mod 64),
     base64_chars ! (v div 64 mod 64), base64_chars ! (v mod 64)] =
     (((v div 262144 mod 64) * 64 + v div 4096 mod 64) * 64 + v div 64 mod 64) * 64 + v mod 64"
    by (simp add: base64_add_step)
  then show ?thesis unfolding base64_split [OF assms] using div_mult_mod_eq [of v 64] by simp
qed

lemma base64_bytes:
  assumes "a < 256" "b < 256" "c < (256::nat)"
  shows "(a * 65536 + b * 256 + c) div 65536 mod 256 = a"
    "(a * 65536 + b * 256 + c) div 256 mod 256 = b" "(a * 65536 + b * 256 + c) mod 256 = c"
proof -
  let ?x = "a * 65536 + b * 256 + c"
  have x: "?x = c + 256 * (b + 256 * a)" by simp
  have 1: "?x mod 256 = c" "?x div 256 = b + 256 * a"
    unfolding x using assms(3) mod_mult_self2 [of c 256 "b + 256 * a"] div_mult_self2 [of 256 c "b + 256 * a"]
    by (simp_all only: mod_less div_less)
  have "?x div 65536 = ?x div 256 div 256" using div_mult2_eq [of ?x 256 256] by simp
  with 1 assms show "?x div 65536 mod 256 = a" "?x div 256 mod 256 = b" "?x mod 256 = c"
    by simp_all
qed

text \<open>Base 64 by the helper functions. Data whose length is a multiple of three survives encoding
  and decoding; one byte left over always comes back as a NUL byte, and of two the first comes back
  shifted down by six bits, because the decoder skips the padding without shifting it in.\<close>

theorem base64_roundtrip:
  assumes "length xs mod 3 = 0"
  shows "decodeStringHelper (encodeStringHelper xs ''base64'') ''base64'' = xs \<and>
    decodeStringHelper (encodeStringHelper (xs @ [a]) ''base64'') ''base64'' = xs @ [CHR 0x00] \<and>
    (\<exists>c. decodeStringHelper (encodeStringHelper (xs @ [a, b]) ''base64'') ''base64'' =
       xs @ [char_of (of_char a div 64 :: nat), c])"
proof -
  have full: "decode_base64 (encode_base64 (xs @ ys)) = xs @ decode_base64 (encode_base64 ys)" for ys
    using assms
  proof (induction xs rule: encode_base64.induct)
    case (4 a b c r)
    define v where "v = of_char a * 65536 + of_char b * 256 + (of_char c :: nat)"
    have bd: "of_char x < (256 :: nat)" for x :: char by simp
    have "v < 2 ^ 24" unfolding v_def using bd [of a] bd [of b] bd [of c] by (simp, linarith)
    note g = base64_group [OF this]
    have np: "base64_chars ! (v div 64 mod 64) \<noteq> CHR ''=''" "base64_chars ! (v mod 64) \<noteq> CHR ''=''"
      by (simp_all add: base64_not_pad)
    have "length r mod 3 = 0" using 4 by (simp add: mod_Suc split: if_splits)
    then have IH: "decode_base64 (encode_base64 (r @ ys)) = r @ decode_base64 (encode_base64 ys)"
      using 4 by simp
    have "decode_base64 (encode_base64 ((a # b # c # r) @ ys)) =
        [char_of (v div 65536 mod 256), char_of (v div 256 mod 256), char_of (v mod 256)] @
        decode_base64 (encode_base64 (r @ ys))"
      using g np by (simp add: Let_def v_def [symmetric] del: foldl_Cons)
    moreover have "v div 65536 mod 256 = of_char a" "v div 256 mod 256 = of_char b" "v mod 256 = of_char c"
      unfolding v_def using base64_bytes [OF bd bd bd] by auto
    ultimately show ?case using IH by simp
  qed simp_all
  have one: "decode_base64 (encode_base64 [a]) = [CHR 0x00]"
  proof -
    have b: "of_char a < (256 :: nat)" by simp
    define v where "v = of_char a * (65536 :: nat)"
    have "base64_add (base64_add 0 (base64_chars ! (v div 262144 mod 64))) (base64_chars ! (v div 4096 mod 64))
        = (v div 262144 mod 64) * 64 + v div 4096 mod 64"
      by (simp add: base64_add_step)
    moreover have "((v div 262144 mod 64) * 64 + v div 4096 mod 64) div 65536 = 0"
      by simp
    moreover have "char_of (0 :: nat) = CHR 0x00" by code_simp
    ultimately show ?thesis
      by (simp add: Let_def v_def base64_pad)
  qed
  have two: "\<exists>c. decode_base64 (encode_base64 [a, b]) = [char_of (of_char a div 64 :: nat), c]"
  proof -
    have bd: "of_char a < (256 :: nat)" "of_char b < (256 :: nat)" by simp_all
    define v where "v = of_char a * 65536 + of_char b * (256 :: nat)"
    define w where "w = ((v div 262144 mod 64) * 64 + v div 4096 mod 64) * 64 + v div 64 mod 64"
    have "base64_add (base64_add (base64_add 0 (base64_chars ! (v div 262144 mod 64)))
        (base64_chars ! (v div 4096 mod 64))) (base64_chars ! (v div 64 mod 64)) = w"
      by (simp add: base64_add_step w_def)
    moreover have "w div 65536 mod 256 = of_char a div 64"
    proof -
      have "v < 2 ^ 24" unfolding v_def using bd by (simp, linarith)
      from base64_split [OF this] have "w = v div 64" unfolding w_def .
      moreover have "v div 65536 = of_char a"
        unfolding v_def using bd by simp
      moreover have "of_char a div 64 < (256 :: nat)" using bd(1) by linarith
      ultimately show ?thesis
        using div_mult2_eq [of v 65536 64] div_mult2_eq [of v 64 65536] by simp
    qed
    moreover have "base64_chars ! (v div 64 mod 64) \<noteq> CHR ''=''" by (simp add: base64_not_pad)
    moreover have "of_char a div 64 mod 256 = (of_char a div 64 :: nat)" by (rule mod_less) (use bd(1) in linarith)
    ultimately show ?thesis
      by (simp add: Let_def v_def [symmetric] base64_pad)
  qed
  show ?thesis using full [of "[]"] full [of "[a]"] full [of "[a, b]"] one two
    by (auto simp: encodeStringHelper_def decodeStringHelper_def is_utf8_name_def)
qed

lemma base64_roundtrip_witness:
  "decodeStringHelper (encodeStringHelper ''foo'' ''base64'') ''base64'' = ''foo'' \<and>
   decodeStringHelper (encodeStringHelper ''foob'' ''base64'') ''base64'' = ''foo'' @ [CHR 0x00]"
  using base64_roundtrip [of "''foo''" "CHR ''b''" "CHR ''c''"] by simp

end
