(* ===== verification/Store.thy ===== *)
theory Store
  imports Prelude
begin

text \<open>
  The contract of the caches of the runtime (the CommonJS loader's map, \<open>ModuleCache\<close>, the
  registry's metadata cache): a map with lookup, insertion and removal. The laws are those of
  \<open>std::map\<close>; \<open>inv\<close> is the representation invariant a concrete map keeps.
\<close>

locale kv_store =
  fixes inv :: "'s \<Rightarrow> bool"
    and lookup :: "'s \<Rightarrow> 'k \<Rightarrow> 'v option"
    and insert :: "'k \<Rightarrow> 'v \<Rightarrow> 's \<Rightarrow> 's"
    and remove :: "'k \<Rightarrow> 's \<Rightarrow> 's"
  assumes inv_insert: "inv s \<Longrightarrow> inv (insert k v s)"
    and inv_remove: "inv s \<Longrightarrow> inv (remove k s)"
    and lookup_insert: "inv s \<Longrightarrow> lookup (insert k v s) j = (if j = k then Some v else lookup s j)"
    and lookup_remove: "inv s \<Longrightarrow> lookup (remove k s) j = (if j = k then None else lookup s j)"
begin

lemma insert_twice: "inv s \<Longrightarrow> lookup (insert k v (insert k u s)) j = lookup (insert k v s) j"
  by (simp add: lookup_insert inv_insert)

lemma insert_commute:
  "\<lbrakk>inv s; k \<noteq> l\<rbrakk> \<Longrightarrow> lookup (insert k v (insert l u s)) j = lookup (insert l u (insert k v s)) j"
  by (auto simp: lookup_insert inv_insert)

lemma remove_insert: "inv s \<Longrightarrow> lookup s k = None \<Longrightarrow> lookup (remove k (insert k v s)) j = lookup s j"
  by (simp add: lookup_insert lookup_remove inv_insert)

text \<open>A memoised computation: look up, else compute and insert. The second call for a key finds
  what the first one returned.\<close>

lemma memo_hit:
  assumes "inv s" and "r = (case lookup s k of Some v \<Rightarrow> (s, v) | None \<Rightarrow> (insert k (f k) s, f k))"
  shows "lookup (fst r) k = Some (snd r)" and "inv (fst r)"
    and "j \<noteq> k \<Longrightarrow> lookup (fst r) j = lookup s j"
  using assms by (auto simp: lookup_insert inv_insert split: option.splits)

end

section \<open>The sorted association lists that stand for std::map\<close>

interpretation std_map: kv_store map_ok map_of map_put map_erase
  by unfold_locales (auto simp: map_of_put map_of_erase)

end
