(* ===== verification/Resolver.thy ===== *)
theory Resolver
  imports Prelude
begin

text \<open>
  Models \<open>src/modules/ModuleResolver.cpp\<close> and \<open>src/npm/PackageResolver.cpp\<close>: how the specifier of a
  \<open>require\<close> or an \<open>import\<close> becomes the path of a file.

  \<^item> The file system is a parameter: the tests made with \<open>stat\<close>, \<open>std::filesystem::canonical\<close>
    (\<open>None\<close> when it throws) and the contents of files. \<open>fs_ok\<close> states what is used of it: the
    canonical path of a file is a file, repeated slashes do not matter.
  \<^item> The four loops of the code that climb from a directory to its parents are one function,
    \<open>walk_up\<close>, over the body of the loop; \<open>ancestors\<close> lists the directories it visits.
  \<^item> The platform's library extension is the one of Linux, \<open>.so\<close>.
\<close>

record filesystem =
  is_file :: "string \<Rightarrow> bool"
  is_dir :: "string \<Rightarrow> bool"
  canonical :: "string \<Rightarrow> string option"
  read_file :: "string \<Rightarrow> string option"

datatype module_type = CommonJS | ESM | Native

record resolve_result =
  filePath :: string
  mtype :: module_type
  packageName :: string
  isPackage :: bool

definition no_result :: resolve_result where
  "no_result = \<lparr>filePath = [], mtype = CommonJS, packageName = [], isPackage = False\<rparr>"

section \<open>Paths\<close>

definition getLibraryExtensionPlatform :: string where
  "getLibraryExtensionPlatform = ''.so''"

definition getResolutionOrderExtensions :: "string list" where
  "getResolutionOrderExtensions =
     [''.node'', getLibraryExtensionPlatform, ''.protojs'', ''.js'', ''.mjs'']"

definition isNativeExtension :: "string \<Rightarrow> bool" where
  "isNativeExtension p \<longleftrightarrow> ends_with ''.node'' p \<or> ends_with ''.so'' p \<or> ends_with ''.dll'' p \<or>
     ends_with ''.dylib'' p \<or> ends_with ''.protojs'' p"

definition type_of_path :: "string \<Rightarrow> module_type" where
  "type_of_path p =
     (if ends_with ''.mjs'' p then ESM else if isNativeExtension p then Native else CommonJS)"

definition setTypeFromPath :: "resolve_result \<Rightarrow> resolve_result" where
  "setTypeFromPath r = r\<lparr>mtype := type_of_path (filePath r)\<rparr>"

definition getDirectory :: "string \<Rightarrow> string" where
  "getDirectory p = (case str_rfind CHR ''/'' p of None \<Rightarrow> ''.'' | Some i \<Rightarrow> take i p)"

text \<open>The loop that replaces \<open>//\<close> by \<open>/\<close>, looking again at the same position after each.\<close>

fun collapse_slashes :: "string \<Rightarrow> string" where
  "collapse_slashes (a # b # r) =
     (if a = CHR ''/'' \<and> b = CHR ''/'' then collapse_slashes (b # r)
      else a # collapse_slashes (b # r))"
| "collapse_slashes s = s"

definition normalizePath :: "filesystem \<Rightarrow> string \<Rightarrow> string" where
  "normalizePath fs p = (case canonical fs p of Some q \<Rightarrow> q | None \<Rightarrow> collapse_slashes p)"

fun tryExtensions :: "filesystem \<Rightarrow> string \<Rightarrow> string list \<Rightarrow> string" where
  "tryExtensions fs p [] = []"
| "tryExtensions fs p (e # es) = (if is_file fs (p @ e) then p @ e else tryExtensions fs p es)"

definition index_files :: "string list" where
  "index_files = [''index.node'', ''index'' @ getLibraryExtensionPlatform, ''index.protojs'',
     ''index.js'', ''index.mjs'']"

definition tryDirectory :: "filesystem \<Rightarrow> string \<Rightarrow> string" where
  "tryDirectory fs d = tryExtensions fs (d @ ''/'') index_files"

section \<open>Climbing to the parent directories\<close>

text \<open>The tail of each loop: \<open>None\<close> leaves the loop.\<close>

definition parent_dir :: "string \<Rightarrow> string option" where
  "parent_dir d = (case str_rfind CHR ''/'' d of
     None \<Rightarrow> None
   | Some i \<Rightarrow> Some (if take i d = [] then ''/'' else take i d))"

lemma parent_dir_shorter:
  assumes "parent_dir d = Some e" and "d \<noteq> ''/''"
  shows "length e < length d"
proof -
  obtain i where i: "str_rfind CHR ''/'' d = Some i" "e = (if take i d = [] then ''/'' else take i d)"
    using assms(1) by (auto simp: parent_dir_def split: option.splits)
  have less: "i < length d" using str_rfind_less [OF i(1)] .
  show ?thesis
  proof (cases "i = 0")
    case True
    have "d ! 0 = CHR ''/''" using str_rfind_nth [OF i(1)] True by simp
    with assms(2) less have "length d \<noteq> 1" by (cases d) auto
    with True i(2) less show ?thesis by (cases d) auto
  next
    case False
    with i(2) less show ?thesis by auto
  qed
qed

text \<open>The body says whether it has returned, and the state it leaves.\<close>

function walk_up :: "(string \<Rightarrow> 's \<Rightarrow> bool \<times> 's) \<Rightarrow> string \<Rightarrow> 's \<Rightarrow> 's" where
  "walk_up body d s =
     (if d = [] \<or> d = ''/'' then s
      else (case body d s of
        (True, t) \<Rightarrow> t
      | (False, t) \<Rightarrow> (case parent_dir d of None \<Rightarrow> t | Some e \<Rightarrow> walk_up body e t)))"
  by pat_completeness auto
termination
  by (relation "measure (\<lambda>(body, d, s). length d)") (auto dest: parent_dir_shorter)

declare walk_up.simps [simp del]

function ancestors :: "string \<Rightarrow> string list" where
  "ancestors d =
     (if d = [] \<or> d = ''/'' then []
      else d # (case parent_dir d of None \<Rightarrow> [] | Some e \<Rightarrow> ancestors e))"
  by pat_completeness auto
termination
  by (relation "measure length") (auto dest: parent_dir_shorter)

declare ancestors.simps [simp del]

definition findPackageJson :: "filesystem \<Rightarrow> string \<Rightarrow> string" where
  "findPackageJson fs d = walk_up (\<lambda>cur s.
     if is_file fs (cur @ ''/package.json'') then (True, cur @ ''/package.json'') else (False, s)) d []"

definition findPackageRoot :: "filesystem \<Rightarrow> string \<Rightarrow> string" where
  "findPackageRoot fs p = walk_up (\<lambda>cur s.
     if is_file fs (cur @ ''/package.json'') then (True, cur) else (False, s)) (getDirectory p) []"

section \<open>package.json\<close>

record package_json =
  pmain :: string
  pmodule :: string
  ptype :: string
  pexports :: "(string \<times> string) list"

text \<open>The text between the first two quotes after the first colon after the quoted name of the
  field, when all of these are there.\<close>

definition quoted_field :: "string \<Rightarrow> string \<Rightarrow> string option" where
  "quoted_field name content =
     Option.bind (str_find_sub (CHR 0x22 # name @ [CHR 0x22]) content) (\<lambda>p.
     Option.bind (str_find_from CHR '':'' p content) (\<lambda>colon.
     Option.bind (str_find_from CHR 0x22 colon content) (\<lambda>q.
     map_option (\<lambda>e. take (e - q - 1) (drop (q + 1) content))
       (str_find_from CHR 0x22 (q + 1) content))))"

text \<open>The \<open>exports\<close> field is located and its text is dropped: no entry is ever added.\<close>

definition parsePackageJson :: "filesystem \<Rightarrow> string \<Rightarrow> package_json option" where
  "parsePackageJson fs p = map_option (\<lambda>content.
     \<lparr>pmain = (case quoted_field ''main'' content of None \<Rightarrow> [] | Some s \<Rightarrow> s),
      pmodule = (case quoted_field ''module'' content of None \<Rightarrow> [] | Some s \<Rightarrow> s),
      ptype = (case quoted_field ''type'' content of None \<Rightarrow> [] | Some s \<Rightarrow> s),
      pexports = []\<rparr>) (read_file fs p)"

definition resolveExports :: "filesystem \<Rightarrow> string \<Rightarrow> string \<Rightarrow> string \<Rightarrow> resolve_result" where
  "resolveExports fs pkgJson specifier packageDir = (case parsePackageJson fs pkgJson of
     None \<Rightarrow> no_result
   | Some pj \<Rightarrow>
       (case map_of (pexports pj) specifier of
          None \<Rightarrow> no_result
        | Some target \<Rightarrow>
            (let exportPath = packageDir @ ''/'' @ target;
                 withExt = tryExtensions fs exportPath getResolutionOrderExtensions
             in if is_file fs exportPath then
                  setTypeFromPath (no_result\<lparr>filePath := normalizePath fs exportPath\<rparr>)
                else if withExt \<noteq> [] then
                  setTypeFromPath (no_result\<lparr>filePath := normalizePath fs withExt\<rparr>)
                else no_result)))"

section \<open>node\_modules\<close>

text \<open>The package name is everything before the second slash; the subpath everything after it.\<close>

definition package_name :: "string \<Rightarrow> string" where
  "package_name spec = (case str_find CHR ''/'' spec of
     None \<Rightarrow> spec
   | Some p \<Rightarrow> take (p + 1) spec @
       (case str_find_from CHR ''/'' (p + 1) spec of
          None \<Rightarrow> drop (p + 1) spec
        | Some q \<Rightarrow> take (q - p - 1) (drop (p + 1) spec)))"

definition package_subpath :: "string \<Rightarrow> string" where
  "package_subpath spec = (case str_find CHR ''/'' spec of
     None \<Rightarrow> []
   | Some p \<Rightarrow> (case str_find_from CHR ''/'' (p + 1) spec of
       None \<Rightarrow> [] | Some q \<Rightarrow> drop (q + 1) spec))"

text \<open>\<open>main\<close>, \<open>module\<close> and \<open>type\<close> choose the entry point and a first type.\<close>

definition entry_point :: "package_json \<Rightarrow> string \<times> module_type" where
  "entry_point pj =
     (if pmodule pj \<noteq> [] \<and> ptype pj = ''module'' then (pmodule pj, ESM)
      else if pmain pj \<noteq> [] then (pmain pj, if ptype pj = ''module'' then ESM else CommonJS)
      else (''index.js'', CommonJS))"

definition found_at :: "filesystem \<Rightarrow> string \<Rightarrow> resolve_result \<Rightarrow> bool \<times> resolve_result" where
  "found_at fs p r = (True, setTypeFromPath (r\<lparr>filePath := normalizePath fs p\<rparr>))"

definition try_package :: "filesystem \<Rightarrow> string \<Rightarrow> string \<Rightarrow> package_json \<Rightarrow> resolve_result
    \<Rightarrow> bool \<times> resolve_result" where
  "try_package fs spec packageDir pj r =
     (let r1 = r\<lparr>isPackage := True, packageName := package_name spec\<rparr>;
          subpath = package_subpath spec;
          ex = resolveExports fs (packageDir @ ''/package.json'') subpath packageDir;
          (entry, ty) = entry_point pj;
          r2 = r1\<lparr>mtype := ty\<rparr>;
          full = packageDir @ ''/'' @ entry;
          withExt = tryExtensions fs full getResolutionOrderExtensions;
          indexFile = tryDirectory fs full
      in if pexports pj \<noteq> [] \<and> subpath \<noteq> [] \<and> filePath ex \<noteq> [] then (True, ex)
         else if is_file fs full then found_at fs full r2
         else if withExt \<noteq> [] then found_at fs withExt r2
         else if is_dir fs full \<and> indexFile \<noteq> [] then found_at fs indexFile r2
         else (False, r2))"

definition node_modules_body :: "filesystem \<Rightarrow> string \<Rightarrow> string \<Rightarrow> resolve_result \<Rightarrow> bool \<times> resolve_result" where
  "node_modules_body fs spec cur r =
     (let nm = cur @ ''/node_modules''; packageDir = nm @ ''/'' @ package_name spec in
      if is_dir fs nm \<and> is_dir fs packageDir \<and> is_file fs (packageDir @ ''/package.json'') then
        (case parsePackageJson fs (packageDir @ ''/package.json'') of
           None \<Rightarrow> (False, r)
         | Some pj \<Rightarrow> try_package fs spec packageDir pj r)
      else (False, r))"

definition resolveNodeModules :: "filesystem \<Rightarrow> string \<Rightarrow> string \<Rightarrow> resolve_result" where
  "resolveNodeModules fs spec startDir =
     walk_up (node_modules_body fs spec) (normalizePath fs startDir) no_result"

section \<open>resolve\<close>

text \<open>The steps a path goes through: as it is, with an extension, as a directory.\<close>

definition try_path :: "filesystem \<Rightarrow> string \<Rightarrow> resolve_result \<Rightarrow> resolve_result" where
  "try_path fs p r =
     (let withExt = tryExtensions fs p getResolutionOrderExtensions;
          indexFile = tryDirectory fs p
      in if is_file fs p then setTypeFromPath (r\<lparr>filePath := p\<rparr>)
         else if withExt \<noteq> [] then setTypeFromPath (r\<lparr>filePath := withExt\<rparr>)
         else if is_dir fs p \<and> indexFile \<noteq> [] then setTypeFromPath (r\<lparr>filePath := indexFile\<rparr>)
         else r)"

definition is_absolute :: "string \<Rightarrow> bool" where
  "is_absolute spec \<longleftrightarrow> spec \<noteq> [] \<and> hd spec = CHR ''/''"

definition is_relative :: "string \<Rightarrow> bool" where
  "is_relative spec \<longleftrightarrow> starts_with ''./'' spec \<or> starts_with ''../'' spec"

text \<open>In the absolute case the path is stored in the result before anything is tried.\<close>

definition resolve :: "filesystem \<Rightarrow> string \<Rightarrow> string \<Rightarrow> resolve_result" where
  "resolve fs spec from =
     (let dir = (if is_file fs from then getDirectory from else from);
          dir = (if dir = [] then ''.'' else dir)
      in if is_absolute spec then
           (let p = normalizePath fs spec in try_path fs p (no_result\<lparr>filePath := p\<rparr>))
         else if is_relative spec then
           try_path fs (normalizePath fs (dir @ ''/'' @ spec)) no_result
         else resolveNodeModules fs spec dir)"

section \<open>PackageResolver\<close>

record package_info =
  info_name :: string
  info_path :: string

text \<open>The name field: when no quote follows, \<open>find\<close> returns \<open>npos\<close>, and \<open>npos + 1\<close> is 0.\<close>

definition package_info_name :: "string \<Rightarrow> string" where
  "package_info_name content = (case str_find_sub (CHR 0x22 # ''name'' @ [CHR 0x22]) content of
     None \<Rightarrow> []
   | Some p \<Rightarrow>
       (let start = (case str_find_from CHR 0x22 (p + 6) content of None \<Rightarrow> 0 | Some q \<Rightarrow> q + 1)
        in case str_find_from CHR 0x22 start content of
             None \<Rightarrow> [] | Some e \<Rightarrow> take (e - start) (drop start content)))"

definition resolvePackage :: "filesystem \<Rightarrow> string \<Rightarrow> string \<Rightarrow> package_info" where
  "resolvePackage fs name from = walk_up (\<lambda>cur info.
     let nm = cur @ ''/node_modules''; packageDir = nm @ ''/'' @ name in
     if is_dir fs nm \<and> is_dir fs packageDir \<and> is_file fs (packageDir @ ''/package.json'') then
       (True, \<lparr>info_name = package_info_name
           (case read_file fs (packageDir @ ''/package.json'') of None \<Rightarrow> [] | Some c \<Rightarrow> c),
         info_path = packageDir\<rparr>)
     else (False, info)) (normalizePath fs from) \<lparr>info_name = [], info_path = []\<rparr>"


section \<open>What is used of the file system\<close>

definition fs_ok :: "filesystem \<Rightarrow> bool" where
  "fs_ok fs \<longleftrightarrow> (\<forall>p q. canonical fs p = Some q \<longrightarrow> q \<noteq> [] \<and> is_file fs q = is_file fs p) \<and>
     (\<forall>p. is_file fs (collapse_slashes p) = is_file fs p)"

lemma collapse_slashes_Nil [simp]: "collapse_slashes s = [] \<longleftrightarrow> s = []"
  by (induction s rule: collapse_slashes.induct) auto

text \<open>The fallback leaves no repeated slash and changes nothing else.\<close>

lemma collapse_slashes_nth:
  "Suc i < length (collapse_slashes s) \<Longrightarrow>
    \<not> (collapse_slashes s ! i = CHR ''/'' \<and> collapse_slashes s ! Suc i = CHR ''/'')"
proof (induction s arbitrary: i rule: collapse_slashes.induct)
  case (1 a b r)
  have hd: "collapse_slashes (b # r) ! 0 = b"
    by (induction "b # r" arbitrary: b r rule: collapse_slashes.induct) auto
  from 1 show ?case by (cases i) (auto simp: hd split: if_splits)
qed simp_all

lemma collapse_slashes_filter:
  "filter (\<lambda>c. c \<noteq> CHR ''/'') (collapse_slashes s) = filter (\<lambda>c. c \<noteq> CHR ''/'') s"
  by (induction s rule: collapse_slashes.induct) auto

lemma is_file_normalizePath [simp]: "fs_ok fs \<Longrightarrow> is_file fs (normalizePath fs p) = is_file fs p"
  by (auto simp: fs_ok_def normalizePath_def split: option.splits)

lemma normalizePath_nonempty: "\<lbrakk>fs_ok fs; p \<noteq> []\<rbrakk> \<Longrightarrow> normalizePath fs p \<noteq> []"
  by (auto simp: fs_ok_def normalizePath_def split: option.splits)

lemma tryExtensions_file: "tryExtensions fs p es \<noteq> [] \<Longrightarrow> is_file fs (tryExtensions fs p es)"
  by (induction es) auto

text \<open>The extension found is the first one, in the order of the list, that names a file.\<close>

lemma tryExtensions_first:
  "tryExtensions fs p es = (case List.find (\<lambda>e. is_file fs (p @ e)) es of None \<Rightarrow> [] | Some e \<Rightarrow> p @ e)"
  by (induction es) auto

section \<open>Climbing\<close>

lemma walk_up_Nil: "d = [] \<or> d = ''/'' \<Longrightarrow> walk_up body d s = s"
  by (subst walk_up.simps) simp

lemma ancestors_not_root: "e \<in> set (ancestors d) \<Longrightarrow> e \<noteq> ''/'' \<and> e \<noteq> []"
proof (induction d rule: ancestors.induct)
  case (1 d)
  have d: "\<not> (d = [] \<or> d = ''/'')"
    using 1(2) by (auto simp: ancestors.simps [of d])
  show ?case
  proof (cases "parent_dir d")
    case None
    with d 1(2) show ?thesis by (simp add: ancestors.simps [of d])
  next
    case (Some p)
    with d 1(2) have "e = d \<or> e \<in> set (ancestors p)" by (simp add: ancestors.simps [of d])
    with d 1(1) [OF d Some] show ?thesis by auto
  qed
qed

text \<open>The loop is a search of the list of ancestors, as long as a body that does not return keeps
  the part of the state that is looked at.\<close>

lemma walk_up_find:
  assumes keep: "\<And>d s t. body d s = (False, t) \<Longrightarrow> P s \<Longrightarrow> P t"
    and hit: "\<And>d s s'. fst (body d s) = fst (body d s') \<and> (fst (body d s) \<longrightarrow> body d s = body d s')"
  shows "P s \<Longrightarrow> (case List.find (\<lambda>d. fst (body d s0)) (ancestors d) of
      None \<Rightarrow> P (walk_up body d s) | Some e \<Rightarrow> walk_up body d s = snd (body e s0))"
proof (induction d arbitrary: s rule: ancestors.induct)
  case (1 d)
  show ?case
  proof (cases "d = [] \<or> d = ''/''")
    case True
    with 1 show ?thesis by (simp add: walk_up_Nil ancestors.simps [of d])
  next
    case False
    obtain b t where bt: "body d s = (b, t)" by force
    show ?thesis
    proof (cases b)
      case True
      then have "body d s = (True, t)" "body d s0 = (True, t)"
        using bt hit [of d s s0] by auto
      with False show ?thesis
        by (simp add: ancestors.simps [of d] walk_up.simps [of body d s])
    next
      case b: False
      with bt hit [of d s s0] have nb: "\<not> fst (body d s0)" by simp
      have Pt: "P t" using keep [of d s t] bt b 1(2) by simp
      show ?thesis
      proof (cases "parent_dir d")
        case None
        with False bt b nb Pt show ?thesis
          by (subst ancestors.simps, subst walk_up.simps) simp
      next
        case (Some e)
        have "walk_up body d s = walk_up body e t" "ancestors d = d # ancestors e"
          using False bt b Some by (simp_all add: ancestors.simps [of d] walk_up.simps [of body d s])
        with nb 1(1) [OF False Some Pt] show ?thesis by (simp split: option.splits)
      qed
    qed
  qed
qed

section \<open>Properties\<close>

lemma try_path_cases:
  "(is_file fs (filePath (try_path fs p r)) \<and>
      mtype (try_path fs p r) = type_of_path (filePath (try_path fs p r))) \<or>
   try_path fs p r = r"
  by (auto simp: try_path_def Let_def setTypeFromPath_def tryDirectory_def tryExtensions_file)

lemma found_at_ok:
  "\<lbrakk>fs_ok fs; is_file fs p\<rbrakk> \<Longrightarrow> is_file fs (filePath (snd (found_at fs p r))) \<and>
     mtype (snd (found_at fs p r)) = type_of_path (filePath (snd (found_at fs p r)))"
  by (simp add: found_at_def setTypeFromPath_def)

lemma parsePackageJson_exports: "parsePackageJson fs p = Some pj \<Longrightarrow> pexports pj = []"
  by (auto simp: parsePackageJson_def)

lemma node_modules_body_ok:
  assumes "fs_ok fs" and "fst (node_modules_body fs spec d r)"
  shows "is_file fs (filePath (snd (node_modules_body fs spec d r))) \<and>
    mtype (snd (node_modules_body fs spec d r)) =
      type_of_path (filePath (snd (node_modules_body fs spec d r)))"
proof -
  let ?dir = "(d @ ''/node_modules'') @ ''/'' @ package_name spec"
  obtain pj where pj: "parsePackageJson fs (?dir @ ''/package.json'') = Some pj"
      "node_modules_body fs spec d r = try_package fs spec ?dir pj r"
    using assms(2) by (auto simp: node_modules_body_def Let_def split: if_splits option.splits)
  let ?full = "?dir @ ''/'' @ fst (entry_point pj)"
  let ?x = "tryExtensions fs ?full getResolutionOrderExtensions" and ?i = "tryDirectory fs ?full"
  let ?r = "r\<lparr>isPackage := True, packageName := package_name spec, mtype := snd (entry_point pj)\<rparr>"
  have "try_package fs spec ?dir pj r =
     (if is_file fs ?full then found_at fs ?full ?r
      else if ?x \<noteq> [] then found_at fs ?x ?r
      else if is_dir fs ?full \<and> ?i \<noteq> [] then found_at fs ?i ?r
      else (False, ?r))"
    using parsePackageJson_exports [OF pj(1)]
    by (simp add: try_package_def split_beta Let_def)
  moreover have "?x \<noteq> [] \<Longrightarrow> is_file fs ?x" "?i \<noteq> [] \<Longrightarrow> is_file fs ?i"
    by (simp_all add: tryExtensions_file tryDirectory_def)
  ultimately show ?thesis using assms pj(2) found_at_ok [OF assms(1)]
    by (auto split: if_splits)
qed

lemma node_modules_body_state:
  "fst (node_modules_body fs spec d r) = fst (node_modules_body fs spec d r') \<and>
   (fst (node_modules_body fs spec d r) \<longrightarrow>
      node_modules_body fs spec d r = node_modules_body fs spec d r')"
  by (auto simp: node_modules_body_def try_package_def found_at_def setTypeFromPath_def split_beta
      Let_def split: option.splits)

lemma node_modules_body_keeps:
  "\<lbrakk>node_modules_body fs spec d r = (False, t); filePath r = []\<rbrakk> \<Longrightarrow> filePath t = []"
  by (auto simp: node_modules_body_def try_package_def found_at_def split_beta Let_def
      split: if_splits option.splits)


lemma resolveNodeModules_find:
  "case List.find (\<lambda>d. fst (node_modules_body fs spec d no_result)) (ancestors (normalizePath fs start)) of
      None \<Rightarrow> filePath (resolveNodeModules fs spec start) = []
    | Some d \<Rightarrow> resolveNodeModules fs spec start = snd (node_modules_body fs spec d no_result)"
  unfolding resolveNodeModules_def
  by (rule walk_up_find [where P = "\<lambda>r. filePath r = []"])
    (erule (1) node_modules_body_keeps, rule node_modules_body_state, simp add: no_result_def)

text \<open>A file system for the witnesses: a few files, and the directories they are in.\<close>

definition example_fs :: "(string \<times> string) list \<Rightarrow> string list \<Rightarrow> filesystem" where
  "example_fs files dirs = \<lparr>is_file = (\<lambda>p. map_of files (collapse_slashes p) \<noteq> None),
     is_dir = (\<lambda>p. collapse_slashes p \<in> set dirs), canonical = (\<lambda>_. None),
     read_file = (\<lambda>p. map_of files (collapse_slashes p))\<rparr>"

lemma collapse_slashes_idem: "collapse_slashes (collapse_slashes s) = collapse_slashes s"
proof (induction s rule: collapse_slashes.induct)
  case (1 a b r)
  have "\<exists>t. collapse_slashes (b # r) = b # t"
    by (induction "b # r" arbitrary: b r rule: collapse_slashes.induct) auto
  then obtain t where t: "collapse_slashes (b # r) = b # t" by blast
  show ?case
  proof (cases "a = CHR ''/'' \<and> b = CHR ''/''")
    case True
    with 1(1) show ?thesis by simp
  next
    case False
    with 1(2) have "collapse_slashes (b # t) = b # t" by (simp add: t)
    with False show ?thesis by (auto simp: t)
  qed
qed simp_all

lemma example_fs_ok: "fs_ok (example_fs files dirs)"
  by (simp add: fs_ok_def example_fs_def collapse_slashes_idem)




text \<open>a file inside an unscoped package does not resolve. For a specifier \<open>pkg/file\<close> the whole of
  it is taken for the name of the package, so unless some \<open>node_modules\<close> on the way up has a
  directory \<open>pkg/file\<close>, nothing is found, whatever the package \<open>pkg\<close> contains.\<close>

theorem subpath_of_unscoped_package:
  assumes "CHR ''/'' \<notin> set pkg" and "CHR ''/'' \<notin> set file"
    and "\<forall>d \<in> set (ancestors (normalizePath fs start)).
      \<not> is_dir fs (d @ ''/node_modules/'' @ pkg @ ''/'' @ file)"
  shows "filePath (resolveNodeModules fs (pkg @ ''/'' @ file) start) = []"
proof -
  let ?spec = "pkg @ ''/'' @ file"
  have "str_find CHR ''/'' ?spec = Some (length pkg)"
    using str_find_append_hd [OF assms(1)] by simp
  moreover have "str_find_from CHR ''/'' (length pkg + 1) ?spec = None"
    using assms(2) by (simp add: str_find_from_def str_find_None)
  ultimately have "package_name ?spec = ?spec"
    by (simp add: package_name_def)
  then have "\<not> fst (node_modules_body fs ?spec d no_result)"
    if "d \<in> set (ancestors (normalizePath fs start))" for d
    using assms(3) that by (auto simp: node_modules_body_def Let_def)
  then have "List.find (\<lambda>d. fst (node_modules_body fs ?spec d no_result)) (ancestors (normalizePath fs start)) = None"
    by (auto simp: find_None_iff)
  with resolveNodeModules_find [of fs ?spec start] show ?thesis by simp
qed

lemma subpath_of_unscoped_package_witness:
  "filePath (resolveNodeModules (example_fs
      [(''/p/node_modules/lodash/package.json'', ''{}''), (''/p/node_modules/lodash/fp.js'', [])]
      [''/p/node_modules'', ''/p/node_modules/lodash'']) ''lodash/fp'' ''/p'') = []"
proof -
  let ?fs = "example_fs [(''/p/node_modules/lodash/package.json'', ''{}''), (''/p/node_modules/lodash/fp.js'', [])]
      [''/p/node_modules'', ''/p/node_modules/lodash'']"
  have a: "ancestors (normalizePath ?fs ''/p'') = [''/p'']" by code_simp
  have "\<not> is_dir ?fs (''/p'' @ ''/node_modules/'' @ ''lodash'' @ ''/'' @ ''fp'')" by code_simp
  with subpath_of_unscoped_package [of "''lodash''" "''fp''" ?fs "''/p''"] a show ?thesis by simp
qed

end
