(* ===== verification/CommonJs.thy ===== *)
theory CommonJs
  imports Store Resolver "HOL-Library.AList"
begin

text \<open>
  Models \<open>src/modules/CommonJSLoader.cpp\<close> and \<open>src/modules/ModuleCache.cpp\<close>: \<open>require\<close>, from the
  specifier to the value returned, with its cache and with modules that require one another.

  \<^item> A JavaScript value is a \<open>jsv\<close>; objects live in a store, an object being the list of its
    properties. Reference counts are left out here (\<open>ObjectCount\<close> treats those of
    \<open>createModuleObject\<close>), so an object stays where it is.
  \<^item> The JavaScript engine runs the text of a module. What a text does is the parameter \<open>script\<close>:
    a list of actions, or \<open>None\<close> for a syntax error. An uncaught exception ends it.
  \<^item> protoCore's \<open>getImportModule\<close> (with the conversion of its result), the loading of a shared
    library and its initialisation are parameters; the initialisation returns the exports and
    changes no object.
  \<^item> \<open>require\<close> takes fuel for the modules it runs inside one another; \<open>None\<close> is running out of it,
    and \<open>require_terminates\<close> bounds what is needed by the number of files.
\<close>

datatype jsv =
  JUndef | JNull | JBool bool | JString string | JObject nat | JFunction string
| JException string

datatype action =
  Require string               \<comment> \<open>\<open>require(spec)\<close>\<close>
| Reexport string string       \<comment> \<open>\<open>exports.name = require(spec)\<close>\<close>
| Set_export string jsv        \<comment> \<open>\<open>exports.name = value\<close>\<close>
| Set_module_exports jsv       \<comment> \<open>\<open>module.exports = value\<close>\<close>
| Throw string

type_synonym js_object = "(string \<times> jsv) list"

record cjs_env =
  fs :: filesystem
  global :: "string \<Rightarrow> jsv"                \<comment> \<open>properties of the global object\<close>
  to_cstring :: "jsv \<Rightarrow> string option"
  has_space :: bool                        \<comment> \<open>a wrapper with a space and a context\<close>
  import_module :: "string \<Rightarrow> jsv option"
  library_load :: "string \<Rightarrow> bool"
  library_init :: "string \<Rightarrow> nat \<Rightarrow> jsv"
  script :: "string \<Rightarrow> action list option"

record cjs_state =
  objects :: "js_object list"
  moduleCache :: "(string \<times> jsv) list"

section \<open>Objects\<close>

fun is_exception :: "jsv \<Rightarrow> bool" where
  "is_exception (JException m) = True"
| "is_exception _ = False"

definition new_object :: "js_object \<Rightarrow> cjs_state \<Rightarrow> nat \<times> cjs_state" where
  "new_object ps st = (length (objects st), st\<lparr>objects := objects st @ [ps]\<rparr>)"

definition set_prop :: "nat \<Rightarrow> string \<Rightarrow> jsv \<Rightarrow> cjs_state \<Rightarrow> cjs_state" where
  "set_prop a name v st = st\<lparr>objects := (objects st)[a := AList.update name v (objects st ! a)]\<rparr>"

definition get_prop :: "cjs_state \<Rightarrow> nat \<Rightarrow> string \<Rightarrow> jsv" where
  "get_prop st a name = (case map_of (objects st ! a) name of None \<Rightarrow> JUndef | Some v \<Rightarrow> v)"

definition cache_put :: "string \<Rightarrow> jsv \<Rightarrow> cjs_state \<Rightarrow> cjs_state" where
  "cache_put k v st = st\<lparr>moduleCache := map_put k v (moduleCache st)\<rparr>"

definition cache_erase :: "string \<Rightarrow> cjs_state \<Rightarrow> cjs_state" where
  "cache_erase k st = st\<lparr>moduleCache := map_erase k (moduleCache st)\<rparr>"

definition cached :: "cjs_state \<Rightarrow> string \<Rightarrow> jsv option" where
  "cached st k = map_of (moduleCache st) k"

text \<open>The address of the module object; its exports object and its \<open>children\<close> array follow it.\<close>

definition createModuleObject :: "string \<Rightarrow> cjs_state \<Rightarrow> nat \<times> cjs_state" where
  "createModuleObject file st =
     (let m = length (objects st) in
      (m, st\<lparr>objects := objects st @
        [[(''exports'', JObject (m + 1)), (''id'', JString file), (''filename'', JString file),
          (''loaded'', JBool False), (''children'', JObject (m + 2)), (''parent'', JNull)], [], []]\<rparr>))"

section \<open>Running a module\<close>

text \<open>\<open>req\<close> is the \<open>require\<close> the module is given; \<open>e\<close> and \<open>m\<close> its exports and module objects.\<close>

fun run_script :: "(string \<Rightarrow> cjs_state \<Rightarrow> (cjs_state \<times> jsv) option) \<Rightarrow> nat \<Rightarrow> nat \<Rightarrow> action list
    \<Rightarrow> cjs_state \<Rightarrow> (cjs_state \<times> jsv) option" where
  "run_script req e m [] st = Some (st, JUndef)"
| "run_script req e m (Require spec # acts) st =
     (case req spec st of
        None \<Rightarrow> None
      | Some (st1, v) \<Rightarrow> if is_exception v then Some (st1, v) else run_script req e m acts st1)"
| "run_script req e m (Reexport name spec # acts) st =
     (case req spec st of
        None \<Rightarrow> None
      | Some (st1, v) \<Rightarrow> if is_exception v then Some (st1, v)
          else run_script req e m acts (set_prop e name v st1))"
| "run_script req e m (Set_export name v # acts) st = run_script req e m acts (set_prop e name v st)"
| "run_script req e m (Set_module_exports v # acts) st =
     run_script req e m acts (set_prop m ''exports'' v st)"
| "run_script req e m (Throw msg # acts) st = Some (st, JException msg)"

text \<open>\<open>wrapModule\<close> makes a module object of its own and hands its exports to the module.\<close>

definition wrapModule :: "(string \<Rightarrow> cjs_state \<Rightarrow> (cjs_state \<times> jsv) option) \<Rightarrow> cjs_env \<Rightarrow> string \<Rightarrow> string
    \<Rightarrow> cjs_state \<Rightarrow> (cjs_state \<times> jsv) option" where
  "wrapModule req env source file st =
     (let (m, st1) = createModuleObject file st in
      case script env source of
        None \<Rightarrow> Some (st1, JException ''SyntaxError'')
      | Some acts \<Rightarrow>
          (case run_script req (m + 1) m acts st1 of
             None \<Rightarrow> None
           | Some (st2, v) \<Rightarrow>
               Some (set_prop m ''loaded'' (JBool True) st2, if is_exception v then v else JUndef)))"

section \<open>require\<close>

definition isBareSpecifier :: "string \<Rightarrow> bool" where
  "isBareSpecifier spec \<longleftrightarrow> spec \<noteq> [] \<and> hd spec \<noteq> CHR ''.'' \<and> hd spec \<noteq> CHR ''/''"

text \<open>The first stage, for bare specifiers: protoCore's modules. \<open>None\<close> goes on to the next stage.\<close>

definition umd_stage :: "cjs_env \<Rightarrow> string \<Rightarrow> cjs_state \<Rightarrow> (cjs_state \<times> jsv) option" where
  "umd_stage env spec st =
     (if isBareSpecifier spec \<and> has_space env then
        (case cached st (''umd:'' @ spec) of
           Some v \<Rightarrow> Some (st, v)
         | None \<Rightarrow>
             (case import_module env spec of
                None \<Rightarrow> None
              | Some v \<Rightarrow> if is_exception v then None
                  else Some (cache_put (''umd:'' @ spec) v st, v)))
      else None)"

text \<open>The second stage: a property of the global object; \<open>buffer\<close> is wrapped in a new object.\<close>

definition builtin_value :: "cjs_env \<Rightarrow> string \<Rightarrow> cjs_state \<Rightarrow> cjs_state \<times> jsv" where
  "builtin_value env spec st =
     (if spec = ''buffer'' then
        (if global env ''Buffer'' = JUndef then (st, JUndef)
         else (let (a, st1) = new_object [(''Buffer'', global env ''Buffer'')] st in (st1, JObject a)))
      else (st, global env spec))"

definition builtin_stage :: "cjs_env \<Rightarrow> string \<Rightarrow> cjs_state \<Rightarrow> (cjs_state \<times> jsv) option" where
  "builtin_stage env spec st =
     (if \<not> isBareSpecifier spec then None
      else
        (let (st1, b) = builtin_value env spec st in
         if b = JUndef then None
         else (case cached st1 (''builtin:'' @ spec) of
           Some v \<Rightarrow> Some (st1, v)
         | None \<Rightarrow> Some (cache_put (''builtin:'' @ spec) b st1, b))))"

definition native_stage :: "cjs_env \<Rightarrow> string \<Rightarrow> cjs_state \<Rightarrow> cjs_state \<times> jsv" where
  "native_stage env path st =
     (if \<not> library_load env path then (st, JException (''Cannot load native module: '' @ path))
      else if \<not> has_space env then (st, JException ''Native module load: ProtoContext not available'')
      else
        (let (m, st1) = createModuleObject path st; v = library_init env path m in
         if is_exception v then (st1, v) else (cache_put path v st1, v)))"

definition js_stage :: "(string \<Rightarrow> cjs_state \<Rightarrow> (cjs_state \<times> jsv) option) \<Rightarrow> cjs_env \<Rightarrow> string
    \<Rightarrow> cjs_state \<Rightarrow> (cjs_state \<times> jsv) option" where
  "js_stage req env path st = (case read_file (fs env) path of
     None \<Rightarrow> Some (st, JException (''Cannot open module: '' @ path))
   | Some source \<Rightarrow>
       (let (m, st1) = createModuleObject path st;
            st2 = cache_put path (JObject m) st1
        in case wrapModule req env source path st2 of
             None \<Rightarrow> None
           | Some (st3, w) \<Rightarrow>
               if is_exception w then Some (cache_erase path st3, w)
               else
                 (let exports = get_prop st3 m ''exports''
                  in Some (cache_put path exports st3, exports))))"

definition file_stage :: "(string \<Rightarrow> cjs_state \<Rightarrow> (cjs_state \<times> jsv) option) \<Rightarrow> cjs_env \<Rightarrow> string \<Rightarrow> string
    \<Rightarrow> cjs_state \<Rightarrow> (cjs_state \<times> jsv) option" where
  "file_stage req env spec from st =
     (let r = resolve (fs env) spec from in
      if filePath r = [] then Some (st, JException (''Cannot find module: '' @ spec))
      else (case cached st (filePath r) of
        Some v \<Rightarrow> Some (st, v)
      | None \<Rightarrow>
          if mtype r = Native then Some (native_stage env (filePath r) st)
          else js_stage req env (filePath r) st))"

text \<open>\<open>requireImpl\<close> takes the path it resolves from out of the global \<open>__filename\<close>.\<close>

definition from_path :: "cjs_env \<Rightarrow> string" where
  "from_path env =
     (if global env ''__filename'' = JUndef then ''.''
      else (case to_cstring env (global env ''__filename'') of None \<Rightarrow> ''.'' | Some s \<Rightarrow> s))"

fun require :: "nat \<Rightarrow> cjs_env \<Rightarrow> string \<Rightarrow> string \<Rightarrow> cjs_state \<Rightarrow> (cjs_state \<times> jsv) option" where
  "require 0 env spec from st = None"
| "require (Suc n) env spec from st =
     (case umd_stage env spec st of
        Some r \<Rightarrow> Some r
      | None \<Rightarrow>
          (case builtin_stage env spec st of
             Some r \<Rightarrow> Some r
           | None \<Rightarrow> file_stage (\<lambda>s. require n env s (from_path env)) env spec from st))"

definition requireImpl :: "nat \<Rightarrow> cjs_env \<Rightarrow> jsv list \<Rightarrow> cjs_state \<Rightarrow> (cjs_state \<times> jsv) option" where
  "requireImpl n env args st = (case args of
     [] \<Rightarrow> Some (st, JException ''require expects a module specifier'')
   | a # _ \<Rightarrow>
       (case to_cstring env a of
          None \<Rightarrow> Some (st, JException [])
        | Some spec \<Rightarrow> require n env spec (from_path env) st))"

definition requireResolve :: "cjs_env \<Rightarrow> string \<Rightarrow> string \<Rightarrow> jsv" where
  "requireResolve env spec from =
     (let r = resolve (fs env) spec from in
      if filePath r = [] then JException (''Cannot resolve module: '' @ spec) else JString (filePath r))"

definition requireResolveImpl :: "cjs_env \<Rightarrow> jsv list \<Rightarrow> jsv" where
  "requireResolveImpl env args = (case args of
     [] \<Rightarrow> JException ''require.resolve expects a module specifier''
   | a # _ \<Rightarrow>
       (case to_cstring env a of
          None \<Rightarrow> JException []
        | Some spec \<Rightarrow> requireResolve env spec (from_path env)))"

section \<open>ModuleCache\<close>

record cached_module =
  cm_type :: module_type
  cm_object :: jsv
  cm_filePath :: string
  cm_dependencies :: "string list"
  cm_specifier :: string

type_synonym module_cache = "(string \<times> cached_module) list"

definition mc_get :: "module_cache \<Rightarrow> string \<Rightarrow> cached_module option" where
  "mc_get c key = map_of c key"

definition mc_put :: "string \<Rightarrow> cached_module \<Rightarrow> module_cache \<Rightarrow> module_cache" where
  "mc_put key m c = map_put key m c"

definition mc_invalidate :: "string \<Rightarrow> module_cache \<Rightarrow> module_cache" where
  "mc_invalidate key c = map_erase key c"

definition mc_clear :: "module_cache \<Rightarrow> module_cache" where
  "mc_clear c = []"

definition mc_has :: "module_cache \<Rightarrow> string \<Rightarrow> bool" where
  "mc_has c key \<longleftrightarrow> map_of c key \<noteq> None"

definition mc_size :: "module_cache \<Rightarrow> nat" where
  "mc_size c = length c"

interpretation module_cache: kv_store map_ok mc_get mc_put mc_invalidate
  by unfold_locales (auto simp: mc_get_def mc_put_def mc_invalidate_def map_of_put map_of_erase)


section \<open>What a call leaves alone\<close>

text \<open>From \<open>st\<close> to \<open>st'\<close> the cache has lost no key, objects have only been added, and those below
  \<open>k\<close> are as they were.\<close>

definition grows :: "nat \<Rightarrow> cjs_state \<Rightarrow> cjs_state \<Rightarrow> bool" where
  "grows k st st' \<longleftrightarrow> map_ok (moduleCache st') \<and> dom (cached st) \<subseteq> dom (cached st') \<and>
     length (objects st) \<le> length (objects st') \<and> (\<forall>a<k. objects st' ! a = objects st ! a)"

definition good_req :: "(string \<Rightarrow> cjs_state \<Rightarrow> (cjs_state \<times> jsv) option) \<Rightarrow> bool" where
  "good_req req \<longleftrightarrow> (\<forall>s st st' v. map_ok (moduleCache st) \<longrightarrow> req s st = Some (st', v) \<longrightarrow>
     grows (length (objects st)) st st')"

lemma cached_fun: "cached st = map_of (moduleCache st)"
  by (simp add: fun_eq_iff cached_def)

lemma grows_refl: "map_ok (moduleCache st) \<Longrightarrow> grows k st st"
  by (simp add: grows_def)

lemma grows_trans: "\<lbrakk>grows k a b; grows j b c; k \<le> j\<rbrakk> \<Longrightarrow> grows k a c"
  by (auto simp: grows_def)

lemma grows_set_prop: "\<lbrakk>map_ok (moduleCache st); k \<le> a\<rbrakk> \<Longrightarrow> grows k st (set_prop a n v st)"
  by (simp add: grows_def set_prop_def cached_fun)

lemma cached_cache_put [simp]: "cached (cache_put k v st) j = (if j = k then Some v else cached st j)"
  by (simp add: cached_def cache_put_def map_of_put)

lemma cached_cache_erase [simp]:
  "map_ok (moduleCache st) \<Longrightarrow> cached (cache_erase k st) j = (if j = k then None else cached st j)"
  by (simp add: cached_def cache_erase_def map_of_erase)

lemma objects_cache_put [simp]: "objects (cache_put k v st) = objects st"
  by (simp add: cache_put_def)

lemma grows_cache_put: "map_ok (moduleCache st) \<Longrightarrow> grows k st (cache_put n v st)"
  by (auto simp: grows_def dom_def) (simp_all add: cache_put_def)

lemma grows_cache_erase:
  assumes "grows k st st'" and "cached st n = None"
  shows "grows k st (cache_erase n st')"
proof -
  have "map_ok (moduleCache st')" using assms(1) by (simp add: grows_def)
  moreover have "objects (cache_erase n st') = objects st'" by (simp add: cache_erase_def)
  moreover have "map_ok (moduleCache (cache_erase n st'))"
    using \<open>map_ok (moduleCache st')\<close> by (simp add: cache_erase_def map_ok_erase)
  ultimately show ?thesis using assms by (auto simp: grows_def dom_def)
qed

lemma createModuleObject_facts:
  assumes "createModuleObject file st = (m, st1)"
  shows "m = length (objects st)" "moduleCache st1 = moduleCache st"
    "length (objects st1) = length (objects st) + 3"
    "a < length (objects st) \<Longrightarrow> objects st1 ! a = objects st ! a"
    "objects st1 ! (m + 1) = []" "get_prop st1 m ''exports'' = JObject (m + 1)"
  using assms by (auto simp: createModuleObject_def Let_def nth_append get_prop_def)

lemma createModuleObject_grows:
  assumes "createModuleObject file st = (m, st1)" and "map_ok (moduleCache st)" and "k \<le> length (objects st)"
  shows "grows k st st1"
  using createModuleObject_facts [OF assms(1)] assms(2,3) by (auto simp: grows_def cached_fun)

lemma run_script_grows:
  assumes "good_req req" and "k \<le> e" and "k \<le> m"
  shows "\<lbrakk>run_script req e m acts st = Some (st', v); map_ok (moduleCache st); k \<le> length (objects st)\<rbrakk>
    \<Longrightarrow> grows k st st'"
proof (induction acts arbitrary: st)
  case (Cons act acts)
  have step: "grows k st st'" if "grows k st st1" "run_script req e m acts st1 = Some (st', v)" for st1
  proof -
    have "map_ok (moduleCache st1)" "k \<le> length (objects st1)"
      using that(1) Cons.prems(3) by (auto simp: grows_def)
    from Cons.IH [OF that(2) this] that(1) show ?thesis by (blast intro: grows_trans)
  qed
  have req: "grows k st st1" if "req s st = Some (st1, w)" for s st1 w
    using assms(1) that Cons.prems(2,3) by (fastforce simp: good_req_def grows_def)
  have put: "grows k st (set_prop a n w st1)" if "grows k st st1" "k \<le> a" for st1 a n w
    using that grows_set_prop [of st1 k a n w] grows_trans [of k st st1 k] by (simp add: grows_def)
  show ?case
  proof (cases act)
    case (Require s)
    with Cons.prems(1) obtain st1 w where r: "req s st = Some (st1, w)"
      by (auto split: option.splits)
    with Require Cons.prems(1) req [OF r] step show ?thesis by (auto split: if_splits)
  next
    case (Reexport n s)
    with Cons.prems(1) obtain st1 w where r: "req s st = Some (st1, w)"
      by (auto split: option.splits)
    with Reexport Cons.prems(1) req [OF r] put [OF req [OF r] assms(2)] step show ?thesis
      by (auto split: if_splits)
  next
    case (Set_export n w)
    with Cons.prems put [OF grows_refl assms(2)] step show ?thesis by auto
  next
    case (Set_module_exports w)
    with Cons.prems put [OF grows_refl assms(3)] step show ?thesis by auto
  next
    case (Throw msg)
    with Cons.prems show ?thesis by (auto intro: grows_refl)
  qed
qed (auto intro: grows_refl)

lemma wrapModule_grows:
  assumes "good_req req" and "wrapModule req env src file st = Some (st', v)" and "map_ok (moduleCache st)"
  shows "grows (length (objects st)) st st'"
proof -
  obtain m st1 where c: "createModuleObject file st = (m, st1)" by force
  note f = createModuleObject_facts [OF c]
  have g1: "grows (length (objects st)) st st1" using createModuleObject_grows [OF c assms(3)] by simp
  show ?thesis
  proof (cases "script env src")
    case None
    with assms(2) c g1 show ?thesis by (simp add: wrapModule_def)
  next
    case (Some acts)
    with assms(2) c obtain st2 w where r: "run_script req (m + 1) m acts st1 = Some (st2, w)"
        "st' = set_prop m ''loaded'' (JBool True) st2"
      by (auto simp: wrapModule_def split: option.splits)
    have "grows (length (objects st)) st1 st2"
      using run_script_grows [OF assms(1) _ _ r(1), of "length (objects st)"] f assms(3) by simp
    then have g2: "grows (length (objects st)) st st2" using g1 grows_trans by blast
    then have "map_ok (moduleCache st2)" by (simp add: grows_def)
    from grows_set_prop [OF this, of "length (objects st)" m] f(1) g2 r(2) show ?thesis
      using grows_trans by blast
  qed
qed

text \<open>The value of a module that runs without an exception is the exports object that
  \<open>createModuleObject\<close> made, untouched.\<close>

lemma js_stage_facts:
  assumes "good_req req" and "js_stage req env path st = Some (st', v)" and "map_ok (moduleCache st)"
    and "cached st path = None"
  shows "grows (length (objects st)) st st'"
    and "\<not> is_exception v \<Longrightarrow> v = JObject (length (objects st) + 1) \<and>
      objects st' ! (length (objects st) + 1) = [] \<and> cached st' path = Some v"
    and "is_exception v \<Longrightarrow> cached st' path = None"
proof -
  have "grows (length (objects st)) st st' \<and>
    (\<not> is_exception v \<longrightarrow> v = JObject (length (objects st) + 1) \<and>
      objects st' ! (length (objects st) + 1) = [] \<and> cached st' path = Some v) \<and>
    (is_exception v \<longrightarrow> cached st' path = None)"
  proof (cases "read_file (fs env) path")
    case None
    with assms show ?thesis by (auto simp: js_stage_def intro: grows_refl)
  next
    case (Some source)
    obtain m st1 where c: "createModuleObject path st = (m, st1)" by force
    note f = createModuleObject_facts [OF c]
    define st2 where "st2 = cache_put path (JObject m) st1"
    have st2: "map_ok (moduleCache st2)" "objects st2 = objects st1"
      using assms(3) f(2) by (simp_all add: st2_def cache_put_def)
    have g2: "grows (length (objects st)) st st2"
      unfolding st2_def
      using grows_trans [OF createModuleObject_grows [OF c assms(3) order_refl] grows_cache_put order_refl]
      by (simp add: f(2) assms(3))
    obtain st3 w where w: "wrapModule req env source path st2 = Some (st3, w)"
      using assms(2) c Some by (auto simp: js_stage_def st2_def [symmetric] split: option.splits)
    have g23: "grows (length (objects st2)) st2 st3" using wrapModule_grows [OF assms(1) w st2(1)] .
    have len: "length (objects st) \<le> length (objects st2)" using f st2(2) by simp
    have g3: "grows (length (objects st)) st st3" using grows_trans [OF g2 g23 len] .
    have keep: "objects st3 ! m = objects st1 ! m" "objects st3 ! (m + 1) = []"
      using g23 f st2(2) by (auto simp: grows_def)
    show ?thesis
    proof (cases "is_exception w")
      case True
      then have "st' = cache_erase path st3" "v = w"
        using assms(2) c Some w by (simp_all add: js_stage_def st2_def [symmetric])
      with True grows_cache_erase [OF g3 assms(4)] g3 show ?thesis by (simp add: grows_def)
    next
      case False
      then have "st' = cache_put path v st3" "v = get_prop st3 m ''exports''"
        using assms(2) c Some w by (auto simp: js_stage_def Let_def st2_def [symmetric])
      moreover have "get_prop st3 m ''exports'' = JObject (m + 1)"
        using keep f(6) by (simp add: get_prop_def)
      moreover have "grows (length (objects st)) st (cache_put path v st3)"
        using g3 grows_cache_put [of st3 "length (objects st)" path v] grows_trans
        by (metis grows_def order_refl)
      ultimately show ?thesis using keep(2) f(1)
        objects_cache_put [of path v st3] by simp
    qed
  qed
  then show "grows (length (objects st)) st st'"
    and "\<not> is_exception v \<Longrightarrow> v = JObject (length (objects st) + 1) \<and>
      objects st' ! (length (objects st) + 1) = [] \<and> cached st' path = Some v"
    and "is_exception v \<Longrightarrow> cached st' path = None" by blast+
qed


lemma umd_stage_facts:
  assumes "umd_stage env spec st = Some (st', v)" and "map_ok (moduleCache st)"
  shows "grows (length (objects st)) st st'" "cached st' (''umd:'' @ spec) = Some v"
    "isBareSpecifier spec \<and> has_space env"
  using assms by (auto simp: umd_stage_def split: if_splits option.splits
      intro: grows_refl grows_cache_put)

lemma builtin_value_facts:
  assumes "builtin_value env spec st = (st1, b)" and "map_ok (moduleCache st)"
  shows "grows (length (objects st)) st st1" "moduleCache st1 = moduleCache st"
  using assms by (auto simp: builtin_value_def new_object_def Let_def grows_def cached_fun nth_append
      split: if_splits)

lemma builtin_stage_facts:
  assumes "builtin_stage env spec st = Some (st', v)" and ok: "map_ok (moduleCache st)"
  shows "grows (length (objects st)) st st'" "cached st' (''builtin:'' @ spec) = Some v"
    "isBareSpecifier spec"
proof -
  obtain st1 b where b: "builtin_value env spec st = (st1, b)" by force
  note f = builtin_value_facts [OF b ok]
  have "map_ok (moduleCache st1)" using f(2) ok by simp
  from grows_trans [OF f(1) grows_cache_put [OF this] order_refl]
  have "grows (length (objects st)) st (cache_put k w st1)" for k w .
  with assms(1) b f(1) show "grows (length (objects st)) st st'" "cached st' (''builtin:'' @ spec) = Some v"
    "isBareSpecifier spec"
    by (auto simp: builtin_stage_def split: if_splits option.splits)
qed

lemma native_stage_facts:
  assumes "native_stage env path st = (st', v)" and ok: "map_ok (moduleCache st)"
  shows "grows (length (objects st)) st st'" "\<not> is_exception v \<Longrightarrow> cached st' path = Some v"
proof -
  obtain m st1 where c: "createModuleObject path st = (m, st1)" by force
  have g: "grows (length (objects st)) st st1" using createModuleObject_grows [OF c ok] by simp
  then have "map_ok (moduleCache st1)" by (simp add: grows_def)
  from grows_trans [OF g grows_cache_put [OF this] order_refl]
  have "grows (length (objects st)) st (cache_put k w st1)" for k w .
  with assms c g show "grows (length (objects st)) st st'" "\<not> is_exception v \<Longrightarrow> cached st' path = Some v"
    by (auto simp: native_stage_def Let_def intro: grows_refl split: if_splits)
qed

lemma file_stage_facts:
  assumes "good_req req" and "file_stage req env spec from st = Some (st', v)" and "map_ok (moduleCache st)"
  shows "grows (length (objects st)) st st'"
    and "\<not> is_exception v \<Longrightarrow> filePath (resolve (fs env) spec from) \<noteq> [] \<and>
      cached st' (filePath (resolve (fs env) spec from)) = Some v"
proof -
  let ?p = "filePath (resolve (fs env) spec from)"
  consider (none) "?p = []" | (hit) u where "?p \<noteq> []" "cached st ?p = Some u"
    | (native) "?p \<noteq> []" "cached st ?p = None" "mtype (resolve (fs env) spec from) = Native"
    | (js) "?p \<noteq> []" "cached st ?p = None" "mtype (resolve (fs env) spec from) \<noteq> Native"
    by blast
  then have "grows (length (objects st)) st st' \<and> (\<not> is_exception v \<longrightarrow> ?p \<noteq> [] \<and> cached st' ?p = Some v)"
  proof cases
    case none
    with assms show ?thesis by (auto simp: file_stage_def intro: grows_refl)
  next
    case hit
    with assms show ?thesis by (auto simp: file_stage_def intro: grows_refl)
  next
    case native
    with assms have "native_stage env ?p st = (st', v)" by (simp add: file_stage_def Let_def)
    from native_stage_facts [OF this assms(3)] native show ?thesis by blast
  next
    case js
    with assms have "js_stage req env ?p st = Some (st', v)" by (simp add: file_stage_def Let_def)
    from js_stage_facts [OF assms(1) this assms(3) js(2)] js show ?thesis by blast
  qed
  then show "grows (length (objects st)) st st'"
    and "\<not> is_exception v \<Longrightarrow> ?p \<noteq> [] \<and> cached st' ?p = Some v" by blast+
qed

lemma good_req_require: "good_req (\<lambda>s. require n env s from)"
proof (induction n arbitrary: "from")
  case (Suc n)
  note fl = file_stage_facts(1) [OF Suc]
  show ?case
    unfolding good_req_def
  proof (intro allI impI)
    fix s st st' v
    assume ok: "map_ok (moduleCache st)" and r: "require (Suc n) env s from st = Some (st', v)"
    show "grows (length (objects st)) st st'"
    proof (cases "umd_stage env s st")
      case (Some u)
      with r umd_stage_facts(1) [OF _ ok] show ?thesis by simp
    next
      case None
      show ?thesis
      proof (cases "builtin_stage env s st")
        case (Some u)
        with None r builtin_stage_facts(1) [OF _ ok] show ?thesis by simp
      next
        case none2: None
        with None r fl [OF _ ok] show ?thesis by simp
      qed
    qed
  qed
qed (simp_all add: good_req_def)


section \<open>Properties\<close>

text \<open>A program for the witnesses: \<open>a.js\<close> and \<open>b.js\<close> require each other.\<close>

definition example_files :: "(string \<times> string) list" where
  "example_files = [(''/p/a.js'', ''A''), (''/p/./a.js'', ''A''), (''/p/./b.js'', ''B''),
     (''/p/./lib/c.js'', ''C''), (''/p/./lib/d.js'', ''D'')]"

definition example_env :: cjs_env where
  "example_env = \<lparr>fs = example_fs example_files [''/p'', ''/p/lib''],
     global = (\<lambda>n. if n = ''__filename'' then JString ''/p/a.js'' else JUndef),
     to_cstring = (\<lambda>v. case v of JString s \<Rightarrow> Some s | _ \<Rightarrow> None), has_space = False,
     import_module = (\<lambda>_. None), library_load = (\<lambda>_. False), library_init = (\<lambda>_ _. JUndef),
     script = (\<lambda>src. if src = ''A'' then Some [Reexport ''b'' ''./b'', Set_export ''x'' (JString ''one'')]
       else if src = ''B'' then Some [Reexport ''a'' ''./a'', Throw ''late'']
       else if src = ''C'' then Some [Require ''./d''] else Some [])\<rparr>"

definition empty_cjs :: cjs_state where
  "empty_cjs = \<lparr>objects = [], moduleCache = []\<rparr>"

lemma empty_cjs_ok [simp]: "map_ok (moduleCache empty_cjs)"
  by (simp add: empty_cjs_def)

text \<open>a JavaScript module exports nothing. When \<open>require\<close> of a path loads and runs a file that is
  not yet in the cache, the value it returns is a new object without any property, whatever the file
  assigns to \<open>exports\<close> or \<open>module.exports\<close>: \<open>wrapModule\<close> ran it with a different module object.\<close>

theorem require_returns_empty_exports:
  assumes "require (Suc n) env spec from st = Some (st', v)" and "map_ok (moduleCache st)"
    and "\<not> isBareSpecifier spec" and "filePath (resolve (fs env) spec from) = path" and "path \<noteq> []"
    and "mtype (resolve (fs env) spec from) \<noteq> Native" and "cached st path = None"
    and "\<not> is_exception v"
  shows "\<exists>a. v = JObject a \<and> length (objects st) \<le> a \<and> objects st' ! a = [] \<and> cached st' path = Some v"
proof -
  have "umd_stage env spec st = None" "builtin_stage env spec st = None"
    using assms(3) by (simp_all add: umd_stage_def builtin_stage_def)
  with assms(1,4-7) have "js_stage (\<lambda>s. require n env s (from_path env)) env path st = Some (st', v)"
    by (simp add: file_stage_def Let_def)
  from js_stage_facts(2) [OF good_req_require this assms(2,7,8)] show ?thesis
    by (intro exI [of _ "length (objects st) + 1"]) simp
qed

lemma require_returns_empty_exports_witness:
  "\<exists>st' a. require 3 (example_env\<lparr>script := (\<lambda>_. Some [Set_export ''x'' JNull])\<rparr>) ''./b'' ''/p/a.js'' empty_cjs =
     Some (st', JObject a) \<and> objects st' ! a = []"
proof -
  let ?env = "example_env\<lparr>script := (\<lambda>_. Some [Set_export ''x'' JNull])\<rparr>"
  define r where "r = require 3 ?env ''./b'' ''/p/a.js'' empty_cjs"
  have "r \<noteq> None" "\<not> is_exception (snd (the r))" unfolding r_def by code_simp+
  then obtain st' v where r: "require (Suc 2) ?env ''./b'' ''/p/a.js'' empty_cjs = Some (st', v)"
      "\<not> is_exception v"
    by (auto simp: r_def numeral_3_eq_3 [symmetric])
  have "\<not> isBareSpecifier ''./b''" by code_simp
  moreover have "filePath (resolve (fs ?env) ''./b'' ''/p/a.js'') = ''/p/./b.js''" by code_simp
  moreover have "mtype (resolve (fs ?env) ''./b'' ''/p/a.js'') \<noteq> Native" by code_simp
  moreover have "cached empty_cjs ''/p/./b.js'' = None" by code_simp
  ultimately show ?thesis
    using require_returns_empty_exports [OF r(1) empty_cjs_ok _ _ _ _ _ r(2)] r by (fastforce simp: numeral_3_eq_3)
qed

text \<open>C16: a file is loaded once. After a \<open>require\<close> of a path that did not throw, the same
  \<open>require\<close> made again returns the same value at once and changes nothing, however little fuel it
  has.\<close>

theorem require_cached:
  assumes "require n env spec from st = Some (st', v)" and "map_ok (moduleCache st)"
    and "\<not> isBareSpecifier spec" and "\<not> is_exception v"
  shows "require (Suc m) env spec from st' = Some (st', v)"
proof -
  obtain k where n: "n = Suc k" using assms(1) by (cases n) auto
  have skip: "umd_stage env spec s = None" "builtin_stage env spec s = None" for s
    using assms(3) by (simp_all add: umd_stage_def builtin_stage_def)
  with assms(1) n have "file_stage (\<lambda>s. require k env s (from_path env)) env spec from st = Some (st', v)"
    by simp
  from file_stage_facts(2) [OF good_req_require this assms(2,4)] skip show ?thesis
    by (simp add: file_stage_def Let_def)
qed

lemma require_cached_witness:
  "\<exists>st' v. require 2 example_env ''./lib/d'' ''/p/a.js'' empty_cjs = Some (st', v) \<and>
     require 1 example_env ''./lib/d'' ''/p/a.js'' st' = Some (st', v)"
proof -
  define r where "r = require 2 example_env ''./lib/d'' ''/p/a.js'' empty_cjs"
  have "r \<noteq> None" "\<not> is_exception (snd (the r))" unfolding r_def by code_simp+
  then obtain st' v where r: "require 2 example_env ''./lib/d'' ''/p/a.js'' empty_cjs = Some (st', v)"
      "\<not> is_exception v"
    by (auto simp: r_def)
  have "\<not> isBareSpecifier ''./lib/d''" by code_simp
  from require_cached [OF r(1) empty_cjs_ok this r(2), of 0] r(1) show ?thesis by auto
qed

text \<open>Fuel: the files that can still be run, the ones not in the cache, bound the depth.\<close>

lemma psubset_member: "A \<subseteq> B \<Longrightarrow> x \<in> B \<Longrightarrow> x \<notin> A \<Longrightarrow> A \<subset> B"
  by blast

definition uncached :: "string list \<Rightarrow> cjs_state \<Rightarrow> nat" where
  "uncached paths st = card {p \<in> set paths. cached st p = None}"

lemma uncached_antimono: "dom (cached st) \<subseteq> dom (cached st') \<Longrightarrow> uncached paths st' \<le> uncached paths st"
  unfolding uncached_def by (rule card_mono) auto

lemma run_script_returns:
  assumes "good_req req"
    and "\<And>s st'. \<lbrakk>dom (cached st0) \<subseteq> dom (cached st'); map_ok (moduleCache st')\<rbrakk> \<Longrightarrow> req s st' \<noteq> None"
  shows "\<lbrakk>dom (cached st0) \<subseteq> dom (cached st); map_ok (moduleCache st)\<rbrakk>
    \<Longrightarrow> run_script req e m acts st \<noteq> None"
proof (induction acts arbitrary: st)
  case (Cons act acts)
  have after: "dom (cached st0) \<subseteq> dom (cached st1) \<and> map_ok (moduleCache st1)"
    if "req s st = Some (st1, v)" for s st1 v
    using assms(1) that Cons.prems by (fastforce simp: good_req_def grows_def)
  have put: "cached (set_prop a k v st1) = cached st1" "moduleCache (set_prop a k v st1) = moduleCache st1"
    for a k v st1
    by (simp_all add: set_prop_def cached_fun)
  have req: "\<exists>st1 v. req s st = Some (st1, v)" for s
    using assms(2) [OF Cons.prems, of s] by auto
  show ?case
  proof (cases act)
    case (Require s)
    obtain st1 v where r: "req s st = Some (st1, v)" using req by blast
    from Cons.IH [of st1] after [OF r] r Require show ?thesis by simp
  next
    case (Reexport k s)
    obtain st1 v where r: "req s st = Some (st1, v)" using req by blast
    from Cons.IH [of "set_prop e k v st1"] after [OF r] r Reexport show ?thesis by (simp add: put)
  next
    case (Set_export k v)
    with Cons.IH [of "set_prop e k v st"] Cons.prems show ?thesis by (simp add: put)
  next
    case (Set_module_exports v)
    with Cons.IH [of "set_prop m ''exports'' v st"] Cons.prems show ?thesis by (simp add: put)
  qed simp
qed simp

lemma js_stage_returns:
  assumes "good_req req" and "map_ok (moduleCache st)"
    and "\<And>s st'. \<lbrakk>insert path (dom (cached st)) \<subseteq> dom (cached st'); map_ok (moduleCache st')\<rbrakk> \<Longrightarrow> req s st' \<noteq> None"
  shows "js_stage req env path st \<noteq> None"
proof (cases "read_file (fs env) path")
  case None
  then show ?thesis by (simp add: js_stage_def)
next
  case (Some source)
  obtain m st1 where c: "createModuleObject path st = (m, st1)" by force
  define st2 where "st2 = cache_put path (JObject m) st1"
  have st2: "map_ok (moduleCache st2)" "dom (cached st2) = insert path (dom (cached st))"
    using createModuleObject_facts(2) [OF c] assms(2)
    by (auto simp: st2_def cached_fun cache_put_def map_of_put)
  obtain m2 st3 where c2: "createModuleObject path st2 = (m2, st3)" by force
  note f = createModuleObject_facts(2) [OF c2]
  have rs: "run_script req (m2 + 1) m2 acts st3 \<noteq> None" for acts
    by (rule run_script_returns [OF assms(1), of st2]) (use st2 f assms(3) in \<open>auto simp: cached_fun\<close>)
  then have "wrapModule req env source path st2 \<noteq> None"
  proof (cases "script env source")
    case (Some acts)
    obtain st4 v where "run_script req (m2 + 1) m2 acts st3 = Some (st4, v)" using rs [of acts] by auto
    with Some c2 show ?thesis by (simp add: wrapModule_def)
  qed (simp add: wrapModule_def split_beta)
  with Some c show ?thesis
    by (auto simp: js_stage_def Let_def st2_def [symmetric] split: option.splits)
qed

text \<open>C15: \<open>require\<close> returns, circular dependencies included. When every file that can be read is in
  the list \<open>paths\<close>, fuel one above the number of those not yet in the cache is enough.\<close>

theorem require_terminates:
  assumes "map_ok (moduleCache st)" and "\<And>p. read_file (fs env) p \<noteq> None \<Longrightarrow> p \<in> set paths"
    and "uncached paths st < n"
  shows "require n env spec from st \<noteq> None"
  using assms(1,3)
proof (induction n arbitrary: spec "from" st)
  case (Suc n)
  let ?p = "filePath (resolve (fs env) spec from)"
  have "file_stage (\<lambda>s. require n env s (from_path env)) env spec from st \<noteq> None"
  proof (cases "?p = [] \<or> cached st ?p \<noteq> None \<or> mtype (resolve (fs env) spec from) = Native \<or>
      read_file (fs env) ?p = None")
    case True
    then show ?thesis by (auto simp: file_stage_def js_stage_def Let_def split: option.splits)
  next
    case False
    have lt: "uncached paths st' < n" if "insert ?p (dom (cached st)) \<subseteq> dom (cached st')" for st'
    proof -
      have "dom (cached st) \<subseteq> dom (cached st')" using that by blast
      then have keep: "cached st' q = None \<Longrightarrow> cached st q = None" for q by (meson domIff subsetD)
      have "{p \<in> set paths. cached st' p = None} \<subseteq> {p \<in> set paths. cached st p = None}"
        by (rule Collect_mono) (use keep in blast)
      moreover have "?p \<in> {p \<in> set paths. cached st p = None}" using False assms(2) by blast
      moreover have "?p \<notin> {p \<in> set paths. cached st' p = None}" using that by (simp add: subset_iff domIff)
      ultimately have "{p \<in> set paths. cached st' p = None} \<subset> {p \<in> set paths. cached st p = None}"
        by (rule psubset_member)
      then have "uncached paths st' < uncached paths st"
        unfolding uncached_def by (intro psubset_card_mono) auto
      with Suc.prems(2) show ?thesis by simp
    qed
    have "js_stage (\<lambda>s. require n env s (from_path env)) env ?p st \<noteq> None"
      by (rule js_stage_returns [OF good_req_require Suc.prems(1)]) (use Suc.IH lt in blast)
    with False show ?thesis by (simp add: file_stage_def Let_def)
  qed
  then show ?case by (auto split: option.splits)
qed simp

lemma require_terminates_witness:
  "require 6 (example_env\<lparr>fs := (fs example_env)\<lparr>read_file := map_of example_files\<rparr>\<rparr>) ''./b'' ''/p/a.js'' empty_cjs \<noteq> None"
proof (rule require_terminates [where paths = "map fst example_files"])
  show "p \<in> set (map fst example_files)"
    if "read_file (fs (example_env\<lparr>fs := (fs example_env)\<lparr>read_file := map_of example_files\<rparr>\<rparr>)) p \<noteq> None" for p
    using that by (auto simp: example_files_def split: if_splits)
  have "uncached (map fst example_files) empty_cjs \<le> card (set (map fst example_files))"
    unfolding uncached_def by (rule card_mono) auto
  also have "\<dots> \<le> 5" by (rule order_trans [OF card_length]) (simp add: example_files_def)
  finally show "uncached (map fst example_files) empty_cjs < 6" by simp
qed simp

text \<open>A relative \<open>require\<close> inside a module is resolved from the main script. In the example the main
  script is \<open>/p/a.js\<close> and \<open>/p/lib/c.js\<close> requires its neighbour \<open>./d\<close>: the call fails, though
  \<open>/p/lib/d.js\<close> exists and the main script can require it as \<open>./lib/d\<close>.\<close>

theorem nested_require_resolves_from_main:
  "(\<exists>st. require 6 example_env ''./lib/c'' ''/p/a.js'' empty_cjs =
      Some (st, JException ''Cannot find module: ./d'')) \<and>
   (\<exists>st v. require 6 example_env ''./lib/d'' ''/p/a.js'' empty_cjs = Some (st, v) \<and> is_exception v = False)"
proof -
  have "snd (the (require 6 example_env ''./lib/c'' ''/p/a.js'' empty_cjs)) = JException ''Cannot find module: ./d''"
    "require 6 example_env ''./lib/c'' ''/p/a.js'' empty_cjs \<noteq> None" by code_simp+
  moreover have "is_exception (snd (the (require 6 example_env ''./lib/d'' ''/p/a.js'' empty_cjs))) = False"
    "require 6 example_env ''./lib/d'' ''/p/a.js'' empty_cjs \<noteq> None" by code_simp+
  ultimately show ?thesis by (metis option.sel surj_pair option.exhaust_sel snd_conv)
qed

end
