(* ===== verification/ObjectCount.thy ===== *)
theory ObjectCount
  imports CommonJs
begin

text \<open>
  Reference counts. QuickJS objects are counted, and the functions of its C interface say who owns
  what: \<open>JS_NewObject\<close> and \<open>JS_GetPropertyStr\<close> hand a reference to the caller,
  \<open>JS_SetPropertyStr\<close> takes one from the caller, \<open>JS_DupValue\<close> adds one and \<open>JS_FreeValue\<close> gives
  one back; an object whose count reaches 0 is released with its properties. On top of these rules
  this theory models \<open>CommonJSLoader::createModuleObject\<close> and \<open>src/modules/ModuleInterop.cpp\<close>.

  A cell of the heap is the count and the properties. Releasing an object releases what its
  properties hold, down to the depth given as fuel.
\<close>

type_synonym cell = "nat \<times> js_object"
type_synonym heap = "cell list"

definition js_new :: "heap \<Rightarrow> nat \<times> heap" where
  "js_new h = (length h, h @ [(1, [])])"

definition js_dup :: "jsv \<Rightarrow> heap \<Rightarrow> heap" where
  "js_dup v h = (case v of JObject a \<Rightarrow> h[a := (fst (h ! a) + 1, snd (h ! a))] | _ \<Rightarrow> h)"

fun js_free :: "nat \<Rightarrow> jsv \<Rightarrow> heap \<Rightarrow> heap" where
  "js_free 0 v h = h"
| "js_free (Suc n) v h =
     (case v of
        JObject a \<Rightarrow>
          if 1 < fst (h ! a) then h[a := (fst (h ! a) - 1, snd (h ! a))]
          else foldl (\<lambda>g kv. js_free n (snd kv) g) (h[a := (0, [])]) (snd (h ! a))
      | _ \<Rightarrow> h)"

definition prop_of :: "heap \<Rightarrow> nat \<Rightarrow> string \<Rightarrow> jsv" where
  "prop_of h a name = (case map_of (snd (h ! a)) name of None \<Rightarrow> JUndef | Some v \<Rightarrow> v)"

text \<open>Setting a property frees the value it replaces.\<close>

definition js_set :: "nat \<Rightarrow> nat \<Rightarrow> string \<Rightarrow> jsv \<Rightarrow> heap \<Rightarrow> heap" where
  "js_set n a name v h = js_free n (prop_of h a name)
     (h[a := (fst (h ! a), AList.update name v (snd (h ! a)))])"

definition js_get :: "nat \<Rightarrow> string \<Rightarrow> heap \<Rightarrow> jsv \<times> heap" where
  "js_get a name h = (prop_of h a name, js_dup (prop_of h a name) h)"

section \<open>createModuleObject\<close>

text \<open>The array of \<open>children\<close> is one more object; strings and booleans are not counted here.\<close>

definition createModuleObject_counted :: "nat \<Rightarrow> string \<Rightarrow> heap \<Rightarrow> nat \<times> heap" where
  "createModuleObject_counted n file h =
     (let (m, h) = js_new h;
          (e, h) = js_new h;
          h = js_set n m ''exports'' (JObject e) h;
          h = js_set n m ''id'' (JString file) h;
          h = js_set n m ''filename'' (JString file) h;
          h = js_set n m ''loaded'' (JBool False) h;
          (c, h) = js_new h;
          h = js_set n m ''children'' (JObject c) h;
          h = js_set n m ''parent'' JNull h
      in (m, js_free n (JObject e) h))"

section \<open>ModuleInterop\<close>

text \<open>An exports value is an object or something else; \<open>js_is_object\<close> tells.\<close>

fun js_is_object :: "jsv \<Rightarrow> bool" where
  "js_is_object (JObject a) = True"
| "js_is_object (JFunction f) = True"
| "js_is_object _ = False"

text \<open>One turn of the loop that copies the properties: get, set, free.\<close>

definition copy_property :: "nat \<Rightarrow> nat \<Rightarrow> nat \<Rightarrow> heap \<Rightarrow> string \<Rightarrow> heap" where
  "copy_property n a ns h name =
     (let (v, h) = js_get a name h; h = js_set n ns name v h in js_free n v h)"

definition cjsToESM :: "nat \<Rightarrow> nat \<Rightarrow> heap \<Rightarrow> nat \<times> heap" where
  "cjsToESM n m h =
     (let (ex, h) = js_get m ''exports'' h;
          (ns, h) = js_new h;
          h = (case ex of
                 JObject a \<Rightarrow>
                   js_set n ns ''default'' ex (js_dup ex
                     (foldl (copy_property n a ns) h (map fst (snd (h ! a)))))
               | _ \<Rightarrow> js_set n ns ''default'' ex h);
          h = js_set n ns ''__esModule'' (JBool True) h
      in (ns, js_free n ex h))"

definition esmToCJS :: "nat \<Rightarrow> heap \<Rightarrow> jsv \<times> heap" where
  "esmToCJS ns h =
     (let (d, h) = js_get ns ''default'' h in
      if d \<noteq> JUndef then (d, h) else (JObject ns, js_dup (JObject ns) h))"

definition isCommonJSModule :: "nat \<Rightarrow> jsv \<Rightarrow> heap \<Rightarrow> bool \<times> heap" where
  "isCommonJSModule n v h = (case v of
     JObject a \<Rightarrow> (let (ex, h) = js_get a ''exports'' h in (ex \<noteq> JUndef \<and> \<not> is_exception ex, js_free n ex h))
   | JFunction f \<Rightarrow> (False, h)
   | _ \<Rightarrow> (False, h))"

fun js_truthy :: "jsv \<Rightarrow> bool" where
  "js_truthy JUndef = False"
| "js_truthy JNull = False"
| "js_truthy (JBool b) = b"
| "js_truthy (JString s) = (s \<noteq> [])"
| "js_truthy _ = True"

definition isESModuleNamespace :: "nat \<Rightarrow> jsv \<Rightarrow> heap \<Rightarrow> bool \<times> heap" where
  "isESModuleNamespace n v h = (case v of
     JObject a \<Rightarrow> (let (es, h) = js_get a ''__esModule'' h in (\<not> is_exception es \<and> js_truthy es, js_free n es h))
   | JFunction f \<Rightarrow> (False, h)
   | _ \<Rightarrow> (False, h))"

section \<open>Facts about the interface\<close>

lemma js_get_free:
  assumes "a < length h" and "\<And>b. prop_of h a name = JObject b \<Longrightarrow> b < length h \<and> 1 \<le> fst (h ! b)"
  shows "js_free (Suc n) (prop_of h a name) (snd (js_get a name h)) = h"
proof (cases "prop_of h a name")
  case (JObject b)
  with assms(2) have "b < length h" "1 \<le> fst (h ! b)" by auto
  with JObject show ?thesis by (simp add: js_get_def js_dup_def list_update_same_conv)
qed (simp_all add: js_get_def js_dup_def)

section \<open>Properties\<close>

lemma append_cells:
  "(h @ x # xs) ! length h = x" "(h @ x # y # xs) ! Suc (length h) = y"
  "(h @ x # xs)[length h := z] = h @ z # xs" "(h @ x # y # xs)[Suc (length h) := z] = h @ x # z # xs"
  by (simp_all add: nth_append list_update_append)

lemma js_new_append: "js_new (h @ xs) = (length h + length xs, h @ xs @ [(1, [])])"
  by (simp add: js_new_def)

lemma js_set_new:
  "map_of ps name = None \<Longrightarrow> js_set (Suc n) (length h) name v (h @ (c, ps) # xs) = h @ (c, AList.update name v ps) # xs"
  by (simp add: js_set_def prop_of_def append_cells)

text \<open>\<open>createModuleObject\<close> gives back the exports object it has just handed to the module. The
  object's only reference is the property of the module, and its count is 0: every later use of
  \<open>module.exports\<close> reads released memory.\<close>

theorem createModuleObject_releases_exports:
  "case createModuleObject_counted (Suc n) file h of (m, h') \<Rightarrow>
     prop_of h' m ''exports'' = JObject (Suc m) \<and> fst (h' ! Suc m) = 0 \<and> fst (h' ! m) = 1"
proof -
  have "createModuleObject_counted (Suc n) file h = (length h, h @
      [(1, [(''exports'', JObject (Suc (length h))), (''id'', JString file), (''filename'', JString file),
        (''loaded'', JBool False), (''children'', JObject (Suc (Suc (length h)))), (''parent'', JNull)]),
       (0, []), (1, [])])"
    using js_new_append [of h "[]"] js_new_append [of h "[_]"] js_new_append [of h "[_, _]"]
    by (simp add: createModuleObject_counted_def Let_def js_set_new append_cells)
  then show ?thesis by (simp add: prop_of_def append_cells)
qed


text \<open>An object value that is really there: its cell exists and is counted.\<close>

definition held :: "heap \<Rightarrow> jsv \<Rightarrow> bool" where
  "held h v \<longleftrightarrow> (case v of JObject b \<Rightarrow> b < length h \<and> 0 < fst (h ! b) | _ \<Rightarrow> True)"

lemma update_fresh: "map_of ps k = None \<Longrightarrow> AList.update k v ps = ps @ [(k, v)]"
  by (induction ps) (auto split: if_splits)

lemma js_dup_append: "held g v \<Longrightarrow> js_dup v (g @ xs) = js_dup v g @ xs"
  by (auto simp: held_def js_dup_def nth_append list_update_append split: jsv.splits)

lemma length_js_dup [simp]: "length (js_dup v g) = length g"
  by (simp add: js_dup_def split: jsv.splits)

lemma js_free_dup: "held g v \<Longrightarrow> js_free (Suc n) v (js_dup v g @ xs) = g @ xs"
  by (auto simp: held_def js_dup_def nth_append list_update_append list_update_same_conv
      split: jsv.splits)

lemma copy_property_effect:
  assumes "a < length g" and "map_of (snd (g ! a)) name = Some v" and "held g v" and "map_of qs name = None"
  shows "copy_property (Suc n) a (length g) (g @ [(c, qs)]) name = g @ [(c, qs @ [(name, v)])]"
proof -
  have v: "prop_of (g @ [(c, qs)]) a name = v" using assms by (simp add: prop_of_def nth_append)
  have "js_set (Suc n) (length g) name v (js_dup v g @ [(c, qs)]) = js_dup v g @ [(c, qs @ [(name, v)])]"
    using js_set_new [OF assms(4), of n "js_dup v g" v c "[]"] by (simp add: update_fresh [OF assms(4)])
  with v assms(3) show ?thesis
    by (simp add: copy_property_def js_get_def js_dup_append js_free_dup del: js_free.simps)
qed

lemma copy_properties_effect:
  assumes "a < length g"
  shows "\<lbrakk>\<forall>(k, v) \<in> set rs. map_of (snd (g ! a)) k = Some v \<and> held g v;
     distinct (map fst rs); fst ` set qs \<inter> fst ` set rs = {}\<rbrakk> \<Longrightarrow>
   foldl (copy_property (Suc n) a (length g)) (g @ [(c, qs)]) (map fst rs) = g @ [(c, qs @ rs)]"
proof (induction rs arbitrary: qs)
  case (Cons r rs)
  obtain k v where r: "r = (k, v)" by force
  have "copy_property (Suc n) a (length g) (g @ [(c, qs)]) k = g @ [(c, qs @ [(k, v)])]"
    using Cons.prems r by (intro copy_property_effect [OF assms]) (auto simp: map_of_eq_None_iff)
  moreover have "foldl (copy_property (Suc n) a (length g)) (g @ [(c, qs @ [(k, v)])]) (map fst rs) =
      g @ [(c, (qs @ [(k, v)]) @ rs)]"
    using Cons.prems r by (intro Cons.IH) auto
  ultimately show ?case using r by simp
qed simp

text \<open>the namespace made from a CommonJS module holds every property of the exports, but only the
  exports object itself is counted once more (for \<open>default\<close>): the count of an object held by a
  property is as before, although two properties hold it now, because the copying loop frees the
  reference that \<open>JS_SetPropertyStr\<close> has taken.\<close>

theorem cjsToESM_undercounts:
  assumes "m < length h" and "prop_of h m ''exports'' = JObject a" and "held h (JObject a)"
    and "distinct (map fst (snd (h ! a)))" and "\<forall>(k, v) \<in> set (snd (h ! a)). held h v"
    and "{''default'', ''__esModule''} \<inter> fst ` set (snd (h ! a)) = {}"
  shows "case cjsToESM (Suc n) m h of (ns, h') \<Rightarrow>
    (\<forall>k v. map_of (snd (h ! a)) k = Some v \<longrightarrow> prop_of h' ns k = v) \<and>
    prop_of h' ns ''default'' = JObject a \<and>
    (\<forall>b < length h. fst (h' ! b) = fst (h ! b) + (if b = a then 1 else 0))"
proof -
  let ?ps = "snd (h ! a)" and ?L = "length h"
  define g where "g = js_dup (JObject a) h"
  have a: "a < ?L" "0 < fst (h ! a)" using assms(3) by (auto simp: held_def)
  have g: "length g = ?L" "snd (g ! a) = ?ps" "fst (g ! a) = fst (h ! a) + 1"
    using a by (auto simp: g_def js_dup_def)
  have held: "held g v" if "held h v" for v
    using that a by (auto simp: held_def g_def js_dup_def nth_list_update split: jsv.splits)
  have copied: "foldl (copy_property (Suc n) a ?L) (g @ [(1, [])]) (map fst ?ps) = g @ [(1, ?ps)]"
    using copy_properties_effect [of a g ?ps "[]" n 1] a g held assms(4,5) by auto
  have fresh: "map_of ?ps ''default'' = None" "map_of (?ps @ [(''default'', w)]) ''__esModule'' = None" for w
    using assms(6) by (auto simp: map_of_eq_None_iff)
  define g2 where "g2 = js_dup (JObject a) g"
  have "js_dup (JObject a) (g @ [(1, ?ps)]) = g2 @ [(1, ?ps)]"
    using js_dup_append [OF held [OF assms(3)]] by (simp add: g2_def)
  moreover have "js_set (Suc n) ?L ''default'' (JObject a) (g2 @ [(1, ?ps)]) =
      g2 @ [(1, ?ps @ [(''default'', JObject a)])]"
    using js_set_new [OF fresh(1), of n g2 "JObject a" 1 "[]"] g by (simp add: g2_def update_fresh [OF fresh(1)])
  moreover have "js_set (Suc n) ?L ''__esModule'' (JBool True) (g2 @ [(1, ?ps @ [(''default'', JObject a)])]) =
      g2 @ [(1, ?ps @ [(''default'', JObject a), (''__esModule'', JBool True)])]"
    using js_set_new [OF fresh(2), of n g2 "JBool True" 1 "JObject a" "[]"] g
    by (simp add: g2_def update_fresh [OF fresh(2)])
  moreover have "js_free (Suc n) (JObject a) (g2 @ xs) = g @ xs" for xs
    unfolding g2_def using js_free_dup [OF held [OF assms(3)]] .
  ultimately have "cjsToESM (Suc n) m h = (?L, g @ [(1, ?ps @ [(''default'', JObject a), (''__esModule'', JBool True)])])"
    using assms(2) a g copied
    by (simp add: cjsToESM_def js_get_def js_new_def g_def [symmetric] nth_append del: js_free.simps)
  moreover have "fst ((g @ xs) ! b) = fst (h ! b) + (if b = a then 1 else 0)" if "b < ?L" for b xs
    using that g a by (auto simp: nth_append g_def js_dup_def)
  moreover have "prop_of (g @ [(1, ?ps @ qs)]) ?L k = v" if "map_of ?ps k = Some v" for k v qs
    using that g by (simp add: prop_of_def append_cells(1) nth_append)
  moreover have "prop_of (g @ [(1, ?ps @ [(''default'', JObject a), (''__esModule'', JBool True)])]) ?L ''default'' = JObject a"
    using g fresh(1) by (simp add: prop_of_def nth_append map_add_def)
  ultimately show ?thesis by simp
qed

lemma cjsToESM_undercounts_witness:
  "let h = [(1, [(''exports'', JObject 1)]), (1, [(''x'', JObject 2)]), (1, [])] in
    case cjsToESM 1 0 h of (ns, h') \<Rightarrow> prop_of h' ns ''x'' = JObject 2 \<and> fst (h' ! 2) = 1"
proof -
  let ?h = "[(1, [(''exports'', JObject 1)]), (1, [(''x'', JObject 2)]), (1, [])] :: heap"
  have "prop_of ?h 0 ''exports'' = JObject 1" by (simp add: prop_of_def)
  with cjsToESM_undercounts [of 0 ?h 1 0] show ?thesis
    by (simp add: held_def Let_def split_beta)
qed

end
