(* ===== verification/Regex.thy ===== *)
theory Regex
  imports Prelude
begin

text \<open>
  The part of \<open>std::regex\<close> (ECMAScript grammar) that protoJS uses to scan module sources: literal
  text, character classes with \<open>+\<close> and \<open>*\<close>, sequence, alternation and capturing groups.

  \<open>matches r s\<close> lists every way \<open>r\<close> matches a prefix of \<open>s\<close>, in the order in which a backtracking
  matcher tries them, so the first one is the match; each is the rest of the text and the groups
  captured. \<open>all_matches\<close> is \<open>std::sregex_iterator\<close>: successive matches, each searched from the end
  of the one before.
\<close>

datatype regex =
  Lit string
| One "char \<Rightarrow> bool"
| Plus "char \<Rightarrow> bool"
| Star "char \<Rightarrow> bool"
| Seq regex regex
| Alt regex regex
| Group nat regex

type_synonym captures = "(nat \<times> string) list"

fun matches :: "regex \<Rightarrow> string \<Rightarrow> (string \<times> captures) list" where
  "matches (Lit w) s = (if starts_with w s then [(drop (length w) s, [])] else [])"
| "matches (One p) s = (case s of [] \<Rightarrow> [] | c # r \<Rightarrow> if p c then [(r, [])] else [])"
| "matches (Plus p) s = map (\<lambda>k. (drop k s, [])) (rev [1..<Suc (length (takeWhile p s))])"
| "matches (Star p) s = map (\<lambda>k. (drop k s, [])) (rev [0..<Suc (length (takeWhile p s))])"
| "matches (Seq a b) s =
     concat (map (\<lambda>(r, c). map (\<lambda>(r', c'). (r', c @ c')) (matches b r)) (matches a s))"
| "matches (Alt a b) s = matches a s @ matches b s"
| "matches (Group i a) s =
     map (\<lambda>(r, c). (r, (i, take (length s - length r) s) # c)) (matches a s)"

text \<open>The rest of a match is a suffix of the text, so a group is the text it matched.\<close>

lemma matches_suffix: "(r, c) \<in> set (matches x s) \<Longrightarrow> \<exists>t. s = t @ r"
proof (induction x arbitrary: s r c)
  case (Seq a b)
  from Seq.prems obtain r1 c1 c2 where "(r1, c1) \<in> set (matches a s)" "(r, c2) \<in> set (matches b r1)"
    by auto
  with Seq.IH show ?case by (metis append.assoc)
next
  case (Lit w)
  then show ?case by (auto simp: str_simps split: if_splits)
next
  case (One p)
  then show ?case by (auto split: list.splits if_splits)
next
  case (Plus p)
  then show ?case by (auto intro: append_take_drop_id [symmetric])
next
  case (Star p)
  then show ?case by (auto intro: append_take_drop_id [symmetric])
next
  case (Alt a b)
  then show ?case by auto
next
  case (Group i a)
  then show ?case by auto
qed

function all_matches :: "regex \<Rightarrow> string \<Rightarrow> captures list" where
  "all_matches x s =
     (case s of
        [] \<Rightarrow> []
      | _ # t \<Rightarrow>
          (case matches x s of
             [] \<Rightarrow> all_matches x t
           | (r, c) # _ \<Rightarrow> if length r < length s then c # all_matches x r else all_matches x t))"
  by pat_completeness auto
termination
  by (relation "measure (\<lambda>(x, s). length s)") auto

declare all_matches.simps [simp del]

definition capture :: "nat \<Rightarrow> captures \<Rightarrow> string" where
  "capture i c = (case map_of c i of None \<Rightarrow> [] | Some s \<Rightarrow> s)"

definition seq :: "regex list \<Rightarrow> regex" where
  "seq rs = foldr Seq rs (Lit [])"

definition is_ws :: "char \<Rightarrow> bool" where
  "is_ws c \<longleftrightarrow> c \<in> set [CHR '' '', CHR 0x09, CHR 0x0A, CHR 0x0B, CHR 0x0C, CHR 0x0D]"

definition is_word :: "char \<Rightarrow> bool" where
  "is_word c \<longleftrightarrow> c \<in> set ''abcdefghijklmnopqrstuvwxyzABCDEFGHIJKLMNOPQRSTUVWXYZ0123456789_''"

definition is_quote :: "char \<Rightarrow> bool" where
  "is_quote c \<longleftrightarrow> c = CHR 0x27 \<or> c = CHR 0x22"

end
