(* ===== verification/EsModule.thy ===== *)
theory EsModule
  imports Regex CommonJs
begin

text \<open>
  Models \<open>src/modules/ESModuleLoader.cpp\<close> and \<open>src/modules/AsyncModuleLoader.cpp\<close>: loading an ES
  module with its dependencies into the module cache.

  \<^item> The regular expressions of the code are built with \<open>Regex\<close>; the export one is applied and its
    matches are dropped by the code, so it has no counterpart here.
  \<^item> The evaluation of a module's text by QuickJS is the parameter \<open>evaluates\<close> (does it run without
    an exception); its effects on the engine are not seen by the loader. \<open>evaluated\<close> records which
    files have been evaluated.
  \<^item> The loader calls itself for each dependency; it takes fuel, \<open>None\<close> being that it ran out. An
    import cycle uses up any fuel, as \<open>esm_cycle_never_returns\<close> shows.
\<close>

record esm_record =
  er_specifier :: string
  er_filePath :: string
  er_exports :: "(string \<times> jsv) list"
  er_default :: jsv
  er_dependencies :: "string list"
  er_bindings :: "(string \<times> string) list"
  er_evaluated :: bool
  er_evaluating :: bool
  er_source :: string

record esm_env =
  efs :: filesystem
  evaluates :: "string \<Rightarrow> string \<Rightarrow> bool"

record esm_state =
  namespaces :: "js_object list"
  mcache :: module_cache
  evaluated :: "string list"

section \<open>Scanning the source\<close>

definition import_regex :: regex where
  "import_regex = seq [Lit ''import'', Plus is_ws,
     Alt (seq [Lit ''*'', Plus is_ws, Lit ''as'', Plus is_ws, Group 1 (Plus is_word)])
       (Alt (seq [Lit ''{'', Group 2 (Plus (\<lambda>c. c \<noteq> CHR ''}'')), Lit ''}''])
         (Alt (Group 3 (Plus is_word))
           (seq [Group 4 (Plus is_word), Star is_ws, Lit '','', Star is_ws, Lit ''{'',
             Group 5 (Plus (\<lambda>c. c \<noteq> CHR ''}'')), Lit ''}'']))),
     Plus is_ws, Lit ''from'', Plus is_ws, One is_quote, Group 6 (Plus (\<lambda>c. \<not> is_quote c)), One is_quote]"

definition dynamic_import_regex :: regex where
  "dynamic_import_regex = seq [Lit ''import'', Star is_ws, Lit ''('', Star is_ws, One is_quote,
     Group 1 (Plus (\<lambda>c. \<not> is_quote c)), One is_quote, Star is_ws, Lit '')'']"

definition add_import :: "esm_record \<Rightarrow> captures \<Rightarrow> esm_record" where
  "add_import r c =
     (let r = r\<lparr>er_dependencies := er_dependencies r @ [capture 6 c]\<rparr> in
      if capture 1 c \<noteq> [] then r\<lparr>er_bindings := map_put (capture 1 c) ''*'' (er_bindings r)\<rparr>
      else if capture 2 c \<noteq> [] then r
      else if capture 3 c \<noteq> [] then r\<lparr>er_bindings := map_put (capture 3 c) ''default'' (er_bindings r)\<rparr>
      else r)"

definition extractImports :: "esm_record \<Rightarrow> string \<Rightarrow> esm_record" where
  "extractImports r source =
     (let r = foldl add_import r (all_matches import_regex source)
      in r\<lparr>er_dependencies := er_dependencies r @ map (capture 1) (all_matches dynamic_import_regex source)\<rparr>)"

definition extractExports :: "esm_record \<Rightarrow> string \<Rightarrow> esm_record" where
  "extractExports r source = r"

definition parseModule :: "string \<Rightarrow> string \<Rightarrow> esm_record" where
  "parseModule path source = extractExports (extractImports
     \<lparr>er_specifier = [], er_filePath = path, er_exports = [], er_default = JUndef,
      er_dependencies = [], er_bindings = [], er_evaluated = False, er_evaluating = False,
      er_source = source\<rparr> source) source"

section \<open>Evaluation and namespace\<close>

definition bindImports :: "esm_record \<Rightarrow> esm_record" where
  "bindImports r = r"

definition evaluateModule :: "esm_env \<Rightarrow> esm_record \<Rightarrow> esm_state \<Rightarrow> esm_record \<times> esm_state" where
  "evaluateModule env r st =
     (if er_evaluated r then (r, st)
      else if er_evaluating r then (r, st)
      else
        (let st1 = st\<lparr>evaluated := evaluated st @ [er_filePath r]\<rparr> in
         if \<not> evaluates env (er_filePath r) (er_source r) then (r\<lparr>er_evaluating := False\<rparr>, st1)
         else ((bindImports r)\<lparr>er_evaluating := False, er_evaluated := True\<rparr>, st1)))"

definition createNamespaceObject :: "esm_record \<Rightarrow> esm_state \<Rightarrow> jsv \<times> esm_state" where
  "createNamespaceObject r st =
     (let ps = foldl (\<lambda>ps (n, v). AList.update n v ps) [] (er_exports r);
          ps = (if er_default r = JUndef then ps else AList.update ''default'' (er_default r) ps);
          ps = AList.update ''__esModule'' (JBool True) ps
      in (JObject (length (namespaces st)), st\<lparr>namespaces := namespaces st @ [ps]\<rparr>))"

section \<open>loadModule\<close>

definition esm_key :: "string \<Rightarrow> string \<Rightarrow> string" where
  "esm_key spec from = spec @ '':'' @ from"

text \<open>\<open>resolveDependencies\<close>, over the loader it calls; values and exceptions are dropped.\<close>

fun resolveDependencies :: "(string \<Rightarrow> string \<Rightarrow> esm_state \<Rightarrow> (esm_state \<times> jsv) option) \<Rightarrow> esm_env
    \<Rightarrow> string \<Rightarrow> string list \<Rightarrow> esm_state \<Rightarrow> esm_state option" where
  "resolveDependencies load env path [] st = Some st"
| "resolveDependencies load env path (d # ds) st =
     (let r = resolve (efs env) d path in
      if filePath r \<noteq> [] \<and> mtype r = ESM then
        (case load d path st of
           None \<Rightarrow> None
         | Some (st1, v) \<Rightarrow> resolveDependencies load env path ds st1)
      else resolveDependencies load env path ds st)"

text \<open>The part after the cache and the resolution, on a file that was read.\<close>

definition finish_load :: "esm_env \<Rightarrow> string \<Rightarrow> string \<Rightarrow> esm_record \<Rightarrow> esm_state \<Rightarrow> esm_state \<times> jsv" where
  "finish_load env spec from r st =
     (let (r, st) = evaluateModule env r st;
          (ns, st) = createNamespaceObject r st
      in (st\<lparr>mcache := mc_put (esm_key spec from) \<lparr>cm_type = ESM, cm_object = ns, cm_filePath = er_filePath r,
            cm_dependencies = er_dependencies r, cm_specifier = spec\<rparr> (mcache st)\<rparr>, ns))"

definition esm_hit :: "esm_state \<Rightarrow> string \<Rightarrow> jsv option" where
  "esm_hit st key = (case mc_get (mcache st) key of
     Some c \<Rightarrow> if cm_type c = ESM then Some (cm_object c) else None
   | None \<Rightarrow> None)"

fun loadModule :: "nat \<Rightarrow> esm_env \<Rightarrow> string \<Rightarrow> string \<Rightarrow> esm_state \<Rightarrow> (esm_state \<times> jsv) option" where
  "loadModule 0 env spec from st = None"
| "loadModule (Suc n) env spec from st =
     (case esm_hit st (esm_key spec from) of
        Some v \<Rightarrow> Some (st, v)
      | None \<Rightarrow>
          (let r = resolve (efs env) spec from in
           if filePath r = [] then Some (st, JException (''Module not found: '' @ spec))
           else if mtype r \<noteq> ESM then Some (st, JException (''Not an ES module: '' @ spec))
           else (case read_file (efs env) (filePath r) of
             None \<Rightarrow> Some (st, JException (''Cannot open module: '' @ filePath r))
           | Some source \<Rightarrow>
               (let rec = (parseModule (filePath r) source)\<lparr>er_specifier := spec\<rparr> in
                case resolveDependencies (loadModule n env) env (filePath r) (er_dependencies rec) st of
                  None \<Rightarrow> None
                | Some st1 \<Rightarrow> Some (finish_load env spec from rec st1)))))"

text \<open>A dynamic import loads from the current directory; the promise it returns is already
  resolved with the namespace.\<close>

definition dynamicImport :: "nat \<Rightarrow> esm_env \<Rightarrow> string \<Rightarrow> esm_state \<Rightarrow> (esm_state \<times> jsv) option" where
  "dynamicImport n env spec st = loadModule n env spec ''.'' st"

section \<open>Sorting and cycles\<close>

text \<open>A record is named by its address. The loops over the dependencies of a node have empty
  bodies.\<close>

fun topological_loop :: "nat list \<Rightarrow> nat list \<Rightarrow> nat list" where
  "topological_loop [] sorted_nodes = sorted_nodes"
| "topological_loop (m # ms) sorted_nodes =
     topological_loop ms (if m \<in> set sorted_nodes then sorted_nodes else sorted_nodes @ [m])"

definition topologicalSort :: "nat list \<Rightarrow> nat list" where
  "topologicalSort ms = topological_loop ms []"

definition detectCycle :: "nat \<Rightarrow> nat list \<Rightarrow> nat list \<Rightarrow> bool \<times> nat list" where
  "detectCycle start visited path =
     (if start \<in> set path then (True, visited)
      else if start \<in> set visited then (False, visited)
      else (False, visited @ [start]))"


section \<open>Import cycles\<close>

text \<open>The requests \<open>C\<close> are pairs of a specifier and the path it is asked from. Each leads to an ES
  module one of whose dependencies is again in \<open>C\<close>.\<close>

definition import_cycle :: "esm_env \<Rightarrow> (string \<times> string) set \<Rightarrow> bool" where
  "import_cycle env C \<longleftrightarrow> (\<forall>(s, f) \<in> C. \<exists>p src. filePath (resolve (efs env) s f) = p \<and> p \<noteq> [] \<and>
     mtype (resolve (efs env) s f) = ESM \<and> read_file (efs env) p = Some src \<and>
     (\<exists>d \<in> set (er_dependencies (parseModule p src)). (d, p) \<in> C))"

lemma import_cycleD:
  assumes "import_cycle env C" and "(s, f) \<in> C"
  shows "filePath (resolve (efs env) s f) \<noteq> []" "mtype (resolve (efs env) s f) = ESM"
    "\<exists>src. read_file (efs env) (filePath (resolve (efs env) s f)) = Some src \<and>
       (\<exists>d \<in> set (er_dependencies (parseModule (filePath (resolve (efs env) s f)) src)).
          (d, filePath (resolve (efs env) s f)) \<in> C)"
  using assms(1) [unfolded import_cycle_def, rule_format, OF assms(2)] by auto

definition keys_apart :: "(string \<times> string) set \<Rightarrow> bool" where
  "keys_apart C \<longleftrightarrow> (\<forall>s f s' f'. (s, f) \<in> C \<longrightarrow> esm_key s' f' = esm_key s f \<longrightarrow> (s', f') \<in> C)"

definition none_cached :: "(string \<times> string) set \<Rightarrow> esm_state \<Rightarrow> bool" where
  "none_cached C st \<longleftrightarrow> (\<forall>(s, f) \<in> C. esm_hit st (esm_key s f) = None)"

lemma finish_load_hit:
  "esm_hit (fst (finish_load env spec from r st)) k =
     (if k = esm_key spec from then Some (snd (finish_load env spec from r st)) else esm_hit st k)"
  by (simp add: finish_load_def split_beta Let_def esm_hit_def mc_get_def mc_put_def map_of_put
      createNamespaceObject_def evaluateModule_def)

lemma resolveDependencies_cycle:
  assumes keep: "\<And>s f st st' v. \<lbrakk>load s f st = Some (st', v); none_cached C st\<rbrakk> \<Longrightarrow> none_cached C st'"
    and never: "\<And>s f st. \<lbrakk>(s, f) \<in> C; none_cached C st\<rbrakk> \<Longrightarrow> load s f st = None"
    and cyc: "import_cycle env C"
  shows "none_cached C st \<Longrightarrow>
    (\<exists>d \<in> set ds. (d, path) \<in> C) \<longrightarrow> resolveDependencies load env path ds st = None"
    and "\<lbrakk>none_cached C st; resolveDependencies load env path ds st = Some st'\<rbrakk> \<Longrightarrow> none_cached C st'"
proof (induction ds arbitrary: st)
  case (Cons d ds)
  {
    case 1
    show ?case
    proof (cases "(d, path) \<in> C")
      case True
      with cyc have "filePath (resolve (efs env) d path) \<noteq> [] \<and> mtype (resolve (efs env) d path) = ESM"
        using import_cycleD [OF cyc] by blast
      with never [OF True 1] show ?thesis by (simp add: Let_def)
    next
      case False
      show ?thesis
        using False 1 Cons.IH(1) [OF 1] Cons.IH(1) [OF keep]
        by (auto simp: Let_def split: option.splits)
    qed
  next
    case 2
    then show ?case
      using Cons.IH(2) [OF 2(1)] Cons.IH(2) [OF keep]
      by (auto simp: Let_def split: option.splits if_splits)
  }
qed simp_all

lemma loadModule_cycle:
  assumes cyc: "import_cycle env C" and apart: "keys_apart C"
  shows "\<lbrakk>none_cached C st; (s, f) \<in> C\<rbrakk> \<Longrightarrow> loadModule n env s f st = None"
    and "\<lbrakk>none_cached C st; loadModule n env s f st = Some (st', v)\<rbrakk> \<Longrightarrow> none_cached C st'"
proof (induction n arbitrary: s f st st' v)
  case (Suc n)
  have keep: "none_cached C t'" if "loadModule n env s f t = Some (t', w)" "none_cached C t" for s f t t' w
    using Suc.IH(2) that by blast
  have never: "loadModule n env s f t = None" if "(s, f) \<in> C" "none_cached C t" for s f t
    using Suc.IH(1) that by blast
  have deps: "\<lbrakk>none_cached C t; \<exists>d \<in> set ds. (d, path) \<in> C\<rbrakk> \<Longrightarrow>
      resolveDependencies (loadModule n env) env path ds t = None"
    "\<lbrakk>none_cached C t; resolveDependencies (loadModule n env) env path ds t = Some t'\<rbrakk> \<Longrightarrow> none_cached C t'"
    for ds path t t'
    using resolveDependencies_cycle [where load = "loadModule n env" and env = env and C = C]
      keep never cyc by blast+
  {
    case 1
    let ?r = "resolve (efs env) s f"
    have hit: "esm_hit st (esm_key s f) = None" using 1 by (auto simp: none_cached_def)
    from import_cycleD [OF cyc 1(2)] obtain src where f: "filePath ?r \<noteq> []" "mtype ?r = ESM" "read_file (efs env) (filePath ?r) = Some src"
        "\<exists>d \<in> set (er_dependencies (parseModule (filePath ?r) src)). (d, filePath ?r) \<in> C"
      by blast
    then have "resolveDependencies (loadModule n env) env (filePath ?r)
        (er_dependencies (parseModule (filePath ?r) src)) st = None"
      using deps(1) [OF 1(1)] by blast
    with hit f show ?case by (simp add: Let_def)
  next
    case 2
    let ?r = "resolve (efs env) s f"
    show ?case
    proof (cases "(s, f) \<in> C")
      case True
      then have hit: "esm_hit st (esm_key s f) = None" using 2(1) by (auto simp: none_cached_def)
      from import_cycleD [OF cyc True] obtain src where f: "filePath ?r \<noteq> []" "mtype ?r = ESM" "read_file (efs env) (filePath ?r) = Some src"
          "\<exists>d \<in> set (er_dependencies (parseModule (filePath ?r) src)). (d, filePath ?r) \<in> C"
          by blast
      then have "resolveDependencies (loadModule n env) env (filePath ?r)
          (er_dependencies (parseModule (filePath ?r) src)) st = None"
        using deps(1) [OF 2(1)] by blast
      with hit f 2(2) show ?thesis by (simp add: Let_def)
    next
      case False
      then have key: "(s', f') \<in> C \<Longrightarrow> esm_key s' f' \<noteq> esm_key s f" for s' f'
        using apart unfolding keys_apart_def by metis
      consider "st' = st" | src st1 where
        "resolveDependencies (loadModule n env) env (filePath ?r) (er_dependencies (parseModule (filePath ?r) src)) st = Some st1"
        "st' = fst (finish_load env s f ((parseModule (filePath ?r) src)\<lparr>er_specifier := s\<rparr>) st1)"
        using 2(2) by (auto simp: Let_def split: option.splits if_splits)
      then show ?thesis
      proof cases
        case 1
        with 2 show ?thesis by simp
      next
        case (2 src st1)
        then have "none_cached C st1" using deps(2) \<open>none_cached C st\<close> by blast
        with 2(2) key show ?thesis by (auto simp: none_cached_def finish_load_hit)
      qed
    qed
  }
qed simp_all


section \<open>Properties\<close>

definition esm_files :: "(string \<times> string) list" where
  "esm_files = [(''/p/a.mjs'', ''import { b } from '' @ [CHR 0x22] @ ''/p/b.mjs'' @ [CHR 0x22]),
     (''/p/b.mjs'', ''import a from '' @ [CHR 0x22] @ ''/p/a.mjs'' @ [CHR 0x22]),
     (''/p/c.mjs'', ''export const x = 1''),
     (''/p/d.mjs'', ''import * as c from '' @ [CHR 0x22] @ ''/p/c.mjs'' @ [CHR 0x22]),
     (''/p/e.mjs'', ''import '' @ ''d'' @ '' from '' @ [CHR 0x27] @ ''/p/d.mjs'' @ [CHR 0x27] @
        '' import('' @ [CHR 0x27] @ ''/p/c.mjs'' @ [CHR 0x27] @ '')'')]"

definition esm_example :: esm_env where
  "esm_example = \<lparr>efs = example_fs esm_files [], evaluates = (\<lambda>_ _. True)\<rparr>"

definition empty_esm :: esm_state where
  "empty_esm = \<lparr>namespaces = [], mcache = [], evaluated = []\<rparr>"

text \<open>an import cycle never loads. When every request of \<open>C\<close> leads to an ES module with an import
  that is again a request of \<open>C\<close>, and none of them is in the cache, \<open>loadModule\<close> does not return on
  any of them: it puts a module into the cache only after its dependencies.\<close>

theorem esm_cycle_never_returns:
  assumes "import_cycle env C" and "keys_apart C" and "none_cached C st" and "(spec, from) \<in> C"
  shows "loadModule n env spec from st = None"
  using loadModule_cycle(1) [OF assms(1-3,4)] .

lemma one_colon:
  assumes "a @ '':'' @ b = a' @ '':'' @ b'" and "CHR '':'' \<notin> set a" and "CHR '':'' \<notin> set b"
  shows "a' = a \<and> b' = b"
  using assms by (auto simp: append_eq_append_conv2 append_eq_Cons_conv Cons_eq_append_conv)

lemma esm_cycle_never_returns_witness:
  "loadModule 1000 esm_example ''/p/b.mjs'' ''/p/a.mjs'' empty_esm = None"
proof (rule esm_cycle_never_returns [where C = "{(''/p/b.mjs'', ''/p/a.mjs''), (''/p/a.mjs'', ''/p/b.mjs'')}"])
  have "filePath (resolve (efs esm_example) ''/p/b.mjs'' ''/p/a.mjs'') = ''/p/b.mjs''"
    "mtype (resolve (efs esm_example) ''/p/b.mjs'' ''/p/a.mjs'') = ESM"
    "map_option (\<lambda>src. er_dependencies (parseModule ''/p/b.mjs'' src)) (read_file (efs esm_example) ''/p/b.mjs'')
      = Some [''/p/a.mjs'']"
    "filePath (resolve (efs esm_example) ''/p/a.mjs'' ''/p/b.mjs'') = ''/p/a.mjs''"
    "mtype (resolve (efs esm_example) ''/p/a.mjs'' ''/p/b.mjs'') = ESM"
    "map_option (\<lambda>src. er_dependencies (parseModule ''/p/a.mjs'' src)) (read_file (efs esm_example) ''/p/a.mjs'')
      = Some [''/p/b.mjs'']"
    by code_simp+
  then show "import_cycle esm_example {(''/p/b.mjs'', ''/p/a.mjs''), (''/p/a.mjs'', ''/p/b.mjs'')}"
    unfolding import_cycle_def by auto
  show "keys_apart {(''/p/b.mjs'', ''/p/a.mjs''), (''/p/a.mjs'', ''/p/b.mjs'')}"
    unfolding keys_apart_def esm_key_def
  proof (intro allI impI)
    fix s f s' f' :: string
    assume "(s, f) \<in> {(''/p/b.mjs'', ''/p/a.mjs''), (''/p/a.mjs'', ''/p/b.mjs'')}" "s' @ '':'' @ f' = s @ '':'' @ f"
    then show "(s', f') \<in> {(''/p/b.mjs'', ''/p/a.mjs''), (''/p/a.mjs'', ''/p/b.mjs'')}"
      using one_colon [of s f s' f'] by auto
  qed
qed (simp_all add: none_cached_def empty_esm_def esm_hit_def mc_get_def)

definition esm_inv :: "esm_state \<Rightarrow> bool" where
  "esm_inv st \<longleftrightarrow> (\<forall>c \<in> ran (mc_get (mcache st)). \<exists>a. cm_object c = JObject a \<and> a < length (namespaces st)) \<and>
     (\<forall>ps \<in> set (namespaces st). ps = [(''__esModule'', JBool True)])"

lemma parseModule_no_exports: "er_exports (parseModule p src) = []" "er_default (parseModule p src) = JUndef"
proof -
  have add: "er_exports (foldl add_import r cs) = er_exports r \<and> er_default (foldl add_import r cs) = er_default r" for r cs
    by (induction cs arbitrary: r) (auto simp: add_import_def Let_def)
  show "er_exports (parseModule p src) = []" "er_default (parseModule p src) = JUndef"
    using add by (simp_all add: parseModule_def extractExports_def extractImports_def Let_def)
qed

lemma finish_load_inv:
  assumes "esm_inv st" and "er_exports r = []" and "er_default r = JUndef"
  shows "esm_inv (fst (finish_load env spec from r st)) \<and>
    (\<exists>a. snd (finish_load env spec from r st) = JObject a \<and> a < length (namespaces (fst (finish_load env spec from r st))))"
proof -
  obtain r' st' where e: "evaluateModule env r st = (r', st')" by force
  then have r': "er_exports r' = []" "er_default r' = JUndef" "namespaces st' = namespaces st" "mcache st' = mcache st"
    using assms(2,3) by (auto simp: evaluateModule_def bindImports_def Let_def split: if_splits)
  have ran: "ran (mc_get (mc_put k c m)) \<subseteq> insert c (ran (mc_get m))" for k c m
    by (auto simp: ran_def mc_get_def mc_put_def map_of_put split: if_splits)
  let ?t = "fst (finish_load env spec from r st)" and ?v = "snd (finish_load env spec from r st)"
  have t: "namespaces ?t = namespaces st @ [[(''__esModule'', JBool True)]]" "?v = JObject (length (namespaces st))"
    "\<exists>k c. mcache ?t = mc_put k c (mcache st) \<and> cm_object c = ?v"
    using e r' by (auto simp: finish_load_def createNamespaceObject_def Let_def
        intro!: exI [of _ "esm_key spec from"] exI)
  then obtain k c where c: "mcache ?t = mc_put k c (mcache st)" "cm_object c = ?v" by blast
  have "\<exists>a. cm_object d = JObject a \<and> a < length (namespaces ?t)" if "d \<in> ran (mc_get (mcache ?t))" for d
  proof -
    have "d = c \<or> d \<in> ran (mc_get (mcache st))" using that ran [of k c "mcache st"] c(1) by auto
    then show ?thesis
    proof
      assume "d = c"
      with c(2) t show ?thesis by simp
    next
      assume "d \<in> ran (mc_get (mcache st))"
      with assms(1) obtain a where "cm_object d = JObject a" "a < length (namespaces st)"
        unfolding esm_inv_def by blast
      with t(1) show ?thesis by simp
    qed
  qed
  moreover have "\<forall>ps \<in> set (namespaces ?t). ps = [(''__esModule'', JBool True)]"
    using assms(1) t(1) by (auto simp: esm_inv_def)
  ultimately have "esm_inv ?t" unfolding esm_inv_def by blast
  moreover have "\<exists>a. ?v = JObject a \<and> a < length (namespaces ?t)" using t(1,2) by simp
  ultimately show ?thesis by blast
qed

lemma resolveDependencies_inv:
  assumes "\<And>s f st st' v. \<lbrakk>load s f st = Some (st', v); esm_inv st\<rbrakk> \<Longrightarrow> esm_inv st'"
  shows "\<lbrakk>resolveDependencies load env path ds st = Some st'; esm_inv st\<rbrakk> \<Longrightarrow> esm_inv st'"
  by (induction ds arbitrary: st) (auto simp: Let_def split: if_splits option.splits dest: assms)

lemma loadModule_inv:
  "\<lbrakk>loadModule n env spec from st = Some (st', v); esm_inv st\<rbrakk> \<Longrightarrow> esm_inv st' \<and>
    (is_exception v \<or> (\<exists>a. v = JObject a \<and> a < length (namespaces st')))"
proof (induction n arbitrary: spec "from" st st' v)
  case (Suc n)
  show ?case
  proof (cases "esm_hit st (esm_key spec from)")
    case (Some w)
    then obtain c where "mc_get (mcache st) (esm_key spec from) = Some c" "w = cm_object c"
      by (auto simp: esm_hit_def split: option.splits if_splits)
    with Suc.prems Some show ?thesis by (force simp: esm_inv_def intro: ranI)
  next
    case None
    let ?r = "resolve (efs env) spec from"
    from Suc.prems(1) None consider "st' = st" "is_exception v" | src st1 where
        "resolveDependencies (loadModule n env) env (filePath ?r)
          (er_dependencies (parseModule (filePath ?r) src)) st = Some st1"
        "(st', v) = finish_load env spec from ((parseModule (filePath ?r) src)\<lparr>er_specifier := spec\<rparr>) st1"
      by (auto simp: Let_def split: option.splits if_splits)
    then show ?thesis
    proof cases
      case 1
      with Suc.prems show ?thesis by simp
    next
      case (2 src st1)
      have "esm_inv st1"
        using resolveDependencies_inv [OF _ 2(1) Suc.prems(2)] Suc.IH by blast
      from finish_load_inv [OF this, of "(parseModule (filePath ?r) src)\<lparr>er_specifier := spec\<rparr>" env spec "from"] 2(2)
      show ?thesis by (simp add: parseModule_no_exports) (metis fst_conv snd_conv)
    qed
  qed
qed simp

text \<open>a namespace never has an export. Whatever a module exports, what \<open>loadModule\<close> returns for it
  is an exception or an object whose only property is \<open>__esModule\<close>: no code adds to the exports of
  a record.\<close>

theorem esm_namespace_empty:
  assumes "loadModule n env spec from empty_esm = Some (st, v)"
  shows "is_exception v \<or> (\<exists>a. v = JObject a \<and> namespaces st ! a = [(''__esModule'', JBool True)])"
proof -
  have "esm_inv empty_esm" by (simp add: esm_inv_def empty_esm_def mc_get_def ran_def)
  from loadModule_inv [OF assms this] show ?thesis by (auto simp: esm_inv_def)
qed

lemma esm_namespace_empty_witness:
  "\<exists>st v. loadModule 3 esm_example ''/p/c.mjs'' ''.'' empty_esm = Some (st, v) \<and>
    (is_exception v \<or> (\<exists>a. v = JObject a \<and> namespaces st ! a = [(''__esModule'', JBool True)]))"
proof -
  have "loadModule 3 esm_example ''/p/c.mjs'' ''.'' empty_esm \<noteq> None" by code_simp
  then obtain st v where "loadModule 3 esm_example ''/p/c.mjs'' ''.'' empty_esm = Some (st, v)" by auto
  with esm_namespace_empty [OF this] show ?thesis by blast
qed

text \<open>A module imported from two places is evaluated twice. In the example \<open>e\<close> imports \<open>d\<close> and \<open>c\<close>,
  and \<open>d\<close> imports \<open>c\<close>: the key of the cache holds the importing path, so \<open>c\<close> runs once for each.\<close>

theorem esm_shared_module_runs_twice:
  "map_option (\<lambda>(st, v). evaluated st) (loadModule 5 esm_example ''/p/e.mjs'' ''.'' empty_esm) =
     Some [''/p/c.mjs'', ''/p/d.mjs'', ''/p/c.mjs'', ''/p/e.mjs'']"
  by code_simp

lemma topologicalSort_distinct: "distinct ms \<Longrightarrow> topologicalSort ms = ms"
proof -
  have "distinct (ss @ ms) \<Longrightarrow> topological_loop ms ss = ss @ ms" for ss
    by (induction ms arbitrary: ss) auto
  then show "distinct ms \<Longrightarrow> topologicalSort ms = ms" by (simp add: topologicalSort_def)
qed

end
