(* ===== verification/Events.thy ===== *)
theory Events
  imports Prelude
begin

text \<open>
  Models \<open>src/modules/events/EventsModule.cpp\<close>, the \<open>EventEmitter\<close> class.

  \<^item> The state of an emitter is its map from event names to handlers, and the log of the calls made.
  \<^item> What a handler does to the emitter is the parameter \<open>act\<close>: a list of subscriptions, removals and
    emissions. A handler that throws ends early; the code ignores it.
  \<^item> \<open>emit\<close> walks the vector of handlers with iterators. A handler that adds to or erases from the
    vector being walked invalidates them, and the loop goes on to use them: the outcome
    \<open>Undefined\<close>. \<open>active\<close> lists the events whose vectors are being walked.
  \<^item> Emissions inside one another use up fuel; \<open>None\<close> is running out of it.
\<close>

datatype 'h act = Subscribe string 'h | Unsubscribe string 'h | Emit string

record 'h emitter =
  listeners :: "(string \<times> 'h list) list"
  calls :: "'h list"

datatype 'h emit_result = Ok "'h emitter" | Undefined | Out_of_fuel

definition EventEmitter :: "'h emitter" where
  "EventEmitter = \<lparr>listeners = [], calls = []\<rparr>"

definition handlers :: "'h emitter \<Rightarrow> string \<Rightarrow> 'h list" where
  "handlers s e = (case map_of (listeners s) e of None \<Rightarrow> [] | Some hs \<Rightarrow> hs)"

text \<open>\<open>data->listeners[eventName].push_back(handler)\<close>.\<close>

definition on :: "string \<Rightarrow> 'h \<Rightarrow> 'h emitter \<Rightarrow> 'h emitter" where
  "on e h s = s\<lparr>listeners := map_put e (handlers s e @ [h]) (listeners s)\<rparr>"

definition once :: "string \<Rightarrow> 'h \<Rightarrow> 'h emitter \<Rightarrow> 'h emitter" where
  "once e h s = on e h s"

text \<open>The second argument, the handler to remove, is not read.\<close>

definition removeListener :: "string \<Rightarrow> 'h \<Rightarrow> 'h emitter \<Rightarrow> 'h emitter" where
  "removeListener e h s = (case map_of (listeners s) e of
     Some (x # xs) \<Rightarrow> s\<lparr>listeners := map_put e xs (listeners s)\<rparr>
   | _ \<Rightarrow> s)"

text \<open>What one handler does, given how to emit and the vectors being walked.\<close>

fun run_acts :: "(string \<Rightarrow> 'h emitter \<Rightarrow> 'h emit_result) \<Rightarrow> string list \<Rightarrow> 'h act list \<Rightarrow> 'h emitter
    \<Rightarrow> 'h emit_result" where
  "run_acts em active [] s = Ok s"
| "run_acts em active (Subscribe e h # as) s =
     (if e \<in> set active then Undefined else run_acts em active as (on e h s))"
| "run_acts em active (Unsubscribe e h # as) s =
     (if e \<in> set active \<and> handlers s e \<noteq> [] then Undefined
      else run_acts em active as (removeListener e h s))"
| "run_acts em active (Emit e # as) s =
     (case em e s of Ok t \<Rightarrow> run_acts em active as t | r \<Rightarrow> r)"

text \<open>The loop over the handlers.\<close>

fun call_handlers :: "('h \<Rightarrow> 'h emitter \<Rightarrow> 'h emit_result) \<Rightarrow> 'h list \<Rightarrow> 'h emitter \<Rightarrow> 'h emit_result" where
  "call_handlers run [] s = Ok s"
| "call_handlers run (h # hs) s =
     (case run h (s\<lparr>calls := calls s @ [h]\<rparr>) of Ok t \<Rightarrow> call_handlers run hs t | r \<Rightarrow> r)"

fun emit :: "nat \<Rightarrow> ('h \<Rightarrow> 'h act list) \<Rightarrow> string list \<Rightarrow> string \<Rightarrow> 'h emitter \<Rightarrow> 'h emit_result" where
  "emit 0 act active e s = Out_of_fuel"
| "emit (Suc n) act active e s =
     call_handlers (\<lambda>h. run_acts (emit n act (e # active)) (e # active) (act h)) (handlers s e) s"

section \<open>Facts the properties share\<close>

lemma handlers_on: "handlers (on e h s) f = (if f = e then handlers s e @ [h] else handlers s f)"
  by (simp add: handlers_def on_def map_of_put)

lemma handlers_removeListener:
  "handlers (removeListener e h s) f = (if f = e then tl (handlers s e) else handlers s f)"
  by (auto simp: handlers_def removeListener_def map_of_put split: option.splits list.splits)

lemma handlers_calls [simp]: "handlers (s\<lparr>calls := c\<rparr>) e = handlers s e"
  by (simp add: handlers_def)

text \<open>Handlers that leave the emitter alone are called once each, in the order of subscription.\<close>

lemma call_handlers_quiet:
  "(\<And>h t. h \<in> set hs \<Longrightarrow> run h t = Ok t) \<Longrightarrow>
   call_handlers run (hs @ ks) s = call_handlers run ks (s\<lparr>calls := calls s @ hs\<rparr>)"
  by (induction hs arbitrary: s) (auto simp: append_assoc)

lemma emit_quiet:
  assumes "\<forall>h \<in> set (handlers s e). act h = []"
  shows "emit (Suc n) act active e s = Ok (s\<lparr>calls := calls s @ handlers s e\<rparr>)"
  using call_handlers_quiet [of "handlers s e" "\<lambda>h. run_acts (emit n act (e # active)) (e # active) (act h)" "[]" s]
    assms by simp

section \<open>Properties\<close>

text \<open>\<open>once\<close> does not mean once. A handler given to \<open>once\<close> is called by every emission of the
  event, in the order of subscription with the others, and stays subscribed.\<close>

theorem once_fires_every_time:
  assumes "\<forall>k \<in> set (h # handlers s e). act k = []"
  shows "\<exists>t u. emit (Suc n) act [] e (once e h s) = Ok t \<and> emit (Suc n) act [] e t = Ok u \<and>
    calls u = calls s @ (handlers s e @ [h]) @ (handlers s e @ [h]) \<and> handlers u e = handlers s e @ [h]"
proof -
  let ?t = "(once e h s)\<lparr>calls := calls (once e h s) @ handlers (once e h s) e\<rparr>"
  have h: "handlers (once e h s) e = handlers s e @ [h]" by (simp add: once_def handlers_on)
  have "emit (Suc n) act [] e (once e h s) = Ok ?t"
    by (rule emit_quiet) (use assms h in auto)
  moreover have "emit (Suc n) act [] e ?t = Ok (?t\<lparr>calls := calls ?t @ handlers ?t e\<rparr>)"
    by (rule emit_quiet) (use assms h in auto)
  ultimately show ?thesis by (auto simp: h) (auto simp: once_def on_def)
qed

lemma once_fires_every_time_witness:
  "\<exists>t u. emit 1 (\<lambda>_. []) [] ''e'' (once ''e'' (7 :: nat) EventEmitter) = Ok t \<and>
    emit 1 (\<lambda>_. []) [] ''e'' t = Ok u \<and> calls u = [7, 7]"
  using once_fires_every_time [of 7 EventEmitter "''e''" "\<lambda>_. []" 0]
  by (auto simp: EventEmitter_def handlers_def)

text \<open>a handler that removes a listener of the event it is called for makes the emission undefined:
  the loop goes on with iterators into the vector that was changed.\<close>

theorem unsubscribe_in_handler_undefined:
  assumes "handlers s e = hs @ h # ks" and "\<forall>k \<in> set hs. act k = []" and "act h = Unsubscribe e k # as"
  shows "emit (Suc n) act active e s = Undefined"
  using call_handlers_quiet [of hs "\<lambda>h. run_acts (emit n act (e # active)) (e # active) (act h)" "h # ks" s] assms
  by simp

lemma unsubscribe_in_handler_undefined_witness:
  "emit 1 (\<lambda>h. if h = 2 then [Unsubscribe ''e'' 1] else []) [] ''e''
     (on ''e'' 2 (on ''e'' (1 :: nat) EventEmitter)) = Undefined"
proof -
  have "handlers (on ''e'' 2 (on ''e'' (1 :: nat) EventEmitter)) ''e'' = [1] @ 2 # []"
    by (simp add: handlers_on) (simp add: EventEmitter_def handlers_def)
  from unsubscribe_in_handler_undefined [OF this] show ?thesis by simp
qed

end
