(* ===== verification/Streams.thy ===== *)
theory Streams
  imports Fifo
begin

text \<open>
  Models \<open>src/modules/stream/StreamModule.cpp\<close>, the stream classes, over programs that construct
  streams and call their methods.

  \<^item> Every object has a class and the data of that class behind it; \<open>JS_GetOpaque\<close> with another
    class id yields a null pointer. A \<open>Duplex\<close> or \<open>Transform\<close> object carries a readable and a
    writable part, but its \<open>read\<close> and \<open>write\<close> are those of \<open>Readable\<close> and \<open>Writable\<close>.
  \<^item> A chunk is text without a NUL byte (it passes through C strings). Constructors look for a
    global \<open>EventEmitter\<close>, which the runtime does not define (it is a property of the global
    \<open>events\<close>); the flag \<open>has_emitter\<close> says whether one was found, and emissions are recorded.
\<close>

record readable_data =
  rbuffer :: "string list"
  rended :: bool

record writable_data =
  wbuffer :: "string list"
  wended :: bool
  has_emitter :: bool
  emitted :: "string list"

datatype stream_object =
  Readable readable_data
| Writable writable_data
| Duplex readable_data writable_data
| Transform readable_data writable_data bool bool    \<comment> \<open>with a transform, a flush function\<close>

datatype stream_result = SUndefined | SNull | SBool bool | SChunk string | SObject nat | SType_error

type_synonym stream_heap = "stream_object list"

definition highWaterMark :: nat where
  "highWaterMark = 16384"

section \<open>Constructors\<close>

definition ReadableStreamData :: readable_data where
  "ReadableStreamData = \<lparr>rbuffer = [], rended = False\<rparr>"

definition WritableStreamData :: "bool \<Rightarrow> writable_data" where
  "WritableStreamData em = \<lparr>wbuffer = [], wended = False, has_emitter = em, emitted = []\<rparr>"

definition ReadableStreamConstructor :: "stream_heap \<Rightarrow> stream_heap \<times> stream_result" where
  "ReadableStreamConstructor h = (h @ [Readable ReadableStreamData], SObject (length h))"

definition WritableStreamConstructor :: "bool \<Rightarrow> stream_heap \<Rightarrow> stream_heap \<times> stream_result" where
  "WritableStreamConstructor em h = (h @ [Writable (WritableStreamData em)], SObject (length h))"

definition DuplexStreamConstructor :: "stream_heap \<Rightarrow> stream_heap \<times> stream_result" where
  "DuplexStreamConstructor h =
     (h @ [Duplex ReadableStreamData (WritableStreamData False)], SObject (length h))"

definition TransformStreamConstructor :: "bool \<Rightarrow> bool \<Rightarrow> stream_heap \<Rightarrow> stream_heap \<times> stream_result" where
  "TransformStreamConstructor tr fl h =
     (h @ [Transform ReadableStreamData (WritableStreamData False) tr fl], SObject (length h))"

definition PassThroughConstructor :: "stream_heap \<Rightarrow> stream_heap \<times> stream_result" where
  "PassThroughConstructor h = TransformStreamConstructor False False h"

section \<open>Methods\<close>

definition readable_opaque :: "stream_heap \<Rightarrow> nat \<Rightarrow> readable_data option" where
  "readable_opaque h i = (if i < length h then (case h ! i of Readable d \<Rightarrow> Some d | _ \<Rightarrow> None) else None)"

definition writable_opaque :: "stream_heap \<Rightarrow> nat \<Rightarrow> writable_data option" where
  "writable_opaque h i = (if i < length h then (case h ! i of Writable d \<Rightarrow> Some d | _ \<Rightarrow> None) else None)"

definition readableRead :: "nat \<Rightarrow> stream_heap \<Rightarrow> stream_heap \<times> stream_result" where
  "readableRead this h = (case readable_opaque h this of
     None \<Rightarrow> (h, SUndefined)
   | Some d \<Rightarrow>
       (case rbuffer d of
          chunk # rest \<Rightarrow> (h[this := Readable (d\<lparr>rbuffer := rest\<rparr>)], SChunk chunk)
        | [] \<Rightarrow> (h, if rended d then SNull else SUndefined)))"

definition readablePipe :: "nat \<Rightarrow> nat list \<Rightarrow> stream_heap \<Rightarrow> stream_heap \<times> stream_result" where
  "readablePipe this args h = (case args of [] \<Rightarrow> (h, SType_error) | dest # _ \<Rightarrow> (h, SObject dest))"

definition emit_event :: "string \<Rightarrow> writable_data \<Rightarrow> writable_data" where
  "emit_event e d = (if has_emitter d then d\<lparr>emitted := emitted d @ [e]\<rparr> else d)"

definition write_chunk :: "string \<Rightarrow> writable_data \<Rightarrow> writable_data" where
  "write_chunk c d =
     (let d = d\<lparr>wbuffer := wbuffer d @ [c]\<rparr>
      in if length (wbuffer d) < highWaterMark then emit_event ''drain'' d else d)"

definition writableWrite :: "nat \<Rightarrow> string list \<Rightarrow> stream_heap \<Rightarrow> stream_heap \<times> stream_result" where
  "writableWrite this args h = (case args of
     [] \<Rightarrow> (h, SType_error)
   | c # _ \<Rightarrow>
       (case writable_opaque h this of
          None \<Rightarrow> (h, SBool False)
        | Some d \<Rightarrow>
            if wended d then (h, SBool False)
            else (h[this := Writable (write_chunk c d)],
              SBool (length (wbuffer (write_chunk c d)) < highWaterMark))))"

definition writableEnd :: "nat \<Rightarrow> string list \<Rightarrow> stream_heap \<Rightarrow> stream_heap \<times> stream_result" where
  "writableEnd this args h = (case writable_opaque h this of
     None \<Rightarrow> (h, SObject this)
   | Some _ \<Rightarrow>
       (let h1 = (if args = [] then h else fst (writableWrite this args h)) in
        case writable_opaque h1 this of
          None \<Rightarrow> (h1, SObject this)
        | Some d \<Rightarrow> (h1[this := Writable (emit_event ''finish'' (d\<lparr>wended := True\<rparr>))], SObject this)))"

section \<open>Programs\<close>

datatype stream_op =
  New_readable | New_writable bool | New_duplex | New_transform bool bool | New_pass_through
| Read nat | Pipe nat "nat list" | Write nat "string list" | End nat "string list"

fun stream_do :: "stream_op \<Rightarrow> stream_heap \<Rightarrow> stream_heap \<times> stream_result" where
  "stream_do New_readable h = ReadableStreamConstructor h"
| "stream_do (New_writable em) h = WritableStreamConstructor em h"
| "stream_do New_duplex h = DuplexStreamConstructor h"
| "stream_do (New_transform tr fl) h = TransformStreamConstructor tr fl h"
| "stream_do New_pass_through h = PassThroughConstructor h"
| "stream_do (Read i) h = readableRead i h"
| "stream_do (Pipe i args) h = readablePipe i args h"
| "stream_do (Write i args) h = writableWrite i args h"
| "stream_do (End i args) h = writableEnd i args h"

fun stream_run :: "stream_op list \<Rightarrow> stream_heap \<Rightarrow> (stream_op \<times> stream_result) list" where
  "stream_run [] h = []"
| "stream_run (c # cs) h = (c, snd (stream_do c h)) # stream_run cs (fst (stream_do c h))"

text \<open>A result of a program that is not a delivery: every \<open>read\<close> returned undefined.\<close>

fun undelivered :: "stream_op \<times> stream_result \<Rightarrow> bool" where
  "undelivered (Read i, r) = (r = SUndefined)"
| "undelivered (c, r) = True"

section \<open>Facts the properties share\<close>

text \<open>No operation puts a chunk into a readable part or ends it.\<close>

fun reading_idle :: "stream_object \<Rightarrow> bool" where
  "reading_idle (Readable d) = (rbuffer d = [] \<and> \<not> rended d)"
| "reading_idle (Duplex d w) = (rbuffer d = [] \<and> \<not> rended d)"
| "reading_idle (Transform d w t f) = (rbuffer d = [] \<and> \<not> rended d)"
| "reading_idle (Writable w) = True"

lemmas stream_constructors = ReadableStreamConstructor_def WritableStreamConstructor_def
  DuplexStreamConstructor_def TransformStreamConstructor_def PassThroughConstructor_def
  ReadableStreamData_def

lemma list_all_update: "list_all P xs \<Longrightarrow> P x \<Longrightarrow> list_all P (xs[i := x])"
  by (auto simp: list_all_iff dest: set_update_subset_insert [THEN subsetD])

lemma idle_write: "list_all reading_idle h \<Longrightarrow> list_all reading_idle (fst (writableWrite i args h))"
  by (auto simp: writableWrite_def list_all_update split: list.splits option.splits)

lemma idle_do: "list_all reading_idle h \<Longrightarrow> list_all reading_idle (fst (stream_do c h))"
proof (cases c)
  case (Read i)
  assume idle: "list_all reading_idle h"
  have "rbuffer d = []" if "readable_opaque h i = Some d" for d
    using that idle by (auto simp: readable_opaque_def list_all_length split: if_splits stream_object.splits)
  with Read idle show ?thesis by (auto simp: readableRead_def split: option.splits list.splits)
next
  case (End i args)
  assume "list_all reading_idle h"
  with End show ?thesis
    using idle_write [of h i args]
    by (auto simp: writableEnd_def Let_def list_all_update split: option.splits if_splits)
qed (simp_all add: stream_constructors readablePipe_def idle_write split: list.splits)

lemma idle_read:
  assumes "list_all reading_idle h"
  shows "snd (readableRead i h) = SUndefined"
proof -
  have "rbuffer d = [] \<and> \<not> rended d" if "readable_opaque h i = Some d" for d
    using that assms by (auto simp: readable_opaque_def list_all_length split: if_splits stream_object.splits)
  then show ?thesis by (auto simp: readableRead_def split: option.splits list.splits)
qed

section \<open>Properties\<close>

lemma idle_run: "list_all reading_idle h \<Longrightarrow> list_all undelivered (stream_run cs h)"
proof (induction cs arbitrary: h)
  case (Cons c cs)
  have "undelivered (c, snd (stream_do c h))" using idle_read [OF Cons.prems] by (cases c) simp_all
  with Cons.IH [OF idle_do [OF Cons.prems]] show ?case by simp
qed simp

text \<open>no stream ever delivers. In any program over streams, of whatever class and piped however,
  every \<open>read\<close> returns undefined: neither a chunk nor the end of the stream.\<close>

theorem streams_never_deliver:
  "list_all undelivered (stream_run cs [])"
  by (simp add: idle_run)

section \<open>A writable stream as a queue\<close>

text \<open>The steps a writable stream can take, with the chunks given to it so far that it accepted.\<close>

record writing =
  data :: writable_data
  given :: "string list"

inductive write_step :: "writing \<Rightarrow> writing \<Rightarrow> bool" where
  chunk: "\<not> wended (data s) \<Longrightarrow>
     write_step s (s\<lparr>data := write_chunk c (data s), given := given s @ [c]\<rparr>)"
| refused: "wended (data s) \<Longrightarrow> write_step s s"
| finish: "write_step s (s\<lparr>data := emit_event ''finish'' ((data s)\<lparr>wended := True\<rparr>)\<rparr>)"

inductive_simps write_step_iff: "write_step s t"

lemma wbuffer_write_chunk [simp]: "wbuffer (write_chunk c d) = wbuffer d @ [c]"
  by (simp add: write_chunk_def emit_event_def Let_def)

lemma wended_write_chunk [simp]: "wended (write_chunk c d) = wended d"
  by (simp add: write_chunk_def emit_event_def Let_def)

lemma wbuffer_emit [simp]: "wbuffer (emit_event e d) = wbuffer d" "wended (emit_event e d) = wended d"
  by (simp_all add: emit_event_def)

text \<open>It is the queue of \<open>Fifo\<close> from which nothing is taken.\<close>

interpretation writable_fifo: fifo_service
  "\<lambda>s. \<exists>em. s = \<lparr>data = WritableStreamData em, given = []\<rparr>" write_step
  "\<lambda>s. given s = wbuffer (data s)" given "\<lambda>_. []" "\<lambda>s. wbuffer (data s)"
  by unfold_locales (auto simp: WritableStreamData_def write_step_iff)

text \<open>Everything written to a writable stream stays in its buffer, in order, for as long as it
  lives; what is written after \<open>end\<close> is refused.\<close>

theorem writable_accumulates:
  assumes "write_step\<^sup>*\<^sup>* \<lparr>data = WritableStreamData em, given = []\<rparr> s"
  shows "wbuffer (data s) = given s \<and>
    (wended (data s) \<longrightarrow> (\<forall>t. write_step s t \<longrightarrow> wbuffer (data t) = wbuffer (data s) \<and> wended (data t)))"
proof -
  have "given s = wbuffer (data s)" using writable_fifo.accounts [OF assms] by auto
  then show ?thesis by (auto simp: write_step_iff)
qed

lemma writable_accumulates_witness:
  "wbuffer (write_chunk ''b'' (write_chunk ''a'' (WritableStreamData False))) = [''a'', ''b'']"
proof -
  let ?s0 = "\<lparr>data = WritableStreamData False, given = []\<rparr>"
  let ?s1 = "\<lparr>data = write_chunk ''a'' (WritableStreamData False), given = [''a'']\<rparr>"
  let ?s2 = "\<lparr>data = write_chunk ''b'' (write_chunk ''a'' (WritableStreamData False)), given = [''a'', ''b'']\<rparr>"
  have "write_step ?s0 ?s1" using write_step.chunk [of ?s0 "''a''"] by (simp add: WritableStreamData_def)
  moreover have "write_step ?s1 ?s2" using write_step.chunk [of ?s1 "''b''"] by (simp add: WritableStreamData_def)
  ultimately have "write_step\<^sup>*\<^sup>* ?s0 ?s2" by (meson converse_rtranclp_into_rtranclp rtranclp.rtrancl_refl)
  from writable_accumulates [OF this] show ?thesis by simp
qed

end
