(* ===== verification/FileTree.thy ===== *)
theory FileTree
  imports Prelude
begin

text \<open>
  The part of \<open>std::filesystem\<close> and of file streams that the npm client uses to change the disk. A
  tree maps a path to \<open>None\<close> (a directory) or \<open>Some\<close> of the bytes of a file. Paths are compared as
  texts, as the client builds each of them in one way only; the root and the working directory
  always exist. An operation that throws leaves the tree as it was. The operations fail only for the reasons seen in the tree (a missing directory, a
  file where a directory is needed), not for permissions or a full disk.
\<close>

type_synonym tree = "(string \<times> string option) list"

definition slash :: char where
  "slash = CHR ''/''"

definition path_exists :: "tree \<Rightarrow> string \<Rightarrow> bool" where
  "path_exists t p \<longleftrightarrow> p = [slash] \<or> p = ''.'' \<or> map_of t p \<noteq> None"

definition is_dir :: "tree \<Rightarrow> string \<Rightarrow> bool" where
  "is_dir t p \<longleftrightarrow> p = [slash] \<or> p = ''.'' \<or> map_of t p = Some None"

definition read_tree :: "tree \<Rightarrow> string \<Rightarrow> string option" where
  "read_tree t p = (case map_of t p of Some (Some c) \<Rightarrow> Some c | _ \<Rightarrow> None)"

definition dirname :: "string \<Rightarrow> string" where
  "dirname p = (case str_rfind slash p of None \<Rightarrow> ''.'' | Some i \<Rightarrow> if i = 0 then [slash] else take i p)"

text \<open>\<open>std::ofstream f(path)\<close> and one write of the whole content; \<open>None\<close> if the file does not open.\<close>

definition write_tree :: "string \<Rightarrow> string \<Rightarrow> tree \<Rightarrow> tree option" where
  "write_tree p c t =
     (if p \<noteq> [] \<and> is_dir t (dirname p) \<and> \<not> is_dir t p then Some (map_put p (Some c) t) else None)"

text \<open>\<open>create_directories\<close>: every proper ancestor, then the path itself. It throws on a file.\<close>

definition path_prefixes :: "string \<Rightarrow> string list" where
  "path_prefixes p = map (\<lambda>i. take i p) (filter (\<lambda>i. p ! i = slash) [1..<length p]) @ [p]"

fun make_dirs :: "string list \<Rightarrow> tree \<Rightarrow> tree cpp" where
  "make_dirs [] t = Inr t"
| "make_dirs (d # ds) t =
     (if is_dir t d then make_dirs ds t
      else if path_exists t d then Inl Runtime_error
      else make_dirs ds (map_put d None t))"

definition create_directories :: "string \<Rightarrow> tree \<Rightarrow> tree cpp" where
  "create_directories p t = (if p = [] then Inl Runtime_error else make_dirs (path_prefixes p) t)"

definition below :: "string \<Rightarrow> string \<Rightarrow> bool" where
  "below d p \<longleftrightarrow> p = d \<or> starts_with (d @ [slash]) p"

definition remove_all :: "string \<Rightarrow> tree \<Rightarrow> tree" where
  "remove_all d t = filter (\<lambda>(p, c). \<not> below d p) t"

section \<open>What the operations change\<close>

lemma map_of_filter_keys: "map_of (filter (\<lambda>(p, c). P p) t) q = (if P q then map_of t q else None)"
  by (induction t) auto

lemma map_of_remove_all: "map_of (remove_all d t) p = (if below d p then None else map_of t p)"
  unfolding remove_all_def by (subst map_of_filter_keys) simp

lemma remove_all_gone: "map_of (remove_all d t) d = None"
  by (simp add: map_of_remove_all below_def)

lemma make_dirs_map_of:
  "make_dirs ds t = Inr u \<Longrightarrow> map_of u p = (if p \<in> set ds \<and> map_of t p = None \<and> \<not> is_dir t p then Some None else map_of t p)"
proof (induction ds t rule: make_dirs.induct)
  case (2 d ds t)
  then show ?case
    by (auto simp: map_of_put is_dir_def path_exists_def split: if_splits)
qed simp

lemma create_directories_map_of:
  "create_directories d t = Inr u \<Longrightarrow> p \<notin> set (path_prefixes d) \<Longrightarrow> map_of u p = map_of t p"
  by (auto simp: create_directories_def make_dirs_map_of split: if_splits)


lemma path_prefixes_length: "p \<in> set (path_prefixes d) \<Longrightarrow> length p \<le> length d"
  by (auto simp: path_prefixes_def)

lemma write_tree_read:
  "write_tree p c t = Some u \<Longrightarrow> map_of u q = (if q = p then Some (Some c) else map_of t q)"
  by (auto simp: write_tree_def map_of_put split: if_splits)

lemma write_tree_saved: "write_tree p c t = Some u \<Longrightarrow> read_tree u p = Some c"
  by (simp add: read_tree_def write_tree_read)

text \<open>A file two levels down needs its directory.\<close>

lemma dirname_append: "slash \<in> set n \<Longrightarrow> \<exists>m. dirname (d @ slash # n) = d @ slash # m"
proof -
  assume "slash \<in> set n"
  then obtain i where i: "str_rfind slash n = Some i" by (cases "str_rfind slash n") (auto simp: str_rfind_None)
  then have "str_rfind slash (d @ slash # n) = Some (length d + Suc i)"
    by (induction d) auto
  then have "dirname (d @ slash # n) = d @ slash # take i n" by (simp add: dirname_def)
  then show ?thesis by blast
qed

end
