(* ===== verification/Registry.thy ===== *)
theory Registry
  imports Semver Json Store FileTree "HOL-Library.Word"
begin

text \<open>
  Models \<open>src/npm/NPMRegistry.cpp\<close>: the HTTP client of the npm registry, its metadata cache and the
  download of tarballs.

  \<^item> The network is the parameter \<open>net\<close>: what the n-th request made gets back, as the successive
    results of \<open>recv\<close> or \<open>SSL_read\<close> (\<open>None\<close>: no connection, or the request could not be sent). The
    clock is the parameter \<open>clock\<close>, read in nanoseconds, and \<open>stod\<close> the conversion of numerals.
  \<^item> \<open>npm_state\<close> holds the globals of the file (\<open>g_cache\<close>, \<open>g_cacheTTL\<close>, whether
    \<open>g_progressCallback\<close> is set), the disk, the calls the progress callback has received, and how
    many requests were made and how often the clock was read.
  \<^item> The tasks of \<open>downloadPackages\<close> run one after the other here; what their overlap does to the
    vector of results is modelled apart, in \<open>race_step\<close>.
\<close>

record package_version =
  pv_version :: string
  pv_dist_tarball :: string
  pv_dist_shasum :: string
  pv_dependencies :: "(string \<times> string) list"
  pv_main :: string
  pv_module :: string
  pv_type :: string

record package_metadata =
  pm_name :: string
  pm_description :: string
  pm_versions :: "(string \<times> package_version) list"
  pm_latest :: string
  pm_dist_tags_latest :: string
  pm_dist_tags :: "(string \<times> string) list"

record download_spec =
  ds_packageName :: string
  ds_version :: string
  ds_targetDir :: string

record 'n npm_env =
  net :: "nat \<Rightarrow> bool \<Rightarrow> nat \<Rightarrow> string \<Rightarrow> string \<Rightarrow> string list option"
  clock :: "nat \<Rightarrow> int"
  npm_stod :: "string \<Rightarrow> 'n option"
  shell :: "string \<Rightarrow> tree \<Rightarrow> int \<times> tree"

record npm_state =
  g_cache :: "(string \<times> package_metadata \<times> int) list"
  g_cacheTTL :: int
  g_progress :: bool
  disk :: tree
  reported :: "(nat \<times> nat) list"
  requests :: nat
  ticks :: nat

definition empty_version :: package_version where
  "empty_version = \<lparr>pv_version = [], pv_dist_tarball = [], pv_dist_shasum = [], pv_dependencies = [],
     pv_main = [], pv_module = [], pv_type = []\<rparr>"

definition empty_metadata :: package_metadata where
  "empty_metadata = \<lparr>pm_name = [], pm_description = [], pm_versions = [], pm_latest = [],
     pm_dist_tags_latest = [], pm_dist_tags = []\<rparr>"

section \<open>HTTP\<close>

text \<open>The parts of a URL: protocol, host and path.\<close>

definition parseUrl :: "string \<Rightarrow> string \<times> string \<times> string" where
  "parseUrl url = (case str_find_sub ''://'' url of
     None \<Rightarrow> ([], [], ''/'')
   | Some i \<Rightarrow>
       (let rest = drop (i + 3) url in
        case str_find CHR ''/'' rest of
          Some j \<Rightarrow> (take i url, take j rest, drop j rest)
        | None \<Rightarrow> (take i url, rest, ''/'')))"

definition crlf :: string where
  "crlf = [CHR 0x0D, CHR 0x0A]"

definition http_request :: "string \<Rightarrow> string \<Rightarrow> string \<Rightarrow> string" where
  "http_request accept host path = ''GET '' @ path @ '' HTTP/1.1'' @ crlf @ ''Host: '' @ host @ crlf @
     ''User-Agent: protoJS/0.6.0'' @ crlf @ ''Accept: '' @ accept @ crlf @ ''Connection: close'' @ crlf @ crlf"

text \<open>What \<open>response += buf\<close> appends after \<open>buf[n] = 0\<close>: the bytes before the first zero.\<close>

definition c_str :: "string \<Rightarrow> string" where
  "c_str s = takeWhile (\<lambda>c. c \<noteq> CHR 0x00) s"

definition response_body :: "string \<Rightarrow> string" where
  "response_body r = (case str_find_sub (crlf @ crlf) r of Some i \<Rightarrow> drop (i + 4) r | None \<Rightarrow> r)"

text \<open>One connection: TLS on port 443 for https, a plain one on port 80 for every other protocol.\<close>

definition exchange :: "'n npm_env \<Rightarrow> string \<Rightarrow> string \<Rightarrow> string \<Rightarrow> npm_state
    \<Rightarrow> string list option \<times> npm_state" where
  "exchange env protocol host req st =
     (net env (requests st) (protocol = ''https'') (if protocol = ''https'' then 443 else 80) host req,
      st\<lparr>requests := requests st + 1\<rparr>)"

definition httpGet :: "'n npm_env \<Rightarrow> string \<Rightarrow> npm_state \<Rightarrow> string \<times> npm_state" where
  "httpGet env url st =
     (let (protocol, host, path) = parseUrl url in
      if host = [] then ([], st)
      else
        (case exchange env protocol host (http_request ''application/json'' host path) st of
           (None, st1) \<Rightarrow> ([], st1)
         | (Some chunks, st1) \<Rightarrow> (response_body (concat (map c_str chunks)), st1)))"

text \<open>\<open>pos += 14\<close> of the code is one less than the length of the header's name and colon.\<close>

definition http_blank :: "char \<Rightarrow> bool" where
  "http_blank c \<longleftrightarrow> c = CHR '' '' \<or> c = CHR 0x09"

definition decimal :: "string \<Rightarrow> nat" where
  "decimal ds = foldl (\<lambda>n c. 10 * n + (of_char c - 48)) 0 ds"

definition parseContentLength :: "string \<Rightarrow> nat" where
  "parseContentLength headers = (case str_find_sub ''Content-Length:'' headers of
     None \<Rightarrow> 0
   | Some pos \<Rightarrow>
       (let ds = takeWhile digit_char (dropWhile http_blank (drop (pos + 14) headers)) in
        if ds = [] then 0 else if decimal ds < 2 ^ 64 then decimal ds else 0))"

text \<open>The inner loop of \<open>httpDownload\<close>: the chunks it takes, and what it reports.\<close>

fun body_loop :: "nat \<Rightarrow> nat \<Rightarrow> string list \<Rightarrow> string \<times> (nat \<times> nat) list" where
  "body_loop contentLength got [] = ([], [])"
| "body_loop contentLength got (c # cs) =
     (if contentLength = 0 \<or> got < contentLength
      then (let (b, r) = body_loop contentLength (got + length c) cs
            in (c @ b, (got + length c, contentLength) # r))
      else ([], []))"

text \<open>The outer loop: it collects the headers, and on their end opens the file.\<close>

fun header_loop :: "string \<Rightarrow> string \<Rightarrow> string list \<Rightarrow> npm_state \<Rightarrow> bool \<times> npm_state" where
  "header_loop target headers [] st = (False, st)"
| "header_loop target headers (c # cs) st =
     (let headers = headers @ c_str c in
      case str_find_sub (crlf @ crlf) headers of
        None \<Rightarrow> header_loop target headers cs st
      | Some sep \<Rightarrow>
          (let contentLength = parseContentLength (take sep headers);
               body = drop (sep + 4) headers;
               (more, reports) = body_loop contentLength (length body) cs
           in case write_tree target (body @ more) (disk st) of
                None \<Rightarrow> (False, st)
              | Some d \<Rightarrow> (True, st\<lparr>disk := d,
                  reported := reported st @ (length body, contentLength) # reports\<rparr>)))"

definition httpDownload :: "'n npm_env \<Rightarrow> string \<Rightarrow> string \<Rightarrow> bool \<Rightarrow> npm_state \<Rightarrow> bool \<times> npm_state" where
  "httpDownload env url target progress st =
     (let (protocol, host, path) = parseUrl url in
      if host = [] then (False, st)
      else if \<not> progress then
        (let (data, st1) = httpGet env url st in
         if data = [] then (False, st1)
         else (case write_tree target data (disk st1) of
             None \<Rightarrow> (False, st1)
           | Some d \<Rightarrow> (True, st1\<lparr>disk := d\<rparr>)))
      else
        (case exchange env protocol host (http_request ''application/octet-stream'' host path) st of
           (None, st1) \<Rightarrow> (False, st1)
         | (Some chunks, st1) \<Rightarrow> header_loop target [] chunks st1))"

section \<open>Package metadata\<close>

fun string_or_empty :: "'n json \<Rightarrow> string" where
  "string_or_empty (JString s) = s"
| "string_or_empty _ = []"

fun object_of :: "'n json option \<Rightarrow> (string \<times> 'n json) list option" where
  "object_of (Some (JObject ob)) = Some ob"
| "object_of _ = None"

definition parsePackageVersion :: "'n json \<Rightarrow> package_version" where
  "parsePackageVersion v =
     \<lparr>pv_version = getString v ''version'',
      pv_dist_tarball = (case json_get v ''dist'' of Some d \<Rightarrow> getString d ''tarball'' | None \<Rightarrow> []),
      pv_dist_shasum = (case json_get v ''dist'' of Some d \<Rightarrow> getString d ''shasum'' | None \<Rightarrow> []),
      pv_dependencies = (case object_of (json_get v ''dependencies'') of
          Some ob \<Rightarrow> map (\<lambda>(k, x). (k, string_or_empty x)) ob | None \<Rightarrow> []),
      pv_main = getString v ''main'', pv_module = getString v ''module'', pv_type = getString v ''type''\<rparr>"

fun only_strings :: "(string \<times> 'n json) list \<Rightarrow> (string \<times> string) list" where
  "only_strings [] = []"
| "only_strings ((k, v) # m) = (case v of JString s \<Rightarrow> (k, s) # only_strings m | _ \<Rightarrow> only_strings m)"

definition parsePackageMetadata :: "(string \<Rightarrow> 'n::zero option) \<Rightarrow> string \<Rightarrow> string \<Rightarrow> package_metadata" where
  "parsePackageMetadata stod json packageName =
     (case JsonParse stod json of
        JNull \<Rightarrow> empty_metadata\<lparr>pm_name := packageName\<rparr>
      | root \<Rightarrow>
          (let tags = object_of (json_get root ''dist-tags'');
               latest = (case tags of Some ob \<Rightarrow> getString (JObject ob) ''latest'' | None \<Rightarrow> [])
           in \<lparr>pm_name = (if getString root ''name'' = [] then packageName else getString root ''name''),
               pm_description = getString root ''description'',
               pm_versions = (case object_of (json_get root ''versions'') of
                   Some ob \<Rightarrow> map (\<lambda>(k, x). (k, parsePackageVersion x)) ob | None \<Rightarrow> []),
               pm_latest = latest, pm_dist_tags_latest = latest,
               pm_dist_tags = (case tags of Some ob \<Rightarrow> only_strings ob | None \<Rightarrow> [])\<rparr>))"

section \<open>The metadata cache\<close>

definition setCacheTTL :: "int \<Rightarrow> npm_state \<Rightarrow> npm_state" where
  "setCacheTTL ttl st = st\<lparr>g_cacheTTL := ttl\<rparr>"

definition clearCache :: "npm_state \<Rightarrow> npm_state" where
  "clearCache st = st\<lparr>g_cache := []\<rparr>"

definition setProgressCallback :: "bool \<Rightarrow> npm_state \<Rightarrow> npm_state" where
  "setProgressCallback cb st = st\<lparr>g_progress := cb\<rparr>"

text \<open>\<open>steady_clock::now()\<close>, in nanoseconds.\<close>

definition clock_now :: "'n npm_env \<Rightarrow> npm_state \<Rightarrow> int \<times> npm_state" where
  "clock_now env st = (clock env (ticks st), st\<lparr>ticks := ticks st + 1\<rparr>)"

definition cache_hit :: "'n npm_env \<Rightarrow> string \<Rightarrow> npm_state \<Rightarrow> package_metadata option \<times> npm_state" where
  "cache_hit env key st =
     (if g_cacheTTL st > 0 then
        (case map_of (g_cache st) key of
           None \<Rightarrow> (None, st)
         | Some (m, t) \<Rightarrow>
             (let (now, st1) = clock_now env st in
              (if now - t \<le> g_cacheTTL st * 10 ^ 9 then Some m else None, st1)))
      else (None, st))"

definition fetchPackage :: "'n::zero npm_env \<Rightarrow> string \<Rightarrow> string \<Rightarrow> npm_state \<Rightarrow> package_metadata \<times> npm_state" where
  "fetchPackage env packageName registry st =
     (let key = registry @ ''/'' @ packageName in
      case cache_hit env key st of
        (Some m, st1) \<Rightarrow> (m, st1)
      | (None, st1) \<Rightarrow>
          (let (json, st2) = httpGet env key st1 in
           if json = [] then (empty_metadata, st2)
           else
             (let metadata = parsePackageMetadata (npm_stod env) json packageName in
              if g_cacheTTL st2 > 0 then
                (let (now, st3) = clock_now env st2
                 in (metadata, st3\<lparr>g_cache := map_put key (metadata, now) (g_cache st3)\<rparr>))
              else (metadata, st2))))"

section \<open>Versions, downloads and search\<close>

definition resolveVersion :: "'n::zero npm_env \<Rightarrow> string \<Rightarrow> string \<Rightarrow> string \<Rightarrow> npm_state
    \<Rightarrow> string cpp \<times> npm_state" where
  "resolveVersion env packageName versionRange registry st =
     (let (m, st1) = fetchPackage env packageName registry st in
      if pm_versions m = [] then (Inr [], st1)
      else (cpp_bind (findHighest (map fst (pm_versions m)) versionRange)
              (\<lambda>r. Inr (if r = [] \<and> versionRange = ''latest'' then pm_latest m else r)), st1))"

definition tarball_path :: "string \<Rightarrow> string \<Rightarrow> string \<Rightarrow> string" where
  "tarball_path targetDir packageName version = targetDir @ ''/'' @ packageName @ ''-'' @ version @ ''.tgz''"

definition downloadPackage :: "'n::zero npm_env \<Rightarrow> string \<Rightarrow> string \<Rightarrow> string \<Rightarrow> string \<Rightarrow> bool \<Rightarrow> npm_state
    \<Rightarrow> bool cpp \<times> npm_state" where
  "downloadPackage env packageName version targetDir registry progress st =
     (let (m, st1) = fetchPackage env packageName registry st in
      case map_of (pm_versions m) version of
        None \<Rightarrow> (Inr False, st1)
      | Some pv \<Rightarrow>
          if pv_dist_tarball pv = [] then (Inr False, st1)
          else
            (case create_directories targetDir (disk st1) of
               Inl e \<Rightarrow> (Inl e, st1)
             | Inr d \<Rightarrow>
                 (let (ok, st2) = httpDownload env (pv_dist_tarball pv) (tarball_path targetDir packageName version)
                        (progress \<or> g_progress st1) (st1\<lparr>disk := d\<rparr>)
                  in (Inr ok, st2))))"

text \<open>One batch: every task runs, then the results are collected with \<open>get\<close>, which rethrows the
  first exception. A task that threw leaves its result at false.\<close>

fun run_batch :: "'n::zero npm_env \<Rightarrow> string \<Rightarrow> bool \<Rightarrow> download_spec list \<Rightarrow> npm_state
    \<Rightarrow> bool cpp list \<times> npm_state" where
  "run_batch env registry progress [] st = ([], st)"
| "run_batch env registry progress (s # ss) st =
     (let (r, st1) = downloadPackage env (ds_packageName s) (ds_version s) (ds_targetDir s) registry progress st;
          (rs, st2) = run_batch env registry progress ss st1
      in (r # rs, st2))"

fun collect_results :: "bool cpp list \<Rightarrow> bool list cpp" where
  "collect_results [] = Inr []"
| "collect_results (Inl e # rs) = Inl e"
| "collect_results (Inr b # rs) = cpp_bind (collect_results rs) (\<lambda>bs. Inr (b # bs))"

function download_batches :: "'n::zero npm_env \<Rightarrow> string \<Rightarrow> bool \<Rightarrow> nat \<Rightarrow> download_spec list \<Rightarrow> npm_state
    \<Rightarrow> bool list cpp \<times> npm_state" where
  "download_batches env registry progress n specs st =
     (if specs = [] then (Inr [], st)
      else
        (let (rs, st1) = run_batch env registry progress (take (max 1 n) specs) st in
         case collect_results rs of
           Inl e \<Rightarrow> (Inl e, st1)
         | Inr bs \<Rightarrow>
             (let (r, st2) = download_batches env registry progress n (drop (max 1 n) specs) st1
              in (cpp_bind r (\<lambda>cs. Inr (bs @ cs)), st2))))"
  by pat_completeness auto
termination
  by (relation "measure (\<lambda>(env, registry, progress, n, specs, st). length specs)") auto

declare download_batches.simps [simp del]

definition downloadPackages :: "'n::zero npm_env \<Rightarrow> download_spec list \<Rightarrow> string \<Rightarrow> bool \<Rightarrow> nat \<Rightarrow> npm_state
    \<Rightarrow> bool list cpp \<times> npm_state" where
  "downloadPackages env specs registry progress maxConcurrency st =
     download_batches env registry progress maxConcurrency specs st"

text \<open>\<open>static_cast<size_t>(limit)\<close> of a negative limit is beyond any number of results.\<close>

definition size_of_limit :: "int \<Rightarrow> nat" where
  "size_of_limit limit = nat (limit mod 2 ^ 64)"

definition search_name :: "'n json \<Rightarrow> string" where
  "search_name ob = (case object_of (json_get ob ''package'') of
     Some p \<Rightarrow> getString (JObject p) ''name'' | None \<Rightarrow> [])"

fun search_loop :: "nat \<Rightarrow> 'n json list \<Rightarrow> string list \<Rightarrow> string list" where
  "search_loop limit [] results = results"
| "search_loop limit (ob # obs) results = (case ob of
     JObject m \<Rightarrow>
       (let name = search_name ob; results = (if name = [] then results else results @ [name])
        in if length results \<ge> limit then results else search_loop limit obs results)
   | _ \<Rightarrow> search_loop limit obs results)"

definition searchPackages :: "'n::zero npm_env \<Rightarrow> string \<Rightarrow> int \<Rightarrow> string \<Rightarrow> npm_state \<Rightarrow> string list \<times> npm_state" where
  "searchPackages env query limit registry st =
     (let (json, st1) = httpGet env (registry @ ''/-/v1/search?text='' @ query @ ''&size='' @ show_int limit) st in
      if json = [] then ([], st1)
      else (case json_get (JsonParse (npm_stod env) json) ''objects'' of
          Some (JArray obs) \<Rightarrow> (search_loop (size_of_limit limit) obs [], st1)
        | _ \<Rightarrow> ([], st1)))"

section \<open>HTTP lemmas\<close>

lemma NUL_c_str: "CHR 0x00 \<notin> set (c_str s)"
  by (auto simp: c_str_def dest: set_takeWhileD)

lemma set_response_body: "set (response_body r) \<subseteq> set r"
  by (auto simp: response_body_def split: option.splits dest: in_set_dropD)

lemma NUL_body: "CHR 0x00 \<notin> set (response_body (concat (map c_str cs)))"
  using set_response_body [of "concat (map c_str cs)"] NUL_c_str by auto

text \<open>The search for the digits starts at the colon, so no length is ever found.\<close>

lemma parseContentLength_zero: "parseContentLength headers = 0"
proof (cases "str_find_sub ''Content-Length:'' headers")
  case None
  then show ?thesis by (simp add: parseContentLength_def)
next
  case (Some pos)
  then obtain r where r: "drop pos headers = ''Content-Length:'' @ r"
    using str_find_sub_Some [OF Some] by (auto simp: starts_with_iff)
  have "drop (pos + 14) headers = drop 14 (drop pos headers)" by (simp add: add.commute)
  then have "drop (pos + 14) headers = CHR '':'' # r" by (simp add: r)
  then show ?thesis using Some by (simp add: parseContentLength_def http_blank_def digit_char_def)
qed

lemma body_loop_zero: "fst (body_loop 0 n cs) = concat cs"
  by (induction cs arbitrary: n) (auto simp: split_beta)

text \<open>The end of the headers is found in the chunk that completes it; what follows is written as it is.\<close>

lemma header_loop_saved:
  assumes "header_loop target h cs st = (True, st')"
  shows "\<exists>as b bs. cs = as @ b # bs \<and> read_tree (disk st') target =
     Some (response_body (h @ concat (map c_str (as @ [b]))) @ concat bs)"
  using assms
proof (induction cs arbitrary: h)
  case Nil
  then show ?case by simp
next
  case (Cons c cs)
  show ?case
  proof (cases "str_find_sub (crlf @ crlf) (h @ c_str c)")
    case None
    with Cons.prems have "header_loop target (h @ c_str c) cs st = (True, st')" by simp
    from Cons.IH [OF this] obtain as b bs where "cs = as @ b # bs" "read_tree (disk st') target =
        Some (response_body ((h @ c_str c) @ concat (map c_str (as @ [b]))) @ concat bs)" by blast
    then have "c # cs = (c # as) @ b # bs \<and> read_tree (disk st') target =
        Some (response_body (h @ concat (map c_str ((c # as) @ [b]))) @ concat bs)" by simp
    then show ?thesis by blast
  next
    case (Some sep)
    with Cons.prems have "read_tree (disk st') target =
        Some (response_body (h @ concat (map c_str ([] @ [c]))) @ concat cs)"
      by (auto simp: response_body_def parseContentLength_zero body_loop_zero split_beta Let_def
          dest!: write_tree_saved split: option.splits)
    then show ?thesis by blast
  qed
qed

text \<open>without a progress callback, a downloaded file holds the body that \<open>httpGet\<close> returns, in which
  every chunk received is cut at its first zero byte: no file so downloaded contains a zero byte, so no
  gzip tarball is saved intact.\<close>

theorem tarball_without_progress_is_cut:
  assumes "httpDownload env url target False st = (True, st')"
  shows "\<exists>data. read_tree (disk st') target = Some data \<and> data = fst (httpGet env url st) \<and> CHR 0x00 \<notin> set data"
proof -
  have nul: "CHR 0x00 \<notin> set (fst (httpGet env url st))"
    by (auto simp: httpGet_def NUL_body split: prod.splits option.splits)
  from assms have "read_tree (disk st') target = Some (fst (httpGet env url st))"
    by (auto simp: httpDownload_def split_beta dest!: write_tree_saved split: if_splits option.splits)
  with nul show ?thesis by blast
qed

text \<open>With a progress callback only the chunks up to the end of the headers are cut; the later ones are
  written as they come, to the end of the connection.\<close>

theorem tarball_with_progress:
  assumes "httpDownload env url target True st = (True, st')"
  shows "\<exists>as b bs. (\<exists>host path protocol. parseUrl url = (protocol, host, path) \<and>
       fst (exchange env protocol host (http_request ''application/octet-stream'' host path) st) = Some (as @ b # bs)) \<and>
     read_tree (disk st') target = Some (response_body (concat (map c_str (as @ [b]))) @ concat bs)"
proof -
  obtain protocol host path where u: "parseUrl url = (protocol, host, path)" by (cases "parseUrl url")
  from assms u obtain chunks st1 where e: "exchange env protocol host (http_request ''application/octet-stream'' host path) st = (Some chunks, st1)"
      and h: "header_loop target [] chunks st1 = (True, st')"
    by (auto simp: httpDownload_def split: if_splits option.splits prod.splits)
  from header_loop_saved [OF h] u e show ?thesis by auto
qed

section \<open>The cache\<close>

lemma httpGet_keeps:
  "httpGet env url st = (json, st1) \<Longrightarrow> g_cache st1 = g_cache st \<and> g_cacheTTL st1 = g_cacheTTL st \<and> ticks st1 = ticks st"
  by (auto simp: httpGet_def exchange_def Let_def split: if_splits option.splits prod.splits)

text \<open>After a fetch, an entry of the cache that is still fresh is what the fetch returned.\<close>

lemma fetch_fresh_entry:
  assumes "fetchPackage env name registry st = (m, st1)" and mono: "mono (clock env)" and ttl: "g_cacheTTL st1 > 0"
    and entry: "map_of (g_cache st1) (registry @ ''/'' @ name) = Some (m', t)"
    and fresh: "clock env (ticks st1) - t \<le> g_cacheTTL st1 * 10 ^ 9"
  shows "m' = m"
proof -
  let ?key = "registry @ ''/'' @ name"
  obtain h st2 where hit: "cache_hit env ?key st = (h, st2)" by fastforce
  show ?thesis
  proof (cases h)
    case (Some a)
    then show ?thesis
      using assms(1) entry hit by (auto simp: fetchPackage_def cache_hit_def clock_now_def split: if_splits option.splits prod.splits)
  next
    case None
    obtain json st3 where get: "httpGet env ?key st2 = (json, st3)" by fastforce
    show ?thesis
    proof (cases "json = []")
      case True
      then have st1: "st1 = st3" using assms(1) hit None get by (simp add: fetchPackage_def)
      then have "g_cache st2 = g_cache st1" "g_cacheTTL st2 = g_cacheTTL st1" "ticks st2 = ticks st1"
        using httpGet_keeps [OF get] by auto
      with hit None entry ttl
      have "ticks st1 = ticks st + 1" "\<not> clock env (ticks st) - t \<le> g_cacheTTL st1 * 10 ^ 9"
        by (auto simp: cache_hit_def clock_now_def split: if_splits option.splits prod.splits)
      moreover have "clock env (ticks st) \<le> clock env (ticks st + 1)" using mono by (simp add: mono_def)
      ultimately show ?thesis using fresh by simp
    next
      case False
      then show ?thesis
        using assms(1) hit None get entry ttl
        by (auto simp: fetchPackage_def clock_now_def map_of_put Let_def split: if_splits)
    qed
  qed
qed

text \<open>C17: after a fetch whose answer is in the cache, a fetch of the same package within the time to live
  returns the same metadata and sends no request.\<close>

theorem fetch_uses_cache:
  assumes "fetchPackage env name registry st = (m, st1)" and "mono (clock env)"
    and "map_of (g_cache st1) (registry @ ''/'' @ name) = Some (m', t)"
    and "clock env (ticks st1) - t \<le> g_cacheTTL st1 * 10 ^ 9" and "g_cacheTTL st1 > 0"
  shows "m' = m \<and> fetchPackage env name registry st1 = (m, st1\<lparr>ticks := ticks st1 + 1\<rparr>)"
proof -
  have "m' = m" using fetch_fresh_entry [OF assms(1) assms(2) assms(5) assms(3) assms(4)] .
  with assms show ?thesis
    by (simp add: fetchPackage_def cache_hit_def clock_now_def)
qed

section \<open>Batches\<close>

lemma run_batch_append:
  "run_batch env registry progress (xs @ ys) st =
     (let (rs, st1) = run_batch env registry progress xs st; (qs, st2) = run_batch env registry progress ys st1
      in (rs @ qs, st2))"
  by (induction xs arbitrary: st) (auto simp: split_beta Let_def)

lemma collect_results_Inr: "collect_results rs = Inr bs \<longleftrightarrow> rs = map Inr bs"
  by (induction rs arbitrary: bs rule: collect_results.induct) (auto simp: cpp_bind_Inr_iff)


definition example_npm :: "(nat \<Rightarrow> string list option) \<Rightarrow> int npm_env" where
  "example_npm f = \<lparr>net = (\<lambda>n tls port host req. f n), clock = int, npm_stod = (\<lambda>_. Some 0),
     shell = (\<lambda>cmd t. (0, t))\<rparr>"

definition empty_npm :: npm_state where
  "empty_npm = \<lparr>g_cache = [], g_cacheTTL = 300, g_progress = False, disk = [], reported = [], requests = 0, ticks = 0\<rparr>"

definition ok_headers :: string where
  "ok_headers = ''HTTP/1.1 200 OK'' @ crlf @ ''Content-Length: 4'' @ crlf @ crlf"

definition gzip_chunks :: "string list" where
  "gzip_chunks = [ok_headers, [CHR 0x1F, CHR 0x8B, CHR 0x00, CHR ''x'']]"

lemma tarball_without_progress_is_cut_witness:
  "\<exists>st'. httpDownload (example_npm (\<lambda>_. Some gzip_chunks)) ''https://r/a.tgz'' ''a.tgz'' False empty_npm = (True, st') \<and>
     read_tree (disk st') ''a.tgz'' = Some [CHR 0x1F, CHR 0x8B]"
proof -
  let ?e = "example_npm (\<lambda>_. Some gzip_chunks)"
  have f: "fst (httpDownload ?e ''https://r/a.tgz'' ''a.tgz'' False empty_npm)" by code_simp
  have g: "fst (httpGet ?e ''https://r/a.tgz'' empty_npm) = [CHR 0x1F, CHR 0x8B]" by code_simp
  obtain st' where s: "httpDownload ?e ''https://r/a.tgz'' ''a.tgz'' False empty_npm = (True, st')"
    using f by (cases "httpDownload ?e ''https://r/a.tgz'' ''a.tgz'' False empty_npm") auto
  from tarball_without_progress_is_cut [OF s] g s show ?thesis by auto
qed

lemma tarball_with_progress_witness:
  "\<exists>st' as b bs. httpDownload (example_npm (\<lambda>_. Some gzip_chunks)) ''https://r/a.tgz'' ''a.tgz'' True empty_npm = (True, st') \<and>
     gzip_chunks = as @ b # bs \<and>
     read_tree (disk st') ''a.tgz'' = Some (response_body (concat (map c_str (as @ [b]))) @ concat bs)"
proof -
  let ?e = "example_npm (\<lambda>_. Some gzip_chunks)"
  have f: "fst (httpDownload ?e ''https://r/a.tgz'' ''a.tgz'' True empty_npm)" by code_simp
  obtain st' where s: "httpDownload ?e ''https://r/a.tgz'' ''a.tgz'' True empty_npm = (True, st')"
    using f by (cases "httpDownload ?e ''https://r/a.tgz'' ''a.tgz'' True empty_npm") auto
  from tarball_with_progress [OF s] s show ?thesis
    by (auto simp: exchange_def example_npm_def)
qed

lemma fetch_uses_cache_witness:
  "\<exists>m st. fetchPackage (example_npm (\<lambda>_. Some [ok_headers, ''{}''])) ''a'' ''http://r'' st =
     (m, st\<lparr>ticks := ticks st + 1\<rparr>) \<and> requests st = 1"
proof -
  let ?e = "example_npm (\<lambda>_. Some [ok_headers, ''{}''])"
  let ?r = "fetchPackage ?e ''a'' ''http://r'' empty_npm"
  obtain m st1 where s: "?r = (m, st1)" by fastforce
  have "map_option snd (map_of (g_cache (snd ?r)) (''http://r'' @ ''/'' @ ''a'')) = Some 0"
    "clock ?e (ticks (snd ?r)) - 0 \<le> g_cacheTTL (snd ?r) * 10 ^ 9"
    "g_cacheTTL (snd ?r) > 0" "requests (snd ?r) = 1"
    by code_simp+
  then obtain m' where "map_of (g_cache st1) (''http://r'' @ ''/'' @ ''a'') = Some (m', 0)"
    "clock ?e (ticks st1) - 0 \<le> g_cacheTTL st1 * 10 ^ 9" "g_cacheTTL st1 > 0" "requests st1 = 1"
    unfolding s by auto
  moreover have "mono (clock ?e)" by (simp add: example_npm_def mono_def)
  ultimately have "fetchPackage ?e ''a'' ''http://r'' st1 = (m, st1\<lparr>ticks := ticks st1 + 1\<rparr>)" "requests st1 = 1"
    using fetch_uses_cache [OF s] by blast+
  then show ?thesis by blast
qed


section \<open>The race for the vector of results\<close>

text \<open>
  \<open>results[idx] = ok\<close> in a task of a batch: a \<open>std::vector<bool>\<close> packs its elements, so writing one
  of them reads a word, changes a bit and writes the word back. \<open>oks\<close> is what the downloads return.
\<close>

datatype race_pc = Downloading | Loaded "64 word" | Stored

definition put_bit :: "nat \<Rightarrow> bool \<Rightarrow> 64 word \<Rightarrow> 64 word" where
  "put_bit i b w = (if b then Bit_Operations.set_bit i w else unset_bit i w)"

inductive race_step :: "bool list \<Rightarrow> 64 word \<times> race_pc list \<Rightarrow> 64 word \<times> race_pc list \<Rightarrow> bool" for oks where
  race_load: "\<lbrakk>i < length pcs; pcs ! i = Downloading\<rbrakk> \<Longrightarrow> race_step oks (w, pcs) (w, pcs[i := Loaded w])"
| race_store: "\<lbrakk>i < length pcs; pcs ! i = Loaded v\<rbrakk> \<Longrightarrow>
    race_step oks (w, pcs) (put_bit i (oks ! i) v, pcs[i := Stored])"

text \<open>two downloads of a batch that both succeed can leave a failure in the vector of results: each
  writes back the word it read before the other wrote.\<close>

theorem result_lost_in_race:
  "\<exists>w. (race_step [True, True])\<^sup>*\<^sup>* (0, [Downloading, Downloading]) (w, [Stored, Stored]) \<and> \<not> bit w 0"
proof -
  let ?s = "race_step [True, True]"
  have 1: "?s (0, [Downloading, Downloading]) (0, [Loaded 0, Downloading])"
    using race_load [of 0 "[Downloading, Downloading]"] by simp
  have 2: "?s (0, [Loaded 0, Downloading]) (0, [Loaded 0, Loaded 0])"
    using race_load [of 1 "[Loaded 0, Downloading]"] by simp
  have 3: "?s (0, [Loaded 0, Loaded 0]) (1, [Stored, Loaded 0])"
    using race_store [of 0 "[Loaded 0, Loaded 0]" 0 "[True, True]" 0] by (simp add: put_bit_def)
  have 4: "?s (1, [Stored, Loaded 0]) (2, [Stored, Stored])"
    using race_store [of 1 "[Stored, Loaded 0]" 0 "[True, True]" 1] by (simp add: put_bit_def)
  have "?s\<^sup>*\<^sup>* (0, [Downloading, Downloading]) (2, [Stored, Stored])"
    using 1 2 3 4 by (meson converse_rtranclp_into_rtranclp rtranclp.rtrancl_refl)
  then show ?thesis by (intro exI [of _ 2]) simp
qed

end
