(* ===== verification/Installer.thy ===== *)
theory Installer
  imports Registry Regex
begin

text \<open>
  Models \<open>src/npm/PackageInstaller.cpp\<close> and \<open>src/npm/ScriptExecutor.cpp\<close>: installing, updating and
  removing packages, reading the dependencies of a package.json, and running a script of it.

  \<^item> The state is the one of \<open>Registry\<close>, with its disk. \<open>std::system\<close> is the parameter \<open>shell\<close>: the
    exit status of a command and what it does to the disk.
  \<^item> An exception of a call (a version with an odd plus sign, a directory that cannot be made) ends the
    operation, so the operations return \<open>cpp\<close> values. Messages to the console are left out.
\<close>

record install_options =
  io_production :: bool
  io_registry :: string
  io_installDir :: string
  io_parallelDownloads :: nat

definition default_options :: install_options where
  "default_options = \<lparr>io_production = False, io_registry = ''https://registry.npmjs.org'',
     io_installDir = ''./node_modules'', io_parallelDownloads = 4\<rparr>"

definition quote :: char where
  "quote = CHR 0x22"

definition extractTarball :: "'n npm_env \<Rightarrow> string \<Rightarrow> string \<Rightarrow> npm_state \<Rightarrow> bool \<times> npm_state" where
  "extractTarball env tarballPath targetDir st =
     (let (status, d) = shell env (''tar -xzf '' @ [quote] @ tarballPath @ [quote] @ '' -C '' @ [quote] @ targetDir @
            [quote] @ '' --strip-components=1 2>/dev/null'') (disk st)
      in (status = 0, st\<lparr>disk := d\<rparr>))"

definition package_dir :: "install_options \<Rightarrow> string \<Rightarrow> string" where
  "package_dir options packageName = io_installDir options @ ''/'' @ packageName"

definition temp_dir :: "install_options \<Rightarrow> string \<Rightarrow> string" where
  "temp_dir options packageName = package_dir options packageName @ ''/.tmp''"

definition make_package_dirs :: "install_options \<Rightarrow> string \<Rightarrow> npm_state \<Rightarrow> npm_state cpp" where
  "make_package_dirs options packageName st =
     cpp_bind (create_directories (package_dir options packageName) (disk st)) (\<lambda>d.
     cpp_bind (create_directories (temp_dir options packageName) d) (\<lambda>d. Inr (st\<lparr>disk := d\<rparr>)))"

definition drop_temp :: "string \<Rightarrow> npm_state \<Rightarrow> npm_state" where
  "drop_temp dir st = st\<lparr>disk := remove_all dir (disk st)\<rparr>"

text \<open>What follows a download: unpack the tarball, then remove the temporary directory.\<close>

definition unpack :: "'n npm_env \<Rightarrow> install_options \<Rightarrow> string \<Rightarrow> string \<Rightarrow> string \<Rightarrow> bool \<Rightarrow> npm_state
    \<Rightarrow> bool \<times> npm_state" where
  "unpack env options packageName version tempDir ok st =
     (if \<not> ok then (False, drop_temp tempDir st)
      else (let (x, st1) = extractTarball env (tarball_path tempDir packageName version) (package_dir options packageName) st
            in (x, drop_temp tempDir st1)))"

definition installPackage :: "'n::zero npm_env \<Rightarrow> string \<Rightarrow> string \<Rightarrow> install_options \<Rightarrow> npm_state
    \<Rightarrow> bool cpp \<times> npm_state" where
  "installPackage env packageName version options st =
     (case resolveVersion env packageName version (io_registry options) st of
        (Inl e, st1) \<Rightarrow> (Inl e, st1)
      | (Inr resolved, st1) \<Rightarrow>
          if resolved = [] then (Inr False, st1)
          else
            (case make_package_dirs options packageName st1 of
               Inl e \<Rightarrow> (Inl e, st1)
             | Inr st2 \<Rightarrow>
                 (case downloadPackage env packageName resolved (temp_dir options packageName)
                         (io_registry options) False st2 of
                    (Inl e, st3) \<Rightarrow> (Inl e, st3)
                  | (Inr ok, st3) \<Rightarrow>
                      (let (r, st4) = unpack env options packageName resolved (temp_dir options packageName) ok st3
                       in (Inr r, st4)))))"

fun install_each :: "'n::zero npm_env \<Rightarrow> install_options \<Rightarrow> (string \<times> string) list \<Rightarrow> bool \<Rightarrow> npm_state
    \<Rightarrow> bool cpp \<times> npm_state" where
  "install_each env options [] success st = (Inr success, st)"
| "install_each env options ((n, v) # ps) success st =
     (case installPackage env n v options st of
        (Inl e, st1) \<Rightarrow> (Inl e, st1)
      | (Inr ok, st1) \<Rightarrow> install_each env options ps (success \<and> ok) st1)"

text \<open>The first loop of \<open>installPackages\<close>: a package whose version does not resolve is passed over.\<close>

fun collect_specs :: "'n::zero npm_env \<Rightarrow> install_options \<Rightarrow> (string \<times> string) list \<Rightarrow> npm_state
    \<Rightarrow> download_spec list cpp \<times> npm_state" where
  "collect_specs env options [] st = (Inr [], st)"
| "collect_specs env options ((n, v) # ps) st =
     (case resolveVersion env n v (io_registry options) st of
        (Inl e, st1) \<Rightarrow> (Inl e, st1)
      | (Inr resolved, st1) \<Rightarrow>
          if resolved = [] then collect_specs env options ps st1
          else
            (case make_package_dirs options n st1 of
               Inl e \<Rightarrow> (Inl e, st1)
             | Inr st2 \<Rightarrow>
                 (let (r, st3) = collect_specs env options ps st2
                  in (cpp_bind r (\<lambda>ss. Inr (\<lparr>ds_packageName = n, ds_version = resolved,
                        ds_targetDir = temp_dir options n\<rparr> # ss)), st3))))"

fun unpack_all :: "'n npm_env \<Rightarrow> install_options \<Rightarrow> (download_spec \<times> bool) list \<Rightarrow> bool \<Rightarrow> npm_state
    \<Rightarrow> bool \<times> npm_state" where
  "unpack_all env options [] success st = (success, st)"
| "unpack_all env options ((s, ok) # ss) success st =
     (let (x, st1) = unpack env options (ds_packageName s) (ds_version s) (ds_targetDir s) ok st
      in unpack_all env options ss (success \<and> x) st1)"

definition installPackages :: "'n::zero npm_env \<Rightarrow> (string \<times> string) list \<Rightarrow> install_options \<Rightarrow> npm_state
    \<Rightarrow> bool cpp \<times> npm_state" where
  "installPackages env packages options st =
     (if packages = [] then (Inr True, st)
      else if io_parallelDownloads options = 0 then install_each env options packages True st
      else
        (case collect_specs env options packages st of
           (Inl e, st1) \<Rightarrow> (Inl e, st1)
         | (Inr specs, st1) \<Rightarrow>
             if specs = [] then (Inr False, st1)
             else
               (case downloadPackages env specs (io_registry options) False (io_parallelDownloads options) st1 of
                  (Inl e, st2) \<Rightarrow> (Inl e, st2)
                | (Inr oks, st2) \<Rightarrow>
                    (let (r, st3) = unpack_all env options (zip specs oks) True st2 in (Inr r, st3)))))"

definition uninstallPackage :: "string \<Rightarrow> string \<Rightarrow> npm_state \<Rightarrow> bool \<times> npm_state" where
  "uninstallPackage packageName installDir st =
     (let packagePath = installDir @ ''/'' @ packageName in
      if path_exists (disk st) packagePath then (True, drop_temp packagePath st) else (False, st))"

definition updatePackage :: "'n::zero npm_env \<Rightarrow> string \<Rightarrow> string \<Rightarrow> install_options \<Rightarrow> npm_state
    \<Rightarrow> bool cpp \<times> npm_state" where
  "updatePackage env packageName versionRange options st =
     installPackage env packageName versionRange options
       (snd (uninstallPackage packageName (io_installDir options) st))"

text \<open>\<open>resolveDependencies\<close> is never called with a depth other than 0: it does not recurse.\<close>

definition resolveDependencies :: "'n::zero npm_env \<Rightarrow> (string \<times> string) list \<Rightarrow> install_options \<Rightarrow> nat \<Rightarrow> npm_state
    \<Rightarrow> bool cpp \<times> npm_state" where
  "resolveDependencies env dependencies options depth st =
     (if depth > 10 then (Inr False, st) else install_each env options dependencies True st)"

section \<open>package.json\<close>

definition dep_regex :: regex where
  "dep_regex = seq [One (\<lambda>c. c = quote), Group 1 (Plus (\<lambda>c. c \<noteq> quote)), One (\<lambda>c. c = quote), Star is_ws, Lit '':'',
     Star is_ws, One (\<lambda>c. c = quote), Group 2 (Plus (\<lambda>c. c \<noteq> quote)), One (\<lambda>c. c = quote)]"

definition deps_start :: "string \<Rightarrow> bool \<Rightarrow> nat option" where
  "deps_start content production = (case str_find_sub ([quote] @ ''dependencies'' @ [quote]) content of
     Some i \<Rightarrow> Some i
   | None \<Rightarrow> if production then None else str_find_sub ([quote] @ ''devDependencies'' @ [quote]) content)"

definition parseDependencies :: "npm_state \<Rightarrow> string \<Rightarrow> bool \<Rightarrow> (string \<times> string) list" where
  "parseDependencies st packageJsonPath production = (case read_tree (disk st) packageJsonPath of
     None \<Rightarrow> []
   | Some content \<Rightarrow>
       (case deps_start content production of
          None \<Rightarrow> []
        | Some i \<Rightarrow>
            (case str_find_from CHR ''}'' i content of
               None \<Rightarrow> []
             | Some j \<Rightarrow> foldl (\<lambda>m c. map_put (capture 1 c) (capture 2 c) m) []
                 (all_matches dep_regex (take (j - i) (drop i content))))))"

definition install :: "'n::zero npm_env \<Rightarrow> string \<Rightarrow> install_options \<Rightarrow> npm_state \<Rightarrow> bool cpp \<times> npm_state" where
  "install env packageJsonPath options st =
     (if \<not> path_exists (disk st) packageJsonPath then (Inr False, st)
      else
        (let deps = parseDependencies st packageJsonPath (io_production options) in
         if deps = [] then (Inr True, st) else resolveDependencies env deps options 0 st))"

section \<open>Scripts\<close>

text \<open>\<open>find\<close> from \<open>npos\<close> finds nothing, and \<open>npos + 1\<close> is 0: a script without a value in quotes runs
  the text of the file before its first quote.\<close>

definition start_quote :: "string \<Rightarrow> nat \<Rightarrow> nat" where
  "start_quote content scriptPos = (case str_find_from CHR '':'' scriptPos content of
     None \<Rightarrow> 0
   | Some colonPos \<Rightarrow> (case str_find_from quote colonPos content of None \<Rightarrow> 0 | Some q \<Rightarrow> q + 1))"

definition script_command :: "string \<Rightarrow> string \<Rightarrow> string option" where
  "script_command content scriptName = (case str_find_sub ([quote] @ ''scripts'' @ [quote]) content of
     None \<Rightarrow> None
   | Some scriptsPos \<Rightarrow>
       (case str_find_sub_from ([quote] @ scriptName @ [quote]) scriptsPos content of
          None \<Rightarrow> None
        | Some scriptPos \<Rightarrow>
            (let startQuote = start_quote content scriptPos in
             map_option (\<lambda>endQuote. take (endQuote - startQuote) (drop startQuote content))
               (str_find_from quote startQuote content))))"

definition executeScript :: "'n npm_env \<Rightarrow> string \<Rightarrow> string \<Rightarrow> npm_state \<Rightarrow> int \<times> npm_state" where
  "executeScript env scriptName packageJsonPath st = (case read_tree (disk st) packageJsonPath of
     None \<Rightarrow> (1, st)
   | Some content \<Rightarrow>
       (case script_command content scriptName of
          None \<Rightarrow> (1, st)
        | Some command \<Rightarrow> (let (status, d) = shell env command (disk st) in (status, st\<lparr>disk := d\<rparr>))))"

section \<open>What the operations leave alone\<close>

lemma httpGet_disk: "disk (snd (httpGet env url st)) = disk st"
  by (auto simp: httpGet_def exchange_def Let_def split: prod.splits option.splits)

lemma fetchPackage_disk: "disk (snd (fetchPackage env n r st)) = disk st"
proof -
  have "disk (snd (cache_hit env k st)) = disk st" for k
    by (auto simp: cache_hit_def clock_now_def split: option.splits)
  then show ?thesis
    using httpGet_disk [of env "r @ ''/'' @ n" "snd (cache_hit env (r @ ''/'' @ n) st)"]
    by (auto simp: fetchPackage_def clock_now_def Let_def split_beta split: option.splits)
qed

lemma resolveVersion_disk: "disk (snd (resolveVersion env n v r st)) = disk st"
  using fetchPackage_disk [of env n r st] by (auto simp: resolveVersion_def split_beta)

lemma header_loop_dir: "fst (header_loop target h cs st) \<Longrightarrow> is_dir (disk st) (dirname target)"
  by (induction cs arbitrary: h)
    (auto simp: Let_def split_beta write_tree_def split: option.splits if_splits)

lemma httpDownload_dir: "fst (httpDownload env url target pr st) \<Longrightarrow> is_dir (disk st) (dirname target)"
  using httpGet_disk [of env url st]
  by (auto simp: httpDownload_def exchange_def write_tree_def split_beta Let_def dest!: header_loop_dir
      split: if_splits option.splits)

lemma downloadPackage_dir:
  assumes "downloadPackage env n v dir r pr st = (Inr True, st')"
  shows "\<exists>d. create_directories dir (disk st) = Inr d \<and> is_dir d (dirname (tarball_path dir n v))"
  using assms fetchPackage_disk [of env n r st]
  by (auto simp: downloadPackage_def split_beta dest!: httpDownload_dir split: option.splits sum.splits if_splits)

lemma create_directories_long:
  "create_directories d t = Inr u \<Longrightarrow> length d < length p \<Longrightarrow> map_of u p = map_of t p"
  by (rule create_directories_map_of) (auto dest: path_prefixes_length)

lemma make_package_dirs_map_of:
  assumes "make_package_dirs options n st = Inr st'" and "length p > length (temp_dir options n)"
  shows "map_of (disk st') p = map_of (disk st) p"
proof -
  have "length (package_dir options n) \<le> length (temp_dir options n)" by (simp add: temp_dir_def)
  then show ?thesis
    using assms
    by (auto simp: make_package_dirs_def cpp_bind_Inr_iff create_directories_long [of "temp_dir options n"]
        create_directories_long [of "package_dir options n"])
qed

text \<open>a scoped package never installs. Its name has a slash, so its tarball is to be written into a
  directory below the temporary one, which no step makes; unless it was there before, the install does
  not succeed, whatever the registry answers.\<close>

theorem scoped_package_never_installs:
  assumes "CHR ''/'' \<in> set n" and "\<forall>(p, c) \<in> set (disk st). \<not> starts_with (temp_dir options n @ ''/'') p"
  shows "fst (installPackage env n v options st) \<noteq> Inr True"
proof
  assume "fst (installPackage env n v options st) = Inr True"
  then obtain resolved st1 st2 st3 where r: "resolveVersion env n v (io_registry options) st = (Inr resolved, st1)"
      and m: "make_package_dirs options n st1 = Inr st2"
      and d: "downloadPackage env n resolved (temp_dir options n) (io_registry options) False st2 = (Inr True, st3)"
    by (auto simp: installPackage_def unpack_def split: prod.splits sum.splits if_splits)
  let ?t = "temp_dir options n"
  obtain q where q: "dirname (tarball_path ?t n resolved) = ?t @ ''/'' @ q"
    using dirname_append [of "n @ ''-'' @ resolved @ ''.tgz''" ?t] assms(1)
    by (auto simp: tarball_path_def slash_def)
  from downloadPackage_dir [OF d] obtain t where t: "create_directories ?t (disk st2) = Inr t" "is_dir t (?t @ ''/'' @ q)"
    unfolding q by blast
  have "?t @ ''/'' @ q \<notin> set (path_prefixes ?t)" by (auto dest: path_prefixes_length)
  then have "map_of t (?t @ ''/'' @ q) = map_of (disk st2) (?t @ ''/'' @ q)" by (rule create_directories_map_of [OF t(1)])
  also have "\<dots> = map_of (disk st1) (?t @ ''/'' @ q)" by (rule make_package_dirs_map_of [OF m]) simp
  also have "\<dots> = map_of (disk st) (?t @ ''/'' @ q)" using resolveVersion_disk [of env n v "io_registry options" st] r by simp
  also have "\<dots> = None"
    using assms(2) by (fastforce simp: map_of_eq_None_iff starts_with_iff)
  finally show False using t(2) by (auto simp: is_dir_def temp_dir_def package_dir_def append_eq_Cons_conv)
qed

text \<open>an update to a version that does not resolve fails and leaves the package uninstalled: the old
  version is removed before the new one is looked up.\<close>

theorem failed_update_removes_package:
  assumes "resolveVersion env n v (io_registry options) (snd (uninstallPackage n (io_installDir options) st)) = (Inr [], st1)"
    and "n \<noteq> []"
  shows "updatePackage env n v options st = (Inr False, st1) \<and> \<not> path_exists (disk st1) (package_dir options n)"
proof -
  have "disk st1 = disk (snd (uninstallPackage n (io_installDir options) st))"
    using resolveVersion_disk [of env n v "io_registry options" "snd (uninstallPackage n (io_installDir options) st)"] assms(1)
    by simp
  moreover have "\<not> path_exists (disk (snd (uninstallPackage n (io_installDir options) st))) (package_dir options n)"
    by (auto simp: uninstallPackage_def drop_temp_def path_exists_def package_dir_def remove_all_gone
        append_eq_Cons_conv Let_def assms(2))
  ultimately show ?thesis using assms by (simp add: updatePackage_def installPackage_def)
qed

lemma install_each_failed: "fst (install_each env options ps False st) \<noteq> Inr True"
  by (induction ps arbitrary: st) (auto split: prod.splits sum.splits)

text \<open>in the parallel mode a package whose version does not resolve is left out without an effect on the
  result, which is that for the other packages; the sequential mode reports the failure.\<close>

theorem unresolvable_package_ignored:
  assumes "resolveVersion env n v (io_registry options) st = (Inr [], st1)" and "ps \<noteq> []"
  shows "if io_parallelDownloads options = 0 then fst (installPackages env ((n, v) # ps) options st) \<noteq> Inr True
     else installPackages env ((n, v) # ps) options st = installPackages env ps options st1"
  using assms install_each_failed [of env options ps st1] by (simp add: installPackages_def installPackage_def)

text \<open>A script whose value is not in quotes runs the text before the first quote of the file.\<close>

lemma script_without_value:
  assumes "str_find_sub ([quote] @ ''scripts'' @ [quote]) content = Some i"
    and "str_find_sub_from ([quote] @ scriptName @ [quote]) i content = Some j"
    and "str_find_from CHR '':'' j content = Some k" and "str_find_from quote k content = None"
  shows "script_command content scriptName = Some (takeWhile (\<lambda>c. c \<noteq> quote) content)"
proof -
  have "starts_with ([quote] @ ''scripts'' @ [quote]) (drop i content)" using str_find_sub_Some [OF assms(1)] by blast
  then have "quote \<in> set (drop i content)" by (auto simp: starts_with_iff)
  then have "quote \<in> set content" by (rule in_set_dropD)
  then obtain q where q: "str_find quote content = Some q" by (cases "str_find quote content") (auto simp: str_find_None)
  then have "take q content = takeWhile (\<lambda>c. c \<noteq> quote) content"
    by (auto simp: str_find_Some in_set_conv_nth intro!: takeWhile_eq_take_P_nth [symmetric])
  moreover have "str_find_from quote 0 content = Some q" using q by (simp add: str_find_from_def)
  moreover have "start_quote content j = 0" using assms by (simp add: start_quote_def)
  ultimately show ?thesis using assms by (simp add: script_command_def)
qed

section \<open>What a successful install has unpacked\<close>

lemma httpGet_progress: "g_progress (snd (httpGet env url st)) = g_progress st"
  by (auto simp: httpGet_def exchange_def Let_def split: prod.splits option.splits)

lemma fetchPackage_progress: "g_progress (snd (fetchPackage env n r st)) = g_progress st"
proof -
  have "g_progress (snd (cache_hit env k st)) = g_progress st" for k
    by (auto simp: cache_hit_def clock_now_def split: option.splits)
  then show ?thesis
    using httpGet_progress [of env "r @ ''/'' @ n" "snd (cache_hit env (r @ ''/'' @ n) st)"]
    by (auto simp: fetchPackage_def clock_now_def Let_def split_beta split: option.splits)
qed

lemma httpGet_other_disk: "fst (httpGet env url (st\<lparr>disk := d\<rparr>)) = fst (httpGet env url st)"
  by (auto simp: httpGet_def exchange_def Let_def split: prod.splits option.splits)

lemma make_package_dirs_state:
  "make_package_dirs options n st = Inr st' \<Longrightarrow> st' = st\<lparr>disk := disk st'\<rparr>"
  by (auto simp: make_package_dirs_def cpp_bind_Inr_iff)

text \<open>What a download without a progress callback leaves: the answer to the request for the tarball of that version.\<close>

lemma downloadPackage_file:
  assumes "downloadPackage env n r dir reg False st = (Inr True, st')" and "\<not> g_progress st"
  shows "\<exists>m s pv. fetchPackage env n reg st = (m, s) \<and> map_of (pm_versions m) r = Some pv
    \<and> read_tree (disk st') (tarball_path dir n r) = Some (fst (httpGet env (pv_dist_tarball pv) s))"
proof -
  obtain m s where f: "fetchPackage env n reg st = (m, s)" by fastforce
  then have "\<not> g_progress s" using fetchPackage_progress [of env n reg st] assms(2) by simp
  with assms(1) f obtain pv d where pv: "map_of (pm_versions m) r = Some pv"
      and d: "httpDownload env (pv_dist_tarball pv) (tarball_path dir n r) False (s\<lparr>disk := d\<rparr>) = (True, st')"
    by (auto simp: downloadPackage_def split: option.splits sum.splits prod.splits if_splits)
  from d have "read_tree (disk st') (tarball_path dir n r) = Some (fst (httpGet env (pv_dist_tarball pv) (s\<lparr>disk := d\<rparr>)))"
    by (auto simp: httpDownload_def split_beta dest!: write_tree_saved split: if_splits option.splits)
  with f pv show ?thesis by (auto simp: httpGet_other_disk)
qed

lemma no_zero_bytes: "CHR 0x00 \<notin> set (fst (httpGet env url st))"
  by (auto simp: httpGet_def NUL_body split: prod.splits option.splits)


section \<open>Examples\<close>

definition registry_answer :: string where
  "registry_answer = ok_headers @ (''{'' @ [quote] @ ''name'' @ [quote] @ '':'' @ [quote] @ ''a'' @ [quote] @ '','' @ [quote] @ ''versions'' @ [quote] @ '':{'' @
      [quote] @ ''1.0.0'' @ [quote] @ '':{'' @ [quote] @ ''dist'' @ [quote] @ '':{'' @ [quote] @ ''tarball'' @ [quote] @ '':'' @
      [quote] @ ''http://r/a.tgz'' @ [quote] @ ''}}}}'')"

lemma scoped_package_never_installs_witness:
  "fst (installPackage (example_npm (\<lambda>_. Some [registry_answer])) ''@s/a'' ''1.0.0'' default_options empty_npm) \<noteq> Inr True \<and>
   fst (installPackage (example_npm (\<lambda>_. Some [registry_answer])) ''a'' ''1.0.0'' default_options empty_npm) = Inr True"
proof
  show "fst (installPackage (example_npm (\<lambda>_. Some [registry_answer])) ''@s/a'' ''1.0.0'' default_options empty_npm) \<noteq> Inr True"
    by (rule scoped_package_never_installs) (simp_all add: empty_npm_def)
  show "fst (installPackage (example_npm (\<lambda>_. Some [registry_answer])) ''a'' ''1.0.0'' default_options empty_npm) = Inr True"
    by code_simp
qed

lemma failed_update_removes_package_witness:
  "\<not> path_exists (disk (snd (updatePackage (example_npm (\<lambda>_. None)) ''a'' ''^1.0.0'' default_options
     (empty_npm\<lparr>disk := [(''./node_modules'', None), (''./node_modules/a'', None)]\<rparr>)))) ''./node_modules/a''"
proof -
  let ?st = "empty_npm\<lparr>disk := [(''./node_modules'', None), (''./node_modules/a'', None)]\<rparr>"
  let ?r = "resolveVersion (example_npm (\<lambda>_. None)) ''a'' ''^1.0.0'' (io_registry default_options)
    (snd (uninstallPackage ''a'' (io_installDir default_options) ?st))"
  have "fst ?r = Inr []" by code_simp
  then have "?r = (Inr [], snd ?r)" by (cases ?r) simp
  from failed_update_removes_package [OF this] show ?thesis
    by (auto simp: package_dir_def default_options_def)
qed

lemma unresolvable_package_ignored_witness:
  "fst (installPackages (example_npm (\<lambda>n. if n = 0 then None else Some [registry_answer]))
     [(''b'', ''1.0.0''), (''a'', ''1.0.0'')] default_options empty_npm) = Inr True"
proof -
  let ?env = "example_npm (\<lambda>n. if n = 0 then None else Some [registry_answer])"
  let ?r = "resolveVersion ?env ''b'' ''1.0.0'' (io_registry default_options) empty_npm"
  have r: "?r = (Inr [], empty_npm\<lparr>requests := 1\<rparr>)" by code_simp
  have a: "fst (installPackages ?env [(''a'', ''1.0.0'')] default_options (empty_npm\<lparr>requests := 1\<rparr>)) = Inr True"
    by code_simp
  from unresolvable_package_ignored [OF r, of "[(''a'', ''1.0.0'')]"] a show ?thesis
    by (simp add: default_options_def)
qed


end
