(* ===== verification/Utf8.thy ===== *)
theory Utf8
  imports Prelude "HOL-Library.Word"
begin

unbundle bit_operations_syntax

text \<open>
  The UTF-8 encoder that \<open>TypeBridge::toJS\<close> (\<open>src/TypeBridge.cpp\<close>) and \<open>protoStringToCString\<close>
  (\<open>src/ErrorHandler.cpp\<close>) share line by line, on 32-bit code points, and the decoder of the
  standard it is checked against. A proto string is the list of its code points (\<open>mstring\<close>). A C string read from the bytes ends at the first zero.
\<close>

type_synonym mstring = "32 word list"

definition lit :: "string \<Rightarrow> mstring" where
  "lit s = map of_char s"

definition utf8_char :: "32 word \<Rightarrow> 8 word list" where
  "utf8_char c =
     (if c < 0x80 then [ucast c]
      else if c < 0x800 then [ucast (0xC0 OR drop_bit 6 c), ucast (0x80 OR (c AND 0x3F))]
      else if c < 0x10000 then
        [ucast (0xE0 OR drop_bit 12 c), ucast (0x80 OR (drop_bit 6 c AND 0x3F)), ucast (0x80 OR (c AND 0x3F))]
      else
        [ucast (0xF0 OR drop_bit 18 c), ucast (0x80 OR (drop_bit 12 c AND 0x3F)),
         ucast (0x80 OR (drop_bit 6 c AND 0x3F)), ucast (0x80 OR (c AND 0x3F))])"

definition utf8_bytes :: "32 word list \<Rightarrow> 8 word list" where
  "utf8_bytes cs = concat (map utf8_char cs)"

definition c_bytes :: "8 word list \<Rightarrow> 8 word list" where
  "c_bytes bs = takeWhile (\<lambda>b. b \<noteq> 0) bs"

section \<open>The decoder of the standard\<close>

definition cont_byte :: "8 word \<Rightarrow> bool" where
  "cont_byte b \<longleftrightarrow> unat b div 64 = 2"

definition low6 :: "8 word \<Rightarrow> nat" where
  "low6 b = unat b mod 64"

fun utf8_decode :: "8 word list \<Rightarrow> nat list option" where
  "utf8_decode [] = Some []"
| "utf8_decode (a # bs) =
     (if unat a < 128 then map_option (Cons (unat a)) (utf8_decode bs)
      else if 192 \<le> unat a \<and> unat a < 224 then
        (case bs of
           b # r \<Rightarrow> if cont_byte b then map_option (Cons ((unat a - 192) * 64 + low6 b)) (utf8_decode r) else None
         | _ \<Rightarrow> None)
      else if 224 \<le> unat a \<and> unat a < 240 then
        (case bs of
           b # c # r \<Rightarrow> if cont_byte b \<and> cont_byte c
             then map_option (Cons ((unat a - 224) * 4096 + low6 b * 64 + low6 c)) (utf8_decode r) else None
         | _ \<Rightarrow> None)
      else if 240 \<le> unat a \<and> unat a < 248 then
        (case bs of
           b # c # d # r \<Rightarrow> if cont_byte b \<and> cont_byte c \<and> cont_byte d
             then map_option (Cons ((unat a - 240) * 262144 + low6 b * 4096 + low6 c * 64 + low6 d)) (utf8_decode r)
             else None
         | _ \<Rightarrow> None)
      else None)"

section \<open>The encoder in arithmetic\<close>

lemma unat_or_disjoint:
  fixes m x :: "'a::len word"
  assumes "m AND x = 0"
  shows "unat (m OR x) = unat m + unat x"
proof -
  have "unat m AND unat x = 0" using assms by (metis unat_0 unsigned_and_eq)
  then show ?thesis by (simp add: unsigned_or_eq disjunctive_add_eq_or)
qed

lemma and_0x3F: "(c :: 32 word) AND 0x3F = take_bit 6 c"
  by (simp add: take_bit_eq_mask mask_eq_exp_minus_1)

lemma unat_take_bit: "unat (take_bit k (c :: 'a::len word)) = unat c mod 2 ^ k"
  by (simp only: unsigned_take_bit_eq) (simp add: take_bit_eq_mod)

lemma unat_drop: "unat (drop_bit k (c :: 'a::len word)) = unat c div 2 ^ k"
  by (simp only: unat_drop_bit_eq) (simp only: drop_bit_eq_div)

lemma unat_ucast8: "unat (ucast (w :: 32 word) :: 8 word) = unat w mod 256"
  by (simp add: unsigned_ucast_eq take_bit_eq_mod)

text \<open>A lead byte: the marker bits lie above the \<open>k\<close> bits of the value.\<close>

lemma unat_marked:
  fixes c m :: "32 word"
  assumes "m AND mask k = 0" and "unat c < 2 ^ k" and "unat m + 2 ^ k \<le> 256"
  shows "unat (ucast (m OR c) :: 8 word) = unat m + unat c"
proof -
  have "unat (take_bit k c) = unat c" using assms(2) by (simp add: unat_take_bit)
  then have c: "c = mask k AND c" by (metis take_bit_eq_mask and.commute word_unat_eq_iff)
  have "m AND c = (m AND mask k) AND c" by (subst c) (simp add: and.assoc)
  then have "m AND c = 0" using assms(1) by simp
  then show ?thesis using assms(2,3) by (simp add: unat_ucast8 unat_or_disjoint)
qed

lemma unat_cont: "unat (ucast (0x80 OR (c AND 0x3F)) :: 8 word) = 128 + unat (c :: 32 word) mod 64"
proof -
  have "(0x80 :: 32 word) AND mask 6 = 0" by (simp add: mask_eq_exp_minus_1)
  then show ?thesis
    using unat_marked [of "0x80" 6 "c AND 0x3F"] by (simp add: and_0x3F unat_take_bit)
qed

lemma unat_leads:
  fixes c :: "32 word"
  shows "unat c < 0x800 \<Longrightarrow> unat (ucast (0xC0 OR drop_bit 6 c) :: 8 word) = 192 + unat c div 64"
    and "unat c < 0x10000 \<Longrightarrow> unat (ucast (0xE0 OR drop_bit 12 c) :: 8 word) = 224 + unat c div 4096"
    and "unat c < 0x200000 \<Longrightarrow> unat (ucast (0xF0 OR drop_bit 18 c) :: 8 word) = 240 + unat c div 262144"
proof -
  have m: "(0xC0 :: 32 word) AND mask 5 = 0" "(0xE0 :: 32 word) AND mask 4 = 0" "(0xF0 :: 32 word) AND mask 3 = 0"
    by (simp_all add: mask_eq_exp_minus_1)
  show "unat c < 0x800 \<Longrightarrow> unat (ucast (0xC0 OR drop_bit 6 c) :: 8 word) = 192 + unat c div 64"
    using unat_marked [OF m(1), of "drop_bit 6 c"] by (simp add: unat_drop)
  show "unat c < 0x10000 \<Longrightarrow> unat (ucast (0xE0 OR drop_bit 12 c) :: 8 word) = 224 + unat c div 4096"
    using unat_marked [OF m(2), of "drop_bit 12 c"] by (simp add: unat_drop)
  show "unat c < 0x200000 \<Longrightarrow> unat (ucast (0xF0 OR drop_bit 18 c) :: 8 word) = 240 + unat c div 262144"
    using unat_marked [OF m(3), of "drop_bit 18 c"] by (simp add: unat_drop)
qed

text \<open>The bytes of a code point and the sums they stand for, class by class.\<close>

lemma utf8_char_unat:
  shows "unat c < 0x80 \<Longrightarrow> map unat (utf8_char c) = [unat c]"
    and "0x80 \<le> unat c \<Longrightarrow> unat c < 0x800 \<Longrightarrow> map unat (utf8_char c) = [192 + unat c div 64, 128 + unat c mod 64]"
    and "0x800 \<le> unat c \<Longrightarrow> unat c < 0x10000 \<Longrightarrow>
      map unat (utf8_char c) = [224 + unat c div 4096, 128 + unat c div 64 mod 64, 128 + unat c mod 64]"
    and "0x10000 \<le> unat c \<Longrightarrow> unat c < 0x200000 \<Longrightarrow>
      map unat (utf8_char c) = [240 + unat c div 262144, 128 + unat c div 4096 mod 64, 128 + unat c div 64 mod 64, 128 + unat c mod 64]"
  by (simp_all add: utf8_char_def word_less_nat_alt unat_leads unat_cont unat_drop)
    (simp add: unat_ucast8)

lemma map_unat_eq:
  "map unat bs = [x] \<Longrightarrow> \<exists>a. bs = [a] \<and> unat a = x"
  "map unat bs = [x, y] \<Longrightarrow> \<exists>a b. bs = [a, b] \<and> unat a = x \<and> unat b = y"
  "map unat bs = [x, y, z] \<Longrightarrow> \<exists>a b c. bs = [a, b, c] \<and> unat a = x \<and> unat b = y \<and> unat c = z"
  "map unat bs = [x, y, z, w] \<Longrightarrow>
    \<exists>a b c d. bs = [a, b, c, d] \<and> unat a = x \<and> unat b = y \<and> unat c = z \<and> unat d = w"
  by (auto simp: map_eq_Cons_conv)

lemma cont_byte_add: "unat b = 128 + n mod 64 \<Longrightarrow> cont_byte b \<and> low6 b = n mod 64"
proof -
  assume b: "unat b = 128 + n mod 64"
  have "(128 + r) div 64 = 2 \<and> (128 + r) mod 64 = r" if "r < 64" for r :: nat
    using that div_mult_self1 [of 64 r 2] mod_mult_self1 [of r 2 64] by (simp add: add.commute)
  from this [of "n mod 64"] show ?thesis by (simp add: cont_byte_def low6_def b)
qed

lemma split64:
  fixes n :: nat
  shows "n div 4096 * 4096 + n div 64 mod 64 * 64 + n mod 64 = n"
    and "n div 262144 * 262144 + n div 4096 mod 64 * 4096 + n div 64 mod 64 * 64 + n mod 64 = n"
proof -
  have d: "n div 4096 = n div 64 div 64" "n div 262144 = n div 64 div 64 div 64"
    by (simp_all flip: div_mult2_eq)
  have "n = n div 64 * 64 + n mod 64" "n div 64 = n div 64 div 64 * 64 + n div 64 mod 64"
    "n div 64 div 64 = n div 64 div 64 div 64 * 64 + n div 64 div 64 mod 64" by simp_all
  then show "n div 4096 * 4096 + n div 64 mod 64 * 64 + n mod 64 = n"
    "n div 262144 * 262144 + n div 4096 mod 64 * 4096 + n div 64 mod 64 * 64 + n mod 64 = n"
    unfolding d by linarith+
qed

lemma utf8_decode_char:
  assumes "unat c < 0x200000"
  shows "utf8_decode (utf8_char c @ bs) = map_option (Cons (unat c)) (utf8_decode bs)"
proof -
  define n where "n = unat c"
  consider (1) "n < 0x80" | (2) "0x80 \<le> n" "n < 0x800" | (3) "0x800 \<le> n" "n < 0x10000"
    | (4) "0x10000 \<le> n" "n < 0x200000"
    using assms n_def by linarith
  then show ?thesis
  proof cases
    case 1
    then obtain a where "utf8_char c = [a]" "unat a = n"
      using map_unat_eq(1) [OF utf8_char_unat(1)] n_def by blast
    with 1 show ?thesis by (simp add: n_def)
  next
    case 2
    then obtain a b where ab: "utf8_char c = [a, b]" "unat a = 192 + n div 64" "unat b = 128 + n mod 64"
      using map_unat_eq(2) [OF utf8_char_unat(2)] n_def by blast
    have "n div 64 < 32" "n div 64 * 64 + n mod 64 = n" using 2 by simp_all
    moreover have "cont_byte b" "low6 b = n mod 64" using cont_byte_add [OF ab(3)] by auto
    ultimately have "\<not> unat a < 128" "192 \<le> unat a" "unat a < 224" "cont_byte b" "(unat a - 192) * 64 + low6 b = n"
      using ab(2) by linarith+
    then show ?thesis by (simp add: ab(1) n_def)
  next
    case 3
    then obtain a b d where ab: "utf8_char c = [a, b, d]" "unat a = 224 + n div 4096"
        "unat b = 128 + n div 64 mod 64" "unat d = 128 + n mod 64"
      using map_unat_eq(3) [OF utf8_char_unat(3)] n_def by blast
    have "n div 4096 < 16" using 3 by simp
    moreover have "n div 4096 * 4096 + n div 64 mod 64 * 64 + n mod 64 = n" by (rule split64)
    moreover have "cont_byte b" "low6 b = n div 64 mod 64" "cont_byte d" "low6 d = n mod 64"
      using cont_byte_add [OF ab(3)] cont_byte_add [OF ab(4)] by auto
    ultimately have "\<not> unat a < 128" "\<not> unat a < 224" "224 \<le> unat a" "unat a < 240" "cont_byte b" "cont_byte d"
        "(unat a - 224) * 4096 + low6 b * 64 + low6 d = n"
      using ab(2) by auto
    then show ?thesis by (simp add: ab(1) n_def)
  next
    case 4
    then obtain a b d e where ab: "utf8_char c = [a, b, d, e]" "unat a = 240 + n div 262144"
        "unat b = 128 + n div 4096 mod 64" "unat d = 128 + n div 64 mod 64" "unat e = 128 + n mod 64"
      using map_unat_eq(4) [OF utf8_char_unat(4)] n_def by blast
    have "n div 262144 < 8" using 4 by simp
    moreover have "n div 262144 * 262144 + n div 4096 mod 64 * 4096 + n div 64 mod 64 * 64 + n mod 64 = n" by (rule split64)
    moreover have "cont_byte b" "low6 b = n div 4096 mod 64" "cont_byte d" "low6 d = n div 64 mod 64"
        "cont_byte e" "low6 e = n mod 64"
      using cont_byte_add [OF ab(3)] cont_byte_add [OF ab(4)] cont_byte_add [OF ab(5)] by auto
    ultimately have "\<not> unat a < 128" "\<not> unat a < 224" "\<not> unat a < 240" "240 \<le> unat a" "unat a < 248"
        "cont_byte b" "cont_byte d" "cont_byte e"
        "(unat a - 240) * 262144 + low6 b * 4096 + low6 d * 64 + low6 e = n"
      using ab(2) by auto
    then show ?thesis by (simp add: ab(1) n_def)
  qed
qed

text \<open>Decoding what was encoded gives the code points back.\<close>

lemma utf8_decode_bytes:
  "list_all (\<lambda>c. unat c < 0x200000) cs \<Longrightarrow> utf8_decode (utf8_bytes cs) = Some (map unat cs)"
  by (induction cs) (simp_all add: utf8_bytes_def utf8_decode_char)

text \<open>Only the code point 0 yields the byte 0, so the C string holds the text up to it.\<close>

lemma utf8_char_zero:
  assumes "unat c < 0x200000" and "c \<noteq> 0"
  shows "0 \<notin> set (utf8_char c)"
proof -
  have "unat c \<noteq> 0" using assms(2) by (simp add: unat_eq_zero)
  then have "0 \<notin> set (map unat (utf8_char c))"
    using utf8_char_unat [of c] assms(1)
    by (cases "unat c < 0x80"; cases "unat c < 0x800"; cases "unat c < 0x10000") auto
  then show ?thesis by force
qed

lemma c_bytes_utf8:
  assumes "list_all (\<lambda>c. unat c < 0x200000) cs"
  shows "c_bytes (utf8_bytes cs) = utf8_bytes (takeWhile (\<lambda>c. c \<noteq> 0) cs)"
  using assms
proof (induction cs)
  case (Cons c cs)
  show ?case
  proof (cases "c = 0")
    case True
    then show ?thesis by (simp add: utf8_bytes_def c_bytes_def utf8_char_def)
  next
    case False
    with Cons.prems have "\<forall>b \<in> set (utf8_char c). b \<noteq> 0" using utf8_char_zero [of c] by auto
    with Cons False show ?thesis by (simp add: utf8_bytes_def c_bytes_def)
  qed
qed (simp add: utf8_bytes_def c_bytes_def)

end
