(* ===== verification/TypeBridge.thy ===== *)
theory TypeBridge
  imports Utf8
begin

text \<open>
  Models \<open>src/TypeBridge.cpp\<close>: the conversion of JavaScript values into protoCore objects and back.

  \<^item> A JavaScript value is a datatype of the kinds the code tells apart; objects live in a heap, so
    that they can be shared and cyclic. A string is its UTF-8 form, as \<open>JS_ToCString\<close> gives it.
  \<^item> protoCore is a parameter: \<open>bridge_env\<close> has its constructors and observers, and \<open>proto_laws\<close>
    states what its documentation promises of them. Doubles are a parameter too (\<open>ll\<close> is the cast to
    \<open>long long\<close>, \<open>of_ll\<close> the conversion back, \<open>deq\<close> their equality), and so is \<open>JS_ToBigInt64\<close>.
  \<^item> An object has the class number \<open>JS_GetClassID\<close> gives, what its class keeps (\<open>internal\<close>) and its own properties. The code
    compares class numbers with literals, and asks \<open>JS_HasProperty\<close> about the elements of an array with the bare index where
    QuickJS expects an atom: \<open>has_atom\<close> is its answer for an array. Index \<open>i\<close> is atom \<open>2 ^ 31 + i\<close>, and atom 0 names nothing.
    Accessors and proxies are left out.
  \<^item> Both functions recurse into elements and carry fuel; \<open>None\<close> is that it ran out. The functions
    given to \<open>GCBridge::registerMapping\<close> are collected in a list.
\<close>

datatype 'd jsval =
    JsNull
  | JsUndefined
  | JsBool bool
  | JsInt int
  | JsFloat 'd
  | JsString "8 word list"
  | JsBigInt int
  | JsSymbol "8 word list option"
  | JsRef nat

datatype 'd internal =
    Ordinary
  | RegExp "'d jsval" "'d jsval"
  | TypedArray "'d jsval option"
  | ArrayBuffer nat

datatype 'd jsobj =
    OArray "'d jsval option list"
  | OFunction
  | OObject nat "'d internal" "(8 word list \<times> 'd jsval) list"

type_synonym 'd jsheap = "'d jsobj list"

text \<open>What \<open>toJS\<close> builds: fresh values without sharing.\<close>

datatype 'd jstree =
    TNull
  | TBool bool
  | TInt int
  | TBigInt int
  | TFloat 'd
  | TString "8 word list"
  | TArray "'d jstree list"
  | TObject "(string \<times> string) list"

record ('d, 'p) bridge_env =
  ll :: "'d \<Rightarrow> int"
  of_ll :: "int \<Rightarrow> 'd"
  deq :: "'d \<Rightarrow> 'd \<Rightarrow> bool"
  bigint64 :: "int \<Rightarrow> int option"
  has_atom :: "'d jsval option list \<Rightarrow> nat \<Rightarrow> bool"
  p_none :: 'p
  p_bool :: "bool \<Rightarrow> 'p"
  p_integer :: "int \<Rightarrow> 'p"
  p_long :: "int \<Rightarrow> 'p"
  p_double :: "'d \<Rightarrow> 'p"
  p_string :: "8 word list \<Rightarrow> 'p"
  p_list :: "'p list \<Rightarrow> 'p"
  p_sparse :: "(nat \<times> 'p) list \<Rightarrow> 'p"
  p_set :: 'p
  p_new :: 'p
  p_attr :: "8 word list \<Rightarrow> 'p \<Rightarrow> 'p \<Rightarrow> 'p"
  is_none :: "'p \<Rightarrow> bool"
  is_boolean :: "'p \<Rightarrow> bool"
  as_boolean :: "'p \<Rightarrow> bool"
  is_integer :: "'p \<Rightarrow> bool"
  as_long :: "'p \<Rightarrow> int"
  is_double :: "'p \<Rightarrow> bool"
  as_double :: "'p \<Rightarrow> 'd"
  is_string :: "'p \<Rightarrow> bool"
  chars :: "'p \<Rightarrow> 32 word list"
  as_list :: "'p \<Rightarrow> 'p list option"
  is_tuple :: "'p \<Rightarrow> bool"
  as_tuple :: "'p \<Rightarrow> 'p list"
  is_set :: "'p \<Rightarrow> bool"
  is_cell :: "'p \<Rightarrow> bool"

section \<open>TypeBridge::fromJS\<close>

definition from_number :: "('d, 'p) bridge_env \<Rightarrow> 'd \<Rightarrow> 'p" where
  "from_number E d = (if deq E d (of_ll E (ll E d)) then p_integer E (ll E d) else p_double E d)"

definition from_bigint :: "('d, 'p) bridge_env \<Rightarrow> int \<Rightarrow> 'p" where
  "from_bigint E i = (case bigint64 E i of Some k \<Rightarrow> p_long E k | None \<Rightarrow> p_long E 0)"

text \<open>\<open>fromUTF8String\<close> of a C string, which ends at the first zero.\<close>

definition from_string :: "('d, 'p) bridge_env \<Rightarrow> 8 word list \<Rightarrow> 'p" where
  "from_string E bs = p_string E (c_bytes bs)"

definition key :: "string \<Rightarrow> 8 word list" where
  "key s = map of_char s"

definition set_string_attr :: "('d, 'p) bridge_env \<Rightarrow> string \<Rightarrow> 'd jsval \<Rightarrow> 'p \<Rightarrow> 'p" where
  "set_string_attr E name v p = (case v of
     JsString bs \<Rightarrow> p_attr E (key name) (from_string E bs) p | _ \<Rightarrow> p)"

fun from_all :: "('v \<Rightarrow> nat list \<Rightarrow> ('p \<times> nat list) option) \<Rightarrow> 'v list \<Rightarrow> nat list \<Rightarrow> ('p list \<times> nat list) option" where
  "from_all f [] reg = Some ([], reg)"
| "from_all f (v # vs) reg = (case f v reg of
     None \<Rightarrow> None
   | Some (p, reg1) \<Rightarrow>
       (case from_all f vs reg1 of None \<Rightarrow> None | Some (ps, reg2) \<Rightarrow> Some (p # ps, reg2)))"

definition is_sparse :: "('d, 'p) bridge_env \<Rightarrow> 'd jsval option list \<Rightarrow> bool" where
  "is_sparse E items \<longleftrightarrow> list_ex (\<lambda>i. \<not> has_atom E items i) [0..<length items] \<or> length items > 10000"

definition array_item :: "'d jsval option list \<Rightarrow> nat \<Rightarrow> 'd jsval" where
  "array_item items i = (case items ! i of Some v \<Rightarrow> v | None \<Rightarrow> JsUndefined)"

definition visited :: "('d, 'p) bridge_env \<Rightarrow> 'd jsval option list \<Rightarrow> nat list" where
  "visited E items = (if is_sparse E items then filter (has_atom E items) [0..<length items] else [0..<length items])"

definition from_array :: "('d jsval \<Rightarrow> nat list \<Rightarrow> ('p \<times> nat list) option) \<Rightarrow> ('d, 'p) bridge_env \<Rightarrow> 'd jsval option list
    \<Rightarrow> nat list \<Rightarrow> ('p \<times> nat list) option" where
  "from_array f E items reg =
     map_option (\<lambda>(ps, r). (if is_sparse E items then p_sparse E (zip (visited E items) ps) else p_list E ps, r))
       (from_all f (map (array_item items) (visited E items)) reg)"

text \<open>The tests on the class number, in their order. A typed array gives its buffer, unless \<open>JS_GetTypedArrayBuffer\<close> throws;
  an array buffer without bytes goes on to the last case.\<close>

datatype 'd route = To_regexp | To_map | To_set | To_buffer "'d jsval" | To_empty | To_plain

definition typed_buffer :: "'d internal \<Rightarrow> 'd jsval option" where
  "typed_buffer d = (case d of TypedArray (Some (JsRef b)) \<Rightarrow> Some (JsRef b) | _ \<Rightarrow> None)"

definition buffer_bytes :: "'d internal \<Rightarrow> nat" where
  "buffer_bytes d = (case d of ArrayBuffer k \<Rightarrow> k | _ \<Rightarrow> 0)"

definition class_route :: "nat \<Rightarrow> 'd internal \<Rightarrow> 'd route" where
  "class_route c d =
     (if c = 139 then To_regexp
      else if c = 156 then To_map
      else if c = 157 then To_set
      else if 142 \<le> c \<and> c \<le> 154 then (case typed_buffer d of Some b \<Rightarrow> To_buffer b | None \<Rightarrow> To_empty)
      else if c = 140 \<and> buffer_bytes d > 0 then To_empty
      else To_plain)"

definition own_property :: "(8 word list \<times> 'd jsval) list \<Rightarrow> string \<Rightarrow> 'd jsval" where
  "own_property props name = (case map_of props (key name) of Some v \<Rightarrow> v | None \<Rightarrow> JsUndefined)"

definition from_regexp :: "('d, 'p) bridge_env \<Rightarrow> 'd internal \<Rightarrow> (8 word list \<times> 'd jsval) list \<Rightarrow> 'p" where
  "from_regexp E d props =
     (let (source, flags) = (case d of RegExp s f \<Rightarrow> (s, f) | _ \<Rightarrow> (own_property props ''source'', own_property props ''flags''))
      in set_string_attr E ''flags'' flags (set_string_attr E ''source'' source (p_new E)))"

definition from_plain :: "('d jsval \<Rightarrow> nat list \<Rightarrow> ('p \<times> nat list) option) \<Rightarrow> ('d, 'p) bridge_env
    \<Rightarrow> (8 word list \<times> 'd jsval) list \<Rightarrow> nat list \<Rightarrow> ('p \<times> nat list) option" where
  "from_plain f E props reg =
     map_option (\<lambda>(ps, r). (foldl (\<lambda>obj (name, p). p_attr E (c_bytes name) p obj) (p_new E) (zip (map fst props) ps), r))
       (from_all f (map snd props) reg)"

definition from_object :: "('d jsval \<Rightarrow> nat list \<Rightarrow> ('p \<times> nat list) option) \<Rightarrow> ('d, 'p) bridge_env \<Rightarrow> nat \<Rightarrow> 'd internal
    \<Rightarrow> (8 word list \<times> 'd jsval) list \<Rightarrow> nat list \<Rightarrow> ('p \<times> nat list) option" where
  "from_object f E c d props reg = (case class_route c d of
     To_regexp \<Rightarrow> Some (from_regexp E d props, reg)
   | To_map \<Rightarrow> Some (p_sparse E [], reg)
   | To_set \<Rightarrow> Some (p_set E, reg)
   | To_buffer b \<Rightarrow> f b reg
   | To_empty \<Rightarrow> Some (p_new E, reg)
   | To_plain \<Rightarrow> from_plain f E props reg)"

definition from_symbol :: "('d, 'p) bridge_env \<Rightarrow> 8 word list option \<Rightarrow> 'p" where
  "from_symbol E d = (case d of Some bs \<Rightarrow> set_string_attr E ''description'' (JsString bs) (p_new E) | None \<Rightarrow> p_new E)"

fun fromJS :: "nat \<Rightarrow> ('d, 'p) bridge_env \<Rightarrow> 'd jsheap \<Rightarrow> 'd jsval \<Rightarrow> nat list \<Rightarrow> ('p \<times> nat list) option" where
  "fromJS 0 E h v reg = None"
| "fromJS (Suc n) E h v reg = (case v of
     JsNull \<Rightarrow> Some (p_none E, reg)
   | JsUndefined \<Rightarrow> Some (p_none E, reg)
   | JsBool b \<Rightarrow> Some (p_bool E b, reg)
   | JsInt i \<Rightarrow> Some (from_number E (of_ll E i), reg)
   | JsFloat d \<Rightarrow> Some (from_number E d, reg)
   | JsString bs \<Rightarrow> Some (from_string E bs, reg)
   | JsBigInt i \<Rightarrow> Some (from_bigint E i, reg)
   | JsSymbol d \<Rightarrow> Some (from_symbol E d, reg)
   | JsRef a \<Rightarrow>
       (if a < length h then
          (case h ! a of
             OArray items \<Rightarrow> from_array (fromJS n E h) E items reg
           | OFunction \<Rightarrow> Some (p_new E, reg @ [a])
           | OObject c d props \<Rightarrow> from_object (fromJS n E h) E c d props reg)
        else Some (p_none E, reg)))"

section \<open>TypeBridge::toJS\<close>

definition to_integer :: "int \<Rightarrow> 'd jstree" where
  "to_integer i = (if - (2 ^ 31) \<le> i \<and> i < 2 ^ 31 then TInt i else TBigInt i)"

definition to_string :: "32 word list \<Rightarrow> 'd jstree" where
  "to_string cs = TString (c_bytes (utf8_bytes cs))"

fun to_all :: "('p \<Rightarrow> 't option) \<Rightarrow> 'p list \<Rightarrow> 't list option" where
  "to_all f [] = Some []"
| "to_all f (p # ps) = (case f p of
     None \<Rightarrow> None | Some t \<Rightarrow> (case to_all f ps of None \<Rightarrow> None | Some ts \<Rightarrow> Some (t # ts)))"

fun toJS :: "nat \<Rightarrow> ('d, 'p) bridge_env \<Rightarrow> 'p \<Rightarrow> 'd jstree option" where
  "toJS 0 E p = None"
| "toJS (Suc n) E p =
     (if is_none E p then Some TNull
      else if is_boolean E p then Some (TBool (as_boolean E p))
      else if is_integer E p then Some (to_integer (as_long E p))
      else if is_double E p then Some (TFloat (as_double E p))
      else if is_string E p then Some (to_string (chars E p))
      else (case as_list E p of
        Some ps \<Rightarrow> map_option TArray (to_all (toJS n E) ps)
      | None \<Rightarrow>
          if is_tuple E p then map_option TArray (to_all (toJS n E) (as_tuple E p))
          else if is_set E p then Some (TArray [])
          else if is_cell E p then Some (TObject [])
          else Some (TObject [(''_type'', ''ProtoObject'')])))"

section \<open>When fromJS returns\<close>

text \<open>The values that the conversion of a value converts itself, one by one.\<close>

definition object_children :: "nat \<Rightarrow> 'd internal \<Rightarrow> (8 word list \<times> 'd jsval) list \<Rightarrow> 'd jsval list" where
  "object_children c d props = (case class_route c d of To_buffer b \<Rightarrow> [b] | To_plain \<Rightarrow> map snd props | _ \<Rightarrow> [])"

definition js_children :: "('d, 'p) bridge_env \<Rightarrow> 'd jsheap \<Rightarrow> 'd jsval \<Rightarrow> 'd jsval list" where
  "js_children E h v = (case v of
     JsRef a \<Rightarrow> (if a < length h then
        (case h ! a of
           OArray items \<Rightarrow> map (array_item items) (visited E items)
         | OFunction \<Rightarrow> []
         | OObject c d props \<Rightarrow> object_children c d props) else [])
   | _ \<Rightarrow> [])"

text \<open>One step of the conversion: it converts the children in order, builds its result from theirs, and registers a function.\<close>

definition build :: "('d, 'p) bridge_env \<Rightarrow> 'd jsheap \<Rightarrow> 'd jsval \<Rightarrow> 'p list \<Rightarrow> 'p" where
  "build E h v ps = (case v of
     JsNull \<Rightarrow> p_none E
   | JsUndefined \<Rightarrow> p_none E
   | JsBool b \<Rightarrow> p_bool E b
   | JsInt i \<Rightarrow> from_number E (of_ll E i)
   | JsFloat d \<Rightarrow> from_number E d
   | JsString bs \<Rightarrow> from_string E bs
   | JsBigInt i \<Rightarrow> from_bigint E i
   | JsSymbol d \<Rightarrow> from_symbol E d
   | JsRef a \<Rightarrow>
       (if a < length h then
          (case h ! a of
             OArray items \<Rightarrow> if is_sparse E items then p_sparse E (zip (visited E items) ps) else p_list E ps
           | OFunction \<Rightarrow> p_new E
           | OObject c d props \<Rightarrow> (case class_route c d of
                 To_regexp \<Rightarrow> from_regexp E d props
               | To_map \<Rightarrow> p_sparse E []
               | To_set \<Rightarrow> p_set E
               | To_buffer b \<Rightarrow> hd ps
               | To_empty \<Rightarrow> p_new E
               | To_plain \<Rightarrow> foldl (\<lambda>obj (name, p). p_attr E (c_bytes name) p obj) (p_new E) (zip (map fst props) ps)))
        else p_none E))"

definition registers :: "'d jsheap \<Rightarrow> 'd jsval \<Rightarrow> nat list" where
  "registers h v = (case v of JsRef a \<Rightarrow> (if a < length h \<and> h ! a = OFunction then [a] else []) | _ \<Rightarrow> [])"

lemma fromJS_step:
  "fromJS (Suc n) E h v reg =
     map_option (\<lambda>(ps, r). (build E h v ps, r @ registers h v)) (from_all (fromJS n E h) (js_children E h v) reg)"
proof (cases v)
  case (JsRef a)
  show ?thesis
  proof (cases "a < length h")
    case True
    note a = JsRef True
    show ?thesis
    proof (cases "h ! a")
      case (OObject c d props)
      with a show ?thesis
        by (cases "class_route c d") (auto simp: from_object_def from_plain_def js_children_def object_children_def build_def
            registers_def split: option.split)
    qed (use a in \<open>simp_all add: from_array_def js_children_def build_def registers_def\<close>)
  qed (use JsRef in \<open>simp add: js_children_def build_def registers_def\<close>)
qed (simp_all add: js_children_def build_def registers_def)

declare fromJS.simps(2) [simp del]

text \<open>A value without a cycle below it.\<close>

inductive finite_value :: "('d, 'p) bridge_env \<Rightarrow> 'd jsheap \<Rightarrow> 'd jsval \<Rightarrow> bool" for E h where
  "(\<And>w. w \<in> set (js_children E h v) \<Longrightarrow> finite_value E h w) \<Longrightarrow> finite_value E h v"

lemma from_all_mono:
  assumes "\<And>v r. v \<in> set vs \<Longrightarrow> f v r \<noteq> None \<Longrightarrow> g v r = f v r" and "from_all f vs reg \<noteq> None"
  shows "from_all g vs reg = from_all f vs reg"
  using assms by (induction vs arbitrary: reg) (auto split: option.splits)

lemma from_all_children:
  "from_all f vs reg = Some r \<Longrightarrow> w \<in> set vs \<Longrightarrow> \<exists>q y. f w q = Some y"
  by (induction vs arbitrary: reg r) (auto split: option.splits)

lemma from_all_returns:
  "(\<And>v r. v \<in> set vs \<Longrightarrow> f v r \<noteq> None) \<Longrightarrow> from_all f vs reg \<noteq> None"
proof (induction vs arbitrary: reg)
  case (Cons v vs)
  then obtain p r where "f v reg = Some (p, r)" by fastforce
  moreover have "from_all f vs r \<noteq> None" using Cons by simp
  ultimately show ?case by auto
qed simp

lemma fromJS_mono:
  "fromJS n E h v reg \<noteq> None \<Longrightarrow> n \<le> m \<Longrightarrow> fromJS m E h v reg = fromJS n E h v reg"
proof (induction n arbitrary: v reg m)
  case (Suc n)
  from Suc.prems(2) obtain k where m: "m = Suc k" "n \<le> k" by (cases m) auto
  have IH: "fromJS n E h w r \<noteq> None \<Longrightarrow> fromJS k E h w r = fromJS n E h w r" for w r
    using Suc.IH m(2) by blast
  have "from_all (fromJS n E h) (js_children E h v) reg \<noteq> None" using Suc.prems(1) by (simp add: fromJS_step)
  then have "from_all (fromJS k E h) (js_children E h v) reg = from_all (fromJS n E h) (js_children E h v) reg"
    by (intro from_all_mono IH)
  then show ?case by (simp add: m(1) fromJS_step)
qed simp

lemma fromJS_finite: "fromJS n E h v reg \<noteq> None \<Longrightarrow> finite_value E h v"
proof (induction n arbitrary: v reg)
  case (Suc n)
  then obtain r where r: "from_all (fromJS n E h) (js_children E h v) reg = Some r" by (auto simp: fromJS_step)
  show ?case
  proof (rule finite_value.intros)
    fix w assume "w \<in> set (js_children E h v)"
    from from_all_children [OF r this] show "finite_value E h w" using Suc.IH by blast
  qed
qed simp

lemma finite_fromJS: "finite_value E h v \<Longrightarrow> \<exists>n. \<forall>reg. fromJS n E h v reg \<noteq> None"
proof (induction rule: finite_value.induct)
  case (1 v)
  then have "\<forall>w \<in> set (js_children E h v). \<exists>n. \<forall>reg. fromJS n E h w reg \<noteq> None" by blast
  then obtain f where f: "\<forall>w \<in> set (js_children E h v). \<forall>reg. fromJS (f w) E h w reg \<noteq> None" by metis
  define n where "n = sum_list (map f (js_children E h v))"
  have "f w \<le> n" if "w \<in> set (js_children E h v)" for w
    using that unfolding n_def by (simp add: member_le_sum_list)
  then have n: "fromJS n E h w reg \<noteq> None" if "w \<in> set (js_children E h v)" for w reg
    using that f fromJS_mono by metis
  have "fromJS (Suc n) E h v reg \<noteq> None" for reg
    using from_all_returns [of "js_children E h v" "fromJS n E h" reg] n by (simp add: fromJS_step)
  then show ?case by blast
qed


section \<open>What a round trip yields\<close>

definition opaque_cell :: "('d, 'p) bridge_env \<Rightarrow> 'p \<Rightarrow> bool" where
  "opaque_cell E p \<longleftrightarrow> \<not> is_none E p \<and> \<not> is_boolean E p \<and> \<not> is_integer E p \<and> \<not> is_double E p \<and> \<not> is_string E p
     \<and> as_list E p = None \<and> \<not> is_tuple E p \<and> \<not> is_set E p \<and> is_cell E p"

definition long_long :: "int \<Rightarrow> bool" where
  "long_long i \<longleftrightarrow> - (2 ^ 63) \<le> i \<and> i < 2 ^ 63"

text \<open>The promises of protoCore, and that casts and \<open>JS_ToBigInt64\<close> yield 64-bit numbers.\<close>

definition proto_laws :: "('d, 'p) bridge_env \<Rightarrow> bool" where
  "proto_laws E \<longleftrightarrow>
     is_none E (p_none E) \<and>
     (\<forall>b. \<not> is_none E (p_bool E b) \<and> is_boolean E (p_bool E b) \<and> as_boolean E (p_bool E b) = b) \<and>
     (\<forall>i. long_long i \<longrightarrow> (\<forall>p \<in> {p_integer E i, p_long E i}.
        \<not> is_none E p \<and> \<not> is_boolean E p \<and> is_integer E p \<and> as_long E p = i)) \<and>
     (\<forall>d. \<not> is_none E (p_double E d) \<and> \<not> is_boolean E (p_double E d) \<and> \<not> is_integer E (p_double E d)
        \<and> is_double E (p_double E d) \<and> as_double E (p_double E d) = d) \<and>
     (\<forall>cs. list_all (\<lambda>c. unat c < 0x200000) cs \<longrightarrow> (let p = p_string E (utf8_bytes cs) in \<not> is_none E p
        \<and> \<not> is_boolean E p \<and> \<not> is_integer E p \<and> \<not> is_double E p \<and> is_string E p \<and> chars E p = cs)) \<and>
     (\<forall>ps. let p = p_list E ps in \<not> is_none E p \<and> \<not> is_boolean E p \<and> \<not> is_integer E p \<and> \<not> is_double E p
        \<and> \<not> is_string E p \<and> as_list E p = Some ps) \<and>
     (let p = p_set E in \<not> is_none E p \<and> \<not> is_boolean E p \<and> \<not> is_integer E p \<and> \<not> is_double E p
        \<and> \<not> is_string E p \<and> as_list E p = None \<and> \<not> is_tuple E p \<and> is_set E p) \<and>
     (\<forall>m. opaque_cell E (p_sparse E m)) \<and> opaque_cell E (p_new E) \<and>
     (\<forall>k v p. opaque_cell E p \<longrightarrow> opaque_cell E (p_attr E k v p)) \<and>
     (\<forall>d. long_long (ll E d)) \<and> (\<forall>i k. bigint64 E i = Some k \<longrightarrow> long_long k)"

text \<open>A string is the UTF-8 form of code points.\<close>

definition utf8_text :: "8 word list \<Rightarrow> bool" where
  "utf8_text bs \<longleftrightarrow> (\<exists>cs. list_all (\<lambda>c. unat c < 0x200000) cs \<and> bs = utf8_bytes cs)"

fun text_ok :: "'d jsval \<Rightarrow> bool" where
  "text_ok (JsString bs) = utf8_text bs"
| "text_ok _ = True"

definition heap_ok :: "('d, 'p) bridge_env \<Rightarrow> 'd jsheap \<Rightarrow> bool" where
  "heap_ok E h \<longleftrightarrow> (\<forall>a. list_all text_ok (js_children E h (JsRef a)))"

definition number_shape :: "('d, 'p) bridge_env \<Rightarrow> 'd \<Rightarrow> 'd jstree" where
  "number_shape E d = (if deq E d (of_ll E (ll E d)) then to_integer (ll E d) else TFloat d)"

fun shape :: "nat \<Rightarrow> ('d, 'p) bridge_env \<Rightarrow> 'd jsheap \<Rightarrow> 'd jsval \<Rightarrow> 'd jstree" where
  "shape 0 E h v = TNull"
| "shape (Suc n) E h v = (case v of
     JsNull \<Rightarrow> TNull
   | JsUndefined \<Rightarrow> TNull
   | JsBool b \<Rightarrow> TBool b
   | JsInt i \<Rightarrow> number_shape E (of_ll E i)
   | JsFloat d \<Rightarrow> number_shape E d
   | JsString bs \<Rightarrow> TString (c_bytes bs)
   | JsBigInt i \<Rightarrow> to_integer (case bigint64 E i of Some k \<Rightarrow> k | None \<Rightarrow> 0)
   | JsSymbol d \<Rightarrow> TObject []
   | JsRef a \<Rightarrow>
       (if a < length h then
          (case h ! a of
             OArray items \<Rightarrow> if is_sparse E items then TObject [] else TArray (map (shape n E h \<circ> array_item items) (visited E items))
           | OFunction \<Rightarrow> TObject []
           | OObject c d props \<Rightarrow> (case class_route c d of
                 To_set \<Rightarrow> TArray []
               | To_buffer b \<Rightarrow> shape n E h b
               | _ \<Rightarrow> TObject []))
        else TNull))"

lemma c_bytes_idem [simp]: "c_bytes (c_bytes bs) = c_bytes bs"
  by (simp add: c_bytes_def takeWhile_idem)

lemma string_back:
  assumes "proto_laws E" and "utf8_text bs"
  defines "p \<equiv> from_string E bs"
  shows "\<not> is_none E p \<and> \<not> is_boolean E p \<and> \<not> is_integer E p \<and> \<not> is_double E p \<and> is_string E p"
    and "to_string (chars E p) = TString (c_bytes bs)"
proof -
  obtain cs where cs: "list_all (\<lambda>c. unat c < 0x200000) cs" "bs = utf8_bytes cs"
    using assms(2) by (auto simp: utf8_text_def)
  let ?ds = "takeWhile (\<lambda>c. c \<noteq> 0) cs"
  have ds: "list_all (\<lambda>c. unat c < 0x200000) ?ds" using cs(1) by (auto simp: list_all_iff dest: set_takeWhileD)
  have b: "c_bytes bs = utf8_bytes ?ds" using cs by (simp add: c_bytes_utf8)
  have "let q = p_string E (utf8_bytes ?ds) in \<not> is_none E q \<and> \<not> is_boolean E q \<and> \<not> is_integer E q \<and> \<not> is_double E q
      \<and> is_string E q \<and> chars E q = ?ds"
    using assms(1) ds unfolding proto_laws_def by blast
  then show "\<not> is_none E p \<and> \<not> is_boolean E p \<and> \<not> is_integer E p \<and> \<not> is_double E p \<and> is_string E p"
    "to_string (chars E p) = TString (c_bytes bs)"
    unfolding p_def from_string_def b [symmetric] by (simp_all add: Let_def to_string_def flip: b)
qed

section \<open>The round trip\<close>

lemma to_all_map: "list_all2 (\<lambda>p t. f p = Some t) ps ts \<Longrightarrow> to_all f ps = Some ts"
  by (induction rule: list_all2_induct) simp_all

lemma to_all_mono:
  "(\<And>p t. p \<in> set ps \<Longrightarrow> f p = Some t \<Longrightarrow> g p = Some t) \<Longrightarrow> to_all f ps = Some ts \<Longrightarrow> to_all g ps = Some ts"
  by (induction ps arbitrary: ts) (auto split: option.splits)

lemma toJS_mono: "toJS n E p = Some t \<Longrightarrow> toJS (Suc n) E p = Some t"
proof (induction n arbitrary: p t)
  case (Suc n)
  have "to_all (toJS n E) ps = Some ts \<Longrightarrow> to_all (toJS (Suc n) E) ps = Some ts" for ps ts
    using Suc.IH by (rule to_all_mono)
  with Suc.prems show ?case
    by (simp del: toJS.simps(2) add: toJS.simps(2) [of n] toJS.simps(2) [of "Suc n"] split: if_splits option.splits) auto
qed simp

declare toJS.simps(2) [simp del]
lemmas toJS_Suc = toJS.simps(2)

lemma from_all_list_all2:
  "from_all f vs reg = Some (ps, reg') \<Longrightarrow> list_all2 (\<lambda>v p. \<exists>r r'. f v r = Some (p, r')) vs ps"
  by (induction vs arbitrary: reg ps) (fastforce split: option.splits)+

lemma toJS_opaque: "opaque_cell E p \<Longrightarrow> toJS (Suc n) E p = Some (TObject [])"
  by (simp add: opaque_cell_def toJS_Suc)

lemma set_string_attr_opaque:
  "proto_laws E \<Longrightarrow> opaque_cell E p \<Longrightarrow> opaque_cell E (set_string_attr E name v p)"
  by (auto simp: set_string_attr_def proto_laws_def split: jsval.splits)

lemma plain_opaque:
  "proto_laws E \<Longrightarrow> opaque_cell E p \<Longrightarrow> opaque_cell E (foldl (\<lambda>obj (name, q). p_attr E (c_bytes name) q obj) p kvs)"
  by (induction kvs arbitrary: p) (auto simp: proto_laws_def)

lemma toJS_integer:
  assumes "proto_laws E" and "long_long i"
  shows "toJS (Suc n) E (p_integer E i) = Some (to_integer i)" and "toJS (Suc n) E (p_long E i) = Some (to_integer i)"
proof -
  have "\<forall>p \<in> {p_integer E i, p_long E i}. \<not> is_none E p \<and> \<not> is_boolean E p \<and> is_integer E p \<and> as_long E p = i"
    using assms unfolding proto_laws_def by blast
  then show "toJS (Suc n) E (p_integer E i) = Some (to_integer i)" "toJS (Suc n) E (p_long E i) = Some (to_integer i)"
    by (simp_all add: toJS_Suc)
qed

lemma toJS_number:
  assumes "proto_laws E"
  shows "toJS (Suc n) E (from_number E d) = Some (number_shape E d)"
proof -
  have "long_long (ll E d)" using assms unfolding proto_laws_def by blast
  moreover have "toJS (Suc n) E (p_double E d) = Some (TFloat d)" using assms by (simp add: proto_laws_def toJS_Suc)
  ultimately show ?thesis using toJS_integer(1) [OF assms] by (auto simp: from_number_def number_shape_def)
qed

lemma toJS_bigint:
  assumes "proto_laws E"
  shows "toJS (Suc n) E (from_bigint E i) = Some (to_integer (case bigint64 E i of Some k \<Rightarrow> k | None \<Rightarrow> 0))"
proof -
  have "long_long 0" by (simp add: long_long_def)
  moreover have "bigint64 E i = Some k \<Longrightarrow> long_long k" for k using assms unfolding proto_laws_def by blast
  ultimately show ?thesis
    using toJS_integer(2) [OF assms] by (simp add: from_bigint_def split: option.splits)
qed

lemma toJS_string:
  assumes "proto_laws E" and "utf8_text bs"
  shows "toJS (Suc n) E (from_string E bs) = Some (TString (c_bytes bs))"
  using string_back [OF assms] by (simp add: toJS_Suc)

lemma toJS_list:
  "proto_laws E \<Longrightarrow> toJS (Suc n) E (p_list E ps) = map_option TArray (to_all (toJS n E) ps)"
  by (simp add: toJS_Suc proto_laws_def Let_def)

lemma toJS_simple:
  assumes "proto_laws E"
  shows "toJS (Suc n) E (p_none E) = Some TNull" and "toJS (Suc n) E (p_bool E b) = Some (TBool b)"
    and "toJS (Suc n) E (p_set E) = Some (TArray [])"
    and "toJS (Suc n) E (p_new E) = Some (TObject [])" and "toJS (Suc n) E (p_sparse E m) = Some (TObject [])"
  using assms by (auto simp: toJS_Suc proto_laws_def Let_def opaque_cell_def)

lemma heap_child: "heap_ok E h \<Longrightarrow> w \<in> set (js_children E h v) \<Longrightarrow> text_ok w"
  by (cases v) (auto simp: heap_ok_def list_all_iff js_children_def)

lemma new_opaque: "proto_laws E \<Longrightarrow> opaque_cell E (p_new E)"
  by (simp add: proto_laws_def)

lemma from_regexp_opaque: "proto_laws E \<Longrightarrow> opaque_cell E (from_regexp E d props)"
  by (simp add: from_regexp_def set_string_attr_opaque new_opaque case_prod_beta)

lemma from_symbol_opaque: "proto_laws E \<Longrightarrow> opaque_cell E (from_symbol E d)"
  by (simp add: from_symbol_def set_string_attr_opaque new_opaque split: option.split)

lemma toJS_build_object:
  assumes L: "proto_laws E" and a: "a < length h" "h ! a = OObject c d props"
    and ps: "list_all2 (\<lambda>q t. toJS n E q = Some t) ps (map (shape n E h) (js_children E h (JsRef a)))"
  shows "toJS (Suc n) E (build E h (JsRef a) ps) = Some (shape (Suc n) E h (JsRef a))"
proof (cases "class_route c d")
  case (To_buffer b)
  then have "list_all2 (\<lambda>q t. toJS n E q = Some t) ps [shape n E h b]"
    using ps a by (simp add: js_children_def object_children_def)
  then have "toJS n E (hd ps) = Some (shape n E h b)" by (auto simp: list_all2_Cons2)
  then show ?thesis using a To_buffer toJS_mono by (simp add: build_def)
next
  case To_plain
  then show ?thesis using a toJS_opaque [OF plain_opaque [OF L new_opaque [OF L]]] by (simp add: build_def)
qed (use a toJS_simple [OF L, of n] toJS_opaque [OF from_regexp_opaque [OF L]] in \<open>simp_all add: build_def\<close>)

lemma bridge_shape:
  assumes "proto_laws E" and "heap_ok E h" and "text_ok v" and "fromJS n E h v reg = Some (p, reg')"
  shows "toJS n E p = Some (shape n E h v)"
  using assms(3,4)
proof (induction n arbitrary: v reg p reg')
  case (Suc n)
  note L = assms(1)
  obtain ps r where r: "from_all (fromJS n E h) (js_children E h v) reg = Some (ps, r)" and p: "p = build E h v ps"
    using Suc.prems(2) by (auto simp: fromJS_step)
  have ps: "list_all2 (\<lambda>q t. toJS n E q = Some t) ps (map (shape n E h) (js_children E h v))"
    using from_all_list_all2 [OF r] heap_child [OF assms(2), of _ v] Suc.IH
    by (simp add: list_all2_map2 list_all2_conv_all_nth) (metis nth_mem)
  show ?case
  proof (cases v)
    case (JsRef a)
    show ?thesis
    proof (cases "a < length h")
      case True
      note a = JsRef True
      show ?thesis
      proof (cases "h ! a")
        case (OArray items)
        then have "to_all (toJS n E) ps = Some (map (shape n E h \<circ> array_item items) (visited E items))"
          using to_all_map [OF ps] a by (simp add: js_children_def)
        then show ?thesis using a OArray p toJS_list [OF L, of n ps] toJS_simple(5) [OF L, of n] by (simp add: build_def)
      next
        case OFunction
        then show ?thesis using a p toJS_simple(4) [OF L, of n] by (simp add: build_def)
      next
        case (OObject c d props)
        from toJS_build_object [OF L True this] ps show ?thesis using p JsRef by blast
      qed
    qed (use p JsRef toJS_simple(1) [OF L, of n] in \<open>simp add: build_def\<close>)
  qed (use p Suc.prems(1) toJS_simple(1,2) [OF L, of n] toJS_number [OF L, of n] toJS_bigint [OF L, of n] toJS_string [OF L]
      toJS_opaque [OF from_symbol_opaque [OF L]] in \<open>simp_all add: build_def\<close>)
qed simp

text \<open>Atom 0 is no property of anything, so that the first element of an array is never seen: whatever an array holds, the
  round trip makes an empty object of it, unless the array is empty.\<close>

theorem arrays_lose_elements:
  assumes "proto_laws E" and "\<And>items. \<not> has_atom E items 0" and "a < length h" and "h ! a = OArray items"
    and "fromJS n E h (JsRef a) reg = Some (p, reg')"
  shows "toJS n E p = Some (if items = [] then TArray [] else TObject [])"
proof -
  obtain m where n: "n = Suc m" using assms(5) by (cases n) auto
  from assms(3-5) obtain ps r where p: "p = build E h (JsRef a) ps"
      and r: "from_all (fromJS m E h) (map (array_item items) (visited E items)) reg = Some (ps, r)"
    by (auto simp: n fromJS_step js_children_def)
  have ps: "ps = []" if "items = []" using r that by (simp add: visited_def is_sparse_def)
  have "is_sparse E items" if "items \<noteq> []"
    using that assms(2) by (auto simp: is_sparse_def list_ex_iff intro!: bexI [of _ 0])
  moreover have "\<not> is_sparse E []" by (simp add: is_sparse_def)
  ultimately have "is_sparse E items = (items \<noteq> [])" by (cases items) auto
  then show ?thesis
    using p ps assms(3,4) toJS_list [OF assms(1), of m "[]"] toJS_simple(5) [OF assms(1), of m] by (simp add: n build_def)
qed

section \<open>Which values change their type\<close>

datatype js_type = T_object | T_undefined | T_boolean | T_number | T_bigint | T_string | T_symbol | T_function

fun value_type :: "'d jsheap \<Rightarrow> 'd jsval \<Rightarrow> js_type" where
  "value_type h JsNull = T_object"
| "value_type h JsUndefined = T_undefined"
| "value_type h (JsBool b) = T_boolean"
| "value_type h (JsInt i) = T_number"
| "value_type h (JsFloat d) = T_number"
| "value_type h (JsString bs) = T_string"
| "value_type h (JsBigInt i) = T_bigint"
| "value_type h (JsSymbol d) = T_symbol"
| "value_type h (JsRef a) = (if a < length h \<and> h ! a = OFunction then T_function else T_object)"

fun tree_type :: "'d jstree \<Rightarrow> js_type" where
  "tree_type TNull = T_object"
| "tree_type (TBool b) = T_boolean"
| "tree_type (TInt i) = T_number"
| "tree_type (TBigInt i) = T_bigint"
| "tree_type (TFloat d) = T_number"
| "tree_type (TString bs) = T_string"
| "tree_type (TArray ts) = T_object"
| "tree_type (TObject ps) = T_object"

definition int32 :: "int \<Rightarrow> bool" where
  "int32 i \<longleftrightarrow> - (2 ^ 31) \<le> i \<and> i < 2 ^ 31"

definition wide :: "('d, 'p) bridge_env \<Rightarrow> 'd \<Rightarrow> bool" where
  "wide E d \<longleftrightarrow> deq E d (of_ll E (ll E d)) \<and> \<not> int32 (ll E d)"

fun retyped :: "('d, 'p) bridge_env \<Rightarrow> 'd jsheap \<Rightarrow> 'd jsval \<Rightarrow> bool" where
  "retyped E h JsUndefined = True"
| "retyped E h (JsInt i) = wide E (of_ll E i)"
| "retyped E h (JsFloat d) = wide E d"
| "retyped E h (JsBigInt i) = int32 (case bigint64 E i of Some k \<Rightarrow> k | None \<Rightarrow> 0)"
| "retyped E h (JsSymbol d) = True"
| "retyped E h (JsRef a) = (a < length h \<and> h ! a = OFunction)"
| "retyped E h _ = False"

definition buffers_ok :: "'d jsheap \<Rightarrow> bool" where
  "buffers_ok h \<longleftrightarrow> (\<forall>ob \<in> set h. case ob of
     OObject c d props \<Rightarrow> (case class_route c d of
         To_buffer b \<Rightarrow> (\<exists>k j props'. b = JsRef k \<and> k < length h \<and> h ! k = OObject 140 (ArrayBuffer j) props')
       | _ \<Rightarrow> True)
   | _ \<Rightarrow> True)"

lemma tree_type_integer: "tree_type (to_integer i) = (if int32 i then T_number else T_bigint)"
  by (simp add: to_integer_def int32_def)

lemma tree_type_number: "tree_type (number_shape E d) = (if wide E d then T_bigint else T_number)"
  by (simp add: number_shape_def wide_def tree_type_integer)

lemma shape_type:
  assumes "buffers_ok h"
  shows "(tree_type (shape (Suc n) E h v) = value_type h v) = (\<not> retyped E h v)"
proof (cases v)
  case (JsRef a)
  show ?thesis
  proof (cases "a < length h")
    case True
    show ?thesis
    proof (cases "h ! a")
      case (OObject c d props)
      show ?thesis
      proof (cases "class_route c d")
        case (To_buffer w)
        then have "\<exists>k j props'. w = JsRef k \<and> k < length h \<and> h ! k = OObject 140 (ArrayBuffer j) props'"
          using assms True OObject nth_mem [OF True] by (fastforce simp: buffers_ok_def)
        then have "tree_type (shape n E h w) = T_object" by (cases n) (auto simp: class_route_def)
        then show ?thesis using JsRef True OObject To_buffer by simp
      qed (use JsRef True OObject in simp_all)
    qed (use JsRef True in simp_all)
  qed (use JsRef in simp)
qed (simp_all add: tree_type_number tree_type_integer)


section \<open>An instance of the parameters\<close>

text \<open>Doubles that are multiples of one half, and protoCore objects as a datatype. Atom 48 stands for \<open>length\<close>.\<close>

datatype pobj = PNone | PBool bool | PInt int | PDouble int | PString "8 word list" | PList "pobj list"
  | PSparse "(nat \<times> pobj) list" | PSet | PObj "(8 word list \<times> pobj) list"

definition clip :: "int \<Rightarrow> int" where
  "clip i = (if long_long i then i else - (2 ^ 63))"

definition example_bridge :: "(int, pobj) bridge_env" where
  "example_bridge = \<lparr>
     ll = (\<lambda>d. clip (d div 2)), of_ll = (\<lambda>i. 2 * i), deq = (=),
     bigint64 = (\<lambda>i. Some ((i + 2 ^ 63) mod 2 ^ 64 - 2 ^ 63)),
     has_atom = (\<lambda>items i. let k = int i - 2 ^ 31 in
       if k < 0 then i = 48 else k < int (length items) \<and> items ! nat k \<noteq> None),
     p_none = PNone, p_bool = PBool, p_integer = PInt, p_long = PInt, p_double = PDouble, p_string = PString,
     p_list = PList, p_sparse = PSparse, p_set = PSet, p_new = PObj [],
     p_attr = (\<lambda>k v p. case p of PObj m \<Rightarrow> PObj (m @ [(k, v)]) | _ \<Rightarrow> p),
     is_none = (\<lambda>p. p = PNone), is_boolean = (\<lambda>p. case p of PBool b \<Rightarrow> True | _ \<Rightarrow> False),
     as_boolean = (\<lambda>p. case p of PBool b \<Rightarrow> b | _ \<Rightarrow> False),
     is_integer = (\<lambda>p. case p of PInt i \<Rightarrow> True | _ \<Rightarrow> False), as_long = (\<lambda>p. case p of PInt i \<Rightarrow> i | _ \<Rightarrow> 0),
     is_double = (\<lambda>p. case p of PDouble d \<Rightarrow> True | _ \<Rightarrow> False), as_double = (\<lambda>p. case p of PDouble d \<Rightarrow> d | _ \<Rightarrow> 0),
     is_string = (\<lambda>p. case p of PString bs \<Rightarrow> True | _ \<Rightarrow> False),
     chars = (\<lambda>p. case p of PString bs \<Rightarrow> (case utf8_decode bs of Some us \<Rightarrow> map of_nat us | None \<Rightarrow> []) | _ \<Rightarrow> []),
     as_list = (\<lambda>p. case p of PList ps \<Rightarrow> Some ps | _ \<Rightarrow> None), is_tuple = (\<lambda>p. False), as_tuple = (\<lambda>p. []),
     is_set = (\<lambda>p. p = PSet), is_cell = (\<lambda>p. True)\<rparr>"

lemma example_bridge_laws: "proto_laws example_bridge"
  by (auto simp: proto_laws_def example_bridge_def opaque_cell_def Let_def utf8_decode_bytes clip_def long_long_def
      map_idI split: pobj.splits)

definition example_heap :: "int jsheap" where
  "example_heap = [OArray [Some (JsInt 1), None, Some (JsRef 1)], OObject 144 (TypedArray (Some (JsRef 2))) [],
     OObject 140 (ArrayBuffer 8) [], OArray []]"


lemma arrays_lose_elements_witness:
  "\<exists>p q. fromJS 3 example_bridge example_heap (JsRef 0) [] = Some (p, []) \<and> toJS 3 example_bridge p = Some (TObject []) \<and>
     fromJS 3 example_bridge example_heap (JsRef 3) [] = Some (q, []) \<and> toJS 3 example_bridge q = Some (TArray [])"
proof -
  have f: "fromJS 3 example_bridge example_heap (JsRef 0) [] = Some (PSparse [], [])"
    "fromJS 3 example_bridge example_heap (JsRef 3) [] = Some (PList [], [])" by code_simp+
  have a: "\<not> has_atom example_bridge items 0" for items by (simp add: example_bridge_def Let_def)
  have h: "0 < length example_heap" "3 < length example_heap" "example_heap ! 0 = OArray [Some (JsInt 1), None, Some (JsRef 1)]"
    "example_heap ! 3 = OArray []" by (simp_all add: example_heap_def)
  from arrays_lose_elements [OF example_bridge_laws a h(1,3) f(1)] arrays_lose_elements [OF example_bridge_laws a h(2,4) f(2)]
  show ?thesis using f by simp
qed

end
