(* ===== verification/ErrorHandler.thy ===== *)
theory ErrorHandler
  imports Utf8
begin

text \<open>
  Models \<open>src/ErrorHandler.cpp\<close>: building JavaScript error objects from protoCore strings and reading
  them back.

  \<^item> An error object is the map of its properties, those it inherits from \<open>Error.prototype\<close> included;
    a property is a text (its UTF-8 form) or a 32-bit number.
  \<^item> A \<open>ProtoString\<close> is the list of its code points, as \<open>asList\<close> gives it. Making one from UTF-8,
    appending and comparing are parameters (\<open>proto_strings\<close>) with the laws \<open>string_laws\<close>, and so is
    \<open>strerror_r\<close>. A proto integer is the \<open>long long\<close> that \<open>asLong\<close> gives.
\<close>

datatype error_type = Error | SystemError | TypeError | RangeError | ReferenceError | SyntaxError
  | ModuleNotFoundError | NetworkError

datatype error_prop = Text "8 word list" | Number int

type_synonym error_object = "(string \<times> error_prop) list"
type_synonym proto_string = "32 word list"

record proto_strings =
  ps_from :: "8 word list \<Rightarrow> proto_string"
  ps_append :: "proto_string \<Rightarrow> proto_string \<Rightarrow> proto_string"
  ps_cmp :: "proto_string \<Rightarrow> proto_string \<Rightarrow> int"
  strerror :: "int \<Rightarrow> 8 word list option"

definition ascii :: "string \<Rightarrow> 8 word list" where
  "ascii s = map of_char s"

definition ps :: "proto_strings \<Rightarrow> string \<Rightarrow> proto_string" where
  "ps P s = ps_from P (ascii s)"

definition int32_cast :: "int \<Rightarrow> int" where
  "int32_cast i = signed_take_bit 31 i"

text \<open>\<open>JS_NewError\<close>.\<close>

definition JS_NewError :: error_object where
  "JS_NewError = [(''message'', Text []), (''name'', Text (ascii ''Error''))]"

definition protoStringToCString :: "proto_string option \<Rightarrow> 8 word list option" where
  "protoStringToCString s = map_option (\<lambda>cs. c_bytes (utf8_bytes cs)) s"

definition set_text :: "string \<Rightarrow> proto_string option \<Rightarrow> error_object \<Rightarrow> error_object" where
  "set_text name s e = (case protoStringToCString s of None \<Rightarrow> e | Some bs \<Rightarrow> map_put name (Text bs) e)"

definition getErrorTypeName :: "proto_strings \<Rightarrow> error_type \<Rightarrow> proto_string" where
  "getErrorTypeName P t = ps P (case t of
     Error \<Rightarrow> ''Error'' | SystemError \<Rightarrow> ''SystemError'' | TypeError \<Rightarrow> ''TypeError'' | RangeError \<Rightarrow> ''RangeError''
   | ReferenceError \<Rightarrow> ''ReferenceError'' | SyntaxError \<Rightarrow> ''SyntaxError''
   | ModuleNotFoundError \<Rightarrow> ''ModuleNotFoundError'' | NetworkError \<Rightarrow> ''NetworkError'')"

definition getStackTrace :: "proto_strings \<Rightarrow> proto_string" where
  "getStackTrace P = ps P (''    at (unknown location)'' @ [CHR 0x0A])"

definition attachStack :: "error_object \<Rightarrow> proto_string option \<Rightarrow> error_object" where
  "attachStack e stack = set_text ''stack'' stack e"

definition createError :: "proto_strings \<Rightarrow> error_type \<Rightarrow> proto_string option \<Rightarrow> int option \<Rightarrow> error_object" where
  "createError P t message code =
     (let e1 = set_text ''name'' (Some (getErrorTypeName P t)) JS_NewError;
          e2 = set_text ''message'' message e1;
          e3 = (case code of
              None \<Rightarrow> e2 | Some c \<Rightarrow> if c \<noteq> 0 then map_put ''code'' (Number (int32_cast c)) e2 else e2);
          e4 = set_text ''type'' (Some (getErrorTypeName P t)) e3
      in if length (getStackTrace P) > 0 then attachStack e4 (Some (getStackTrace P)) else e4)"

definition createErrorWithStack :: "proto_strings \<Rightarrow> error_type \<Rightarrow> proto_string option \<Rightarrow> proto_string option
    \<Rightarrow> error_object" where
  "createErrorWithStack P t message stack = attachStack (createError P t message None) stack"

definition getSystemErrorMessage :: "proto_strings \<Rightarrow> int \<Rightarrow> proto_string" where
  "getSystemErrorMessage P errno = (case strerror P (int32_cast errno) of
     Some m \<Rightarrow> ps_from P m | None \<Rightarrow> ps P ''Unknown error'')"

definition given :: "proto_string option \<Rightarrow> bool" where
  "given s \<longleftrightarrow> (case s of None \<Rightarrow> False | Some cs \<Rightarrow> length cs > 0)"

definition system_message :: "proto_strings \<Rightarrow> int \<Rightarrow> proto_string \<Rightarrow> proto_string option \<Rightarrow> proto_string" where
  "system_message P errno syscall path =
     (let m1 = (if given path then ps_append P (ps_append P syscall (ps P '' '')) (the path) else syscall)
      in ps_append P (ps_append P m1 (ps P '': '')) (getSystemErrorMessage P errno))"

definition createSystemError :: "proto_strings \<Rightarrow> int \<Rightarrow> proto_string \<Rightarrow> proto_string option \<Rightarrow> error_object" where
  "createSystemError P errno syscall path =
     (let e1 = createError P SystemError (Some (system_message P errno syscall path)) (Some errno);
          e2 = set_text ''syscall'' (Some syscall) e1;
          e3 = map_put ''errno'' (Number (int32_cast errno)) e2
      in if given path then set_text ''path'' path e3 else e3)"

definition attachContext :: "error_object \<Rightarrow> proto_string option \<Rightarrow> int \<Rightarrow> proto_string option \<Rightarrow> error_object" where
  "attachContext e file_name line function_name =
     (let e1 = (if given file_name then set_text ''fileName'' file_name e else e);
          e2 = map_put ''lineNumber'' (Number (int32_cast line)) e1
      in if given function_name then set_text ''functionName'' function_name e2 else e2)"

fun digits_of :: "nat \<Rightarrow> string" where
  "digits_of n = (if n < 10 then [char_of (48 + n)] else digits_of (n div 10) @ [char_of (48 + n mod 10)])"

definition show_long :: "int \<Rightarrow> string" where
  "show_long i = (if i < 0 then ''-'' @ digits_of (nat (- i)) else digits_of (nat i))"

definition formatStackFrame :: "proto_strings \<Rightarrow> proto_string \<Rightarrow> int \<Rightarrow> proto_string option \<Rightarrow> proto_string" where
  "formatStackFrame P file_name line function_name =
     (let f1 = ps_append P (ps P ''    at '') (if given function_name then the function_name else ps P ''(anonymous)'');
          f2 = ps_append P (ps_append P (ps_append P f1 (ps P '' (''))  file_name) (ps P '':'')
      in ps_append P (ps_append P f2 (ps P (show_long line))) (ps P '')''))"

section \<open>Reading errors\<close>

definition error_types :: "(string \<times> error_type) list" where
  "error_types = [(''SystemError'', SystemError), (''TypeError'', TypeError), (''RangeError'', RangeError),
     (''ReferenceError'', ReferenceError), (''SyntaxError'', SyntaxError), (''ModuleNotFoundError'', ModuleNotFoundError),
     (''NetworkError'', NetworkError)]"

definition getErrorType :: "proto_strings \<Rightarrow> error_object \<Rightarrow> error_type" where
  "getErrorType P e = (case map_of e ''name'' of
     Some (Text bs) \<Rightarrow>
       (case List.find (\<lambda>(n, t). ps_cmp P (ps_from P bs) (ps P n) = 0) error_types of
          Some (n, t) \<Rightarrow> t | None \<Rightarrow> Error)
   | _ \<Rightarrow> Error)"

definition text_prop :: "proto_strings \<Rightarrow> string \<Rightarrow> error_object \<Rightarrow> proto_string" where
  "text_prop P name e = (case map_of e name of Some (Text bs) \<Rightarrow> ps_from P bs | _ \<Rightarrow> ps P '''')"

definition getErrorMessage :: "proto_strings \<Rightarrow> error_object \<Rightarrow> proto_string" where
  "getErrorMessage P e = text_prop P ''message'' e"

definition getErrorStack :: "proto_strings \<Rightarrow> error_object \<Rightarrow> proto_string" where
  "getErrorStack P e = text_prop P ''stack'' e"

definition getErrorCode :: "error_object \<Rightarrow> int" where
  "getErrorCode e = (case map_of e ''code'' of Some (Number i) \<Rightarrow> i | _ \<Rightarrow> 0)"

definition EAGAIN :: int where "EAGAIN = 11"
definition EINTR :: int where "EINTR = 4"

definition canRecover :: "proto_strings \<Rightarrow> error_object \<Rightarrow> bool" where
  "canRecover P e = (if getErrorType P e = SystemError then getErrorCode e = EAGAIN \<or> getErrorCode e = EINTR else False)"

text \<open>The recovery returns a value, or throws a C++ exception (\<open>None\<close>); \<open>Inl\<close> is the error thrown.\<close>

definition recover :: "proto_strings \<Rightarrow> error_object \<Rightarrow> 'v option \<Rightarrow> error_object + 'v" where
  "recover P e recovery =
     (if canRecover P e then (case recovery of Some v \<Rightarrow> Inr v | None \<Rightarrow> Inl e) else Inl e)"

section \<open>What is written is what is read\<close>

text \<open>Unicode scalar values: the code points that UTF-8 and the strings of the engine both carry unchanged.\<close>

definition code_points :: "proto_string \<Rightarrow> bool" where
  "code_points cs \<longleftrightarrow> list_all (\<lambda>c. unat c < 0xD800 \<or> 0xE000 \<le> unat c \<and> unat c < 0x110000) cs"

lemma code_points_small: "code_points cs \<Longrightarrow> list_all (\<lambda>c. unat c < 0x200000) cs"
  by (auto simp: code_points_def list_all_iff)

definition string_laws :: "proto_strings \<Rightarrow> bool" where
  "string_laws P \<longleftrightarrow> (\<forall>cs. code_points cs \<longrightarrow> ps_from P (utf8_bytes cs) = cs) \<and>
     (\<forall>a b. ps_append P a b = a @ b) \<and> (\<forall>a b. (ps_cmp P a b = 0) = (a = b))"

definition wide_string :: "string \<Rightarrow> proto_string" where
  "wide_string s = map of_char s"

definition literals :: "string list" where
  "literals = ''Error'' # (''    at (unknown location)'' @ [CHR 0x0A]) # map fst error_types"

lemma literals_ascii:
  "list_all (\<lambda>s. utf8_bytes (wide_string s) = ascii s \<and> code_points (wide_string s) \<and>
     c_bytes (ascii s) = ascii s) literals"
  by (simp add: literals_def error_types_def wide_string_def ascii_def utf8_bytes_def utf8_char_def c_bytes_def
      code_points_def)

lemma ps_literal:
  assumes "string_laws P" and "s \<in> set literals"
  shows "ps P s = wide_string s" and "c_bytes (utf8_bytes (ps P s)) = ascii s"
proof -
  have s: "utf8_bytes (wide_string s) = ascii s" "code_points (wide_string s)" "c_bytes (ascii s) = ascii s"
    using literals_ascii assms(2) by (auto simp: list_all_iff)
  then have "ps_from P (ascii s) = wide_string s" using assms(1) unfolding string_laws_def by metis
  then show "ps P s = wide_string s" "c_bytes (utf8_bytes (ps P s)) = ascii s" using s by (simp_all add: ps_def)
qed

fun type_name :: "error_type \<Rightarrow> string" where
  "type_name Error = ''Error''"
| "type_name SystemError = ''SystemError''"
| "type_name TypeError = ''TypeError''"
| "type_name RangeError = ''RangeError''"
| "type_name ReferenceError = ''ReferenceError''"
| "type_name SyntaxError = ''SyntaxError''"
| "type_name ModuleNotFoundError = ''ModuleNotFoundError''"
| "type_name NetworkError = ''NetworkError''"

lemma type_name_literal: "type_name t \<in> set literals"
  by (cases t) (simp_all add: literals_def error_types_def)

lemma getErrorTypeName_name: "getErrorTypeName P t = ps P (type_name t)"
  by (cases t) (simp_all add: getErrorTypeName_def)

lemma set_text_Some: "set_text n (Some cs) e = map_put n (Text (c_bytes (utf8_bytes cs))) e"
  by (simp add: set_text_def protoStringToCString_def)

lemma set_text_None: "set_text n None e = e"
  by (simp add: set_text_def protoStringToCString_def)

lemma text_back:
  assumes "string_laws P" and "code_points cs"
  shows "ps_from P (c_bytes (utf8_bytes cs)) = takeWhile (\<lambda>c. c \<noteq> 0) cs"
proof -
  have "code_points (takeWhile (\<lambda>c. c \<noteq> 0) cs)"
    using assms(2) by (auto simp: code_points_def list_all_iff dest: set_takeWhileD)
  then show ?thesis using assms code_points_small by (simp add: c_bytes_utf8 string_laws_def)
qed

lemma map_of_put_simps [simp]:
  "map_of (map_put k v m) k = Some v"
  "j \<noteq> k \<Longrightarrow> map_of (map_put k v m) j = map_of m j"
  by (simp_all add: map_of_put)

lemma stack_literal: "''    at (unknown location)'' @ [CHR 0x0A] \<in> set literals"
  by (simp add: literals_def)

lemma createError_props:
  assumes "string_laws P"
  shows "map_of (createError P t m c) ''name'' = Some (Text (ascii (type_name t)))"
    and "map_of (createError P t (Some cs) c) ''message'' = Some (Text (c_bytes (utf8_bytes cs)))"
    and "map_of (createError P t m c) ''code'' =
      (case c of None \<Rightarrow> None | Some i \<Rightarrow> if i = 0 then None else Some (Number (int32_cast i)))"
    and "map_of (createError P t m c) ''stack'' = Some (Text (ascii (''    at (unknown location)'' @ [CHR 0x0A])))"
proof -
  note n = ps_literal(2) [OF assms type_name_literal] and st = ps_literal [OF assms stack_literal]
  have len: "length (getStackTrace P) > 0" using st(1) by (simp add: getStackTrace_def wide_string_def)
  have me: "map_of (set_text ''message'' m e) k = map_of e k" if "k \<noteq> ''message''" for e k
    using that by (cases m) (simp_all add: set_text_Some set_text_None)
  show "map_of (createError P t m c) ''name'' = Some (Text (ascii (type_name t)))"
    using len n by (simp add: createError_def Let_def attachStack_def set_text_Some getErrorTypeName_name me split: option.splits)
  show "map_of (createError P t (Some cs) c) ''message'' = Some (Text (c_bytes (utf8_bytes cs)))"
    using len by (simp add: createError_def Let_def attachStack_def set_text_Some split: option.splits)
  show "map_of (createError P t m c) ''code'' =
      (case c of None \<Rightarrow> None | Some i \<Rightarrow> if i = 0 then None else Some (Number (int32_cast i)))"
    using len by (simp add: createError_def Let_def attachStack_def set_text_Some me JS_NewError_def split: option.splits)
  show "map_of (createError P t m c) ''stack'' = Some (Text (ascii (''    at (unknown location)'' @ [CHR 0x0A])))"
    using len st(2) by (simp add: createError_def Let_def attachStack_def set_text_Some getStackTrace_def)
qed

lemma type_of_name:
  assumes "string_laws P" and "map_of e ''name'' = Some (Text (ascii (type_name t)))"
  shows "getErrorType P e = t"
proof -
  have eq: "(ps_cmp P (ps_from P (ascii (type_name t))) (ps P s) = 0) = (wide_string (type_name t) = wide_string s)"
    if "s \<in> set literals" for s
    using assms(1) ps_literal(1) [OF assms(1) type_name_literal, of t] ps_literal(1) [OF assms(1) that]
    by (simp add: string_laws_def ps_def)
  have literal: "n \<in> set literals" if "(n, u) \<in> set error_types" for n u
    using that by (force simp: literals_def)
  have "List.find (\<lambda>(n, u). ps_cmp P (ps_from P (ascii (type_name t))) (ps P n) = 0) error_types
    = List.find (\<lambda>(n, u). wide_string (type_name t) = wide_string n) error_types"
    by (rule find_cong) (auto simp: eq literal)
  also have "(case \<dots> of Some (n, u) \<Rightarrow> u | None \<Rightarrow> Error) = t"
    by (cases t) (simp_all add: error_types_def wide_string_def)
  finally show ?thesis using assms(2) by (simp add: getErrorType_def)
qed

text \<open>C21: An error built by \<open>createError\<close> reads back as it was made: its type, its message up to a
  zero, and its code as a 32-bit number.\<close>

theorem error_roundtrip:
  assumes "string_laws P" and "code_points message"
  shows "getErrorType P (createError P t (Some message) (Some c)) = t \<and>
     getErrorMessage P (createError P t (Some message) (Some c)) = takeWhile (\<lambda>u. u \<noteq> 0) message \<and>
     getErrorCode (createError P t (Some message) (Some c)) = int32_cast c \<and>
     getErrorStack P (createError P t (Some message) (Some c)) = getStackTrace P"
proof -
  note P = createError_props [OF assms(1)]
  have "int32_cast 0 = 0" by (simp add: int32_cast_def)
  then show ?thesis
    using type_of_name [OF assms(1) P(1)] text_back [OF assms]
    by (simp add: getErrorMessage_def getErrorStack_def getErrorCode_def text_prop_def P getStackTrace_def ps_def)
qed

definition example_strings :: proto_strings where
  "example_strings = \<lparr>ps_from = (\<lambda>bs. case utf8_decode bs of Some us \<Rightarrow> map of_nat us | None \<Rightarrow> []),
     ps_append = (@), ps_cmp = (\<lambda>a b. if a = b then 0 else 1), strerror = (\<lambda>_. None)\<rparr>"

lemma example_strings_laws: "string_laws example_strings"
  by (auto simp: string_laws_def example_strings_def utf8_decode_bytes map_idI dest: code_points_small)

lemma error_roundtrip_witness:
  "getErrorMessage example_strings (createError example_strings RangeError (Some [0x41, 0x20AC]) (Some 5)) = [0x41, 0x20AC] \<and>
   getErrorType example_strings (createError example_strings RangeError (Some [0x41, 0x20AC]) (Some 5)) = RangeError"
proof -
  have "code_points [0x41, 0x20AC]" by (simp add: code_points_def)
  from error_roundtrip [OF example_strings_laws this, of RangeError 5] show ?thesis by simp
qed

text \<open>A system error is recoverable exactly when its number, as an \<open>int\<close>, is \<open>EAGAIN\<close> or \<open>EINTR\<close>.\<close>

lemma system_error_recovery:
  assumes "string_laws P"
  shows "canRecover P (createSystemError P errno syscall path) \<longleftrightarrow>
    int32_cast errno = EAGAIN \<or> int32_cast errno = EINTR"
proof -
  let ?m = "Some (system_message P errno syscall path)"
  let ?e = "createSystemError P errno syscall path"
  have same: "map_of ?e k = map_of (createError P SystemError ?m (Some errno)) k" if "k \<in> {''name'', ''code''}" for k
    using that by (cases path) (auto simp: createSystemError_def Let_def set_text_Some given_def)
  note P = createError_props [OF assms, where t = SystemError]
  have "getErrorType P ?e = SystemError"
    using same [of "''name''"] by (intro type_of_name [OF assms]) (simp add: P(1))
  moreover have "getErrorCode ?e = int32_cast errno"
    using same [of "''code''"] by (auto simp: getErrorCode_def int32_cast_def P(3))
  ultimately show ?thesis by (simp add: canRecover_def)
qed

end
