(* ===== verification/Metrics.thy ===== *)
theory Metrics
  imports Store Utf8
begin

text \<open>
  Models \<open>src/monitoring/Metrics.cpp\<close>: counters, gauges and histograms kept under the hash of a name
  with its labels, behind one mutex that is not recursive.

  \<^item> Parameters (\<open>metrics_env\<close>): doubles with their zero, one, sum and order, their printing with
    \<open>%g\<close>, the proto objects they are stored as, and the hash of a proto string. A proto string is the
    list of its code points; a labels list holds the labels' texts (\<open>None\<close>: not a string).
  \<^item> \<open>None\<close> as the result of an operation is that it waits for ever for the mutex it holds itself.
  \<^item> A \<open>HistogramStats\<close> starts with indeterminate fields (\<open>Indet\<close>); testing one is undefined.
\<close>

type_synonym labels = "mstring option list"

record ('d, 'v) metrics_env =
  dadd :: "'d \<Rightarrow> 'd \<Rightarrow> 'd"
  dle :: "'d \<Rightarrow> 'd \<Rightarrow> bool"
  dzero :: 'd
  done' :: 'd
  dbuckets :: "'d list"
  dshow :: "'d \<Rightarrow> mstring"
  from_double :: "'d \<Rightarrow> 'v"
  as_double :: "'v \<Rightarrow> 'd"
  is_double :: "'v \<Rightarrow> bool"
  v_none :: "'v \<Rightarrow> bool"
  hash :: "mstring \<Rightarrow> nat"

record 'd histogram =
  h_buckets :: "'d list"
  h_counts :: "int list"
  h_sum :: 'd
  h_count :: int

record ('d, 'v) metrics_state =
  locked :: bool
  counters :: "(nat \<times> 'v) list"
  gauges :: "(nat \<times> 'v) list"
  histograms :: "(nat \<times> 'd histogram) list"

section \<open>Keys and the mutex\<close>

fun join_labels :: "bool \<Rightarrow> labels \<Rightarrow> mstring" where
  "join_labels first [] = []"
| "join_labels first (l # ls) =
     (if first then [] else lit '','') @ (case l of Some s \<Rightarrow> s | None \<Rightarrow> []) @ join_labels False ls"

definition makeKey :: "mstring \<Rightarrow> labels option \<Rightarrow> mstring" where
  "makeKey name labels = (case labels of
     None \<Rightarrow> name
   | Some ls \<Rightarrow> if ls = [] then name else name @ lit ''{'' @ join_labels True ls @ lit ''}'')"

definition with_lock :: "(('d, 'v) metrics_state \<Rightarrow> ('r \<times> ('d, 'v) metrics_state) option)
    \<Rightarrow> ('d, 'v) metrics_state \<Rightarrow> ('r \<times> ('d, 'v) metrics_state) option" where
  "with_lock f st = (if locked st then None
     else map_option (\<lambda>(r, st1). (r, st1\<lparr>locked := False\<rparr>)) (f (st\<lparr>locked := True\<rparr>)))"

text \<open>The value under a key, unless it is absent or none.\<close>

definition stored :: "('d, 'v) metrics_env \<Rightarrow> nat \<Rightarrow> (nat \<times> 'v) list \<Rightarrow> 'v" where
  "stored E k m = (case map_of m k of
     Some v \<Rightarrow> if v_none E v then from_double E (dzero E) else v | None \<Rightarrow> from_double E (dzero E))"

section \<open>Counters and gauges\<close>

definition incrementCounter :: "('d, 'v) metrics_env \<Rightarrow> mstring \<Rightarrow> 'v option \<Rightarrow> labels option
    \<Rightarrow> ('d, 'v) metrics_state \<Rightarrow> (unit \<times> ('d, 'v) metrics_state) option" where
  "incrementCounter E name value labels = with_lock (\<lambda>st.
     (let k = hash E (makeKey name labels);
          increment = (case value of Some v \<Rightarrow> as_double E v | None \<Rightarrow> done' E)
      in Some ((), st\<lparr>counters := map_put k
           (from_double E (dadd E (as_double E (stored E k (counters st))) increment)) (counters st)\<rparr>)))"

definition getCounter :: "('d, 'v) metrics_env \<Rightarrow> mstring \<Rightarrow> labels option
    \<Rightarrow> ('d, 'v) metrics_state \<Rightarrow> ('v \<times> ('d, 'v) metrics_state) option" where
  "getCounter E name labels = with_lock (\<lambda>st. Some (stored E (hash E (makeKey name labels)) (counters st), st))"

definition setGauge :: "('d, 'v) metrics_env \<Rightarrow> mstring \<Rightarrow> 'v \<Rightarrow> labels option
    \<Rightarrow> ('d, 'v) metrics_state \<Rightarrow> (unit \<times> ('d, 'v) metrics_state) option" where
  "setGauge E name value labels = with_lock (\<lambda>st.
     Some ((), st\<lparr>gauges := map_put (hash E (makeKey name labels)) value (gauges st)\<rparr>))"

definition addGauge :: "('d, 'v) metrics_env \<Rightarrow> mstring \<Rightarrow> 'v \<Rightarrow> labels option
    \<Rightarrow> ('d, 'v) metrics_state \<Rightarrow> (unit \<times> ('d, 'v) metrics_state) option" where
  "addGauge E name value labels = with_lock (\<lambda>st.
     (let k = hash E (makeKey name labels)
      in Some ((), st\<lparr>gauges := map_put k
           (from_double E (dadd E (as_double E (stored E k (gauges st))) (as_double E value))) (gauges st)\<rparr>)))"

definition getGauge :: "('d, 'v) metrics_env \<Rightarrow> mstring \<Rightarrow> labels option
    \<Rightarrow> ('d, 'v) metrics_state \<Rightarrow> ('v \<times> ('d, 'v) metrics_state) option" where
  "getGauge E name labels = with_lock (\<lambda>st. Some (stored E (hash E (makeKey name labels)) (gauges st), st))"

section \<open>Histograms\<close>

definition new_histogram :: "('d, 'v) metrics_env \<Rightarrow> 'd histogram" where
  "new_histogram E = \<lparr>h_buckets = dbuckets E, h_counts = replicate (length (dbuckets E)) 0,
     h_sum = dzero E, h_count = 0\<rparr>"

text \<open>The loop over the buckets stops at the first whose bound is not below the value.\<close>

fun bump :: "('d, 'v) metrics_env \<Rightarrow> 'd \<Rightarrow> 'd list \<Rightarrow> int list \<Rightarrow> int list" where
  "bump E val (b # bs) (c # cs) = (if dle E val b then (c + 1) # cs else c # bump E val bs cs)"
| "bump E val _ cs = cs"

definition record_value :: "('d, 'v) metrics_env \<Rightarrow> 'd \<Rightarrow> 'd histogram \<Rightarrow> 'd histogram" where
  "record_value E val h = h\<lparr>h_sum := dadd E (h_sum h) val, h_count := h_count h + 1,
     h_counts := bump E val (h_buckets h) (h_counts h)\<rparr>"

definition recordHistogram :: "('d, 'v) metrics_env \<Rightarrow> mstring \<Rightarrow> 'v \<Rightarrow> labels option
    \<Rightarrow> ('d, 'v) metrics_state \<Rightarrow> (unit \<times> ('d, 'v) metrics_state) option" where
  "recordHistogram E name value labels = with_lock (\<lambda>st.
     (let k = hash E (makeKey name labels);
          h = (case map_of (histograms st) k of Some h \<Rightarrow> h | None \<Rightarrow> new_histogram E)
      in Some ((), st\<lparr>histograms := map_put k (record_value E (as_double E value) h) (histograms st)\<rparr>)))"

datatype 'a read_result = Defined 'a | Indet

definition getHistogram :: "('d, 'v) metrics_env \<Rightarrow> mstring \<Rightarrow> labels option
    \<Rightarrow> ('d, 'v) metrics_state \<Rightarrow> ('d histogram read_result \<times> ('d, 'v) metrics_state) option" where
  "getHistogram E name labels = with_lock (\<lambda>st.
     Some (case map_of (histograms st) (hash E (makeKey name labels)) of
        Some h \<Rightarrow> Defined h | None \<Rightarrow> Indet, st))"

section \<open>Export\<close>

type_synonym ('d, 'v) snapshot = "(nat \<times> 'v) list \<times> (nat \<times> 'v) list \<times> (nat \<times> 'd histogram) list"

definition getSnapshot :: "('d, 'v) metrics_state \<Rightarrow> (('d, 'v) snapshot \<times> ('d, 'v) metrics_state) option" where
  "getSnapshot = with_lock (\<lambda>st. Some ((counters st, gauges st, histograms st), st))"

fun json_counters :: "('d, 'v) metrics_env \<Rightarrow> bool \<Rightarrow> (nat \<times> 'v) list \<Rightarrow> mstring" where
  "json_counters E first [] = []"
| "json_counters E first ((k, v) # m) =
     (if first then [] else lit '','') @ (if is_double E v then dshow E (as_double E v) else []) @ json_counters E False m"

definition exportJSON :: "('d, 'v) metrics_env \<Rightarrow> ('d, 'v) metrics_state
    \<Rightarrow> (mstring \<times> ('d, 'v) metrics_state) option" where
  "exportJSON E = with_lock (\<lambda>st. case getSnapshot st of
     None \<Rightarrow> None
   | Some ((cs, gs, hs), st1) \<Rightarrow>
       Some (lit ''{'' @ [0x22] @ lit ''counters'' @ [0x22] @ lit '':{'' @ json_counters E True cs @ lit ''}}'', st1))"

definition exportPrometheus :: mstring where
  "exportPrometheus = lit ''# Prometheus format export''"

section \<open>What a histogram holds\<close>

text \<open>The bucket a value falls into: the first whose bound is not below it.\<close>

definition in_bucket :: "('d, 'v) metrics_env \<Rightarrow> 'd list \<Rightarrow> nat \<Rightarrow> 'd \<Rightarrow> bool" where
  "in_bucket E bs i v \<longleftrightarrow> dle E v (bs ! i) \<and> list_all (\<lambda>b. \<not> dle E v b) (take i bs)"

lemma bump_length: "length (bump E v bs cs) = length cs"
  by (induction E v bs cs rule: bump.induct) auto

lemma bump_nth:
  "length bs = length cs \<Longrightarrow> i < length cs \<Longrightarrow> bump E v bs cs ! i = cs ! i + (if in_bucket E bs i v then 1 else 0)"
proof (induction E v bs cs arbitrary: i rule: bump.induct)
  case (1 E val b bs c cs)
  then show ?case by (cases i) (auto simp: in_bucket_def)
qed (auto simp: in_bucket_def)

fun record_all :: "('d, 'v) metrics_env \<Rightarrow> mstring \<Rightarrow> labels option \<Rightarrow> 'v list
    \<Rightarrow> ('d, 'v) metrics_state \<Rightarrow> ('d, 'v) metrics_state option" where
  "record_all E name labels [] st = Some st"
| "record_all E name labels (v # vs) st = (case recordHistogram E name v labels st of
     None \<Rightarrow> None | Some (u, st1) \<Rightarrow> record_all E name labels vs st1)"

definition holds :: "('d, 'v) metrics_env \<Rightarrow> 'd list \<Rightarrow> 'd histogram \<Rightarrow> bool" where
  "holds E ds h \<longleftrightarrow> h_buckets h = dbuckets E \<and> h_count h = int (length ds) \<and> h_sum h = foldl (dadd E) (dzero E) ds \<and>
     length (h_counts h) = length (dbuckets E) \<and>
     list_all (\<lambda>i. h_counts h ! i = int (length (filter (in_bucket E (dbuckets E) i) ds))) [0..<length (dbuckets E)]"

lemma holds_new: "holds E [] (new_histogram E)"
  by (simp add: holds_def new_histogram_def list_all_iff)

lemma holds_record: "holds E ds h \<Longrightarrow> holds E (ds @ [d]) (record_value E d h)"
  by (auto simp: holds_def record_value_def bump_length bump_nth list_all_iff)

lemma record_all_holds:
  assumes "record_all E name labels vs st = Some st'" and "\<not> locked st" and "map_ok (histograms st)"
    and "holds E ds (case map_of (histograms st) (hash E (makeKey name labels)) of Some h \<Rightarrow> h | None \<Rightarrow> new_histogram E)"
  shows "\<not> locked st' \<and> holds E (ds @ map (as_double E) vs)
    (case map_of (histograms st') (hash E (makeKey name labels)) of Some h \<Rightarrow> h | None \<Rightarrow> new_histogram E)"
  using assms
proof (induction vs arbitrary: st ds)
  case (Cons v vs)
  let ?k = "hash E (makeKey name labels)"
  let ?h = "case map_of (histograms st) ?k of Some h \<Rightarrow> h | None \<Rightarrow> new_histogram E"
  let ?st1 = "st\<lparr>histograms := map_put ?k (record_value E (as_double E v) ?h) (histograms st), locked := False\<rparr>"
  have r: "recordHistogram E name v labels st = Some ((), ?st1)"
    using Cons.prems(2) by (simp add: recordHistogram_def with_lock_def Let_def)
  have "holds E (ds @ [as_double E v]) (case map_of (histograms ?st1) ?k of Some h \<Rightarrow> h | None \<Rightarrow> new_histogram E)"
    using holds_record [OF Cons.prems(4)] by (simp add: map_of_put)
  from Cons.IH [OF _ _ _ this] Cons.prems r show ?case by simp
qed simp


text \<open>The JSON export never returns: it takes the mutex and calls \<open>getSnapshot\<close>, which takes it again.\<close>

lemma exportJSON_deadlocks: "exportJSON E st = None"
  by (simp add: exportJSON_def getSnapshot_def with_lock_def)

definition example_metrics :: "(int, int) metrics_env" where
  "example_metrics = \<lparr>dadd = (+), dle = (\<le>), dzero = 0, done' = 1, dbuckets = [1, 5, 10], dshow = (\<lambda>_. []),
     from_double = id, as_double = id, is_double = (\<lambda>_. True), v_none = (\<lambda>_. False), hash = length\<rparr>"

definition no_metrics :: "('d, 'v) metrics_state" where
  "no_metrics = \<lparr>locked = False, counters = [], gauges = [], histograms = []\<rparr>"


end
