(* ===== verification/FsModule.thy ===== *)
theory FsModule
  imports FileTree
begin

text \<open>
  Models \<open>src/modules/fs/FSModule.cpp\<close>: the synchronous operations of the \<open>fs\<close> module on the disk of
  \<open>FileTree\<close>. The promise operations are in \<open>FsPromises\<close>.

  \<^item> The order in which a directory is listed, the size the system reports for a directory, the time stamps of
    files and the texts of a \<open>filesystem_error\<close> are parameters (\<open>fs_env\<close>).
  \<^item> A call with too few arguments, and a conversion of an argument that throws, are the results of
    the conversion, before the operation, and are left out.
  \<^item> \<open>FsCrash\<close> is a C++ exception that leaves a native function: nothing above catches it.
  \<^item> Data that is written and results end at the first zero byte (\<open>cstring\<close>); a path is given as the
    C string the argument is converted to. An error message is cut to the 255 bytes \<open>JS_ThrowTypeError\<close>
    formats into.
\<close>

record fs_env =
  fs_order :: "string list \<Rightarrow> string list"
  fs_mtime :: "string \<Rightarrow> int"
  fs_what :: "string \<Rightarrow> string"
  fs_what_copy :: "string \<Rightarrow> string \<Rightarrow> string"
  fs_dir_size :: "string \<Rightarrow> nat"

datatype fs_result =
    FsThrow string
  | FsCrash
  | FsUndefined
  | FsString string
  | FsBool bool
  | FsArray "string list"
  | FsStat nat bool bool int

definition cstring :: "string \<Rightarrow> string" where
  "cstring s = takeWhile (\<lambda>c. c \<noteq> CHR 0x00) s"

section \<open>Further operations on trees\<close>

text \<open>The names directly below a directory; the working directory and the root have them too.\<close>

definition dir_names :: "tree \<Rightarrow> string \<Rightarrow> string list" where
  "dir_names t d = map (\<lambda>(p, c). case str_rfind slash p of None \<Rightarrow> p | Some i \<Rightarrow> drop (Suc i) p)
     (filter (\<lambda>(p, c). dirname p = d) t)"

definition make_dir :: "string \<Rightarrow> tree \<Rightarrow> (bool \<times> tree) option" where
  "make_dir p t =
     (if is_dir t p then Some (False, t)
      else if p = [] \<or> path_exists t p \<or> \<not> is_dir t (dirname p) then None
      else Some (True, map_put p None t))"

definition unlink_file :: "string \<Rightarrow> tree \<Rightarrow> tree option" where
  "unlink_file p t = (if path_exists t p \<and> \<not> is_dir t p then Some (map_erase p t) else None)"

definition has_children :: "tree \<Rightarrow> string \<Rightarrow> bool" where
  "has_children t d \<longleftrightarrow> list_ex (\<lambda>(p, c). dirname p = d) t"

definition remove_dir :: "string \<Rightarrow> tree \<Rightarrow> tree option" where
  "remove_dir p t = (if map_of t p = Some None \<and> \<not> has_children t p then Some (map_erase p t) else None)"

definition move_tree :: "string \<Rightarrow> string \<Rightarrow> tree \<Rightarrow> tree" where
  "move_tree old new t =
     foldr (\<lambda>(p, c). map_put (new @ drop (length old) p) c) (filter (\<lambda>(p, c). below old p) t)
       (remove_all new (remove_all old t))"

text \<open>\<open>rename(2)\<close>: onto itself nothing happens; a directory replaces only an empty one and does not move
  into itself; a file replaces only a file.\<close>

definition rename_path :: "string \<Rightarrow> string \<Rightarrow> tree \<Rightarrow> tree option" where
  "rename_path old new t =
     (if map_of t old = None \<or> \<not> is_dir t (dirname new) then None
      else if old = new then Some t
      else if below old new \<or> new = [] \<or> new = [slash] \<or> new = ''.'' then None
      else if is_dir t old then
        (if path_exists t new \<and> \<not> is_dir t new \<or> has_children t new then None else Some (move_tree old new t))
      else (if is_dir t new then None else Some (move_tree old new t)))"

section \<open>The synchronous operations\<close>

definition readFileSync :: "string \<Rightarrow> tree \<Rightarrow> fs_result" where
  "readFileSync path t =
     (if \<not> path_exists t path then FsThrow ''Cannot open file''
      else FsString (case read_tree t path of Some c \<Rightarrow> cstring c | None \<Rightarrow> []))"

definition writeFileSync :: "string \<Rightarrow> string \<Rightarrow> tree \<Rightarrow> fs_result \<times> tree" where
  "writeFileSync path data t = (case write_tree path (cstring data) t of
     None \<Rightarrow> (FsThrow ''Cannot open file for writing'', t) | Some u \<Rightarrow> (FsUndefined, u))"

definition readdirSync :: "fs_env \<Rightarrow> string \<Rightarrow> tree \<Rightarrow> fs_result" where
  "readdirSync E path t =
     (if is_dir t path then FsArray (fs_order E (dir_names t path)) else FsThrow (take 255 (''Cannot read directory: '' @ fs_what E path)))"

text \<open>\<open>create_directories\<close> and \<open>create_directory\<close> return whether they made the directory, and throw.\<close>

definition mkdirSync :: "string \<Rightarrow> bool \<Rightarrow> tree \<Rightarrow> fs_result \<times> tree" where
  "mkdirSync path recursive t =
     (if recursive then
        (case create_directories path t of
           Inl e \<Rightarrow> (FsCrash, t)
         | Inr u \<Rightarrow> (if is_dir t path then FsThrow ''Cannot create directory'' else FsUndefined, u))
      else
        (case make_dir path t of
           None \<Rightarrow> (FsCrash, t)
         | Some (made, u) \<Rightarrow> (if made then FsUndefined else FsThrow ''Cannot create directory'', u)))"

definition statSync :: "fs_env \<Rightarrow> string \<Rightarrow> tree \<Rightarrow> fs_result" where
  "statSync E path t =
     (if \<not> path_exists t path then FsThrow ''Cannot stat file''
      else FsStat (case read_tree t path of Some c \<Rightarrow> length c | None \<Rightarrow> fs_dir_size E path) (\<not> is_dir t path) (is_dir t path)
        (fs_mtime E path * 1000))"

definition unlinkSync :: "string \<Rightarrow> tree \<Rightarrow> fs_result \<times> tree" where
  "unlinkSync path t = (case unlink_file path t of
     None \<Rightarrow> (FsThrow ''Cannot unlink file'', t) | Some u \<Rightarrow> (FsUndefined, u))"

definition rmdirSync :: "string \<Rightarrow> tree \<Rightarrow> fs_result \<times> tree" where
  "rmdirSync path t = (case remove_dir path t of
     None \<Rightarrow> (FsThrow ''Cannot remove directory'', t) | Some u \<Rightarrow> (FsUndefined, u))"

definition renameSync :: "string \<Rightarrow> string \<Rightarrow> tree \<Rightarrow> fs_result \<times> tree" where
  "renameSync old new t = (case rename_path old new t of
     None \<Rightarrow> (FsThrow ''Cannot rename file'', t) | Some u \<Rightarrow> (FsUndefined, u))"

definition copyFileSync :: "fs_env \<Rightarrow> string \<Rightarrow> string \<Rightarrow> tree \<Rightarrow> fs_result \<times> tree" where
  "copyFileSync E src dest t =
     (case (if src = dest then None else case read_tree t src of None \<Rightarrow> None | Some c \<Rightarrow> write_tree dest c t) of
        None \<Rightarrow> (FsThrow (take 255 (''Cannot copy file: '' @ fs_what_copy E src dest)), t) | Some u \<Rightarrow> (FsUndefined, u))"

datatype fs_call =
    ReadFile string | WriteFile string string | Readdir string | Mkdir string bool | Stat string | Unlink string
  | Rmdir string | Rename string string | CopyFile string string

fun fs_do :: "fs_env \<Rightarrow> fs_call \<Rightarrow> tree \<Rightarrow> fs_result \<times> tree" where
  "fs_do E (ReadFile p) t = (readFileSync p t, t)"
| "fs_do E (WriteFile p d) t = writeFileSync p d t"
| "fs_do E (Readdir p) t = (readdirSync E p t, t)"
| "fs_do E (Mkdir p r) t = mkdirSync p r t"
| "fs_do E (Stat p) t = (statSync E p t, t)"
| "fs_do E (Unlink p) t = unlinkSync p t"
| "fs_do E (Rmdir p) t = rmdirSync p t"
| "fs_do E (Rename p q) t = renameSync p q t"
| "fs_do E (CopyFile p q) t = copyFileSync E p q t"

section \<open>The disk stays a tree\<close>

definition entry_ok :: "tree \<Rightarrow> string \<Rightarrow> bool" where
  "entry_ok t p \<longleftrightarrow> p \<noteq> [] \<and> p \<noteq> [slash] \<and> p \<noteq> ''.'' \<and> is_dir t (dirname p)"

definition tree_ok :: "tree \<Rightarrow> bool" where
  "tree_ok t \<longleftrightarrow> map_ok t \<and> (\<forall>p. map_of t p \<noteq> None \<longrightarrow> entry_ok t p)"

lemma tree_okD: "tree_ok t \<Longrightarrow> map_of t p = Some c \<Longrightarrow> entry_ok t p"
  by (simp add: tree_ok_def)

lemma dirname_shorter: "p \<noteq> [slash] \<Longrightarrow> p \<noteq> ''.'' \<Longrightarrow> dirname p \<noteq> p"
proof (cases "str_rfind slash p")
  case (Some i)
  assume "p \<noteq> [slash]"
  moreover have "length (take i p) < length p" using str_rfind_less [OF Some] by simp
  then have "take i p \<noteq> p" by (metis less_irrefl)
  ultimately show ?thesis using Some by (auto simp: dirname_def)
qed (auto simp: dirname_def)

text \<open>Adding an entry below a directory, in place of no directory.\<close>

lemma tree_ok_put:
  assumes "tree_ok t" and "is_dir t (dirname p)" and "p \<noteq> []" and "p \<noteq> [slash]" and "p \<noteq> ''.''" and "\<not> is_dir t p \<or> c = None"
  shows "tree_ok (map_put p c t)"
proof -
  have d: "is_dir (map_put p c t) q" if "is_dir t q" for q
    using that assms(6) by (auto simp: is_dir_def map_of_put)
  show ?thesis
    using assms(1) d [OF assms(2)] assms(3,4,5) d
    by (auto simp: tree_ok_def entry_ok_def map_of_put)
qed

lemma tree_ok_write: "tree_ok t \<Longrightarrow> write_tree p c t = Some u \<Longrightarrow> tree_ok u"
  by (auto simp: write_tree_def is_dir_def [of t p] intro!: tree_ok_put split: if_splits)

lemma tree_ok_make_dir: "tree_ok t \<Longrightarrow> make_dir p t = Some (b, u) \<Longrightarrow> tree_ok u"
  by (auto simp: make_dir_def path_exists_def intro!: tree_ok_put split: if_splits)

text \<open>Removing an entry that has nothing below it.\<close>

lemma tree_ok_erase:
  assumes "tree_ok t" and "\<And>q c. map_of t q = Some c \<Longrightarrow> dirname q \<noteq> p"
  shows "tree_ok (map_erase p t)"
proof -
  have m: "map_ok t" using assms(1) by (simp add: tree_ok_def)
  show ?thesis
    using assms m by (auto simp: tree_ok_def entry_ok_def map_of_erase is_dir_def)
qed

lemma no_children: "tree_ok t \<Longrightarrow> \<not> is_dir t p \<Longrightarrow> map_of t q = Some c \<Longrightarrow> dirname q \<noteq> p"
  using tree_okD by (auto simp: entry_ok_def)

lemma has_children_iff: "has_children t d \<longleftrightarrow> (\<exists>q c. map_of t q = Some c \<and> dirname q = d)"
proof
  assume "has_children t d"
  then obtain q c where "(q, c) \<in> set t" "dirname q = d" by (auto simp: has_children_def list_ex_iff)
  moreover from this(1) have "map_of t q \<noteq> None" unfolding map_of_eq_None_iff by force
  ultimately show "\<exists>q c. map_of t q = Some c \<and> dirname q = d" by auto
qed (auto simp: has_children_def list_ex_iff dest!: map_of_SomeD)

lemma tree_ok_unlink: "tree_ok t \<Longrightarrow> unlink_file p t = Some u \<Longrightarrow> tree_ok u"
  by (auto simp: unlink_file_def intro!: tree_ok_erase dest: no_children split: if_splits)

lemma tree_ok_remove_dir:
  assumes "tree_ok t" and "remove_dir p t = Some u"
  shows "tree_ok u"
proof -
  have "u = map_erase p t" "\<not> has_children t p" using assms(2) by (auto simp: remove_dir_def split: if_splits)
  moreover from this(2) have "dirname q \<noteq> p" if "map_of t q = Some c" for q c
    using that has_children_iff by blast
  ultimately show ?thesis using tree_ok_erase [OF assms(1)] by simp
qed

text \<open>A parent directory is a prefix of the path, up to a slash.\<close>

lemma dirname_cases:
  obtains "dirname q = [slash]" | "dirname q = ''.''" | n where "q = dirname q @ slash # n" "dirname q \<noteq> []"
proof (cases "str_rfind slash q")
  case None
  then show ?thesis using that by (simp add: dirname_def)
next
  case (Some i)
  show ?thesis
  proof (cases "i = 0")
    case False
    have i: "i < length q" "q ! i = slash" using Some str_rfind_less str_rfind_nth by blast+
    then have "q = take i q @ slash # drop (Suc i) q" by (metis id_take_nth_drop)
    moreover have "take i q \<noteq> []" using False i by auto
    ultimately show ?thesis using that(3) [of "drop (Suc i) q"] Some False by (simp add: dirname_def)
  qed (use Some that in \<open>simp add: dirname_def\<close>)
qed

lemma below_append: "below d (d @ slash # s)"
  by (simp add: below_def starts_with_iff)

lemma below_iff: "below d q \<longleftrightarrow> (\<exists>s. q = d @ s \<and> (s = [] \<or> (\<exists>r. s = slash # r)))"
  by (auto simp: below_def starts_with_iff)

lemma below_dirname:
  assumes "below d (dirname q)" and "dirname q \<noteq> [slash]" and "dirname q \<noteq> ''.''"
  shows "below d q"
proof -
  obtain n where "q = dirname q @ slash # n" using assms(2,3) by (cases rule: dirname_cases [of q]) auto
  with assms(1) show ?thesis unfolding below_iff by (metis append.assoc append_Cons append_Nil)
qed

lemma dirname_suffix: "\<exists>i \<le> length s. \<forall>x. x \<noteq> [] \<longrightarrow> dirname (x @ slash # s) = x @ take i (slash # s)"
proof -
  obtain i where i: "str_rfind slash (slash # s) = Some i"
    by (cases "str_rfind slash (slash # s)") (auto split: option.splits)
  then have "i \<le> length s" using str_rfind_less by fastforce
  moreover have "str_rfind slash (x @ slash # s) = Some (length x + i)" for x
    using i by (induction x) auto
  ultimately show ?thesis by (auto simp: dirname_def intro!: exI [of _ i])
qed

section \<open>Making directories\<close>

lemma make_dirs_tree_ok:
  assumes "tree_ok t" and "make_dirs ds t = Inr u" and "[] \<notin> set ds"
    and "\<And>as d bs. ds = as @ d # bs \<Longrightarrow> is_dir t (dirname d) \<or> dirname d \<in> set as"
  shows "tree_ok u"
  using assms
proof (induction ds arbitrary: t)
  case (Cons d ds)
  have dir: "is_dir t (dirname d)" using Cons.prems(4) [of "[]" d ds] by simp
  define t1 where "t1 = (if is_dir t d then t else map_put d None t)"
  have m: "make_dirs ds t1 = Inr u" using Cons.prems(2) by (auto simp: t1_def split: if_splits)
  have "tree_ok t1"
    using Cons.prems(1,3) dir by (auto simp: t1_def is_dir_def [of t d] intro: tree_ok_put)
  moreover have "is_dir t1 (dirname e) \<or> dirname e \<in> set as" if "ds = as @ e # bs" for as e bs
    using Cons.prems(4) [of "d # as" e bs] that by (auto simp: t1_def is_dir_def map_of_put)
  ultimately show ?case using Cons.IH [OF _ m] Cons.prems(3) by auto
qed simp

lemma path_prefixes_before:
  assumes "path_prefixes p = as @ d # bs" and "p \<noteq> []"
  shows "d \<noteq> []" and "dirname d = [slash] \<or> dirname d = ''.'' \<or> dirname d \<in> set as"
proof -
  let ?P = "\<lambda>i. p ! i = slash"
  let ?xs = "filter ?P [1..<length p]"
  have pp: "path_prefixes p = map (\<lambda>i. take i p) ?xs @ [p]" by (simp add: path_prefixes_def)
  obtain k where k: "d = take k p" "0 < k" "k \<le> length p" "\<forall>j. 0 < j \<longrightarrow> j < k \<longrightarrow> p ! j = slash \<longrightarrow> take j p \<in> set as"
  proof (cases bs rule: rev_cases)
    case Nil
    then have "d = p" "as = map (\<lambda>i. take i p) ?xs" using assms(1) pp by auto
    then show ?thesis using that [of "length p"] assms(2) by auto
  next
    case (snoc bs' b)
    then have "map (\<lambda>i. take i p) ?xs = as @ d # bs'" using assms(1) pp by auto
    then obtain ys i zs where x: "?xs = ys @ i # zs" "as = map (\<lambda>i. take i p) ys" "d = take i p"
      by (auto simp: map_eq_append_conv map_eq_Cons_conv)
    have i: "0 < i" "i < length p" using x(1) by (metis in_set_conv_decomp set_filter mem_Collect_eq atLeastLessThan_iff set_upt less_le_trans zero_less_one)+
    have "sorted_wrt (<) (ys @ i # zs)" unfolding x(1) [symmetric] by (simp add: sorted_wrt_filter)
    then have "\<forall>j \<in> set zs. i < j" by (simp add: sorted_wrt_append)
    moreover have "j \<in> set (ys @ i # zs)" if "0 < j" "j < i" "p ! j = slash" for j
      unfolding x(1) [symmetric] using that i by auto
    ultimately have "j \<in> set ys" if "0 < j" "j < i" "p ! j = slash" for j
      using that by (metis Un_iff not_less_iff_gr_or_eq set_ConsD set_append)
    then show ?thesis using that [of i] x i by auto
  qed
  show "d \<noteq> []" using k assms(2) by auto
  show "dirname d = [slash] \<or> dirname d = ''.'' \<or> dirname d \<in> set as"
  proof (cases rule: dirname_cases [of d])
    case (3 n)
    let ?j = "length (dirname d)"
    have "length d = ?j + Suc (length n)" "d ! ?j = slash" "take ?j d = dirname d"
      using arg_cong [OF 3(1), of length] arg_cong [OF 3(1), of "\<lambda>z. z ! ?j"] arg_cong [OF 3(1), of "take ?j"] by simp_all
    then have j: "0 < ?j" "?j < k" "d ! ?j = slash" "dirname d = take ?j d" using 3(2) k by auto
    then have "take ?j p \<in> set as" using k by auto
    moreover have "take ?j p = dirname d" using j k by (metis min.absorb1 less_imp_le_nat take_take)
    ultimately show ?thesis by simp
  qed simp_all
qed

lemma tree_ok_create:
  assumes "tree_ok t" and "create_directories p t = Inr u"
  shows "tree_ok u"
proof -
  have p: "p \<noteq> []" "make_dirs (path_prefixes p) t = Inr u" using assms(2) by (auto simp: create_directories_def split: if_splits)
  have "[] \<notin> set (path_prefixes p)" using path_prefixes_before(1) [OF _ p(1)] by (metis in_set_conv_decomp)
  then show ?thesis
    using make_dirs_tree_ok [OF assms(1) p(2)] path_prefixes_before(2) [OF _ p(1)] by (metis is_dir_def)
qed

section \<open>Moving a subtree\<close>

lemma map_ok_foldr_put: "map_ok m \<Longrightarrow> map_ok (foldr (\<lambda>(p, c). map_put (f p) c) xs m)"
  by (induction xs) auto

lemma map_ok_filter: "map_ok t \<Longrightarrow> map_ok (filter P t)"
  by (induction t) (auto simp: map_ok_Cons)

lemma map_of_moved:
  assumes "\<forall>(p, c) \<in> set xs. below old p"
  shows "map_of (foldr (\<lambda>(p, c). map_put (new @ drop (length old) p) c) xs m) q =
    (if \<exists>s. q = new @ s \<and> map_of xs (old @ s) \<noteq> None then map_of xs (old @ drop (length new) q) else map_of m q)"
  using assms
proof (induction xs)
  case (Cons x xs)
  obtain s c where x: "x = (old @ s, c)" using Cons.prems by (cases x) (auto simp: below_iff)
  show ?case using Cons by (auto simp: x map_of_put)
qed simp

lemma map_of_move_tree:
  "map_of (move_tree old new t) q =
    (if below new q then map_of t (old @ drop (length new) q) else if below old q then None else map_of t q)"
proof -
  let ?xs = "filter (\<lambda>(p, c). below old p) t"
  have xs: "map_of ?xs p = (if below old p then map_of t p else None)" for p by (rule map_of_filter_keys)
  let ?m = "remove_all new (remove_all old t)"
  have all: "\<forall>(p, c) \<in> set ?xs. below old p" by auto
  have m: "map_of ?m q = (if below new q \<or> below old q then None else map_of t q)"
    by (simp add: map_of_remove_all)
  show ?thesis
  proof (cases "\<exists>s. q = new @ s \<and> map_of ?xs (old @ s) \<noteq> None")
    case True
    then obtain s where s: "q = new @ s" "map_of ?xs (old @ s) \<noteq> None" by blast
    then have b: "below old (old @ s)" by (auto simp: xs split: if_splits)
    then have "below new q" using s(1) by (auto simp: below_iff)
    with True s b show ?thesis unfolding move_tree_def map_of_moved [OF all] by (simp add: xs)
  next
    case False
    have "map_of t (old @ drop (length new) q) = None" if in_new: "below new q"
    proof -
      obtain s where s: "q = new @ s" "s = [] \<or> (\<exists>r. s = slash # r)" using in_new unfolding below_iff by blast
      have "below old (old @ s)" unfolding below_iff using s(2) by blast
      with False s(1) show ?thesis by (auto simp: xs)
    qed
    then show ?thesis unfolding move_tree_def map_of_moved [OF all] if_not_P [OF False] by (simp add: m)
  qed
qed

lemma tree_ok_move:
  assumes "tree_ok t" and "map_of t old \<noteq> None" and "is_dir t (dirname new)" and "\<not> below old new"
    and "new \<noteq> []" and "new \<noteq> [slash]" and "new \<noteq> ''.''"
  shows "tree_ok (move_tree old new t)"
proof -
  let ?r = "move_tree old new t"
  have old: "entry_ok t old" using assms(1,2) by (auto simp: tree_ok_def)
  have keep: "is_dir ?r (dirname q)" if "is_dir t (dirname q)" "\<not> below new q" "\<not> below old q" for q
    using that below_dirname [of new q] below_dirname [of old q] by (auto simp: is_dir_def map_of_move_tree)
  have new: "is_dir ?r (dirname new)"
  proof (cases "dirname new = [slash] \<or> dirname new = ''.''")
    case False
    have "\<not> below new (dirname new)"
      using False dirname_shorter [OF assms(6,7)] by (cases rule: dirname_cases [of new]) (auto simp: below_iff)
    moreover have "\<not> below old (dirname new)" using below_dirname assms(4) False by blast
    ultimately show ?thesis using assms(3) by (simp add: is_dir_def map_of_move_tree)
  qed (auto simp: is_dir_def)
  have "entry_ok ?r q" if q: "map_of ?r q \<noteq> None" for q
  proof (cases "below new q")
    case True
    then consider "q = new" | s where "q = new @ slash # s" by (auto simp: below_iff)
    then show ?thesis
    proof cases
      case 1
      then show ?thesis using new assms by (simp add: entry_ok_def)
    next
      case 2
      have "map_of t (old @ slash # s) \<noteq> None" using q True 2 by (simp add: map_of_move_tree)
      then have e: "entry_ok t (old @ slash # s)" using assms(1) by (simp add: tree_ok_def)
      obtain i where i: "\<forall>x. x \<noteq> [] \<longrightarrow> dirname (x @ slash # s) = x @ take i (slash # s)"
        using dirname_suffix by blast
      have "old \<noteq> []" using old by (simp add: entry_ok_def)
      then have d: "is_dir t (old @ take i (slash # s))" using e i by (simp add: entry_ok_def)
      have "old @ take i (slash # s) \<noteq> [slash]" "old @ take i (slash # s) \<noteq> ''.''"
        using old by (auto simp: entry_ok_def append_eq_Cons_conv)
      then have "map_of t (old @ take i (slash # s)) = Some None" using d by (simp add: is_dir_def)
      moreover have "below new (new @ take i (slash # s))" by (cases i) (auto simp: below_iff)
      ultimately have "is_dir ?r (new @ take i (slash # s))" by (simp add: is_dir_def map_of_move_tree)
      then show ?thesis using 2 i assms(5,6,7) by (auto simp: entry_ok_def append_eq_Cons_conv)
    qed
  next
    case False
    then have "map_of t q \<noteq> None" "\<not> below old q" using q by (auto simp: map_of_move_tree split: if_splits)
    moreover from this(1) have "entry_ok t q" using assms(1) by (simp add: tree_ok_def)
    ultimately show ?thesis using keep [of q] False by (simp add: entry_ok_def)
  qed
  moreover have "map_ok ?r"
    using assms(1) by (auto simp: move_tree_def remove_all_def tree_ok_def intro!: map_ok_foldr_put map_ok_filter)
  ultimately show ?thesis by (simp add: tree_ok_def)
qed

lemma tree_ok_rename: "tree_ok t \<Longrightarrow> rename_path old new t = Some u \<Longrightarrow> tree_ok u"
  by (auto simp: rename_path_def intro!: tree_ok_move split: if_splits)



end
