(* ===== verification/FsPromises.thy ===== *)
theory FsPromises
  imports FsModule Fifo
begin

text \<open>
  Models the promise operations of \<open>src/modules/fs/FSModule.cpp\<close>, and \<open>src/modules/IOModule.cpp\<close>, whose
  asynchronous operations are the same code. Each submits a task to the I/O pool, queues a callback that
  waits for the task's future, and returns a new object. The synchronous operations of \<open>io\<close> submit the
  same tasks and wait for them at once, without the queue.

  \<^item> \<open>fs_step\<close> runs the tasks in any order, as the threads of the pool may, and the callbacks in the
    order of the queue, each once its future is ready: until then the main thread is blocked. A task
    is one step.
  \<^item> The callback hands the result, or the text of the exception, to \<open>resolve\<close>, a native function
    that returns \<open>undefined\<close>. No code connects it with the returned object. \<open>passed\<close> is the history
    of the values handed over.
  \<^item> An object is the list of its own properties.
\<close>

datatype fs_task = TReadFile string | TWriteFile string string | TReaddir string | TMkdir string | TStat string

record fs_async =
  disk :: tree
  tasks :: "(nat \<times> fs_task) list"
  outcomes :: "(nat \<times> (string + fs_result)) list"
  callbacks :: "nat list"
  passed :: "(nat \<times> fs_result) list"
  objects :: "(string \<times> fs_result) list list"
  calls :: nat

section \<open>The tasks\<close>

definition readFile_task :: "string \<Rightarrow> tree \<Rightarrow> string + fs_result" where
  "readFile_task path t =
     (if \<not> path_exists t path then Inl (''Could not open file: '' @ path)
      else Inr (FsString (case read_tree t path of Some c \<Rightarrow> cstring c | None \<Rightarrow> [])))"

definition writeFile_task :: "string \<Rightarrow> string \<Rightarrow> tree \<Rightarrow> (string + fs_result) \<times> tree" where
  "writeFile_task path data t = (case write_tree path (cstring data) t of
     None \<Rightarrow> (Inl (''Could not open file for writing: '' @ path), t) | Some u \<Rightarrow> (Inr (FsBool True), u))"

definition readdir_task :: "fs_env \<Rightarrow> string \<Rightarrow> tree \<Rightarrow> string + fs_result" where
  "readdir_task E path t =
     (if is_dir t path then Inr (FsArray (fs_order E (dir_names t path))) else Inl (fs_what E path))"

definition mkdir_task :: "string \<Rightarrow> tree \<Rightarrow> (string + fs_result) \<times> tree" where
  "mkdir_task path t = (case create_directories path t of
     Inl e \<Rightarrow> (Inr (FsBool False), t) | Inr u \<Rightarrow> (Inr (FsBool True), u))"

definition stat_task :: "fs_env \<Rightarrow> string \<Rightarrow> tree \<Rightarrow> string + fs_result" where
  "stat_task E path t =
     (if \<not> path_exists t path then Inl ''Cannot stat file''
      else Inr (FsStat (case read_tree t path of Some c \<Rightarrow> length c | None \<Rightarrow> fs_dir_size E path) (\<not> is_dir t path) (is_dir t path)
        (fs_mtime E path * 1000)))"

fun run_task :: "fs_env \<Rightarrow> fs_task \<Rightarrow> tree \<Rightarrow> (string + fs_result) \<times> tree" where
  "run_task E (TReadFile p) t = (readFile_task p t, t)"
| "run_task E (TWriteFile p d) t = writeFile_task p d t"
| "run_task E (TReaddir p) t = (readdir_task E p t, t)"
| "run_task E (TMkdir p) t = mkdir_task p t"
| "run_task E (TStat p) t = (stat_task E p t, t)"

section \<open>The promise operations\<close>

definition promises_call :: "fs_task \<Rightarrow> fs_async \<Rightarrow> nat \<times> fs_async" where
  "promises_call k s =
     (calls s, s\<lparr>tasks := tasks s @ [(calls s, k)], objects := objects s @ [[]],
        callbacks := callbacks s @ [calls s], calls := Suc (calls s)\<rparr>)"

definition promisesReadFile :: "string \<Rightarrow> fs_async \<Rightarrow> nat \<times> fs_async" where
  "promisesReadFile path = promises_call (TReadFile path)"

definition promisesWriteFile :: "string \<Rightarrow> string \<Rightarrow> fs_async \<Rightarrow> nat \<times> fs_async" where
  "promisesWriteFile path data = promises_call (TWriteFile path data)"

definition promisesReaddir :: "string \<Rightarrow> fs_async \<Rightarrow> nat \<times> fs_async" where
  "promisesReaddir path = promises_call (TReaddir path)"

definition promisesMkdir :: "string \<Rightarrow> fs_async \<Rightarrow> nat \<times> fs_async" where
  "promisesMkdir path = promises_call (TMkdir path)"

definition promisesStat :: "string \<Rightarrow> fs_async \<Rightarrow> nat \<times> fs_async" where
  "promisesStat path = promises_call (TStat path)"

text \<open>The module \<open>io\<close>. An error message is cut to the 255 bytes \<open>JS_ThrowTypeError\<close> formats into.\<close>

definition io_result :: "string \<Rightarrow> string + fs_result \<Rightarrow> fs_result" where
  "io_result name r = (case r of Inl e \<Rightarrow> FsThrow (take 255 (name @ '' error: '' @ e)) | Inr v \<Rightarrow> v)"

definition io_readFile :: "string \<Rightarrow> fs_async \<Rightarrow> fs_result \<times> fs_async" where
  "io_readFile path s = (io_result ''readFile'' (readFile_task path (disk s)), s)"

definition io_writeFile :: "string \<Rightarrow> string \<Rightarrow> fs_async \<Rightarrow> fs_result \<times> fs_async" where
  "io_writeFile path data s =
     (let (r, u) = writeFile_task path data (disk s) in (io_result ''writeFile'' r, s\<lparr>disk := u\<rparr>))"

definition io_readFileAsync :: "string \<Rightarrow> fs_async \<Rightarrow> nat \<times> fs_async" where
  "io_readFileAsync path = promises_call (TReadFile path)"

definition io_writeFileAsync :: "string \<Rightarrow> string \<Rightarrow> fs_async \<Rightarrow> nat \<times> fs_async" where
  "io_writeFileAsync path data = promises_call (TWriteFile path data)"

text \<open>The native function \<open>resolve\<close>: its result is \<open>undefined\<close> and it changes no object.\<close>

definition promise_resolve :: "fs_result \<Rightarrow> (string \<times> fs_result) list list \<Rightarrow> fs_result \<times> (string \<times> fs_result) list list" where
  "promise_resolve v objs = (FsUndefined, objs)"

definition run_callback :: "nat \<Rightarrow> string + fs_result \<Rightarrow> fs_async \<Rightarrow> fs_async" where
  "run_callback i r s =
     (let v = (case r of Inl e \<Rightarrow> FsString (cstring e) | Inr v \<Rightarrow> v)
      in s\<lparr>passed := passed s @ [(i, v)], objects := snd (promise_resolve v (objects s))\<rparr>)"

definition fs_start :: "tree \<Rightarrow> fs_async" where
  "fs_start t = \<lparr>disk = t, tasks = [], outcomes = [], callbacks = [], passed = [], objects = [], calls = 0\<rparr>"

inductive fs_step :: "fs_env \<Rightarrow> fs_async \<Rightarrow> fs_async \<Rightarrow> bool" for E :: fs_env where
  read_file: "fs_step E s (snd (promisesReadFile p s))"
| write_file: "fs_step E s (snd (promisesWriteFile p d s))"
| read_dir: "fs_step E s (snd (promisesReaddir p s))"
| make_directory: "fs_step E s (snd (promisesMkdir p s))"
| stat_path: "fs_step E s (snd (promisesStat p s))"
| io_read: "fs_step E s (snd (io_readFile p s))"
| io_write: "fs_step E s (snd (io_writeFile p d s))"
| io_read_async: "fs_step E s (snd (io_readFileAsync p s))"
| io_write_async: "fs_step E s (snd (io_writeFileAsync p d s))"
| sync: "fs_step E s (s\<lparr>disk := snd (fs_do E c (disk s))\<rparr>)"
| task: "(i, k) \<in> set (tasks s) \<Longrightarrow> run_task E k (disk s) = (r, u) \<Longrightarrow>
    fs_step E s (s\<lparr>disk := u, tasks := remove1 (i, k) (tasks s), outcomes := (i, r) # outcomes s\<rparr>)"
| callback: "callbacks s = i # is \<Longrightarrow> map_of (outcomes s) i = Some r \<Longrightarrow>
    fs_step E s (run_callback i r (s\<lparr>callbacks := is\<rparr>))"

section \<open>Order and progress\<close>

text \<open>What \<open>io.writeFile\<close> writes, up to a zero byte, \<open>io.readFile\<close> reads back.\<close>

lemma io_write_read:
  "io_writeFile p d s = (FsBool True, t) \<Longrightarrow> io_readFile p t = (FsString (cstring d), t)"
  by (auto simp: io_writeFile_def io_readFile_def writeFile_task_def readFile_task_def write_tree_def io_result_def
      path_exists_def read_tree_def map_of_put cstring_def takeWhile_idem split: if_splits)

definition fs_inv :: "fs_async \<Rightarrow> bool" where
  "fs_inv s \<longleftrightarrow> [0..<calls s] = map fst (passed s) @ callbacks s
     \<and> objects s = replicate (calls s) []
     \<and> set (callbacks s) \<subseteq> fst ` set (tasks s) \<union> fst ` set (outcomes s)"

lemmas promise_operation_defs = promisesReadFile_def promisesWriteFile_def promisesReaddir_def
  promisesMkdir_def promisesStat_def io_readFileAsync_def io_writeFileAsync_def io_readFile_def io_writeFile_def

lemma fs_inv_call: "fs_inv s \<Longrightarrow> fs_inv (snd (promises_call k s))"
  by (auto simp: fs_inv_def promises_call_def replicate_append_same)

lemma fs_inv_task: "fs_inv s \<Longrightarrow>
    fs_inv (s\<lparr>disk := u, tasks := remove1 (i, k) (tasks s), outcomes := (i, r) # outcomes s\<rparr>)"
  by (auto simp: fs_inv_def image_iff in_set_remove1 subset_iff) (metis fst_conv in_set_remove1)+

lemma fs_step_inv: "fs_step E s t \<Longrightarrow> fs_inv s \<Longrightarrow> fs_inv t"
proof (induction rule: fs_step.induct)
  case (task i k s r u)
  then show ?case by (simp add: fs_inv_task)
next
  case (callback s i "is" r)
  then show ?case by (auto simp: fs_inv_def run_callback_def promise_resolve_def)
next
  case (io_write s p d)
  then show ?case by (simp add: io_writeFile_def fs_inv_def split: prod.splits)
qed (simp_all add: promise_operation_defs fs_inv_call, simp add: fs_inv_def)

lemma fs_steps_inv: "(fs_step E)\<^sup>*\<^sup>* s t \<Longrightarrow> fs_inv s \<Longrightarrow> fs_inv t"
  by (induction rule: rtranclp_induct) (auto intro: fs_step_inv)

lemma fs_inv_start: "fs_inv (fs_start t)"
  by (simp add: fs_inv_def fs_start_def)

interpretation fs_fifo: fifo_service "\<lambda>s. s = fs_start t" "fs_step E" fs_inv
  "\<lambda>s. [0..<calls s]" "\<lambda>s. map fst (passed s)" callbacks
  for E t
  by unfold_locales (auto simp: fs_inv_start intro: fs_step_inv, simp add: fs_inv_def)

text \<open>The first callback in the queue can always be reached: its task runs if it has not.\<close>

lemma first_callback_runs:
  assumes "fs_inv s" and "callbacks s = i # is"
  shows "\<exists>u. (fs_step E)\<^sup>*\<^sup>* s u \<and> calls u = calls s \<and> callbacks u = is"
proof -
  have *: "\<exists>u. (fs_step E)\<^sup>*\<^sup>* t u \<and> calls u = calls t \<and> callbacks u = is"
    if "callbacks t = i # is" and "map_of (outcomes t) i = Some r" for t r
    using fs_step.callback [OF that, of E]
    by (intro exI [of _ "run_callback i r (t\<lparr>callbacks := is\<rparr>)"]) (auto simp: run_callback_def Let_def)
  show ?thesis
  proof (cases "map_of (outcomes s) i")
    case None
    then obtain k where k: "(i, k) \<in> set (tasks s)"
      using assms by (force simp: fs_inv_def map_of_eq_None_iff)
    obtain r u where r: "run_task E k (disk s) = (r, u)" by force
    let ?t = "s\<lparr>disk := u, tasks := remove1 (i, k) (tasks s), outcomes := (i, r) # outcomes s\<rparr>"
    have "fs_step E s ?t" by (rule fs_step.task [OF k r])
    moreover obtain v where "(fs_step E)\<^sup>*\<^sup>* ?t v" "calls v = calls ?t" "callbacks v = is"
      using * [of ?t r] assms(2) by auto
    ultimately show ?thesis
      by (intro exI [of _ v]) (auto intro: converse_rtranclp_into_rtranclp)
  qed (use * assms(2) in blast)
qed

lemma callbacks_drain:
  "fs_inv s \<Longrightarrow> \<exists>u. (fs_step E)\<^sup>*\<^sup>* s u \<and> fs_inv u \<and> calls u = calls s \<and> callbacks u = []"
proof (induction "callbacks s" arbitrary: s)
  case (Cons i "is")
  then obtain t where t: "(fs_step E)\<^sup>*\<^sup>* s t" "calls t = calls s" "callbacks t = is"
    by (metis first_callback_runs)
  from t(1) Cons.prems have "fs_inv t" by (rule fs_steps_inv)
  then show ?case using Cons.hyps(1) [of t] t by (metis rtranclp_trans)
qed auto

text \<open>C25: Whatever order the pool runs the tasks in, results are handed over in the order of the calls,
  every call can be completed, and when it has been, the object it returned still has no property:
  no promise of this module settles.\<close>

theorem promises_complete_in_order:
  assumes "(fs_step E)\<^sup>*\<^sup>* (fs_start t) s"
  shows "prefix (map fst (passed s)) [0..<calls s]
    \<and> (\<exists>u. (fs_step E)\<^sup>*\<^sup>* s u \<and> map fst (passed u) = [0..<calls s] \<and> objects u = replicate (calls s) [])"
proof -
  have "fs_inv s" by (rule fs_fifo.reachable_inv [OF assms refl])
  from callbacks_drain [OF this] obtain u where "(fs_step E)\<^sup>*\<^sup>* s u" "fs_inv u" "calls u = calls s" "callbacks u = []"
    by blast
  then show ?thesis using fs_fifo.in_order [OF assms refl] by (auto simp: fs_inv_def)
qed

definition plain_env :: fs_env where
  "plain_env = \<lparr>fs_order = id, fs_mtime = \<lambda>p. 0, fs_what = id, fs_what_copy = (@), fs_dir_size = \<lambda>p. 4096\<rparr>"

lemma promises_complete_in_order_witness:
  "\<exists>u. (fs_step plain_env)\<^sup>*\<^sup>* (snd (promisesMkdir ''a'' (fs_start []))) u \<and> map fst (passed u) = [0] \<and> objects u = [[]]"
proof -
  have "(fs_step plain_env)\<^sup>*\<^sup>* (fs_start []) (snd (promisesMkdir ''a'' (fs_start [])))"
    by (rule r_into_rtranclp) (rule fs_step.make_directory)
  from promises_complete_in_order [OF this] show ?thesis
    by (simp add: promisesMkdir_def promises_call_def fs_start_def)
qed

end
