(* ===== verification/Http.thy ===== *)
theory Http
  imports Semver
begin

text \<open>
  Models \<open>src/modules/http/HTTPModule.cpp\<close>: the server, its thread, the parsing of a request, the
  response object, and the client request, which does nothing.

  \<^item> The results of \<open>socket\<close>, \<open>bind\<close>, \<open>listen\<close>, \<open>accept\<close> and \<open>read\<close> are arguments. \<open>sent\<close> and \<open>closed\<close>
    are the histories of the calls of \<open>write\<close> and \<open>close\<close> on descriptors.
  \<^item> \<open>JS_NewContext\<close> succeeds in the server thread.
  \<^item> QuickJS keeps the prototypes of classes for each context: \<open>JS_SetClassProto\<close> sets one in one
    context, \<open>JS_NewContext\<close> starts without those of classes of the program. A call \<open>res.m(...)\<close> on an
    object whose prototype lacks \<open>m\<close> throws. A request listener is the list of its calls on the
    response, up to the first that throws, and whether it keeps the response object.
  \<^item> The emitters of the server, the request and the response are left out: the code makes them only
    where the global object has an \<open>EventEmitter\<close>, and no part of the program gives it one.
\<close>

section \<open>Requests\<close>

definition carriage :: char where
  "carriage = CHR 0x0D"

definition eol :: string where
  "eol = [carriage, newline]"

text \<open>\<open>iss >> word\<close>, and what is left to read.\<close>

definition read_word :: "string \<Rightarrow> string \<times> string" where
  "read_word s = (let t = dropWhile is_space s
     in (takeWhile (\<lambda>c. \<not> is_space c) t, dropWhile (\<lambda>c. \<not> is_space c) t))"

definition trim_value :: "string \<Rightarrow> string" where
  "trim_value v = dropWhile (\<lambda>c. c = CHR '' '' \<or> c = carriage) v"

definition add_header :: "string \<Rightarrow> (string \<times> string) list \<Rightarrow> (string \<times> string) list" where
  "add_header line hs = (case str_find CHR '':'' line of
     None \<Rightarrow> hs | Some i \<Rightarrow> map_put (take i line) (trim_value (drop (Suc i) line)) hs)"

definition header_line :: "string \<Rightarrow> bool" where
  "header_line l \<longleftrightarrow> l \<noteq> [carriage] \<and> l \<noteq> []"

record http_request =
  rq_method :: string
  rq_url :: string
  rq_version :: string
  rq_headers :: "(string \<times> string) list"

definition parse_request :: "string \<Rightarrow> http_request" where
  "parse_request s =
     (let (m, r1) = read_word s;
          (u, r2) = read_word r1;
          (v, r3) = read_word r2
      in \<lparr>rq_method = m, rq_url = u, rq_version = v,
          rq_headers = fold add_header (takeWhile header_line (getlines r3)) []\<rparr>)"

text \<open>The buffer holds 4095 bytes and a zero, and is read as a C string.\<close>

definition request_string :: "string \<Rightarrow> string" where
  "request_string bytes = takeWhile (\<lambda>c. c \<noteq> CHR 0x00) (take 4095 bytes)"

definition incomingMessageGetHeader :: "string \<Rightarrow> http_request \<Rightarrow> string option" where
  "incomingMessageGetHeader name req = map_of (rq_headers req) name"

section \<open>Header text\<close>

definition parseHeaders :: "string \<Rightarrow> (string \<times> string) list \<Rightarrow> (string \<times> string) list" where
  "parseHeaders headerStr headers = fold add_header (getlines headerStr) headers"

definition formatHeaders :: "(string \<times> string) list \<Rightarrow> string" where
  "formatHeaders headers = concat (map (\<lambda>(k, v). k @ '': '' @ v @ eol) headers)"

section \<open>The response object\<close>

record http_response =
  statusCode :: int
  headers :: "(string \<times> string) list"
  headersSent :: bool
  resp_body :: string
  clientFd :: int

record http_io =
  sent :: "(int \<times> string) list"
  closed :: "int list"

datatype http_result = HThrow string | HException | HThis | HBool bool | HUndefined | HTerminate

definition new_response :: "int \<Rightarrow> http_response" where
  "new_response fd = \<lparr>statusCode = 200, headers = [], headersSent = False, resp_body = [], clientFd = fd\<rparr>"

text \<open>The status is absent, does not convert, or is a number; the names and values of the headers are
  converted to strings, and a pair that does not convert is skipped.\<close>

definition responseWriteHead :: "int option option \<Rightarrow> (string \<times> string) option list \<Rightarrow> http_response
    \<Rightarrow> http_result \<times> http_response" where
  "responseWriteHead status hs r = (case status of
     None \<Rightarrow> (HThrow ''writeHead requires statusCode'', r)
   | Some None \<Rightarrow> (HException, r)
   | Some (Some code) \<Rightarrow>
       (HThis,
        if headersSent r then r
        else r\<lparr>statusCode := code,
          headers := fold (\<lambda>h m. case h of None \<Rightarrow> m | Some (k, v) \<Rightarrow> map_put k v m) hs (headers r)\<rparr>))"

definition responseWrite :: "string option option \<Rightarrow> http_response \<Rightarrow> http_result \<times> http_response" where
  "responseWrite data r = (case data of
     None \<Rightarrow> (HThrow ''write requires data'', r)
   | Some None \<Rightarrow> (HBool True, r)
   | Some (Some str) \<Rightarrow> (HBool True, r\<lparr>resp_body := resp_body r @ str\<rparr>))"

definition response_text :: "http_response \<Rightarrow> string" where
  "response_text r =
     ''HTTP/1.1 '' @ show_int (statusCode r) @ '' OK'' @ eol
     @ (if map_of (headers r) ''Content-Type'' = None then ''Content-Type: text/plain'' @ eol else [])
     @ formatHeaders (headers r)
     @ ''Content-Length: '' @ show_int (int (length (resp_body r))) @ eol
     @ eol
     @ resp_body r"

definition responseEnd :: "string option option \<Rightarrow> http_response \<Rightarrow> http_io \<Rightarrow> http_result \<times> http_response \<times> http_io" where
  "responseEnd data r io =
     (if clientFd r \<ge> 0 then
        (let r1 = (if data \<noteq> None then snd (responseWrite data r) else r)
         in (HThis, r1\<lparr>headersSent := True\<rparr>, io\<lparr>sent := sent io @ [(clientFd r1, response_text r1)]\<rparr>))
      else (HThis, r, io))"

definition ResponseFinalizer :: "http_response \<Rightarrow> http_io \<Rightarrow> http_io" where
  "ResponseFinalizer r io = (if clientFd r \<ge> 0 then io\<lparr>closed := closed io @ [clientFd r]\<rparr> else io)"

datatype response_call =
    WriteHead "int option option" "(string \<times> string) option list"
  | Write "string option option"
  | End "string option option"

fun response_do :: "response_call \<Rightarrow> http_response \<Rightarrow> http_io \<Rightarrow> http_result \<times> http_response \<times> http_io" where
  "response_do (WriteHead status hs) r io = (let (x, r1) = responseWriteHead status hs r in (x, r1, io))"
| "response_do (Write data) r io = (let (x, r1) = responseWrite data r in (x, r1, io))"
| "response_do (End data) r io = responseEnd data r io"

fun call_name :: "response_call \<Rightarrow> string" where
  "call_name (WriteHead _ _) = ''writeHead''"
| "call_name (Write _) = ''write''"
| "call_name (End _) = ''end''"

section \<open>Contexts and their prototypes\<close>

datatype http_class = HTTPServer | IncomingMessage | ServerResponse | ClientRequest

type_synonym class_protos = "((nat \<times> http_class) \<times> string list) list"

definition http_init :: "nat \<Rightarrow> class_protos \<Rightarrow> class_protos" where
  "http_init ctx ps =
     ((ctx, HTTPServer), [''listen'', ''close''])
     # ((ctx, IncomingMessage), [''getHeader''])
     # ((ctx, ServerResponse), [''writeHead'', ''write'', ''end''])
     # ((ctx, ClientRequest), [''write'', ''end''])
     # filter (\<lambda>(k, ms). fst k \<noteq> ctx) ps"

text \<open>The methods of an object made with \<open>JS_NewObjectClass\<close> in a context.\<close>

definition object_methods :: "class_protos \<Rightarrow> nat \<Rightarrow> http_class \<Rightarrow> string list" where
  "object_methods ps ctx c = (case map_of ps (ctx, c) of None \<Rightarrow> [] | Some ms \<Rightarrow> ms)"

text \<open>The calls of a listener: a missing method and a call that throws end it.\<close>

fun run_listener :: "string list \<Rightarrow> response_call list \<Rightarrow> http_response \<Rightarrow> http_io \<Rightarrow> http_response \<times> http_io" where
  "run_listener ms [] r io = (r, io)"
| "run_listener ms (c # cs) r io =
     (if call_name c \<notin> set ms then (r, io)
      else (case response_do c r io of
          (HThrow e, r1, io1) \<Rightarrow> (r1, io1)
        | (HException, r1, io1) \<Rightarrow> (r1, io1)
        | (x, r1, io1) \<Rightarrow> run_listener ms cs r1 io1))"

record listener =
  program :: "http_request \<Rightarrow> response_call list"
  keeps :: bool

text \<open>One connection, from \<open>read\<close> to \<open>close\<close>. The response object outlives it when the listener keeps it.\<close>

definition handle_connection :: "class_protos \<Rightarrow> nat \<Rightarrow> listener option \<Rightarrow> string \<Rightarrow> int \<Rightarrow> http_io
    \<Rightarrow> http_response option \<times> http_io" where
  "handle_connection ps workerCtx l bytes fd io =
     (let (kept, io1) =
        (if bytes = [] then (None, io)
         else
           (let req = parse_request (request_string bytes);
                res = new_response fd
            in case l of
                 None \<Rightarrow> (None, ResponseFinalizer res io)
               | Some f \<Rightarrow>
                   (let (r1, io1) = run_listener (object_methods ps workerCtx ServerResponse) (program f req) res io
                    in if keeps f then (Some r1, io1) else (None, ResponseFinalizer r1 io1))))
      in (kept, io1\<lparr>closed := closed io1 @ [fd]\<rparr>))"

section \<open>The server object\<close>

datatype server_thread = No_thread | At_test | Accepting | Handling int | Thread_done

record http_server =
  socketFd :: int
  port :: int
  listening :: bool
  requestListener :: "listener option"
  serverThread :: server_thread

definition createServer :: "listener option \<Rightarrow> http_server" where
  "createServer f = \<lparr>socketFd = - 1, port = 0, listening = False, requestListener = f, serverThread = No_thread\<rparr>"

definition joinable :: "http_server \<Rightarrow> bool" where
  "joinable s \<longleftrightarrow> serverThread s \<noteq> No_thread"

text \<open>Assigning to a \<open>std::thread\<close> that is joinable ends the process.\<close>

definition serverListen :: "int option option \<Rightarrow> int \<Rightarrow> bool \<Rightarrow> bool \<Rightarrow> http_server \<Rightarrow> http_io
    \<Rightarrow> http_result \<times> http_server \<times> http_io" where
  "serverListen arg fd bind_ok listen_ok s io = (case arg of
     None \<Rightarrow> (HThrow ''listen requires a port number'', s, io)
   | Some None \<Rightarrow> (HException, s, io)
   | Some (Some p) \<Rightarrow>
       (let s1 = s\<lparr>port := p, socketFd := fd\<rparr> in
        if fd < 0 then (HThrow ''Failed to create socket'', s1, io)
        else if \<not> bind_ok then
          (HThrow ''Failed to bind to port'', s1\<lparr>socketFd := - 1\<rparr>, io\<lparr>closed := closed io @ [fd]\<rparr>)
        else if \<not> listen_ok then
          (HThrow ''Failed to listen on socket'', s1\<lparr>socketFd := - 1\<rparr>, io\<lparr>closed := closed io @ [fd]\<rparr>)
        else if joinable s1 then (HTerminate, s1\<lparr>listening := True\<rparr>, io)
        else (HThis, s1\<lparr>listening := True, serverThread := At_test\<rparr>, io)))"

text \<open>\<open>close\<close> up to the join of the thread; the join returns when the thread is done.\<close>

definition serverClose :: "http_server \<Rightarrow> http_io \<Rightarrow> http_server \<times> http_io" where
  "serverClose s io =
     (if socketFd s \<ge> 0
      then (s\<lparr>listening := False, socketFd := - 1\<rparr>, io\<lparr>closed := closed io @ [socketFd s]\<rparr>)
      else (s\<lparr>listening := False\<rparr>, io))"

definition join_thread :: "http_server \<Rightarrow> http_server option" where
  "join_thread s = (case serverThread s of
     No_thread \<Rightarrow> Some s | Thread_done \<Rightarrow> Some (s\<lparr>serverThread := No_thread\<rparr>) | _ \<Rightarrow> None)"

text \<open>One step of the server thread: \<open>c\<close> is what \<open>accept\<close> returns, \<open>bytes\<close> what \<open>read\<close> delivers.\<close>

definition thread_step :: "class_protos \<Rightarrow> nat \<Rightarrow> int \<Rightarrow> string \<Rightarrow> http_server \<times> http_io \<Rightarrow> http_server \<times> http_io" where
  "thread_step ps workerCtx c bytes = (\<lambda>(s, io). case serverThread s of
     At_test \<Rightarrow> (s\<lparr>serverThread := (if listening s then Accepting else Thread_done)\<rparr>, io)
   | Accepting \<Rightarrow>
       (s\<lparr>serverThread := (if c \<ge> 0 then Handling c else if listening s then At_test else Thread_done)\<rparr>, io)
   | Handling fd \<Rightarrow>
       (s\<lparr>serverThread := At_test\<rparr>, snd (handle_connection ps workerCtx (requestListener s) bytes fd io))
   | _ \<Rightarrow> (s, io))"

section \<open>The client\<close>

definition http_request_object :: "http_io \<Rightarrow> http_class \<times> http_io" where
  "http_request_object io = (ClientRequest, io)"

definition requestWrite :: "http_io \<Rightarrow> http_result \<times> http_io" where
  "requestWrite io = (HBool True, io)"

definition requestEnd :: "http_io \<Rightarrow> http_result \<times> http_io" where
  "requestEnd io = (HThis, io)"

section \<open>Lemmas\<close>

lemma read_word_word:
  assumes "m \<noteq> []" and "list_all (\<lambda>c. \<not> is_space c) m" and "is_space c"
  shows "read_word (m @ c # s) = (m, c # s)" and "read_word (CHR '' '' # m @ c # s) = (m, c # s)"
proof -
  have "\<not> is_space (hd m)" "\<forall>c \<in> set m. \<not> is_space c" using assms(1,2) by (auto simp: list_all_iff hd_in_set)
  then have "dropWhile is_space (m @ c # s) = m @ c # s" using assms(1) by (cases m) auto
  moreover have "is_space CHR '' ''" by (simp add: is_space_def)
  moreover have "takeWhile (\<lambda>c. \<not> is_space c) (m @ c # s) = m" "dropWhile (\<lambda>c. \<not> is_space c) (m @ c # s) = c # s"
    using assms(2,3) by (auto simp: list_all_iff takeWhile_append2 dropWhile_append2)
  ultimately show "read_word (m @ c # s) = (m, c # s)" "read_word (CHR '' '' # m @ c # s) = (m, c # s)"
    by (simp_all add: read_word_def)
qed

lemma space_eol: "is_space carriage" "is_space newline" "is_space CHR '' ''"
  by (simp_all add: is_space_def carriage_def newline_def)

lemma map_put_last: "\<forall>a \<in> fst ` set m. a < k \<Longrightarrow> map_put k v m = m @ [(k, v)]"
  by (induction k v m rule: map_put.induct) auto

definition word :: "string \<Rightarrow> bool" where
  "word m \<longleftrightarrow> m \<noteq> [] \<and> list_all (\<lambda>c. \<not> is_space c) m"

lemma parse_request_line:
  assumes "word m" and "word u" and "word v" and "is_space c"
  shows "parse_request (m @ '' '' @ u @ '' '' @ v @ c # s) =
    \<lparr>rq_method = m, rq_url = u, rq_version = v,
     rq_headers = fold add_header (takeWhile header_line (getlines (c # s))) []\<rparr>"
proof -
  have "read_word (m @ CHR '' '' # u @ CHR '' '' # v @ c # s) = (m, CHR '' '' # u @ CHR '' '' # v @ c # s)"
    by (rule read_word_word) (use assms in \<open>simp_all add: word_def space_eol\<close>)
  moreover have "read_word (CHR '' '' # u @ CHR '' '' # v @ c # s) = (u, CHR '' '' # v @ c # s)"
    by (rule read_word_word) (use assms in \<open>simp_all add: word_def space_eol\<close>)
  moreover have "read_word (CHR '' '' # v @ c # s) = (v, c # s)"
    by (rule read_word_word) (use assms in \<open>simp_all add: word_def\<close>)
  ultimately show ?thesis by (simp add: parse_request_def)
qed

text \<open>The header lines of a well-formed request, as a client sends them.\<close>

definition header_ok :: "string \<times> string \<Rightarrow> bool" where
  "header_ok kv \<longleftrightarrow> CHR '':'' \<notin> set (fst kv) \<and> newline \<notin> set (fst kv) \<and> newline \<notin> set (snd kv)"

lemma getlines_format:
  "list_all header_ok hs \<Longrightarrow> getlines (formatHeaders hs @ s) = map (\<lambda>(k, v). k @ '': '' @ v @ [carriage]) hs @ getlines s"
proof (induction hs)
  case (Cons h hs)
  obtain k v where h: "h = (k, v)" by (cases h)
  have "newline \<notin> set (k @ '': '' @ v @ [carriage])"
    using Cons.prems by (auto simp: h header_ok_def newline_def carriage_def)
  from getlines_line [OF this, of "formatHeaders hs @ s"] Cons show ?case
    by (simp add: h formatHeaders_def eol_def)
qed (simp add: formatHeaders_def)

lemma add_header_formatted:
  assumes "CHR '':'' \<notin> set k"
  shows "add_header (k @ '': '' @ v @ [carriage]) hs = map_put k (trim_value (v @ [carriage])) hs"
  using str_find_append_hd [OF assms, of "CHR '' '' # v @ [carriage]"]
  by (simp add: add_header_def) (simp add: trim_value_def)

lemma fold_headers:
  assumes "list_all header_ok hs" and "sorted_wrt (<) (map fst (acc @ hs))"
  shows "fold add_header (map (\<lambda>(k, v). k @ '': '' @ v @ [carriage]) hs) acc =
    acc @ map (\<lambda>(k, v). (k, trim_value (v @ [carriage]))) hs"
  using assms
proof (induction hs arbitrary: acc)
  case (Cons h hs)
  obtain k v where h: "h = (k, v)" by (cases h)
  have "\<forall>a \<in> fst ` set acc. a < k" using Cons.prems(2) by (auto simp: h sorted_wrt_append)
  then have "map_put k (trim_value (v @ [carriage])) acc = acc @ [(k, trim_value (v @ [carriage]))]"
    by (rule map_put_last)
  then show ?case
    using Cons.IH [of "acc @ [(k, trim_value (v @ [carriage]))]"] Cons.prems
    by (simp add: h header_ok_def add_header_formatted [unfolded append.simps] sorted_wrt_append)
qed simp

lemma header_line_formatted: "header_line (k @ '': '' @ v @ [carriage])"
  by (cases k) (auto simp: header_line_def)

section \<open>Properties\<close>



text \<open>Formatting headers and parsing them back keeps the names and appends a carriage return to each
  value that is not blank.\<close>

theorem headers_roundtrip:
  assumes "list_all header_ok hs" and "map_ok hs"
  shows "parseHeaders (formatHeaders hs) [] = map (\<lambda>(k, v). (k, trim_value (v @ [carriage]))) hs"
  using getlines_format [OF assms(1), of "[]"] fold_headers [OF assms(1), of "[]"] assms(2)
  by (simp add: parseHeaders_def map_ok_def)

lemma headers_roundtrip_witness:
  "parseHeaders (formatHeaders [(''Host'', ''a'')]) [] = [(''Host'', ''a'' @ [carriage])]"
proof -
  have "list_all header_ok [(''Host'', ''a'')]" by code_simp
  moreover have "map_ok [(''Host'', ''a'')]" by (simp add: map_ok_def)
  ultimately show ?thesis using headers_roundtrip [of "[(''Host'', ''a'')]"] by (simp add: trim_value_def carriage_def)
qed

section \<open>What a response sends\<close>

text \<open>The calls before the first \<open>end\<close>, by what they leave in the response.\<close>

definition is_end :: "response_call \<Rightarrow> bool" where
  "is_end c \<longleftrightarrow> (case c of End _ \<Rightarrow> True | _ \<Rightarrow> False)"

fun last_status :: "response_call list \<Rightarrow> int \<Rightarrow> int" where
  "last_status [] n = n"
| "last_status (WriteHead (Some (Some k)) hs # cs) n = last_status cs k"
| "last_status (c # cs) n = last_status cs n"

fun all_headers :: "response_call list \<Rightarrow> (string \<times> string) option list" where
  "all_headers [] = []"
| "all_headers (WriteHead (Some (Some k)) hs # cs) = hs @ all_headers cs"
| "all_headers (c # cs) = all_headers cs"

fun all_data :: "response_call list \<Rightarrow> string" where
  "all_data [] = []"
| "all_data (Write (Some (Some d)) # cs) = d @ all_data cs"
| "all_data (End (Some (Some d)) # cs) = d @ all_data cs"
| "all_data (c # cs) = all_data cs"

definition put_headers :: "(string \<times> string) option list \<Rightarrow> (string \<times> string) list \<Rightarrow> (string \<times> string) list" where
  "put_headers hs m = fold (\<lambda>h m. case h of None \<Rightarrow> m | Some (k, v) \<Rightarrow> map_put k v m) hs m"

fun response_run :: "response_call list \<Rightarrow> http_response \<Rightarrow> http_io \<Rightarrow> http_response \<times> http_io" where
  "response_run [] r io = (r, io)"
| "response_run (c # cs) r io = (let (x, r1, io1) = response_do c r io in response_run cs r1 io1)"

lemma response_run_append:
  "response_run (cs @ ds) r io = (let (r1, io1) = response_run cs r io in response_run ds r1 io1)"
  by (induction cs arbitrary: r io) (auto split: prod.splits)

lemma response_run_before_end:
  assumes "list_all (\<lambda>c. \<not> is_end c) cs" and "\<not> headersSent r"
  shows "response_run cs r io =
    (r\<lparr>statusCode := last_status cs (statusCode r), headers := put_headers (all_headers cs) (headers r),
       resp_body := resp_body r @ all_data cs\<rparr>, io)"
  using assms
proof (induction cs arbitrary: r)
  case (Cons c cs)
  show ?case
  proof (cases c)
    case (WriteHead status hs)
    with Cons show ?thesis
      by (cases status rule: option.exhaust; cases "the status")
        (simp_all add: responseWriteHead_def put_headers_def)
  next
    case (Write data)
    with Cons show ?thesis
      by (cases data rule: option.exhaust; cases "the data")
        (simp_all add: responseWrite_def)
  qed (use Cons in \<open>simp add: is_end_def\<close>)
qed (simp add: put_headers_def)

lemma responseEnd_eq:
  assumes "clientFd r \<ge> 0"
  shows "response_do (End d) r io = (HThis, r\<lparr>resp_body := resp_body r @ all_data [End d], headersSent := True\<rparr>,
    io\<lparr>sent := sent io @ [(clientFd r, response_text (r\<lparr>resp_body := resp_body r @ all_data [End d]\<rparr>))]\<rparr>)"
  using assms
  by (cases d rule: option.exhaust; cases "the d") (simp_all add: responseEnd_def responseWrite_def response_text_def)

definition response_with :: "int \<Rightarrow> (string \<times> string) list \<Rightarrow> string \<Rightarrow> string" where
  "response_with status hs data = response_text
     \<lparr>statusCode = status, headers = hs, headersSent = False, resp_body = data, clientFd = 0\<rparr>"

lemma response_text_eq: "response_text r = response_with (statusCode r) (headers r) (resp_body r)"
  by (simp add: response_with_def response_text_def)

text \<open>The first \<open>end\<close> sends one response, with the last status given, the headers merged and the length
  of everything written. Nothing keeps a second \<open>end\<close> from sending the response again, with the first
  body repeated in it.\<close>

theorem response_sent:
  assumes "list_all (\<lambda>c. \<not> is_end c) cs" and "fd \<ge> 0"
  shows "sent (snd (response_run (cs @ [End d, End e]) (new_response fd) io)) = sent io @
    [(fd, response_with (last_status cs 200) (put_headers (all_headers cs) []) (all_data (cs @ [End d]))),
     (fd, response_with (last_status cs 200) (put_headers (all_headers cs) []) (all_data (cs @ [End d, End e])))]"
proof -
  have a: "all_data (xs @ ys) = all_data xs @ all_data ys" for xs ys
    by (induction xs rule: all_data.induct) simp_all
  show ?thesis
    using response_run_before_end [OF assms(1), of "new_response fd" io] assms(2)
    by (simp add: response_run_append responseEnd_eq response_text_eq new_response_def a del: all_data.simps response_do.simps)
      (simp add: a [of "[End d]" "[End e]", simplified])
qed

definition no_io :: http_io where
  "no_io = \<lparr>sent = [], closed = []\<rparr>"

lemma response_sent_witness:
  "length (sent (snd (response_run [Write (Some (Some ''hi'')), End None, End None] (new_response 5) no_io))) = 2"
  using response_sent [of "[Write (Some (Some ''hi''))]" 5 None None no_io] by (simp add: is_end_def no_io_def)

section \<open>The server\<close>

text \<open>The thread of a server runs its listener in a context of its own, made after \<open>init\<close> set the
  prototypes in the main one: the response object has no method, so no request gets a response,
  whatever the listener does, and each descriptor is closed, twice unless the listener keeps the object.\<close>

definition worker_context :: "nat \<Rightarrow> nat" where
  "worker_context ctx = Suc ctx"

theorem server_never_responds:
  "sent (snd (handle_connection (http_init ctx []) (worker_context ctx) l bytes fd io)) = sent io
   \<and> closed (snd (handle_connection (http_init ctx []) (worker_context ctx) l bytes fd io)) = closed io @
     (if bytes = [] \<or> fd < 0 \<or> (case l of None \<Rightarrow> False | Some f \<Rightarrow> keeps f) then [fd] else [fd, fd])"
proof -
  have "object_methods (http_init ctx []) (worker_context ctx) ServerResponse = []"
    by (simp add: object_methods_def http_init_def worker_context_def)
  moreover have "run_listener [] cs r io = (r, io)" for cs r io by (cases cs) simp_all
  ultimately show ?thesis
    by (simp add: handle_connection_def ResponseFinalizer_def new_response_def Let_def split: option.splits)
qed

text \<open>A server listens once: \<open>listen\<close> on a server whose thread has not been joined throws or ends the
  process. If its socket does not bind, the descriptor the thread uses is overwritten.\<close>

theorem listen_once:
  "serverListen arg fd b k s io = (r, t, io') \<Longrightarrow> r = HThis \<Longrightarrow>
     serverThread s = No_thread \<and> fst (serverListen arg' fd' b' k' t io') \<noteq> HThis"
  by (auto simp: serverListen_def joinable_def Let_def split: option.splits if_splits)

lemma listen_once_witness:
  "fst (serverListen (Some (Some 80)) 4 True True
     \<lparr>socketFd = 3, port = 80, listening = True, requestListener = None, serverThread = At_test\<rparr> no_io) \<noteq> HThis"
  by (rule conjunct2 [OF listen_once [of "Some (Some 80)" 3 True True "createServer None" no_io HThis]])
    (simp_all add: serverListen_def createServer_def joinable_def)

end
