(* ===== verification/Logger.thy ===== *)
theory Logger
  imports Utf8
begin

text \<open>
  Models \<open>src/logging/Logger.cpp\<close>: the level filter, the text and JSON formats, the level storage and
  the output stream.

  \<^item> Parameters (\<open>log_env\<close>): the hash of a proto string and the two renderings of the time. A proto
    string is the list of its code points; the sparse list of a context is the list of its values in
    the order of iteration, \<open>None\<close> for one that is not a string.
  \<^item> A stream is a number, 0 for \<open>std::cout\<close>; \<open>written\<close> is the history of what was written.
  \<^item> \<open>log\<close> takes the mutex twice, to read the level and to write; it is one step here, so a change of
    the level between the two by another thread is left out.
\<close>

datatype log_level = DEBUG | INFO | WARN | ERROR

fun level_value :: "log_level \<Rightarrow> int" where
  "level_value DEBUG = 0"
| "level_value INFO = 1"
| "level_value WARN = 2"
| "level_value ERROR = 3"

lemma level_value_inject: "level_value a = level_value b \<Longrightarrow> a = b"
  by (cases a; cases b) simp_all

instantiation log_level :: linorder
begin

definition less_eq_log_level :: "log_level \<Rightarrow> log_level \<Rightarrow> bool" where
  "less_eq_log_level a b \<longleftrightarrow> level_value a \<le> level_value b"

definition less_log_level :: "log_level \<Rightarrow> log_level \<Rightarrow> bool" where
  "less_log_level a b \<longleftrightarrow> level_value a < level_value b"

instance
  by standard (auto simp: less_eq_log_level_def less_log_level_def intro: level_value_inject)

end

record log_env =
  string_hash :: "mstring \<Rightarrow> nat"
  gmt :: mstring
  local_time :: mstring

record log_state =
  levelStorage :: "(nat \<times> int) list option"
  outputStream :: nat
  written :: "(nat \<times> 8 word list) list"

type_synonym log_context = "mstring option list"

section \<open>The level\<close>

definition getLevelStorage :: "log_state \<Rightarrow> (nat \<times> int) list \<times> log_state" where
  "getLevelStorage s = (case levelStorage s of
     None \<Rightarrow> ([], s\<lparr>levelStorage := Some []\<rparr>) | Some m \<Rightarrow> (m, s))"

definition setLevelStorage :: "(nat \<times> int) list \<Rightarrow> log_state \<Rightarrow> log_state" where
  "setLevelStorage m s = s\<lparr>levelStorage := Some m\<rparr>"

definition level_key :: "log_env \<Rightarrow> nat" where
  "level_key E = string_hash E (lit ''level'')"

definition setLevel :: "log_env \<Rightarrow> log_level \<Rightarrow> log_state \<Rightarrow> log_state" where
  "setLevel E l s =
     (let (m, s1) = getLevelStorage s in setLevelStorage (map_put (level_key E) (level_value l) m) s1)"

definition getLevel :: "log_env \<Rightarrow> log_state \<Rightarrow> int \<times> log_state" where
  "getLevel E s =
     (let (m, s1) = getLevelStorage s
      in (case map_of m (level_key E) of Some v \<Rightarrow> v | None \<Rightarrow> level_value INFO, s1))"

definition setOutput :: "nat option \<Rightarrow> log_state \<Rightarrow> log_state" where
  "setOutput out s = s\<lparr>outputStream := (case out of Some n \<Rightarrow> n | None \<Rightarrow> 0)\<rparr>"

section \<open>The formats\<close>

fun levelToString :: "log_level \<Rightarrow> mstring" where
  "levelToString DEBUG = lit ''DEBUG''"
| "levelToString INFO = lit ''INFO''"
| "levelToString WARN = lit ''WARN''"
| "levelToString ERROR = lit ''ERROR''"

definition formatJSON :: "log_env \<Rightarrow> log_level \<Rightarrow> mstring \<Rightarrow> log_context \<Rightarrow> mstring" where
  "formatJSON E l message context =
     lit ''{'' @ lit [CHR 0x22] @ lit ''timestamp'' @ lit [CHR 0x22, CHR '':'', CHR 0x22] @ gmt E
     @ lit [CHR 0x22, CHR '','', CHR 0x22] @ lit ''level'' @ lit [CHR 0x22, CHR '':'', CHR 0x22] @ levelToString l
     @ lit [CHR 0x22, CHR '','', CHR 0x22] @ lit ''message'' @ lit [CHR 0x22, CHR '':'', CHR 0x22] @ message
     @ lit [CHR 0x22, CHR ''}'']"

fun context_text :: "log_context \<Rightarrow> mstring" where
  "context_text [] = []"
| "context_text (v # vs) = (case v of Some s \<Rightarrow> s | None \<Rightarrow> []) @ context_text vs"

definition formatText :: "log_env \<Rightarrow> log_level \<Rightarrow> mstring \<Rightarrow> log_context option \<Rightarrow> mstring" where
  "formatText E l message context =
     lit ''['' @ local_time E @ lit ''] '' @ levelToString l @ lit '' '' @ message
     @ (case context of None \<Rightarrow> [] | Some vs \<Rightarrow> if vs = [] then [] else lit '' '' @ context_text vs)"

section \<open>Logging\<close>

definition log_line :: "log_env \<Rightarrow> log_level \<Rightarrow> mstring \<Rightarrow> log_context option \<Rightarrow> 8 word list" where
  "log_line E l message context = utf8_bytes (formatText E l message context) @ [0x0A]"

definition log :: "log_env \<Rightarrow> log_level \<Rightarrow> mstring \<Rightarrow> log_context option \<Rightarrow> log_state \<Rightarrow> log_state" where
  "log E l message context s =
     (let (current, s1) = getLevel E s
      in if current > level_value l then s1
         else s1\<lparr>written := written s1 @ [(outputStream s1, log_line E l message context)]\<rparr>)"

definition debug :: "log_env \<Rightarrow> mstring \<Rightarrow> log_context option \<Rightarrow> log_state \<Rightarrow> log_state" where
  "debug E = log E DEBUG"

definition info :: "log_env \<Rightarrow> mstring \<Rightarrow> log_context option \<Rightarrow> log_state \<Rightarrow> log_state" where
  "info E = log E INFO"

definition warn :: "log_env \<Rightarrow> mstring \<Rightarrow> log_context option \<Rightarrow> log_state \<Rightarrow> log_state" where
  "warn E = log E WARN"

definition error :: "log_env \<Rightarrow> mstring \<Rightarrow> log_context option \<Rightarrow> log_state \<Rightarrow> log_state" where
  "error E = log E ERROR"

datatype log_call = SetLevel log_level | SetOutput "nat option" | Log log_level mstring "log_context option"

fun log_do :: "log_env \<Rightarrow> log_call \<Rightarrow> log_state \<Rightarrow> log_state" where
  "log_do E (SetLevel l) s = setLevel E l s"
| "log_do E (SetOutput out) s = setOutput out s"
| "log_do E (Log l m c) s = log E l m c s"

section \<open>What is written\<close>

text \<open>The reference: the calls with the level and the stream in force, and no storage.\<close>

fun expected :: "log_env \<Rightarrow> log_level \<Rightarrow> nat \<Rightarrow> log_call list \<Rightarrow> (nat \<times> 8 word list) list" where
  "expected E cur out [] = []"
| "expected E cur out (SetLevel l # cs) = expected E l out cs"
| "expected E cur out (SetOutput n # cs) = expected E cur (case n of Some k \<Rightarrow> k | None \<Rightarrow> 0) cs"
| "expected E cur out (Log l m c # cs) = (if cur \<le> l then [(out, log_line E l m c)] else []) @ expected E cur out cs"

definition level_is :: "log_env \<Rightarrow> log_level \<Rightarrow> log_state \<Rightarrow> bool" where
  "level_is E l s \<longleftrightarrow> fst (getLevel E s) = level_value l"

lemma getLevel_after_set: "fst (getLevel E (setLevel E l s)) = level_value l"
  by (simp add: getLevel_def setLevel_def getLevelStorage_def setLevelStorage_def map_simps Let_def
      split: option.splits)

lemma getLevel_keeps: "fst (getLevel E (snd (getLevel E s))) = fst (getLevel E s)"
  "outputStream (snd (getLevel E s)) = outputStream s" "written (snd (getLevel E s)) = written s"
  by (simp_all add: getLevel_def getLevelStorage_def Let_def split: option.splits)

lemma getLevel_written: "fst (getLevel E (s\<lparr>written := w\<rparr>)) = fst (getLevel E s)"
  "fst (getLevel E (s\<lparr>outputStream := out\<rparr>)) = fst (getLevel E s)"
  by (simp_all add: getLevel_def getLevelStorage_def Let_def split: option.splits)

lemma log_do_step:
  assumes "level_is E cur s"
  shows "\<exists>cur'. level_is E cur' (log_do E c s) \<and>
    written (log_do E c s) @ expected E cur' (outputStream (log_do E c s)) cs =
    written s @ expected E cur (outputStream s) (c # cs)"
proof (cases c)
  case (SetLevel l)
  have "outputStream (setLevel E l s) = outputStream s" "written (setLevel E l s) = written s"
    by (simp_all add: setLevel_def getLevelStorage_def setLevelStorage_def split: option.splits)
  then show ?thesis using SetLevel by (intro exI [of _ l]) (simp add: level_is_def getLevel_after_set)
next
  case (SetOutput out)
  then show ?thesis using assms by (intro exI [of _ cur]) (simp add: level_is_def setOutput_def getLevel_written)
next
  case (Log l m ctx)
  have cur: "fst (getLevel E s) = level_value cur" using assms by (simp add: level_is_def)
  then show ?thesis
    by (intro exI [of _ cur])
      (simp add: Log log_def level_is_def Let_def split_beta getLevel_keeps getLevel_written less_eq_log_level_def)
qed

text \<open>C29: Whatever sequence of calls is made, the lines written are those at or above the level in force, each
  on the stream in force, in order: the level and the output are the last ones set.\<close>

theorem log_writes_expected:
  assumes "level_is E cur s"
  shows "written (fold (log_do E) cs s) = written s @ expected E cur (outputStream s) cs"
  using assms
proof (induction cs arbitrary: s cur)
  case (Cons c cs)
  then obtain cur' where "level_is E cur' (log_do E c s)"
    "written (log_do E c s) @ expected E cur' (outputStream (log_do E c s)) cs =
      written s @ expected E cur (outputStream s) (c # cs)"
    using log_do_step by blast
  then show ?case using Cons.IH by simp
qed simp

definition log_start :: log_state where
  "log_start = \<lparr>levelStorage = None, outputStream = 0, written = []\<rparr>"

lemma log_writes_expected_witness:
  "length (written (fold (log_do \<lparr>string_hash = length, gmt = [], local_time = []\<rparr>)
     [Log DEBUG [] None, SetLevel WARN, Log INFO [] None, Log ERROR [] None] log_start)) = 1"
proof -
  let ?E = "\<lparr>string_hash = length, gmt = [], local_time = []\<rparr>"
  let ?cs = "[Log DEBUG [] None, SetLevel WARN, Log INFO [] None, Log ERROR [] None]"
  have "level_is ?E INFO log_start"
    by (simp add: level_is_def log_start_def getLevel_def getLevelStorage_def)
  note w = log_writes_expected [OF this, of ?cs]
  show ?thesis unfolding w by (simp add: log_start_def less_eq_log_level_def)
qed

end
