(* ===== verification/MemoryAnalyzer.thy ===== *)
theory MemoryAnalyzer
  imports FileTree "HOL-Library.Word"
begin

text \<open>
  Models \<open>src/memory/MemoryAnalyzer.cpp\<close>: heap snapshots, their comparison, the tracking of
  allocations, and the objects and the file made from them.

  \<^item> What \<open>JS_ComputeMemoryUsage\<close> reports and the time are arguments (\<open>memory_usage\<close>, with the fields of
    \<open>JSMemoryUsage\<close> the code reads). A \<open>size_t\<close> is a 64-bit word; \<open>JS_NewInt64\<close> reads it as signed.
  \<^item> An index argument is \<open>None\<close> when it does not convert to a number.
\<close>

record memory_usage =
  malloc_size :: "64 word"
  memory_used_size :: "64 word"
  atom_count :: "64 word"
  atom_size :: "64 word"
  str_count :: "64 word"
  str_size :: "64 word"
  obj_count :: "64 word"
  obj_size :: "64 word"
  prop_count :: "64 word"
  prop_size :: "64 word"
  shape_count :: "64 word"
  shape_size :: "64 word"
  js_func_count :: "64 word"
  js_func_size :: "64 word"
  js_func_code_size :: "64 word"
  c_func_count :: "64 word"
  array_count :: "64 word"
  fast_array_count :: "64 word"
  binary_object_count :: "64 word"
  binary_object_size :: "64 word"

type_synonym sizes = "(string \<times> 64 word) list"

record heap_snapshot =
  timestamp :: int
  totalSize :: "64 word"
  objectCounts :: sizes
  memoryUsage :: sizes

record leak_report =
  leakedTypes :: "string list"
  leakCounts :: sizes
  leakSizes :: sizes
  totalLeakedSize :: "64 word"

datatype mem_value = MNum int | MBool bool | MStr string | MArr "mem_value list" | MObj "(string \<times> mem_value) list"
  | MThrow string | MException

record analyzer =
  snapshots :: "heap_snapshot list"
  trackingAllocations :: bool
  trackingStartSnapshot :: heap_snapshot

section \<open>Snapshots\<close>

definition put_all :: "(string \<times> 64 word) list \<Rightarrow> sizes \<Rightarrow> sizes" where
  "put_all ps m = fold (\<lambda>(k, v). map_put k v) ps m"

definition captureSnapshot :: "memory_usage \<Rightarrow> int \<Rightarrow> heap_snapshot" where
  "captureSnapshot u now =
     \<lparr>timestamp = now, totalSize = malloc_size u,
      objectCounts = put_all
        [(''objects'', obj_count u), (''arrays'', array_count u), (''fast_arrays'', fast_array_count u),
         (''functions'', js_func_count u), (''c_functions'', c_func_count u), (''strings'', str_count u),
         (''atoms'', atom_count u), (''properties'', prop_count u), (''shapes'', shape_count u),
         (''binary_objects'', binary_object_count u)] [],
      memoryUsage = put_all
        [(''malloc'', malloc_size u), (''memory_used'', memory_used_size u), (''atoms'', atom_size u),
         (''strings'', str_size u), (''objects'', obj_size u), (''properties'', prop_size u),
         (''shapes'', shape_size u), (''js_functions'', js_func_size u), (''js_func_code'', js_func_code_size u),
         (''binary_objects'', binary_object_size u)] []\<rparr>"

definition new_int64 :: "64 word \<Rightarrow> mem_value" where
  "new_int64 w = MNum (sint w)"

definition sizes_object :: "sizes \<Rightarrow> mem_value" where
  "sizes_object m = MObj (map (\<lambda>(k, v). (k, new_int64 v)) m)"

definition snapshotToJSObject :: "heap_snapshot \<Rightarrow> mem_value" where
  "snapshotToJSObject s = MObj
     [(''timestamp'', MNum (timestamp s)), (''totalSize'', new_int64 (totalSize s)),
      (''objectCounts'', sizes_object (objectCounts s)), (''memoryUsage'', sizes_object (memoryUsage s))]"

section \<open>Comparing snapshots\<close>

definition size_before :: "sizes \<Rightarrow> string \<Rightarrow> 64 word" where
  "size_before m k = (case map_of m k of Some v \<Rightarrow> v | None \<Rightarrow> 0)"

fun compare_counts :: "sizes \<Rightarrow> sizes \<Rightarrow> leak_report \<Rightarrow> leak_report" where
  "compare_counts before [] r = r"
| "compare_counts before ((k, n) # after) r = compare_counts before after
     (if n > size_before before k
      then r\<lparr>leakedTypes := leakedTypes r @ [k], leakCounts := map_put k (n - size_before before k) (leakCounts r)\<rparr>
      else r)"

fun compare_sizes :: "sizes \<Rightarrow> sizes \<Rightarrow> leak_report \<Rightarrow> leak_report" where
  "compare_sizes before [] r = r"
| "compare_sizes before ((k, n) # after) r = compare_sizes before after
     (if n > size_before before k
      then r\<lparr>leakSizes := map_put k (n - size_before before k) (leakSizes r),
             totalLeakedSize := totalLeakedSize r + (n - size_before before k)\<rparr>
      else r)"

definition empty_report :: leak_report where
  "empty_report = \<lparr>leakedTypes = [], leakCounts = [], leakSizes = [], totalLeakedSize = 0\<rparr>"

definition compareSnapshots :: "heap_snapshot \<Rightarrow> heap_snapshot \<Rightarrow> leak_report" where
  "compareSnapshots before after =
     compare_sizes (memoryUsage before) (memoryUsage after)
       (compare_counts (objectCounts before) (objectCounts after) empty_report)"

definition leakReportToJSObject :: "leak_report \<Rightarrow> mem_value" where
  "leakReportToJSObject r = MObj
     [(''totalLeakedSize'', new_int64 (totalLeakedSize r)), (''leakedTypes'', MArr (map MStr (leakedTypes r))),
      (''leakCounts'', sizes_object (leakCounts r)), (''leakSizes'', sizes_object (leakSizes r))]"

section \<open>The operations of the module\<close>

definition takeHeapSnapshot :: "memory_usage \<Rightarrow> int \<Rightarrow> analyzer \<Rightarrow> mem_value \<times> analyzer" where
  "takeHeapSnapshot u now a =
     (let s = captureSnapshot u now in (snapshotToJSObject s, a\<lparr>snapshots := snapshots a @ [s]\<rparr>))"

definition valid_index :: "int \<Rightarrow> analyzer \<Rightarrow> bool" where
  "valid_index i a \<longleftrightarrow> 0 \<le> i \<and> i < int (length (snapshots a))"

definition detectLeaks :: "int option list \<Rightarrow> analyzer \<Rightarrow> mem_value" where
  "detectLeaks args a =
     (if length args < 2 then MThrow ''detectLeaks expects two snapshots''
      else (case (args ! 0, args ! 1) of
          (Some i, Some j) \<Rightarrow>
            if \<not> valid_index i a \<or> \<not> valid_index j a then MThrow ''Invalid snapshot index''
            else leakReportToJSObject (compareSnapshots (snapshots a ! nat i) (snapshots a ! nat j))
        | _ \<Rightarrow> MThrow ''detectLeaks expects two snapshot indices''))"

definition getMemoryUsage :: "memory_usage \<Rightarrow> mem_value" where
  "getMemoryUsage u = MObj
     [(''rss'', new_int64 (malloc_size u)), (''heapTotal'', new_int64 (malloc_size u)),
      (''heapUsed'', new_int64 (memory_used_size u)), (''external'', new_int64 (binary_object_size u))]"

definition startAllocationTracking :: "memory_usage \<Rightarrow> int \<Rightarrow> analyzer \<Rightarrow> mem_value \<times> analyzer" where
  "startAllocationTracking u now a =
     (if trackingAllocations a then (MBool False, a)
      else (MBool True, a\<lparr>trackingAllocations := True, trackingStartSnapshot := captureSnapshot u now\<rparr>))"

definition stopAllocationTracking :: "memory_usage \<Rightarrow> int \<Rightarrow> analyzer \<Rightarrow> mem_value \<times> analyzer" where
  "stopAllocationTracking u now a =
     (if \<not> trackingAllocations a then (MBool False, a)
      else (leakReportToJSObject (compareSnapshots (trackingStartSnapshot a) (captureSnapshot u now)),
            a\<lparr>trackingAllocations := False\<rparr>))"

section \<open>The export\<close>

definition quoted :: "string \<Rightarrow> string" where
  "quoted s = CHR 0x22 # s @ [CHR 0x22]"

definition string_array :: "string list \<Rightarrow> string" where
  "string_array ss = ''['' @ (case ss of [] \<Rightarrow> [] | s # r \<Rightarrow> quoted s @ concat (map (\<lambda>x. '', '' @ quoted x) r)) @ '']''"

fun show_count :: "nat \<Rightarrow> string" where
  "show_count n = (if n < 10 then [char_of (48 + n)] else show_count (n div 10) @ [char_of (48 + n mod 10)])"

declare show_count.simps [simp del]

definition nl :: string where
  "nl = [CHR 0x0A]"

definition generateChromeDevToolsFormat :: "heap_snapshot \<Rightarrow> string" where
  "generateChromeDevToolsFormat s = concat
     [''{'', nl,
      ''  '', quoted ''snapshot'', '': {'', nl,
      ''    '', quoted ''meta'', '': {'', nl,
      ''      '', quoted ''node_fields'', '': '',
        string_array [''type'', ''name'', ''id'', ''self_size'', ''edge_count'', ''trace_node_id''], '','', nl,
      ''      '', quoted ''node_types'', '': ['',
        string_array [''hidden'', ''array'', ''string'', ''object'', ''code'', ''closure'', ''regexp'', ''number'', ''native'', ''synthetic''],
        ''],'', nl,
      ''      '', quoted ''edge_fields'', '': '', string_array [''type'', ''name_or_index'', ''to_node''], '','', nl,
      ''      '', quoted ''edge_types'', '': ['',
        string_array [''context'', ''element'', ''property'', ''internal'', ''hidden'', ''shortcut'', ''weak''], ''],'', nl,
      ''      '', quoted ''trace_function_info_fields'', '': '',
        string_array [''function_name'', ''script_name'', ''script_id'', ''line'', ''column''], '','', nl,
      ''      '', quoted ''trace_node_fields'', '': '',
        string_array [''id'', ''function_info_index'', ''count'', ''size'', ''children''], nl,
      ''    },'', nl,
      ''    '', quoted ''node_count'', '': '', show_count (length (objectCounts s)), '','', nl,
      ''    '', quoted ''edge_count'', '': 0'', nl,
      ''  },'', nl,
      ''  '', quoted ''nodes'', '': [],'', nl,
      ''  '', quoted ''edges'', '': [],'', nl,
      ''  '', quoted ''strings'', '': [],'', nl,
      ''  '', quoted ''trace_function_infos'', '': [],'', nl,
      ''  '', quoted ''trace_tree'', '': null'', nl,
      ''}'']"

definition exportSnapshot :: "int option \<Rightarrow> string option \<Rightarrow> analyzer \<Rightarrow> tree \<Rightarrow> mem_value \<times> tree" where
  "exportSnapshot idx filename a t = (case idx of
     None \<Rightarrow> (MThrow ''exportSnapshot expects snapshot index'', t)
   | Some i \<Rightarrow>
       if \<not> valid_index i a then (MThrow ''Invalid snapshot index'', t)
       else (case filename of
           None \<Rightarrow> (MException, t)
         | Some f \<Rightarrow>
             (case write_tree f (generateChromeDevToolsFormat (snapshots a ! nat i)) t of
                Some u \<Rightarrow> (MBool True, u)
              | None \<Rightarrow> (MThrow ''Failed to write snapshot file'', t))))"

section \<open>What a comparison reports\<close>

definition growth :: "sizes \<Rightarrow> string \<times> 64 word \<Rightarrow> bool" where
  "growth before kn \<longleftrightarrow> snd kn > size_before before (fst kn)"

lemma map_put_above: "\<forall>a \<in> fst ` set m. a < k \<Longrightarrow> map_put k v m = m @ [(k, v)]"
  by (induction k v m rule: map_put.induct) auto

lemma compare_counts_eq:
  assumes "sorted_wrt (<) (map fst (leakCounts r) @ map fst after)"
  shows "compare_counts before after r =
    r\<lparr>leakedTypes := leakedTypes r @ map fst (filter (growth before) after),
      leakCounts := leakCounts r @ map (\<lambda>(k, n). (k, n - size_before before k)) (filter (growth before) after)\<rparr>"
  using assms
proof (induction before after r rule: compare_counts.induct)
  case (2 before k n after r)
  have "\<forall>a \<in> fst ` set (leakCounts r). a < k" using 2(2) by (auto simp: sorted_wrt_append)
  then have p: "map_put k v (leakCounts r) = leakCounts r @ [(k, v)]" for v by (rule map_put_above)
  from 2 show ?case by (auto simp: growth_def p sorted_wrt_append)
qed simp

lemma compare_sizes_eq:
  assumes "sorted_wrt (<) (map fst (leakSizes r) @ map fst after)"
  shows "compare_sizes before after r =
    r\<lparr>leakSizes := leakSizes r @ map (\<lambda>(k, n). (k, n - size_before before k)) (filter (growth before) after),
      totalLeakedSize := totalLeakedSize r +
        sum_list (map (\<lambda>(k, n). n - size_before before k) (filter (growth before) after))\<rparr>"
  using assms
proof (induction before after r rule: compare_sizes.induct)
  case (2 before k n after r)
  have "\<forall>a \<in> fst ` set (leakSizes r). a < k" using 2(2) by (auto simp: sorted_wrt_append)
  then have p: "map_put k v (leakSizes r) = leakSizes r @ [(k, v)]" for v by (rule map_put_above)
  from 2 show ?case by (auto simp: growth_def p sorted_wrt_append algebra_simps)
qed simp

lemma put_all_ok: "map_ok m \<Longrightarrow> map_ok (put_all ps m)"
  unfolding put_all_def by (induction ps arbitrary: m) auto

lemma captured_ok: "map_ok (objectCounts (captureSnapshot u now))" "map_ok (memoryUsage (captureSnapshot u now))"
  by (simp_all add: captureSnapshot_def put_all_ok)

text \<open>A comparison reports exactly the kinds that grew, in key order, with the difference as growth; the
  total is the sum of the differences of all size categories.\<close>

theorem compareSnapshots_reports:
  assumes "map_ok (objectCounts after)" and "map_ok (memoryUsage after)"
  shows "compareSnapshots before after =
    \<lparr>leakedTypes = map fst (filter (growth (objectCounts before)) (objectCounts after)),
     leakCounts = map (\<lambda>(k, n). (k, n - size_before (objectCounts before) k))
       (filter (growth (objectCounts before)) (objectCounts after)),
     leakSizes = map (\<lambda>(k, n). (k, n - size_before (memoryUsage before) k))
       (filter (growth (memoryUsage before)) (memoryUsage after)),
     totalLeakedSize = sum_list (map (\<lambda>(k, n). n - size_before (memoryUsage before) k)
       (filter (growth (memoryUsage before)) (memoryUsage after)))\<rparr>"
  using assms by (simp add: compareSnapshots_def empty_report_def compare_counts_eq compare_sizes_eq map_ok_def)

text \<open>The categories overlap, so the total counts a byte several times: 64 bytes of new strings are
  reported as 192 bytes leaked.\<close>

definition idle_usage :: memory_usage where
  "idle_usage = \<lparr>malloc_size = 1000, memory_used_size = 900, atom_count = 0, atom_size = 0, str_count = 0, str_size = 0,
     obj_count = 0, obj_size = 0, prop_count = 0, prop_size = 0, shape_count = 0, shape_size = 0, js_func_count = 0,
     js_func_size = 0, js_func_code_size = 0, c_func_count = 0, array_count = 0, fast_array_count = 0,
     binary_object_count = 0, binary_object_size = 0\<rparr>"

definition string_usage :: memory_usage where
  "string_usage = idle_usage\<lparr>malloc_size := 1064, memory_used_size := 964, str_count := 1, str_size := 64\<rparr>"

lemma compareSnapshots_reports_witness:
  "leakedTypes (compareSnapshots (captureSnapshot idle_usage 0) (captureSnapshot string_usage 1)) = [''strings''] \<and>
   totalLeakedSize (compareSnapshots (captureSnapshot idle_usage 0) (captureSnapshot string_usage 1)) = 192"
  unfolding compareSnapshots_reports [OF captured_ok]
  by (simp add: captureSnapshot_def idle_usage_def string_usage_def put_all_def growth_def size_before_def)

end
