(* ===== verification/Cli.thy ===== *)
theory Cli
  imports EventLoop Semver FileTree
begin

text \<open>
  Models \<open>src/main.cpp\<close>, the command line program, and \<open>src/repl/REPL.cpp\<close>, its interactive loop.

  \<^item> The arguments are those after the program's name. The disk is that of \<open>FileTree\<close>; \<open>std::stod\<close> is a
    parameter. Evaluating a script is a parameter too: it gives a result and the callbacks that are in
    the queue of the event loop when it returns.
  \<^item> While \<open>main\<close> drains the queue, other threads enqueue \<open>others_enqueue n\<close> during round \<open>n\<close>, and
    \<open>round_end n\<close> is the time, in milliseconds, read at the end of it. \<open>main_rounds\<close> is the fuel of the loop;
    \<open>main_drains\<close> shows that it is enough.
  \<^item> Of the initialisation of the modules only the two globals that \<open>main\<close> sets itself are kept.
\<close>

section \<open>The command line\<close>

record 'd cli_options =
  cpuThreads :: nat
  ioThreads :: nat
  ioFactor :: "'d option"   \<comment> \<open>\<open>None\<close> is the default, 3.0\<close>
  code :: string
  filename :: string
  executeCode :: bool
  printResult :: bool
  syntaxCheck :: bool
  showVersion :: bool
  inputTypeModule :: bool

definition no_options :: "'d cli_options" where
  "no_options = \<lparr>cpuThreads = 0, ioThreads = 0, ioFactor = None, code = [], filename = ''eval'', executeCode = False,
     printResult = False, syntaxCheck = False, showVersion = False, inputTypeModule = False\<rparr>"

text \<open>\<open>std::stoul\<close>: white space, a sign, digits; a minus sign negates modulo \<open>2 ^ 64\<close>.\<close>

definition stoul :: "string \<Rightarrow> nat cpp" where
  "stoul s =
     (let (sg, r) = read_sign (skip_ws s);
          ds = takeWhile is_digit r;
          n = digits_val ds
      in if ds = [] then Inl Invalid_argument
         else if n \<ge> 2 ^ 64 then Inl Out_of_range
         else Inr (nat ((sg * int n) mod 2 ^ 64)))"

datatype cli_stop =
    Usage                    \<comment> \<open>usage printed, status 1\<close>
  | Unknown_option string
  | No_file string
  | Uncaught cpp_exn

fun parse_args :: "(string \<Rightarrow> 'd cpp) \<Rightarrow> tree \<Rightarrow> string list \<Rightarrow> 'd cli_options \<Rightarrow> cli_stop + 'd cli_options" where
  "parse_args stod t [] opts = Inr opts"
| "parse_args stod t (arg # rest) opts =
     (case (arg = ''--cpu-threads'' \<or> arg = ''--io-threads'' \<or> arg = ''--io-threads-factor'' \<or> arg = ''-e'', rest) of
        (True, v # others) \<Rightarrow>
          (if arg = ''--cpu-threads'' then
             (case stoul v of Inl e \<Rightarrow> Inl (Uncaught e) | Inr n \<Rightarrow> parse_args stod t others (opts\<lparr>cpuThreads := n\<rparr>))
           else if arg = ''--io-threads'' then
             (case stoul v of Inl e \<Rightarrow> Inl (Uncaught e) | Inr n \<Rightarrow> parse_args stod t others (opts\<lparr>ioThreads := n\<rparr>))
           else if arg = ''--io-threads-factor'' then
             (case stod v of Inl e \<Rightarrow> Inl (Uncaught e) | Inr d \<Rightarrow> parse_args stod t others (opts\<lparr>ioFactor := Some d\<rparr>))
           else parse_args stod t others (opts\<lparr>executeCode := True, code := v\<rparr>))
      | _ \<Rightarrow>
          (if arg = ''-p'' \<or> arg = ''--print'' then parse_args stod t rest (opts\<lparr>printResult := True\<rparr>)
           else if arg = ''-c'' \<or> arg = ''--check'' then parse_args stod t rest (opts\<lparr>syntaxCheck := True\<rparr>)
           else if arg = ''-v'' \<or> arg = ''--version'' then parse_args stod t rest (opts\<lparr>showVersion := True\<rparr>)
           else if arg = ''--input-type=module'' then parse_args stod t rest (opts\<lparr>inputTypeModule := True\<rparr>)
           else if arg = [] \<or> hd arg \<noteq> CHR ''-'' then
             (if \<not> path_exists t arg then Inl (No_file arg)
              else parse_args stod t rest
                (opts\<lparr>filename := arg, code := (case read_tree t arg of Some c \<Rightarrow> c | None \<Rightarrow> [])\<rparr>))
           else Inl (Unknown_option arg)))"

text \<open>\<open>filename.find_last_of("/\\")\<close> and the directory made from it.\<close>

fun last_separator :: "string \<Rightarrow> nat option" where
  "last_separator [] = None"
| "last_separator (c # s) =
     (case last_separator s of Some i \<Rightarrow> Some (Suc i)
      | None \<Rightarrow> if c = CHR ''/'' \<or> c = CHR 0x5C then Some 0 else None)"

definition script_dirname :: "string \<Rightarrow> string" where
  "script_dirname f = (case last_separator f of Some i \<Rightarrow> take i f | None \<Rightarrow> ''.'')"

section \<open>Draining the event loop\<close>

fun main_loop :: "('cb \<Rightarrow> 'cb effect) \<Rightarrow> (nat \<Rightarrow> 'cb list) \<Rightarrow> (nat \<Rightarrow> int) \<Rightarrow> nat \<Rightarrow> nat \<Rightarrow> 'cb event_loop
    \<Rightarrow> (bool \<times> 'cb event_loop) option" where
  "main_loop eff incoming elapsed 0 n s = None"
| "main_loop eff incoming elapsed (Suc fuel) n s =
     (if \<not> hasPendingCallbacks s then Some (False, s)
      else
        (let s1 = processCallbacks eff s;
             s2 = fold enqueueCallback (incoming n) s1
         in if elapsed n > 30000 then Some (True, s2)
            else main_loop eff incoming elapsed fuel (Suc n) s2))"

definition main_rounds :: nat where
  "main_rounds = 3001"

section \<open>The program\<close>

datatype eval_result = Eval_exception "string option" | Eval_undefined | Eval_value "string option"

record ('d, 'cb) cli_env =
  disk :: tree
  stod :: "string \<Rightarrow> 'd cpp"
  eval_script :: "string \<Rightarrow> string \<Rightarrow> eval_result \<times> 'cb list"
  cb_effect :: "'cb \<Rightarrow> 'cb effect"
  others_enqueue :: "nat \<Rightarrow> 'cb list"
  round_end :: "nat \<Rightarrow> int"

datatype cli_end = Exit int | Terminated cpp_exn | In_repl | Out_of_rounds

record 'cb cli_run =
  ended :: cli_end
  out_lines :: "string list"
  err_lines :: "string list"
  globals :: "(string \<times> string) list"
  evaluated :: "(string \<times> string) list"
  loop_at_end :: "'cb event_loop"

definition not_run :: "cli_end \<Rightarrow> string list \<Rightarrow> string list \<Rightarrow> 'cb cli_run" where
  "not_run e os es = \<lparr>ended = e, out_lines = os, err_lines = es, globals = [], evaluated = [], loop_at_end = loop_init\<rparr>"

text \<open>The part of \<open>main\<close> from the creation of the context on.\<close>

definition run_script :: "('d, 'cb) cli_env \<Rightarrow> 'd cli_options \<Rightarrow> 'cb cli_run" where
  "run_script E opts =
     (let (r, cbs) = eval_script E (code opts) (filename opts);
          s = fold enqueueCallback cbs loop_init;
          base = \<lparr>ended = Exit 0, out_lines = [], err_lines = [],
            globals = [(''__filename'', filename opts), (''__dirname'', script_dirname (filename opts))],
            evaluated = [(code opts, filename opts)], loop_at_end = s\<rparr>
      in if syntaxCheck opts then
           (case r of
              Eval_exception m \<Rightarrow> base\<lparr>ended := Exit 1,
                err_lines := (case m of Some e \<Rightarrow> [''Syntax Error: '' @ e] | None \<Rightarrow> [])\<rparr>
            | _ \<Rightarrow> base)
         else
           (let printed = (case r of Eval_value (Some v) \<Rightarrow> if printResult opts then [v] else [] | _ \<Rightarrow> [])
            in case main_loop (cb_effect E) (others_enqueue E) (round_end E) main_rounds 0 s of
                 None \<Rightarrow> base\<lparr>ended := Out_of_rounds\<rparr>
               | Some (timeout, s1) \<Rightarrow> base\<lparr>out_lines := printed,
                   err_lines := (if timeout
                     then [''Warning: Event loop timeout reached. Some callbacks may not have completed.''] else []),
                   loop_at_end := processCallbacks (cb_effect E) s1\<rparr>))"

definition cli_main :: "('d, 'cb) cli_env \<Rightarrow> string list \<Rightarrow> 'cb cli_run" where
  "cli_main E args =
     (if args = [] then not_run (Exit 1) [] [''Usage'']
      else (case parse_args (stod E) (disk E) args no_options of
          Inl Usage \<Rightarrow> not_run (Exit 1) [] [''Usage'']
        | Inl (Unknown_option a) \<Rightarrow> not_run (Exit 1) [] [''Unknown option: '' @ a, ''Usage'']
        | Inl (No_file f) \<Rightarrow> not_run (Exit 1) [] [''Could not open file: '' @ f]
        | Inl (Uncaught e) \<Rightarrow> not_run (Terminated e) [] []
        | Inr opts \<Rightarrow>
            if showVersion opts then not_run (Exit 0) [''protoJS v0.1.0''] []
            else if code opts = [] \<and> \<not> executeCode opts \<and> \<not> syntaxCheck opts then not_run In_repl [] []
            else if code opts = [] \<and> \<not> executeCode opts then not_run (Exit 1) [] [''No code to execute'', ''Usage'']
            else run_script E opts))"

section \<open>Draining ends, and in order\<close>

lemma main_loop_fuel:
  assumes "\<And>k. elapsed k \<ge> 10 * (int k + 1)"
  shows "n + fuel \<ge> 3001 \<Longrightarrow> fuel > 0 \<Longrightarrow> \<exists>r. main_loop eff inc elapsed fuel n s = Some r"
proof (induction fuel arbitrary: n s)
  case (Suc fuel)
  show ?case
  proof (cases "elapsed n > 30000")
    case True
    then show ?thesis by (cases "hasPendingCallbacks s") (auto simp: Let_def)
  next
    case False
    with assms [of n] have "n < 3000" by simp
    with Suc.prems have "Suc n + fuel \<ge> 3001" "fuel > 0" by simp_all
    from Suc.IH [OF this] False show ?thesis by (auto simp: Let_def)
  qed
qed simp

lemma main_loop_idle:
  "\<not> hasPendingCallbacks s \<Longrightarrow> main_loop eff inc elapsed (Suc fuel) n s = Some (False, s)"
  by simp

lemma processCallbacks_eq:
  "executed (processCallbacks eff s) = executed s @ callbackQueue s"
  "accepted (processCallbacks eff s) = accepted s @ callbackQueue (processCallbacks eff s)"
  by (simp_all add: processCallbacks_def drain_eq)

text \<open>Between rounds everything accepted has been executed or waits in the queue.\<close>

lemma main_loop_accounts:
  "main_loop eff inc elapsed fuel n s = Some (timeout, t) \<Longrightarrow> accepted s = executed s @ callbackQueue s \<Longrightarrow>
     accepted t = executed t @ callbackQueue t \<and> (\<not> timeout \<longrightarrow> callbackQueue t = [])"
proof (induction fuel arbitrary: n s)
  case (Suc fuel)
  let ?s2 = "fold enqueueCallback (inc n) (processCallbacks eff s)"
  have "accepted ?s2 = executed ?s2 @ callbackQueue ?s2"
    using Suc.prems(2) by (simp add: fold_enqueue processCallbacks_eq)
  with Suc show ?case by (auto simp: Let_def hasPendingCallbacks_def split: if_splits)
qed simp

text \<open>C27: The loop of \<open>main\<close> ends, after 3001 rounds at most. Unless it ends by its timeout, every callback
  accepted by then has run, in the order of enqueueing. If the script leaves the queue empty it ends at
  once: what other threads enqueue later, such as the result of a \<open>Deferred\<close> still running, is not waited for.\<close>

theorem main_drains:
  assumes "\<And>k. elapsed k \<ge> 10 * (int k + 1)"
  shows "\<exists>timeout t. main_loop eff inc elapsed main_rounds 0 (fold enqueueCallback cbs loop_init) = Some (timeout, t)
    \<and> prefix cbs (accepted t) \<and> (if timeout then prefix (executed t) (accepted t) else executed t = accepted t)
    \<and> (if cbs = [] then accepted t = [] else True)"
proof -
  let ?s = "fold enqueueCallback cbs loop_init"
  obtain timeout t where t: "main_loop eff inc elapsed main_rounds 0 ?s = Some (timeout, t)"
    using main_loop_fuel [OF assms, of 0 main_rounds eff inc ?s] by (auto simp: main_rounds_def)
  have s: "accepted ?s = cbs" "executed ?s = []" "callbackQueue ?s = cbs"
    by (simp_all add: fold_enqueue loop_init_def)
  have mono: "prefix (accepted s) (accepted u)"
    if "main_loop eff inc elapsed fuel n s = Some (b, u)" for fuel n s b u
    using that
  proof (induction fuel arbitrary: n s)
    case (Suc fuel)
    let ?s2 = "fold enqueueCallback (inc n) (processCallbacks eff s)"
    have "prefix (accepted s) (accepted ?s2)" by (simp add: fold_enqueue processCallbacks_eq)
    then show ?case using Suc by (auto simp: Let_def split: if_splits dest: prefix_order.trans)
  qed simp
  have "accepted t = executed t @ callbackQueue t \<and> (\<not> timeout \<longrightarrow> callbackQueue t = [])"
    using main_loop_accounts [OF t] s by simp
  moreover have "prefix cbs (accepted t)" using mono [OF t] s by simp
  moreover have "accepted t = []" if "cbs = []"
  proof -
    have "\<not> hasPendingCallbacks ?s" using that by (simp add: hasPendingCallbacks_def loop_init_def)
    with t that have "t = loop_init" using main_loop_idle [of ?s eff inc elapsed 3000 0] by (simp add: main_rounds_def)
    then show ?thesis by (simp add: loop_init_def)
  qed
  ultimately show ?thesis using t by (cases timeout) auto
qed

lemma main_drains_witness:
  "\<exists>timeout t. main_loop (no_effect :: nat \<Rightarrow> nat effect) (\<lambda>n. [n]) (\<lambda>n. 10 * (int n + 1)) main_rounds 0
     (fold enqueueCallback [] loop_init) = Some (timeout, t) \<and> accepted t = []"
  using main_drains [of "\<lambda>n. 10 * (int n + 1)" no_effect "\<lambda>n. [n]" "[]"] by auto

section \<open>Results of the program\<close>

text \<open>A script that throws ends the program with status 0 and no message, as one that does not; and
  a syntax check evaluates the script.\<close>

theorem script_status:
  assumes "\<And>k. round_end E k \<ge> 10 * (int k + 1)"
  shows "ended (run_script E opts) =
      (if syntaxCheck opts \<and> (\<exists>m. fst (eval_script E (code opts) (filename opts)) = Eval_exception m) then Exit 1 else Exit 0)
    \<and> evaluated (run_script E opts) = [(code opts, filename opts)]
    \<and> (if syntaxCheck opts then True else set (err_lines (run_script E opts)) \<subseteq>
        {''Warning: Event loop timeout reached. Some callbacks may not have completed.''})"
proof -
  obtain r cbs where r: "eval_script E (code opts) (filename opts) = (r, cbs)" by force
  obtain timeout t where t: "main_loop (cb_effect E) (others_enqueue E) (round_end E) main_rounds 0
      (fold enqueueCallback cbs loop_init) = Some (timeout, t)"
    using main_drains [OF assms] by blast
  show ?thesis
    by (cases "syntaxCheck opts"; cases r) (auto simp: run_script_def r t Let_def)
qed

definition throwing_script :: "(nat, nat) cli_env" where
  "throwing_script = \<lparr>disk = [], stod = \<lambda>s. Inr 0, eval_script = \<lambda>c f. (Eval_exception (Some ''boom''), []),
     cb_effect = no_effect, others_enqueue = \<lambda>n. [], round_end = \<lambda>n. 10 * (int n + 1)\<rparr>"

lemma script_status_witness: "ended (run_script throwing_script no_options) = Exit 0"
  using script_status [of throwing_script no_options] by (simp add: throwing_script_def no_options_def)

section \<open>The interactive loop\<close>

text \<open>\<open>isCompleteInput\<close>: the counters of braces, brackets and parentheses, and the open quote.\<close>

record scan =
  braces :: int
  brackets :: int
  parens :: int
  string_char :: "char option"

definition scan_char :: "char \<Rightarrow> scan \<Rightarrow> scan" where
  "scan_char c s = (case string_char s of
     None \<Rightarrow>
       if c = CHR 0x22 \<or> c = CHR 0x27 then s\<lparr>string_char := Some c\<rparr>
       else if c = CHR ''{'' then s\<lparr>braces := braces s + 1\<rparr>
       else if c = CHR ''}'' then s\<lparr>braces := braces s - 1\<rparr>
       else if c = CHR ''['' then s\<lparr>brackets := brackets s + 1\<rparr>
       else if c = CHR '']'' then s\<lparr>brackets := brackets s - 1\<rparr>
       else if c = CHR ''('' then s\<lparr>parens := parens s + 1\<rparr>
       else if c = CHR '')'' then s\<lparr>parens := parens s - 1\<rparr>
       else s
   | Some q \<Rightarrow> if c = q then s\<lparr>string_char := None\<rparr> else s)"

definition isCompleteInput :: "string \<Rightarrow> bool" where
  "isCompleteInput input =
     (let s = fold scan_char input \<lparr>braces = 0, brackets = 0, parens = 0, string_char = None\<rparr>
      in braces s = 0 \<and> brackets s = 0 \<and> parens s = 0 \<and> string_char s = None)"

definition isSpecialCommand :: "string \<Rightarrow> bool" where
  "isSpecialCommand input \<longleftrightarrow> input \<noteq> [] \<and> hd input = CHR ''.''"

record repl =
  history :: "string list"
  input :: string
  lineCount :: nat
  printed :: "string list"
  exited :: bool

definition repl_start :: repl where
  "repl_start = \<lparr>history = [], input = [], lineCount = 0,
     printed = [''protoJS REPL v0.1.0'', ''Type .help for commands, .exit to exit''], exited = False\<rparr>"

definition handleSpecialCommand :: "string \<Rightarrow> repl \<Rightarrow> repl" where
  "handleSpecialCommand command s =
     (if command = ''.exit'' \<or> command = ''.quit''
      then s\<lparr>printed := printed s @ [''Exiting REPL''], exited := True\<rparr>
      else if command = ''.help'' then s\<lparr>printed := printed s @
        [''Special commands:'', ''  .help    Show this help'', ''  .exit    Exit REPL'',
         ''  .clear   Clear screen (not implemented)'']\<rparr>
      else if command = ''.clear'' then s\<lparr>printed := printed s @ [CHR 0x1B # ''[2J'' @ CHR 0x1B # ''[H'']\<rparr>
      else s\<lparr>printed := printed s @ [''Unknown command: '' @ command]\<rparr>)"

text \<open>One round of the loop, with the line read and what evaluation prints. At the end of the input
  every line read is empty. \<open>exited\<close> is the call of \<open>exit\<close>, after which no round follows.\<close>

definition repl_round :: "(string \<Rightarrow> string list) \<Rightarrow> string \<Rightarrow> repl \<Rightarrow> repl" where
  "repl_round ev line s =
     (if exited s then s
      else if line = [] \<and> lineCount s = 0 then s
      else if lineCount s = 0 \<and> isSpecialCommand line then handleSpecialCommand line s
      else
        (let inp = input s @ line @ (if lineCount s > 0 then [CHR 0x0A] else []);
             s1 = s\<lparr>input := inp, lineCount := lineCount s + 1\<rparr>
         in if isCompleteInput inp \<or> line = [] then
              (if inp \<noteq> [] then s1\<lparr>history := history s1 @ [inp], printed := printed s1 @ ev inp, input := [], lineCount := 0\<rparr>
               else s1\<lparr>input := [], lineCount := 0\<rparr>)
            else s1))"

definition repl_run :: "(string \<Rightarrow> string list) \<Rightarrow> string list \<Rightarrow> repl \<Rightarrow> repl" where
  "repl_run ev ls s = fold (repl_round ev) ls s"

lemma repl_empty_lines:
  assumes "\<not> exited s"
  shows "\<not> exited (repl_run ev (replicate n []) s)"
  using assms
proof (induction n arbitrary: s)
  case (Suc n)
  have "\<not> exited (repl_round ev [] s)" using Suc.prems by (auto simp: repl_round_def Let_def isSpecialCommand_def)
  from Suc.IH [OF this] show ?case by (simp add: repl_run_def)
qed (simp add: repl_run_def)

text \<open>Lines that stay incomplete: the second follows the first without a line break.\<close>

fun joined :: "string list \<Rightarrow> string" where
  "joined [] = []"
| "joined (l # ls) = l @ concat (map (\<lambda>x. x @ [CHR 0x0A]) ls)"

lemma joined_snoc: "ls \<noteq> [] \<Longrightarrow> joined (ls @ [l]) = joined ls @ l @ [CHR 0x0A]"
  by (cases ls) simp_all

lemma repl_collects:
  assumes "list_all (\<lambda>l. l \<noteq> []) ls" and "ls \<noteq> []" and "\<not> isSpecialCommand (hd ls)"
    and "\<And>as bs. ls = as @ bs \<Longrightarrow> as \<noteq> [] \<Longrightarrow> \<not> isCompleteInput (joined as)"
    and "\<not> exited s" and "lineCount s = 0" and "input s = []"
  shows "repl_run ev ls s = s\<lparr>input := joined ls, lineCount := length ls\<rparr>"
  using assms(1-4)
proof (induction ls rule: rev_induct)
  case (snoc l ls)
  have l: "l \<noteq> []" "\<not> isCompleteInput (joined (ls @ [l]))"
    using snoc.prems(1) snoc.prems(4) [of "ls @ [l]" "[]"] by simp_all
  show ?case
  proof (cases "ls = []")
    case True
    then show ?thesis using l snoc.prems(3) assms(5-7) by (simp add: repl_run_def repl_round_def Let_def)
  next
    case False
    have "\<not> isCompleteInput (joined as)" if "ls = as @ bs" "as \<noteq> []" for as bs
      using snoc.prems(4) [of as "bs @ [l]"] that by simp
    moreover have "hd ls = hd (ls @ [l])" using False by simp
    ultimately have "repl_run ev ls s = s\<lparr>input := joined ls, lineCount := length ls\<rparr>"
      using snoc.IH False snoc.prems(1,3) by simp
    with l False assms(5) show ?thesis
      by (simp add: repl_run_def repl_round_def Let_def joined_snoc)
  qed
qed simp

text \<open>Input over several lines is evaluated when it first becomes complete, as the first line, directly
  followed by the second, and the others each ended by a line break: a comment at the end of the first
  line swallows the second. At the end of the input the loop goes on for ever, reading empty lines.\<close>

theorem repl_evaluates_joined:
  assumes "list_all (\<lambda>l. l \<noteq> []) (ls @ [l])" and "ls \<noteq> []" and "\<not> isSpecialCommand (hd ls)"
    and "\<And>as bs. ls = as @ bs \<Longrightarrow> as \<noteq> [] \<Longrightarrow> \<not> isCompleteInput (joined as)"
    and "isCompleteInput (joined (ls @ [l]))"
  shows "history (repl_run ev (ls @ [l]) repl_start) = [joined (ls @ [l])]
    \<and> \<not> exited (repl_run ev ((ls @ [l]) @ replicate n []) repl_start)"
proof -
  have "repl_run ev ls repl_start = repl_start\<lparr>input := joined ls, lineCount := length ls\<rparr>"
    by (rule repl_collects) (use assms in \<open>simp_all add: repl_start_def\<close>)
  moreover have "joined (ls @ [l]) \<noteq> []" using assms(2) by (simp add: joined_snoc)
  ultimately have h: "history (repl_run ev (ls @ [l]) repl_start) = [joined (ls @ [l])]"
    and e: "\<not> exited (repl_run ev (ls @ [l]) repl_start)"
    using assms(1,2,5) by (simp_all add: repl_run_def repl_round_def Let_def joined_snoc repl_start_def)
  from repl_empty_lines [OF e, of ev n] have "\<not> exited (repl_run ev ((ls @ [l]) @ replicate n []) repl_start)"
    by (simp add: repl_run_def)
  with h show ?thesis by simp
qed

lemma repl_evaluates_joined_witness:
  "history (repl_run (\<lambda>s. []) [''f( // x'', ''2)''] repl_start) = [''f( // x2)'' @ [CHR 0x0A]]"
proof -
  have c: "\<not> isCompleteInput (joined [''f( // x''])" "isCompleteInput (joined ([''f( // x''] @ [''2)'']))" by code_simp+
  have "\<not> isCompleteInput (joined as)" if "[''f( // x''] = as @ bs" "as \<noteq> []" for as bs
    using that c(1) by (cases as) auto
  from repl_evaluates_joined [OF _ _ _ this c(2), where ev = "\<lambda>s. []"] show ?thesis
    by (simp add: isSpecialCommand_def)
qed

end
