(* ===== verification/ProtoCollections.thy ===== *)
theory ProtoCollections
  imports TypeBridge
begin

text \<open>
  Models \<open>src/modules/ProtoCoreModule.cpp\<close>: the classes \<open>Set\<close>, \<open>Multiset\<close> and \<open>SparseList\<close> that wrap
  protoCore's persistent collections, \<open>Tuple\<close>, and the functions about mutability.

  \<^item> protoCore's collections are a parameter (\<open>collections\<close>), like its objects in \<open>TypeBridge\<close>;
    \<open>set_ok\<close> and \<open>clone_ok\<close> state what their documentation promises.
  \<^item> An object of one of the classes is the address of a cell, which holds the current version of its
    collection (\<open>js_mallocz\<close> of one pointer). \<open>JS_GetOpaque\<close> on an object of another class gives null.
  \<^item> Values convert with \<open>TypeBridge.fromJS\<close>; \<open>None\<close> is that its recursion did not end. What it gives to
    \<open>registerMapping\<close> collects in \<open>registered\<close>. \<open>to_uint32\<close> is \<open>JS_ToUint32\<close>.
\<close>

record ('d, 'p, 's, 'm, 'l) collections =
  set_new :: 's
  set_add :: "'s \<Rightarrow> 'p \<Rightarrow> 's"
  set_has :: "'s \<Rightarrow> 'p \<Rightarrow> bool"
  set_remove :: "'s \<Rightarrow> 'p \<Rightarrow> 's"
  set_size :: "'s \<Rightarrow> nat"
  multiset_new :: 'm
  multiset_add :: "'m \<Rightarrow> 'p \<Rightarrow> 'm"
  multiset_count :: "'m \<Rightarrow> 'p \<Rightarrow> 'p"
  multiset_remove :: "'m \<Rightarrow> 'p \<Rightarrow> 'm"
  multiset_size :: "'m \<Rightarrow> nat"
  sparse_new :: 'l
  sparse_set :: "'l \<Rightarrow> nat \<Rightarrow> 'p \<Rightarrow> 'l"
  sparse_get :: "'l \<Rightarrow> nat \<Rightarrow> 'p"
  sparse_has :: "'l \<Rightarrow> nat \<Rightarrow> bool"
  sparse_size :: "'l \<Rightarrow> nat"
  tuple_of :: "'p list \<Rightarrow> 'p option"
  clone :: "'p \<Rightarrow> bool \<Rightarrow> 'p"
  to_uint32 :: "'d jsval \<Rightarrow> nat"
  wrapper :: bool

datatype ('s, 'm, 'l) cell = CSet 's | CMultiset 'm | CSparse 'l

record ('s, 'm, 'l) pc_state =
  cells :: "('s, 'm, 'l) cell list"
  registered :: "nat list"

datatype 'd pc_result = PcThrow string | PcRef nat | PcBool bool | PcInt int | PcTree "'d jstree" | PcUndefined

definition new_int32 :: "nat \<Rightarrow> int" where
  "new_int32 k = (int k + 2 ^ 31) mod 2 ^ 32 - 2 ^ 31"

section \<open>Cells and arrays\<close>

definition opaque_at :: "('s, 'm, 'l) pc_state \<Rightarrow> nat option \<Rightarrow> ('s, 'm, 'l) cell option" where
  "opaque_at st this = (case this of
     None \<Rightarrow> None | Some i \<Rightarrow> if i < length (cells st) then Some (cells st ! i) else None)"

definition get_set :: "('s, 'm, 'l) pc_state \<Rightarrow> nat option \<Rightarrow> 's option" where
  "get_set st this = (case opaque_at st this of Some (CSet s) \<Rightarrow> Some s | _ \<Rightarrow> None)"

definition get_multiset :: "('s, 'm, 'l) pc_state \<Rightarrow> nat option \<Rightarrow> 'm option" where
  "get_multiset st this = (case opaque_at st this of Some (CMultiset m) \<Rightarrow> Some m | _ \<Rightarrow> None)"

definition get_sparse :: "('s, 'm, 'l) pc_state \<Rightarrow> nat option \<Rightarrow> 'l option" where
  "get_sparse st this = (case opaque_at st this of Some (CSparse l) \<Rightarrow> Some l | _ \<Rightarrow> None)"

definition put_cell :: "nat option \<Rightarrow> ('s, 'm, 'l) cell \<Rightarrow> ('s, 'm, 'l) pc_state \<Rightarrow> ('s, 'm, 'l) pc_state" where
  "put_cell this c st = (case this of None \<Rightarrow> st | Some i \<Rightarrow> st\<lparr>cells := (cells st)[i := c]\<rparr>)"

definition new_cell :: "('s, 'm, 'l) cell \<Rightarrow> ('s, 'm, 'l) pc_state \<Rightarrow> 'd pc_result \<times> ('s, 'm, 'l) pc_state" where
  "new_cell c st = (PcRef (length (cells st)), st\<lparr>cells := cells st @ [c]\<rparr>)"

definition this_ref :: "nat option \<Rightarrow> 'd pc_result" where
  "this_ref this = (case this of Some i \<Rightarrow> PcRef i | None \<Rightarrow> PcUndefined)"

text \<open>The elements of an array, a hole read as undefined; \<open>None\<close> if the value is not an array.\<close>

definition array_items :: "'d jsheap \<Rightarrow> 'd jsval \<Rightarrow> 'd jsval list option" where
  "array_items h v = (case v of
     JsRef a \<Rightarrow>
       (if a < length h then
          (case h ! a of OArray items \<Rightarrow> Some (map (\<lambda>x. case x of Some y \<Rightarrow> y | None \<Rightarrow> JsUndefined) items) | _ \<Rightarrow> None)
        else None)
   | _ \<Rightarrow> None)"

definition convert :: "nat \<Rightarrow> ('d, 'p) bridge_env \<Rightarrow> 'd jsheap \<Rightarrow> 'd jsval \<Rightarrow> ('s, 'm, 'l) pc_state
    \<Rightarrow> ('p \<times> ('s, 'm, 'l) pc_state) option" where
  "convert n E h v st = map_option (\<lambda>(p, r). (p, st\<lparr>registered := r\<rparr>)) (fromJS n E h v (registered st))"

fun convert_into :: "('c \<Rightarrow> 'p \<Rightarrow> 'c) \<Rightarrow> nat \<Rightarrow> ('d, 'p) bridge_env \<Rightarrow> 'd jsheap \<Rightarrow> 'd jsval list \<Rightarrow> 'c
    \<Rightarrow> ('s, 'm, 'l) pc_state \<Rightarrow> ('c \<times> ('s, 'm, 'l) pc_state) option" where
  "convert_into add n E h [] c st = Some (c, st)"
| "convert_into add n E h (v # vs) c st = (case convert n E h v st of
     None \<Rightarrow> None | Some (p, st1) \<Rightarrow> convert_into add n E h vs (add c p) st1)"

definition initial_items :: "'d jsheap \<Rightarrow> 'd jsval list \<Rightarrow> 'd jsval list" where
  "initial_items h args = (case args of [] \<Rightarrow> []
     | v # _ \<Rightarrow> (case array_items h v of Some vs \<Rightarrow> vs | None \<Rightarrow> []))"

type_synonym ('d, 's, 'm, 'l) pc_outcome = "('d pc_result \<times> ('s, 'm, 'l) pc_state) option"

definition no_wrapper :: string where
  "no_wrapper = ''ProtoCoreModule: JSContextWrapper not found''"

section \<open>Set\<close>

definition SetConstructor :: "nat \<Rightarrow> ('d, 'p) bridge_env \<Rightarrow> ('d, 'p, 's, 'm, 'l) collections \<Rightarrow> 'd jsheap \<Rightarrow> 'd jsval list \<Rightarrow> ('s, 'm, 'l) pc_state \<Rightarrow> ('d, 's, 'm, 'l) pc_outcome" where
  "SetConstructor n E P h args st =
     (if \<not> wrapper P then Some (PcThrow no_wrapper, st)
      else (case convert_into (set_add P) n E h (initial_items h args) (set_new P) st of
          None \<Rightarrow> None | Some (c, st1) \<Rightarrow> Some (new_cell (CSet c) st1)))"

definition SetAdd :: "nat \<Rightarrow> ('d, 'p) bridge_env \<Rightarrow> ('d, 'p, 's, 'm, 'l) collections \<Rightarrow> 'd jsheap
    \<Rightarrow> nat option \<Rightarrow> 'd jsval list \<Rightarrow> ('s, 'm, 'l) pc_state \<Rightarrow> ('d, 's, 'm, 'l) pc_outcome" where
  "SetAdd n E P h this args st = (case args of
     [] \<Rightarrow> Some (PcThrow ''Set.add expects a value'', st)
   | v # _ \<Rightarrow>
       (case get_set st this of
          None \<Rightarrow> Some (PcThrow ''Invalid Set object'', st)
        | Some c \<Rightarrow>
            (case convert n E h v st of
               None \<Rightarrow> None
             | Some (p, st1) \<Rightarrow> Some (this_ref this, put_cell this (CSet (set_add P c p)) st1))))"

definition SetHas :: "nat \<Rightarrow> ('d, 'p) bridge_env \<Rightarrow> ('d, 'p, 's, 'm, 'l) collections \<Rightarrow> 'd jsheap
    \<Rightarrow> nat option \<Rightarrow> 'd jsval list \<Rightarrow> ('s, 'm, 'l) pc_state \<Rightarrow> ('d, 's, 'm, 'l) pc_outcome" where
  "SetHas n E P h this args st = (case args of
     [] \<Rightarrow> Some (PcThrow ''Set.has expects a value'', st)
   | v # _ \<Rightarrow>
       (case get_set st this of
          None \<Rightarrow> Some (PcThrow ''Invalid Set object'', st)
        | Some c \<Rightarrow>
            (case convert n E h v st of
               None \<Rightarrow> None
             | Some (p, st1) \<Rightarrow> Some (PcBool (set_has P c p), st1))))"

definition SetRemove :: "nat \<Rightarrow> ('d, 'p) bridge_env \<Rightarrow> ('d, 'p, 's, 'm, 'l) collections \<Rightarrow> 'd jsheap
    \<Rightarrow> nat option \<Rightarrow> 'd jsval list \<Rightarrow> ('s, 'm, 'l) pc_state \<Rightarrow> ('d, 's, 'm, 'l) pc_outcome" where
  "SetRemove n E P h this args st = (case args of
     [] \<Rightarrow> Some (PcThrow ''Set.remove expects a value'', st)
   | v # _ \<Rightarrow>
       (case get_set st this of
          None \<Rightarrow> Some (PcThrow ''Invalid Set object'', st)
        | Some c \<Rightarrow>
            (case convert n E h v st of
               None \<Rightarrow> None
             | Some (p, st1) \<Rightarrow> Some (this_ref this, put_cell this (CSet (set_remove P c p)) st1))))"

definition SetSize :: "('d, 'p, 's, 'm, 'l) collections \<Rightarrow> nat option \<Rightarrow> ('s, 'm, 'l) pc_state \<Rightarrow> 'd pc_result" where
  "SetSize P this st = (case get_set st this of
     None \<Rightarrow> PcThrow ''Invalid Set object'' | Some c \<Rightarrow> PcInt (new_int32 (set_size P c)))"

section \<open>Multiset\<close>

definition MultisetConstructor :: "nat \<Rightarrow> ('d, 'p) bridge_env \<Rightarrow> ('d, 'p, 's, 'm, 'l) collections \<Rightarrow> 'd jsheap \<Rightarrow> 'd jsval list \<Rightarrow> ('s, 'm, 'l) pc_state \<Rightarrow> ('d, 's, 'm, 'l) pc_outcome" where
  "MultisetConstructor n E P h args st =
     (if \<not> wrapper P then Some (PcThrow no_wrapper, st)
      else (case convert_into (multiset_add P) n E h (initial_items h args) (multiset_new P) st of
          None \<Rightarrow> None | Some (c, st1) \<Rightarrow> Some (new_cell (CMultiset c) st1)))"

definition MultisetAdd :: "nat \<Rightarrow> ('d, 'p) bridge_env \<Rightarrow> ('d, 'p, 's, 'm, 'l) collections \<Rightarrow> 'd jsheap
    \<Rightarrow> nat option \<Rightarrow> 'd jsval list \<Rightarrow> ('s, 'm, 'l) pc_state \<Rightarrow> ('d, 's, 'm, 'l) pc_outcome" where
  "MultisetAdd n E P h this args st = (case args of
     [] \<Rightarrow> Some (PcThrow ''Multiset.add expects a value'', st)
   | v # _ \<Rightarrow>
       (case get_multiset st this of
          None \<Rightarrow> Some (PcThrow ''Invalid Multiset object'', st)
        | Some c \<Rightarrow>
            (case convert n E h v st of
               None \<Rightarrow> None
             | Some (p, st1) \<Rightarrow> Some (this_ref this, put_cell this (CMultiset (multiset_add P c p)) st1))))"

definition MultisetCount :: "nat \<Rightarrow> ('d, 'p) bridge_env \<Rightarrow> ('d, 'p, 's, 'm, 'l) collections \<Rightarrow> 'd jsheap
    \<Rightarrow> nat option \<Rightarrow> 'd jsval list \<Rightarrow> ('s, 'm, 'l) pc_state \<Rightarrow> ('d, 's, 'm, 'l) pc_outcome" where
  "MultisetCount n E P h this args st = (case args of
     [] \<Rightarrow> Some (PcThrow ''Multiset.count expects a value'', st)
   | v # _ \<Rightarrow>
       (case get_multiset st this of
          None \<Rightarrow> Some (PcThrow ''Invalid Multiset object'', st)
        | Some c \<Rightarrow>
            (case convert n E h v st of
               None \<Rightarrow> None
             | Some (p, st1) \<Rightarrow> map_option (\<lambda>t. (PcTree t, st1)) (toJS n E (multiset_count P c p)))))"

definition MultisetRemove :: "nat \<Rightarrow> ('d, 'p) bridge_env \<Rightarrow> ('d, 'p, 's, 'm, 'l) collections \<Rightarrow> 'd jsheap
    \<Rightarrow> nat option \<Rightarrow> 'd jsval list \<Rightarrow> ('s, 'm, 'l) pc_state \<Rightarrow> ('d, 's, 'm, 'l) pc_outcome" where
  "MultisetRemove n E P h this args st = (case args of
     [] \<Rightarrow> Some (PcThrow ''Multiset.remove expects a value'', st)
   | v # _ \<Rightarrow>
       (case get_multiset st this of
          None \<Rightarrow> Some (PcThrow ''Invalid Multiset object'', st)
        | Some c \<Rightarrow>
            (case convert n E h v st of
               None \<Rightarrow> None
             | Some (p, st1) \<Rightarrow> Some (this_ref this, put_cell this (CMultiset (multiset_remove P c p)) st1))))"

definition MultisetSize :: "('d, 'p, 's, 'm, 'l) collections \<Rightarrow> nat option \<Rightarrow> ('s, 'm, 'l) pc_state \<Rightarrow> 'd pc_result" where
  "MultisetSize P this st = (case get_multiset st this of
     None \<Rightarrow> PcThrow ''Invalid Multiset object'' | Some c \<Rightarrow> PcInt (new_int32 (multiset_size P c)))"

section \<open>SparseList\<close>

definition SparseListConstructor :: "('d, 'p, 's, 'm, 'l) collections \<Rightarrow> ('s, 'm, 'l) pc_state \<Rightarrow> 'd pc_result \<times> ('s, 'm, 'l) pc_state" where
  "SparseListConstructor P st =
     (if \<not> wrapper P then (PcThrow no_wrapper, st) else new_cell (CSparse (sparse_new P)) st)"

definition SparseListSet :: "nat \<Rightarrow> ('d, 'p) bridge_env \<Rightarrow> ('d, 'p, 's, 'm, 'l) collections \<Rightarrow> 'd jsheap
    \<Rightarrow> nat option \<Rightarrow> 'd jsval list \<Rightarrow> ('s, 'm, 'l) pc_state \<Rightarrow> ('d, 's, 'm, 'l) pc_outcome" where
  "SparseListSet n E P h this args st = (case args of
     i # v # _ \<Rightarrow>
       (case get_sparse st this of
          None \<Rightarrow> Some (PcThrow ''Invalid SparseList object'', st)
        | Some c \<Rightarrow>
            (case convert n E h v st of
               None \<Rightarrow> None
             | Some (p, st1) \<Rightarrow> Some (this_ref this, put_cell this (CSparse (sparse_set P c (to_uint32 P i) p)) st1)))
   | _ \<Rightarrow> Some (PcThrow ''SparseList.set expects index and value'', st))"

definition SparseListGet :: "nat \<Rightarrow> ('d, 'p) bridge_env \<Rightarrow> ('d, 'p, 's, 'm, 'l) collections
    \<Rightarrow> nat option \<Rightarrow> 'd jsval list \<Rightarrow> ('s, 'm, 'l) pc_state \<Rightarrow> 'd pc_result option" where
  "SparseListGet n E P this args st = (case args of
     [] \<Rightarrow> Some (PcThrow ''SparseList.get expects an index'')
   | i # _ \<Rightarrow>
       (case get_sparse st this of
          None \<Rightarrow> Some (PcThrow ''Invalid SparseList object'')
        | Some c \<Rightarrow>
            if sparse_has P c (to_uint32 P i)
            then map_option PcTree (toJS n E (sparse_get P c (to_uint32 P i))) else Some PcUndefined))"

definition SparseListHas :: "('d, 'p, 's, 'm, 'l) collections \<Rightarrow> nat option \<Rightarrow> 'd jsval list
    \<Rightarrow> ('s, 'm, 'l) pc_state \<Rightarrow> 'd pc_result" where
  "SparseListHas P this args st = (case args of
     [] \<Rightarrow> PcThrow ''SparseList.has expects an index''
   | i # _ \<Rightarrow>
       (case get_sparse st this of
          None \<Rightarrow> PcThrow ''Invalid SparseList object''
        | Some c \<Rightarrow> PcBool (sparse_has P c (to_uint32 P i))))"

definition SparseListSize :: "('d, 'p, 's, 'm, 'l) collections \<Rightarrow> nat option \<Rightarrow> ('s, 'm, 'l) pc_state \<Rightarrow> 'd pc_result" where
  "SparseListSize P this st = (case get_sparse st this of
     None \<Rightarrow> PcThrow ''Invalid SparseList object'' | Some c \<Rightarrow> PcInt (new_int32 (sparse_size P c)))"

section \<open>Tuple and mutability\<close>

definition Tuple :: "nat \<Rightarrow> ('d, 'p) bridge_env \<Rightarrow> ('d, 'p, 's, 'm, 'l) collections \<Rightarrow> 'd jsheap \<Rightarrow> 'd jsval list \<Rightarrow> ('s, 'm, 'l) pc_state \<Rightarrow> ('d, 's, 'm, 'l) pc_outcome" where
  "Tuple n E P h args st = (case args of
     [] \<Rightarrow> Some (PcThrow ''Tuple expects an array'', st)
   | v # _ \<Rightarrow>
       (case array_items h v of
          None \<Rightarrow> Some (PcThrow ''Tuple expects an array'', st)
        | Some vs \<Rightarrow>
            if \<not> wrapper P then Some (PcThrow no_wrapper, st)
            else (case convert_into (\<lambda>ps p. ps @ [p]) n E h vs [] st of
                None \<Rightarrow> None
              | Some (ps, st1) \<Rightarrow>
                  (case tuple_of P ps of
                     None \<Rightarrow> Some (PcUndefined, st1)
                   | Some t \<Rightarrow> map_option (\<lambda>x. (PcTree x, st1)) (toJS n E t)))))"

text \<open>\<open>ImmutableObject\<close>, \<open>MutableObject\<close>, \<open>makeImmutable\<close> and \<open>makeMutable\<close> differ in the flag and in
  the name the error gives.\<close>

definition is_object :: "'d jsval \<Rightarrow> bool" where
  "is_object v \<longleftrightarrow> (case v of JsRef a \<Rightarrow> True | _ \<Rightarrow> False)"

definition clone_object :: "string \<Rightarrow> bool \<Rightarrow> nat \<Rightarrow> ('d, 'p) bridge_env \<Rightarrow> ('d, 'p, 's, 'm, 'l) collections \<Rightarrow> 'd jsheap \<Rightarrow> 'd jsval list \<Rightarrow> ('s, 'm, 'l) pc_state \<Rightarrow> ('d, 's, 'm, 'l) pc_outcome" where
  "clone_object name mutable n E P h args st =
     (if args = [] \<or> \<not> is_object (hd args) then Some (PcThrow (name @ '' expects an object''), st)
      else (case convert n E h (hd args) st of
          None \<Rightarrow> None
        | Some (p, st1) \<Rightarrow> map_option (\<lambda>x. (PcTree x, st1)) (toJS n E (clone P p mutable))))"

definition ImmutableObject :: "nat \<Rightarrow> ('d, 'p) bridge_env \<Rightarrow> ('d, 'p, 's, 'm, 'l) collections \<Rightarrow> 'd jsheap \<Rightarrow> 'd jsval list \<Rightarrow> ('s, 'm, 'l) pc_state \<Rightarrow> ('d, 's, 'm, 'l) pc_outcome" where
  "ImmutableObject = clone_object ''ImmutableObject'' False"

definition MutableObject :: "nat \<Rightarrow> ('d, 'p) bridge_env \<Rightarrow> ('d, 'p, 's, 'm, 'l) collections \<Rightarrow> 'd jsheap \<Rightarrow> 'd jsval list \<Rightarrow> ('s, 'm, 'l) pc_state \<Rightarrow> ('d, 's, 'm, 'l) pc_outcome" where
  "MutableObject = clone_object ''MutableObject'' True"

definition MakeImmutable :: "nat \<Rightarrow> ('d, 'p) bridge_env \<Rightarrow> ('d, 'p, 's, 'm, 'l) collections \<Rightarrow> 'd jsheap \<Rightarrow> 'd jsval list \<Rightarrow> ('s, 'm, 'l) pc_state \<Rightarrow> ('d, 's, 'm, 'l) pc_outcome" where
  "MakeImmutable = clone_object ''makeImmutable'' False"

definition MakeMutable :: "nat \<Rightarrow> ('d, 'p) bridge_env \<Rightarrow> ('d, 'p, 's, 'm, 'l) collections \<Rightarrow> 'd jsheap \<Rightarrow> 'd jsval list \<Rightarrow> ('s, 'm, 'l) pc_state \<Rightarrow> ('d, 's, 'm, 'l) pc_outcome" where
  "MakeMutable = clone_object ''makeMutable'' True"

definition IsImmutable :: "nat \<Rightarrow> ('d, 'p) bridge_env \<Rightarrow> 'd jsheap \<Rightarrow> 'd jsval list \<Rightarrow> ('s, 'm, 'l) pc_state
    \<Rightarrow> ('d, 's, 'm, 'l) pc_outcome" where
  "IsImmutable n E h args st = (case args of
     [] \<Rightarrow> Some (PcThrow ''isImmutable expects an object'', st)
   | v # _ \<Rightarrow>
       (case convert n E h v st of
          None \<Rightarrow> None | Some (p, st1) \<Rightarrow> Some (PcBool (\<not> is_cell E p), st1)))"

section \<open>A set object implements a set of converted values\<close>

definition set_ok :: "('d, 'p, 's, 'm, 'l) collections \<Rightarrow> ('s \<Rightarrow> 'p set) \<Rightarrow> bool" where
  "set_ok P elems \<longleftrightarrow>
     elems (set_new P) = {} \<and>
     (\<forall>s p. elems (set_add P s p) = insert p (elems s) \<and> elems (set_remove P s p) = elems s - {p}
        \<and> set_has P s p = (p \<in> elems s)) \<and>
     (\<forall>s. set_size P s = card (elems s))"

datatype 'd set_call = Add "'d jsval" | Remove "'d jsval"

fun set_do :: "nat \<Rightarrow> ('d, 'p) bridge_env \<Rightarrow> ('d, 'p, 's, 'm, 'l) collections \<Rightarrow> 'd jsheap \<Rightarrow> nat
    \<Rightarrow> 'd set_call \<Rightarrow> ('s, 'm, 'l) pc_state \<Rightarrow> ('d, 's, 'm, 'l) pc_outcome" where
  "set_do n E P h i (Add v) st = SetAdd n E P h (Some i) [v] st"
| "set_do n E P h i (Remove v) st = SetRemove n E P h (Some i) [v] st"

fun set_run :: "nat \<Rightarrow> ('d, 'p) bridge_env \<Rightarrow> ('d, 'p, 's, 'm, 'l) collections \<Rightarrow> 'd jsheap \<Rightarrow> nat
    \<Rightarrow> 'd set_call list \<Rightarrow> ('s, 'm, 'l) pc_state \<Rightarrow> ('s, 'm, 'l) pc_state option" where
  "set_run n E P h i [] st = Some st"
| "set_run n E P h i (c # cs) st = (case set_do n E P h i c st of
     None \<Rightarrow> None | Some (r, st1) \<Rightarrow> set_run n E P h i cs st1)"

text \<open>The reference: the calls on a set of protoCore values.\<close>

definition value_of :: "nat \<Rightarrow> ('d, 'p) bridge_env \<Rightarrow> 'd jsheap \<Rightarrow> 'd jsval \<Rightarrow> 'p" where
  "value_of n E h v = fst (the (fromJS n E h v []))"

fun set_spec :: "nat \<Rightarrow> ('d, 'p) bridge_env \<Rightarrow> 'd jsheap \<Rightarrow> 'd set_call \<Rightarrow> 'p set \<Rightarrow> 'p set" where
  "set_spec n E h (Add v) A = insert (value_of n E h v) A"
| "set_spec n E h (Remove v) A = A - {value_of n E h v}"

text \<open>What a conversion yields does not depend on what was registered before.\<close>

lemma from_all_registered:
  assumes "\<And>v r. f v r = map_option (\<lambda>(p, s). (p, r @ s)) (f v [])"
  shows "from_all f vs reg = map_option (\<lambda>(ps, s). (ps, reg @ s)) (from_all f vs [])"
proof (induction vs arbitrary: reg)
  case (Cons v vs)
  show ?case
  proof (cases "f v []")
    case None
    with assms [of v reg] show ?thesis by simp
  next
    case (Some y)
    obtain p s where y: "y = (p, s)" by force
    have 1: "f v reg = Some (p, reg @ s)" using assms [of v reg] Some y by simp
    have 2: "from_all f vs (reg @ s) = map_option (\<lambda>(ps, q). (ps, (reg @ s) @ q)) (from_all f vs [])" by (rule Cons.IH)
    have 3: "from_all f vs s = map_option (\<lambda>(ps, q). (ps, s @ q)) (from_all f vs [])" by (rule Cons.IH)
    show ?thesis using Some y 1 2 3 by (cases "from_all f vs []") (auto split: prod.splits)
  qed
qed simp

lemma fromJS_registered: "fromJS n E h v reg = map_option (\<lambda>(p, s). (p, reg @ s)) (fromJS n E h v [])"
proof (induction n arbitrary: v reg)
  case (Suc n)
  have "from_all (fromJS n E h) vs reg = map_option (\<lambda>(ps, s). (ps, reg @ s)) (from_all (fromJS n E h) vs [])" for vs reg
    by (rule from_all_registered) (rule Suc.IH)
  from this [of "js_children E h v" reg] show ?case
    by (cases "from_all (fromJS n E h) (js_children E h v) []") (auto simp: fromJS_step)
qed simp

lemma convert_Some:
  "convert n E h v st = Some (p, st1) \<Longrightarrow> p = value_of n E h v \<and> cells st1 = cells st"
  using fromJS_registered [of n E h v "registered st"]
  by (cases "fromJS n E h v []") (auto simp: convert_def value_of_def)

lemma put_set_cell:
  assumes "get_set st (Some i) = Some s" and "cells st2 = cells st"
  shows "get_set (put_cell (Some i) (CSet t) st2) (Some i) = Some t"
    and "j \<noteq> i \<Longrightarrow> opaque_at (put_cell (Some i) (CSet t) st2) (Some j) = opaque_at st (Some j)"
proof -
  have "i < length (cells st)" using assms(1) by (auto simp: get_set_def opaque_at_def split: if_splits)
  then show "get_set (put_cell (Some i) (CSet t) st2) (Some i) = Some t"
    "j \<noteq> i \<Longrightarrow> opaque_at (put_cell (Some i) (CSet t) st2) (Some j) = opaque_at st (Some j)"
    using assms(2) by (simp_all add: put_cell_def get_set_def opaque_at_def)
qed

lemma set_do_spec:
  assumes "set_ok P elems" and "get_set st (Some i) = Some s" and "set_do n E P h i c st = Some (r, st1)"
  shows "\<exists>t. get_set st1 (Some i) = Some t \<and> elems t = set_spec n E h c (elems s)
    \<and> (\<forall>j. j \<noteq> i \<longrightarrow> opaque_at st1 (Some j) = opaque_at st (Some j))"
proof -
  obtain v where v: "c = Add v \<or> c = Remove v" by (cases c) auto
  then obtain p st2 where p: "convert n E h v st = Some (p, st2)"
    using assms(2,3) by (auto simp: SetAdd_def SetRemove_def split: option.splits)
  note q = convert_Some [OF p]
  define t where "t = (if c = Add v then set_add P s p else set_remove P s p)"
  have "st1 = put_cell (Some i) (CSet t) st2"
    using v p assms(2,3) by (auto simp: SetAdd_def SetRemove_def t_def)
  moreover have "elems t = set_spec n E h c (elems s)"
    using v q assms(1) by (auto simp: t_def set_ok_def)
  ultimately show ?thesis using put_set_cell [OF assms(2) conjunct2 [OF q]] by blast
qed

lemma set_run_spec:
  assumes "set_ok P elems" and "get_set st (Some i) = Some s" and "set_run n E P h i cs st = Some st1"
  shows "\<exists>t. get_set st1 (Some i) = Some t \<and> elems t = fold (set_spec n E h) cs (elems s)
    \<and> (\<forall>j. j \<noteq> i \<longrightarrow> opaque_at st1 (Some j) = opaque_at st (Some j))"
  using assms(2,3)
proof (induction cs arbitrary: st s)
  case (Cons c cs)
  then obtain r st2 where st2: "set_do n E P h i c st = Some (r, st2)" "set_run n E P h i cs st2 = Some st1"
    by (auto split: option.splits)
  from set_do_spec [OF assms(1) Cons.prems(1) st2(1)] obtain t where
    t: "get_set st2 (Some i) = Some t" "elems t = set_spec n E h c (elems s)"
      "\<forall>j. j \<noteq> i \<longrightarrow> opaque_at st2 (Some j) = opaque_at st (Some j)" by blast
  from Cons.IH [OF t(1) st2(2)] t show ?case by auto
qed simp


definition example_collections :: "(int, pobj, pobj list, pobj list, (nat \<times> pobj) list) collections" where
  "example_collections = \<lparr>set_new = [], set_add = (\<lambda>s p. List.insert p s), set_has = (\<lambda>s p. p \<in> set s),
     set_remove = (\<lambda>s p. removeAll p s), set_size = (\<lambda>s. card (set s)),
     multiset_new = [], multiset_add = (\<lambda>s p. p # s), multiset_count = (\<lambda>s p. PInt (int (count_list s p))),
     multiset_remove = (\<lambda>s p. remove1 p s), multiset_size = length,
     sparse_new = [], sparse_set = (\<lambda>l i p. (i, p) # l), sparse_get = (\<lambda>l i. the (map_of l i)),
     sparse_has = (\<lambda>l i. map_of l i \<noteq> None), sparse_size = (\<lambda>l. card (fst ` set l)),
     tuple_of = (\<lambda>ps. Some (PList ps)), clone = (\<lambda>p b. p), to_uint32 = (\<lambda>v. 0), wrapper = True\<rparr>"

lemma example_set_ok: "set_ok example_collections set"
  by (simp add: set_ok_def example_collections_def)

definition one_set :: "(pobj list, pobj list, (nat \<times> pobj) list) pc_state" where
  "one_set = \<lparr>cells = [CSet []], registered = []\<rparr>"


section \<open>What ImmutableObject returns\<close>

definition clone_ok :: "('d, 'p) bridge_env \<Rightarrow> ('d, 'p, 's, 'm, 'l) collections \<Rightarrow> bool" where
  "clone_ok E P \<longleftrightarrow> (\<forall>p b. opaque_cell E p \<longrightarrow> opaque_cell E (clone P p b))"

text \<open>An object made immutable, or mutable, comes back without its properties: the result is a new empty
  object, and \<open>isImmutable\<close> says no of every object made so.\<close>

theorem mutability_loses_properties:
  assumes "proto_laws E" and "clone_ok E P" and "a < length h" and "h ! a = OObject c d props" and "class_route c d = To_plain"
    and "clone_object name mutable n E P h [JsRef a] st = Some (r, st1)"
  shows "r = PcTree (TObject []) \<and> (\<exists>st2. IsImmutable n E h [JsRef a] st = Some (PcBool False, st2))"
proof -
  obtain p st2 where p: "convert n E h (JsRef a) st = Some (p, st2)"
    using assms(6) by (auto simp: clone_object_def is_object_def split: option.splits if_splits)
  then obtain m where n: "n = Suc m" by (cases n) (auto simp: convert_def)
  from p obtain ps reg where "p = foldl (\<lambda>obj (name, p). p_attr E (c_bytes name) p obj) (p_new E) (zip (map fst props) ps)"
    using assms(3-5) n by (auto simp: convert_def fromJS_step build_def)
  then have o: "opaque_cell E p" using plain_opaque [OF assms(1) new_opaque [OF assms(1)]] by simp
  then have "opaque_cell E (clone P p mutable)" using assms(2) by (simp add: clone_ok_def)
  then have "toJS n E (clone P p mutable) = Some (TObject [])" using toJS_opaque [of E "clone P p mutable" m] by (simp only: n)
  then have "r = PcTree (TObject [])" using assms(6) p by (simp add: clone_object_def is_object_def)
  moreover have "IsImmutable n E h [JsRef a] st = Some (PcBool False, st2)"
    using p o by (simp add: IsImmutable_def opaque_cell_def)
  ultimately show ?thesis by blast
qed

lemma mutability_loses_properties_witness:
  "\<exists>st1. ImmutableObject 2 example_bridge example_collections [OObject 1 Ordinary [(key ''a'', JsInt 1)]] [JsRef 0] one_set
     = Some (PcTree (TObject []), st1)"
proof -
  let ?h = "[OObject 1 Ordinary [(key ''a'', JsInt 1)]] :: int jsheap"
  have c: "clone_ok example_bridge example_collections" by (simp add: clone_ok_def example_collections_def)
  have "ImmutableObject 2 example_bridge example_collections ?h [JsRef 0] one_set \<noteq> None"
    by code_simp
  then obtain r st1 where r: "clone_object ''ImmutableObject'' False 2 example_bridge example_collections ?h [JsRef 0] one_set = Some (r, st1)"
    by (auto simp: ImmutableObject_def)
  from mutability_loses_properties [OF example_bridge_laws c _ _ _ r] have "r = PcTree (TObject [])"
    by (simp add: class_route_def)
  with r show ?thesis by (simp add: ImmutableObject_def)
qed

end
