(* ===== verification/Profiler.thy ===== *)
theory Profiler
  imports Semver FileTree
begin

text \<open>
  Models \<open>src/profiling/Profiler.cpp\<close> and \<open>src/profiling/VisualProfiler.cpp\<close>: the profiling state machine,
  the profile objects and the two exports. Times are in microseconds; \<open>duration / 1000.0\<close> is kept as the
  number of microseconds. A name is a C string. Numbers of memory are 64-bit and do not occur otherwise.
\<close>

record profile_entry =
  pe_name :: string
  pe_duration :: int
  memoryBefore :: int
  memoryAfter :: int

record profiler =
  profileEntries :: "profile_entry list"
  profiling :: bool
  profileStart :: int

datatype prof_value = PvBool bool | PvMillis int | PvProfile "(string \<times> int \<times> int) list" bool
  | PvMemory int "(int \<times> int) option" | PvThrow string | PvException

section \<open>Profiler\<close>

definition startProfiling :: "int \<Rightarrow> profiler \<Rightarrow> prof_value \<times> profiler" where
  "startProfiling now s =
     (if profiling s then (PvBool False, s)
      else (PvBool True, s\<lparr>profiling := True, profileStart := now, profileEntries := []\<rparr>))"

definition stopProfiling :: "int \<Rightarrow> profiler \<Rightarrow> prof_value \<times> profiler" where
  "stopProfiling now s =
     (if \<not> profiling s then (PvBool False, s)
      else (PvMillis (now - profileStart s), s\<lparr>profiling := False\<rparr>))"

definition getProfile :: "profiler \<Rightarrow> prof_value" where
  "getProfile s = PvProfile
     (map (\<lambda>e. (pe_name e, pe_duration e, memoryAfter e - memoryBefore e)) (profileEntries s)) (profiling s)"

definition startMemoryProfiling :: "int \<Rightarrow> profiler \<Rightarrow> prof_value \<times> profiler" where
  "startMemoryProfiling = startProfiling"

definition stopMemoryProfiling :: "int \<Rightarrow> profiler \<Rightarrow> prof_value \<times> profiler" where
  "stopMemoryProfiling = stopProfiling"

definition getMemoryUsage :: int where
  "getMemoryUsage = 0"

definition getMemoryProfile :: "profiler \<Rightarrow> prof_value" where
  "getMemoryProfile s = PvMemory getMemoryUsage
     (case profileEntries s of
        [] \<Rightarrow> None
      | e # es \<Rightarrow> Some
          (fold (\<lambda>x m. if memoryBefore x < m then memoryBefore x else m) (e # es) (memoryBefore e),
           fold (\<lambda>x m. if memoryAfter x > m then memoryAfter x else m) (e # es) (memoryBefore e)))"

section \<open>VisualProfiler\<close>

definition quote :: "string \<Rightarrow> string" where
  "quote s = CHR 0x22 # s @ [CHR 0x22]"

definition line_end :: string where
  "line_end = [CHR 0x0A]"

definition profile_node :: "nat \<Rightarrow> string \<Rightarrow> string" where
  "profile_node i name = ''    {'' @ quote ''id'' @ '':'' @ show_nat i @ '','' @ quote ''callFrame'' @ '':{''
     @ quote ''functionName'' @ '':'' @ quote name @ ''},'' @ quote ''hitCount'' @ '':1}''"

fun profile_nodes :: "bool \<Rightarrow> nat \<Rightarrow> string list \<Rightarrow> string" where
  "profile_nodes first i [] = []"
| "profile_nodes first i (n # ns) =
     (if first then [] else '','' @ line_end) @ profile_node i n @ profile_nodes False (Suc i) ns"

definition profile_json :: "string list \<Rightarrow> string" where
  "profile_json names = concat
     [''{'', line_end, ''  '', quote ''type'', '': '', quote ''CPUProfile'', '','', line_end,
      ''  '', quote ''startTime'', '': 0,'', line_end, ''  '', quote ''endTime'', '': 0,'', line_end,
      ''  '', quote ''nodes'', '': ['', line_end,
      profile_nodes True 0 names,
      line_end, ''  ],'', line_end, ''  '', quote ''samples'', '': [],'', line_end,
      ''  '', quote ''timeDeltas'', '': []'', line_end, ''}'']"

text \<open>The global \<open>profiler\<close> object and its \<open>getProfile\<close> are those of \<open>init\<close>.\<close>

definition exportProfile :: "string option list \<Rightarrow> profiler \<Rightarrow> tree \<Rightarrow> prof_value \<times> tree" where
  "exportProfile args s t = (case args of
     [] \<Rightarrow> (PvThrow ''exportProfile expects filename'', t)
   | None # _ \<Rightarrow> (PvException, t)
   | Some f # _ \<Rightarrow>
       (case write_tree f (profile_json (map pe_name (profileEntries s))) t of
          Some u \<Rightarrow> (PvBool True, u)
        | None \<Rightarrow> (PvThrow ''Failed to write profile file'', t)))"

definition generateHTMLReport :: "string option list \<Rightarrow> tree \<Rightarrow> prof_value \<times> tree" where
  "generateHTMLReport args t = (case args of
     [] \<Rightarrow> (PvThrow ''generateHTMLReport expects filename'', t)
   | None # _ \<Rightarrow> (PvException, t)
   | Some f # _ \<Rightarrow> (PvBool True, t))"

datatype prof_call = StartProfiling int | StopProfiling int | StartMemory int | StopMemory int
  | ExportProfile "string option list" | HTMLReport "string option list"

fun prof_do :: "prof_call \<Rightarrow> profiler \<times> tree \<Rightarrow> prof_value \<times> profiler \<times> tree" where
  "prof_do (StartProfiling now) (s, t) = (let (r, s1) = startProfiling now s in (r, s1, t))"
| "prof_do (StopProfiling now) (s, t) = (let (r, s1) = stopProfiling now s in (r, s1, t))"
| "prof_do (StartMemory now) (s, t) = (let (r, s1) = startMemoryProfiling now s in (r, s1, t))"
| "prof_do (StopMemory now) (s, t) = (let (r, s1) = stopMemoryProfiling now s in (r, s1, t))"
| "prof_do (ExportProfile args) (s, t) = (let (r, u) = exportProfile args s t in (r, s, u))"
| "prof_do (HTMLReport args) (s, t) = (let (r, u) = generateHTMLReport args t in (r, s, u))"

definition prof_start :: profiler where
  "prof_start = \<lparr>profileEntries = [], profiling = False, profileStart = 0\<rparr>"

section \<open>Profiles are empty\<close>

lemma prof_do_entries: "profileEntries s = [] \<Longrightarrow> profileEntries (fst (snd (prof_do c (s, t)))) = []"
  by (cases c) (auto simp: startProfiling_def stopProfiling_def startMemoryProfiling_def stopMemoryProfiling_def
      split: prod.splits)

lemma prof_run_entries:
  "profileEntries s = [] \<Longrightarrow> profileEntries (fst (fold (\<lambda>c st. snd (prof_do c st)) cs (s, t))) = []"
proof (induction cs arbitrary: s t)
  case (Cons c cs)
  obtain s1 t1 where st: "snd (prof_do c (s, t)) = (s1, t1)" by force
  with prof_do_entries [OF Cons.prems, of c t] have "profileEntries s1 = []" by simp
  from Cons.IH [OF this] st show ?case by simp
qed simp

text \<open>Nothing adds an entry: whatever is called, a profile has no entry, a memory profile no minimum and
  maximum, and an exported profile has no node.\<close>

theorem profiles_are_empty:
  "let (s, t) = fold (\<lambda>c st. snd (prof_do c st)) cs (prof_start, t0)
   in getProfile s = PvProfile [] (profiling s) \<and> getMemoryProfile s = PvMemory 0 None
    \<and> exportProfile args s t = exportProfile args prof_start t"
proof -
  obtain s t where st: "fold (\<lambda>c st. snd (prof_do c st)) cs (prof_start, t0) = (s, t)" by force
  have p: "profileEntries prof_start = []" by (simp add: prof_start_def)
  with prof_run_entries [of prof_start cs t0] st have e: "profileEntries s = []" by simp
  show ?thesis
    unfolding st Let_def prod.case exportProfile_def e p
    by (simp add: e getProfile_def getMemoryProfile_def getMemoryUsage_def)
qed

end
