(* ===== verification/Utilities.thy ===== *)
theory Utilities
  imports TypeBridge
begin

text \<open>
  Models four small modules: \<open>src/console.cpp\<close>, \<open>src/modules/util/UtilModule.cpp\<close>,
  \<open>src/modules/ProcessModule.cpp\<close> and \<open>src/modules/url/URLModule.cpp\<close>.

  \<^item> Values are those of \<open>TypeBridge\<close>. Parameters (\<open>text_env\<close>): \<open>JS_ToCString\<close> (\<open>None\<close> when it throws), the
    two printings of a double (\<open><<\<close> and \<open>%g\<close> are the same function), and whether an object has a method
    \<open>getTime\<close>. A text is a list of bytes; one made from a C string ends at its first zero.
  \<^item> The system calls (\<open>getenv\<close>, \<open>getcwd\<close>, \<open>uname\<close>) are arguments.
\<close>

type_synonym bytes = "8 word list"

record 'd text_env =
  to_cstring :: "'d jsval \<Rightarrow> bytes option"
  show_double :: "'d \<Rightarrow> bytes"
  int_double :: "int \<Rightarrow> 'd"
  has_getTime :: "'d jsval \<Rightarrow> bool"

section \<open>Console\<close>

definition printValue :: "'d text_env \<Rightarrow> 'd jsval \<Rightarrow> bytes" where
  "printValue E v = (case v of
     JsString bs \<Rightarrow> c_bytes bs
   | JsInt i \<Rightarrow> show_double E (int_double E i)
   | JsFloat d \<Rightarrow> show_double E d
   | JsBool b \<Rightarrow> key (if b then ''true'' else ''false'')
   | JsNull \<Rightarrow> key ''null''
   | JsUndefined \<Rightarrow> key ''undefined''
   | JsRef a \<Rightarrow> (case to_cstring E v of Some s \<Rightarrow> s | None \<Rightarrow> key ''[object Object]'')
   | _ \<Rightarrow> (case to_cstring E v of Some s \<Rightarrow> s | None \<Rightarrow> []))"

fun print_all :: "'d text_env \<Rightarrow> bool \<Rightarrow> 'd jsval list \<Rightarrow> bytes" where
  "print_all E first [] = []"
| "print_all E first (v # vs) = (if first then [] else key '' '') @ printValue E v @ print_all E False vs"

datatype stream = Cout | Cerr

definition console_log :: "'d text_env \<Rightarrow> 'd jsval list \<Rightarrow> stream \<times> bytes" where
  "console_log E args = (Cout, print_all E True args @ [0x0A])"

definition console_error :: "'d text_env \<Rightarrow> 'd jsval list \<Rightarrow> stream \<times> bytes" where
  "console_error E args = (Cerr, print_all E True args @ [0x0A])"

definition console_warn :: "'d text_env \<Rightarrow> 'd jsval list \<Rightarrow> stream \<times> bytes" where
  "console_warn E args = (Cerr, key ''Warning: '' @ print_all E True args @ [0x0A])"

section \<open>Util\<close>

definition object_kind :: "'d jsheap \<Rightarrow> 'd jsval \<Rightarrow> 'd jsobj option" where
  "object_kind h v = (case v of JsRef a \<Rightarrow> if a < length h then Some (h ! a) else None | _ \<Rightarrow> None)"

definition typesIsArray :: "'d jsheap \<Rightarrow> 'd jsval list \<Rightarrow> bool" where
  "typesIsArray h args = (case args of [] \<Rightarrow> False | v # _ \<Rightarrow> (case object_kind h v of Some (OArray _) \<Rightarrow> True | _ \<Rightarrow> False))"

definition typesIsString :: "'d jsval list \<Rightarrow> bool" where
  "typesIsString args = (case args of JsString s # _ \<Rightarrow> True | _ \<Rightarrow> False)"

definition typesIsNumber :: "'d jsval list \<Rightarrow> bool" where
  "typesIsNumber args = (case args of JsInt i # _ \<Rightarrow> True | JsFloat d # _ \<Rightarrow> True | _ \<Rightarrow> False)"

definition typesIsObject :: "'d jsheap \<Rightarrow> 'd jsval list \<Rightarrow> bool" where
  "typesIsObject h args = (case args of
     JsRef a # _ \<Rightarrow> \<not> typesIsArray h args \<and> \<not> typesIsString args | _ \<Rightarrow> False)"

definition typesIsFunction :: "'d jsheap \<Rightarrow> 'd jsval list \<Rightarrow> bool" where
  "typesIsFunction h args = (case args of [] \<Rightarrow> False | v # _ \<Rightarrow> object_kind h v = Some OFunction)"

definition typesIsDate :: "'d text_env \<Rightarrow> 'd jsval list \<Rightarrow> bool" where
  "typesIsDate E args = (case args of JsRef a # _ \<Rightarrow> has_getTime E (JsRef a) | _ \<Rightarrow> False)"

definition util_inspect :: "'d text_env \<Rightarrow> 'd jsval list \<Rightarrow> bytes" where
  "util_inspect E args = (case args of
     [] \<Rightarrow> key ''undefined''
   | v # _ \<Rightarrow> (case v of
       JsString bs \<Rightarrow> bs
     | JsInt i \<Rightarrow> show_double E (int_double E i)
     | JsFloat d \<Rightarrow> show_double E d
     | JsBool b \<Rightarrow> key (if b then ''true'' else ''false'')
     | JsNull \<Rightarrow> key ''null''
     | JsUndefined \<Rightarrow> key ''undefined''
     | JsRef a \<Rightarrow> key ''[Object]''
     | _ \<Rightarrow> key ''[Unknown]''))"

definition util_format :: "'d text_env \<Rightarrow> 'd jsval list \<Rightarrow> bytes" where
  "util_format E args = (case args of
     [] \<Rightarrow> [] | v # _ \<Rightarrow> (case to_cstring E v of Some s \<Rightarrow> s | None \<Rightarrow> []))"

text \<open>A promisified function: its result when called, and the calls it makes of the original one. The
  function it hands to \<open>Deferred\<close> does nothing.\<close>

datatype 'd promisified = Promise_of_nothing | Not_a_promise

definition call_promisified :: "bool \<Rightarrow> 'd jsval \<Rightarrow> 'd jsval list \<Rightarrow> 'd promisified \<times> 'd jsval list list" where
  "call_promisified deferred_defined original args =
     (if deferred_defined then Promise_of_nothing else Not_a_promise, [])"

definition promisify :: "'d jsheap \<Rightarrow> 'd jsval list \<Rightarrow> string + 'd jsval" where
  "promisify h args = (case args of
     [] \<Rightarrow> Inl ''promisify expects a function''
   | v # _ \<Rightarrow> if typesIsFunction h [v] then Inr v else Inl ''promisify expects a function'')"

section \<open>Process\<close>

definition process_env :: "(string \<Rightarrow> string option) \<Rightarrow> (string \<times> string) list" where
  "process_env getenv = concat (map (\<lambda>n. case getenv n of Some v \<Rightarrow> [(n, v)] | None \<Rightarrow> [])
     [''PATH'', ''HOME'', ''USER''])"

definition GetCwd :: "string option \<Rightarrow> string" where
  "GetCwd cwd = (case cwd of Some d \<Rightarrow> d | None \<Rightarrow> [])"

definition GetPlatform :: "string option \<Rightarrow> string" where
  "GetPlatform sysname = (case sysname of
     None \<Rightarrow> ''unknown''
   | Some s \<Rightarrow>
       if s = ''Linux'' then ''linux''
       else if s = ''Darwin'' then ''darwin''
       else if s = ''Windows'' \<or> str_find_sub ''WIN'' s \<noteq> None then ''win32''
       else s)"

definition GetArch :: "string option \<Rightarrow> string" where
  "GetArch machine = (case machine of
     None \<Rightarrow> ''unknown''
   | Some m \<Rightarrow>
       if m = ''x86_64'' \<or> m = ''amd64'' then ''x64''
       else if m = ''i386'' \<or> m = ''i686'' then ''ia32''
       else if str_find_sub ''arm'' m \<noteq> None then ''arm''
       else m)"

text \<open>The status given to \<open>std::exit\<close>; \<open>to_int32\<close> is \<open>JS_ToInt32\<close> of a number.\<close>

definition process_exit :: "('d jsval \<Rightarrow> int) \<Rightarrow> 'd jsval list \<Rightarrow> int" where
  "process_exit to_int32 args = (if typesIsNumber args then to_int32 (hd args) else 0)"

section \<open>URL\<close>

definition URLConstructor :: "bytes option list \<Rightarrow> string + (string \<times> bytes) list option" where
  "URLConstructor args = (case args of
     [] \<Rightarrow> Inl ''URL constructor expects a URL string''
   | None # _ \<Rightarrow> Inr None
   | Some u # _ \<Rightarrow> Inr (Some [(''href'', c_bytes u), (''protocol'', key ''http:''), (''hostname'', key ''localhost''),
       (''pathname'', key ''/'')]))"

definition URLToString :: "(string \<times> bytes) list \<Rightarrow> bytes" where
  "URLToString obj = (case map_of obj ''href'' of Some s \<Rightarrow> c_bytes s | None \<Rightarrow> key ''undefined'')"

section \<open>Properties\<close>

lemma print_all_joined: "print_all E False vs = concat (map (\<lambda>v. key '' '' @ printValue E v) vs)"
  by (induction vs) simp_all

text \<open>Every URL has the same host, path and protocol; only its text is kept, up to a zero.\<close>

lemma url_text: "URLConstructor [Some u] = Inr (Some ob) \<Longrightarrow> URLToString ob = c_bytes u"
  by (auto simp: URLConstructor_def URLToString_def c_bytes_def takeWhile_idem)

text \<open>On a value other than a string, a bigint, a symbol and an object, \<open>console.log\<close> prints what
  \<open>util.inspect\<close> gives; an object is printed by its own conversion and inspected as \<open>[Object]\<close>.\<close>

theorem console_prints_inspected:
  "console_log E [v] = (Cout, (case v of
       JsString bs \<Rightarrow> c_bytes (util_inspect E [v])
     | JsBigInt i \<Rightarrow> (case to_cstring E v of Some s \<Rightarrow> s | None \<Rightarrow> [])
     | JsSymbol d \<Rightarrow> (case to_cstring E v of Some s \<Rightarrow> s | None \<Rightarrow> [])
     | JsRef a \<Rightarrow> (case to_cstring E v of Some s \<Rightarrow> s | None \<Rightarrow> key ''[object Object]'')
     | _ \<Rightarrow> util_inspect E [v]) @ [0x0A])"
  by (cases v) (simp_all add: console_log_def printValue_def util_inspect_def)

end
