(* ===== verification/Engine.thy ===== *)
theory Engine
  imports GcBridge TypeBridge
begin

text \<open>
  Models \<open>src/ExecutionEngine.cpp\<close>, the operations meant to run JavaScript on protoCore objects, over
  the table of \<open>GcBridge\<close> and the conversions of \<open>TypeBridge\<close>.

  \<^item> \<open>engine\<close> holds the two environments, the heap, and what else the code takes from outside: the 64-bit
    images of values, the attributes of protoCore objects, arithmetic on doubles, \<open>JS_ToFloat64\<close> and
    \<open>JS_ToCString\<close> (\<open>None\<close> when they throw).
  \<^item> An operation that hands over to QuickJS returns \<open>Default\<close>. A property operation also returns how
    often it has released the atom it was given; with \<open>Default\<close> the atom is used after that.
  \<^item> \<open>fromJS\<close> registers the functions it meets with \<open>GCBridge::registerMapping\<close>: \<open>bridge_from\<close> is the
    conversion followed by these registrations.
\<close>

record ('c, 'm, 'd, 'p) engine =
  gc :: "('c, 'm, 'p) gc_env"
  br :: "('d, 'p) bridge_env"
  heap :: "'d jsheap"
  val_tag :: "'d jsval \<Rightarrow> 64 word"
  fresh_tag :: "'d jstree \<Rightarrow> 64 word"
  get_attr :: "'p \<Rightarrow> 8 word list \<Rightarrow> 'p option"
  set_attr :: "'p \<Rightarrow> 8 word list \<Rightarrow> 'p \<Rightarrow> 'p"
  same_object :: "'p \<Rightarrow> 'p \<Rightarrow> bool"
  is_method :: "'p \<Rightarrow> bool"
  plus_d :: "'d \<Rightarrow> 'd \<Rightarrow> 'd"
  minus_d :: "'d \<Rightarrow> 'd \<Rightarrow> 'd"
  times_d :: "'d \<Rightarrow> 'd \<Rightarrow> 'd"
  over_d :: "'d \<Rightarrow> 'd \<Rightarrow> 'd"
  less_d :: "'d \<Rightarrow> 'd \<Rightarrow> bool"
  zero_d :: "'d \<Rightarrow> bool"
  to_float64 :: "'d jsval \<Rightarrow> 'd option"
  to_text :: "'d jsval \<Rightarrow> 8 word list option"

definition image :: "('c, 'm, 'd, 'p) engine \<Rightarrow> 'd jsval \<Rightarrow> GcBridge.jsval" where
  "image X v = (case v of
     JsNull \<Rightarrow> GcBridge.JsNull | JsUndefined \<Rightarrow> GcBridge.JsUndefined | _ \<Rightarrow> JsVal (val_tag X v))"

definition fresh_image :: "('c, 'm, 'd, 'p) engine \<Rightarrow> 'd jstree \<Rightarrow> GcBridge.jsval" where
  "fresh_image X t = (case t of TNull \<Rightarrow> GcBridge.JsNull | _ \<Rightarrow> JsVal (fresh_tag X t))"

section \<open>Conversions with their registrations\<close>

fun register_all :: "('c, 'm, 'd, 'p) engine \<Rightarrow> 64 word \<Rightarrow> nat list \<Rightarrow> 'c gc_state \<Rightarrow> ('c gc_state \<times> unit) outcome" where
  "register_all X ctx [] s = Returns (s, ())"
| "register_all X ctx (a # as) s =
     outcome_bind (registerMapping 2 (gc X) (image X (JsRef a)) (Some (p_new (br X))) ctx s)
       (\<lambda>(s1, _). register_all X ctx as s1)"

definition bridge_from :: "nat \<Rightarrow> ('c, 'm, 'd, 'p) engine \<Rightarrow> 64 word \<Rightarrow> 'd jsval \<Rightarrow> 'c gc_state
    \<Rightarrow> ('c gc_state \<times> 'p) outcome" where
  "bridge_from n X ctx v s = (case fromJS n (br X) (heap X) v [] of
     None \<Rightarrow> Out_of_depth
   | Some (p, reg) \<Rightarrow> outcome_bind (register_all X ctx reg s) (\<lambda>(s1, _). Returns (s1, p)))"

fun bridge_all :: "nat \<Rightarrow> ('c, 'm, 'd, 'p) engine \<Rightarrow> 64 word \<Rightarrow> 'd jsval list \<Rightarrow> 'c gc_state
    \<Rightarrow> ('c gc_state \<times> 'p list) outcome" where
  "bridge_all n X ctx [] s = Returns (s, [])"
| "bridge_all n X ctx (v # vs) s = outcome_bind (bridge_from n X ctx v s) (\<lambda>(s1, p).
     outcome_bind (bridge_all n X ctx vs s1) (\<lambda>(s2, ps). Returns (s2, p # ps)))"

section \<open>Properties, calls and creation\<close>

definition shouldUseProtoCore :: "('c, 'm, 'd, 'p) engine \<Rightarrow> 64 word \<Rightarrow> 'd jsval \<Rightarrow> 'c gc_state
    \<Rightarrow> ('c gc_state \<times> bool) outcome" where
  "shouldUseProtoCore X ctx v s =
     outcome_bind (getProtoObject (gc X) (image X v) ctx s) (\<lambda>(s1, ob). Returns (s1, ob \<noteq> None))"

datatype 'd op_result = Default | Converted "'d jstree" | Stored

definition opGetProperty :: "nat \<Rightarrow> ('c, 'm, 'd, 'p) engine \<Rightarrow> 64 word \<Rightarrow> 'd jsval \<Rightarrow> 8 word list option \<Rightarrow> 'c gc_state
    \<Rightarrow> ('c gc_state \<times> 'd op_result \<times> nat) outcome" where
  "opGetProperty n X ctx v name s =
     (if \<not> has_wrapper (gc X) ctx then Returns (s, Default, 0)
      else outcome_bind (shouldUseProtoCore X ctx v s) (\<lambda>(s1, managed).
        if \<not> managed then Returns (s1, Default, 0)
        else outcome_bind (getProtoObject (gc X) (image X v) ctx s1) (\<lambda>(s2, ob). case ob of
            None \<Rightarrow> Returns (s2, Default, 0)
          | Some p \<Rightarrow>
              (case (case name of None \<Rightarrow> None | Some nm \<Rightarrow> get_attr X p nm) of
                 None \<Rightarrow> Returns (s2, Default, 1)
               | Some a \<Rightarrow> (case toJS n (br X) a of None \<Rightarrow> Out_of_depth | Some t \<Rightarrow> Returns (s2, Converted t, 1))))))"

definition opSetProperty :: "nat \<Rightarrow> ('c, 'm, 'd, 'p) engine \<Rightarrow> 64 word \<Rightarrow> 'd jsval \<Rightarrow> 8 word list option \<Rightarrow> 'd jsval
    \<Rightarrow> 'c gc_state \<Rightarrow> ('c gc_state \<times> 'd op_result \<times> nat) outcome" where
  "opSetProperty n X ctx v name val s =
     (if \<not> has_wrapper (gc X) ctx then Returns (s, Default, 0)
      else outcome_bind (shouldUseProtoCore X ctx v s) (\<lambda>(s1, managed).
        if \<not> managed then Returns (s1, Default, 0)
        else outcome_bind (getProtoObject (gc X) (image X v) ctx s1) (\<lambda>(s2, ob). case ob of
            None \<Rightarrow> Returns (s2, Default, 0)
          | Some p \<Rightarrow>
              (case name of
                 None \<Rightarrow> Returns (s2, Default, 1)
               | Some nm \<Rightarrow> outcome_bind (bridge_from n X ctx val s2) (\<lambda>(s3, q).
                   let p' = set_attr X p nm q in
                   if same_object X p' p then Returns (s3, Stored, 1)
                   else outcome_bind (registerMapping 2 (gc X) (image X v) (Some p') ctx s3)
                     (\<lambda>(s4, _). Returns (s4, Stored, 1)))))))"

text \<open>A call always ends in \<open>JS_Call\<close>; for a protoCore method the arguments and \<open>this\<close> are converted before.\<close>

definition opCall :: "nat \<Rightarrow> ('c, 'm, 'd, 'p) engine \<Rightarrow> 64 word \<Rightarrow> 'd jsval \<Rightarrow> 'd jsval \<Rightarrow> 'd jsval list \<Rightarrow> 'c gc_state
    \<Rightarrow> ('c gc_state \<times> 'd op_result) outcome" where
  "opCall n X ctx f this args s =
     (if \<not> has_wrapper (gc X) ctx then Returns (s, Default)
      else outcome_bind (getProtoObject (gc X) (image X f) ctx s) (\<lambda>(s1, ob).
        if (case ob of None \<Rightarrow> False | Some p \<Rightarrow> is_method X p)
        then outcome_bind (bridge_all n X ctx args s1) (\<lambda>(s2, _).
          outcome_bind (bridge_from n X ctx this s2) (\<lambda>(s3, _). Returns (s3, Default)))
        else Returns (s1, Default)))"

definition new_managed :: "nat \<Rightarrow> ('c, 'm, 'd, 'p) engine \<Rightarrow> 64 word \<Rightarrow> 'p \<Rightarrow> 'c gc_state
    \<Rightarrow> ('c gc_state \<times> 'd op_result) outcome" where
  "new_managed n X ctx p s = (case toJS n (br X) p of
     None \<Rightarrow> Out_of_depth
   | Some t \<Rightarrow> outcome_bind (registerMapping 2 (gc X) (fresh_image X t) (Some p) ctx s)
       (\<lambda>(s1, _). Returns (s1, Converted t)))"

definition opNewObject :: "nat \<Rightarrow> ('c, 'm, 'd, 'p) engine \<Rightarrow> 64 word \<Rightarrow> 'c gc_state \<Rightarrow> ('c gc_state \<times> 'd op_result) outcome" where
  "opNewObject n X ctx s =
     (if \<not> has_wrapper (gc X) ctx then Returns (s, Default) else new_managed n X ctx (p_new (br X)) s)"

definition opNewArray :: "nat \<Rightarrow> ('c, 'm, 'd, 'p) engine \<Rightarrow> 64 word \<Rightarrow> 'c gc_state \<Rightarrow> ('c gc_state \<times> 'd op_result) outcome" where
  "opNewArray n X ctx s =
     (if \<not> has_wrapper (gc X) ctx then Returns (s, Default) else new_managed n X ctx (p_list (br X) []) s)"

section \<open>Arithmetic and comparison\<close>

datatype 'd arith = Number 'd | Text "8 word list" | Undef | Type_error string

definition is_number :: "'d jsval \<Rightarrow> bool" where
  "is_number v \<longleftrightarrow> (case v of JsInt i \<Rightarrow> True | JsFloat d \<Rightarrow> True | _ \<Rightarrow> False)"

definition is_text :: "'d jsval \<Rightarrow> bool" where
  "is_text v \<longleftrightarrow> (case v of JsString s \<Rightarrow> True | _ \<Rightarrow> False)"

definition text_or_empty :: "('c, 'm, 'd, 'p) engine \<Rightarrow> 'd jsval \<Rightarrow> 8 word list" where
  "text_or_empty X v = (case to_text X v of Some s \<Rightarrow> s | None \<Rightarrow> [])"

definition opAdd :: "('c, 'm, 'd, 'p) engine \<Rightarrow> 'd jsval \<Rightarrow> 'd jsval \<Rightarrow> 'd arith" where
  "opAdd X a b =
     (if is_number a \<and> is_number b then
        (case (to_float64 X a, to_float64 X b) of (Some x, Some y) \<Rightarrow> Number (plus_d X x y) | _ \<Rightarrow> Undef)
      else if is_text a \<or> is_text b then Text (c_bytes (text_or_empty X a @ text_or_empty X b))
      else Undef)"

definition arith_op :: "('d \<Rightarrow> 'd \<Rightarrow> 'd arith) \<Rightarrow> ('c, 'm, 'd, 'p) engine \<Rightarrow> 'd jsval \<Rightarrow> 'd jsval \<Rightarrow> 'd arith" where
  "arith_op f X a b = (case to_float64 X a of
     None \<Rightarrow> Undef | Some x \<Rightarrow> (case to_float64 X b of None \<Rightarrow> Undef | Some y \<Rightarrow> f x y))"

definition opSub :: "('c, 'm, 'd, 'p) engine \<Rightarrow> 'd jsval \<Rightarrow> 'd jsval \<Rightarrow> 'd arith" where
  "opSub X = arith_op (\<lambda>x y. Number (minus_d X x y)) X"

definition opMul :: "('c, 'm, 'd, 'p) engine \<Rightarrow> 'd jsval \<Rightarrow> 'd jsval \<Rightarrow> 'd arith" where
  "opMul X = arith_op (\<lambda>x y. Number (times_d X x y)) X"

definition opDiv :: "('c, 'm, 'd, 'p) engine \<Rightarrow> 'd jsval \<Rightarrow> 'd jsval \<Rightarrow> 'd arith" where
  "opDiv X = arith_op (\<lambda>x y. if \<not> zero_d X y then Number (over_d X x y) else Type_error ''Division by zero'') X"

text \<open>\<open>strcmp\<close> on the bytes before the first zero.\<close>

fun strcmp :: "8 word list \<Rightarrow> 8 word list \<Rightarrow> int" where
  "strcmp [] [] = 0"
| "strcmp [] (b # bs) = - 1"
| "strcmp (a # as) [] = 1"
| "strcmp (a # as) (b # bs) = (if a < b then - 1 else if a > b then 1 else strcmp as bs)"

definition opCompare :: "('c, 'm, 'd, 'p) engine \<Rightarrow> 'd jsval \<Rightarrow> 'd jsval \<Rightarrow> int" where
  "opCompare X a b =
     (if is_number a \<and> is_number b then
        (case (to_float64 X a, to_float64 X b) of
           (Some x, Some y) \<Rightarrow> if less_d X x y then - 1 else if less_d X y x then 1 else 0
         | _ \<Rightarrow> 0)
      else if is_text a \<and> is_text b then
        strcmp (c_bytes (text_or_empty X a)) (c_bytes (text_or_empty X b))
      else 0)"

section \<open>Registering never returns\<close>

lemma register_active:
  "has_wrapper (gc X) ctx \<Longrightarrow> isActiveJSValue v \<Longrightarrow> registerMapping 2 (gc X) v (Some p) ctx s = Blocked"
  using registerMapping_Blocked [of 0 "gc X" v "Some p" ctx s] by (simp add: numeral_2_eq_2)

lemma image_active: "isActiveJSValue (image X v) \<longleftrightarrow> v \<noteq> JsNull \<and> v \<noteq> JsUndefined"
  by (cases v) (simp_all add: image_def isActiveJSValue_def)

lemma register_all_blocks:
  "has_wrapper (gc X) ctx \<Longrightarrow> register_all X ctx as s = (if as = [] then Returns (s, ()) else Blocked)"
  by (cases as) (simp_all add: register_active image_active)

lemma getProtoObject_returns:
  "\<not> locked s \<Longrightarrow> \<exists>t ob. getProtoObject env v ctx s = Returns (t, ob) \<and> \<not> locked t"
  by (auto simp: getProtoObject_def with_lock_def Let_def split_beta)

lemma getProtoObject_same:
  assumes "getProtoObject env v ctx s = Returns (t, ob)"
  shows "getProtoObject env v ctx t = Returns (t, ob)"
  using assms
  by (auto simp: getProtoObject_def with_lock_def getContextMappings_def Let_def split: if_splits option.splits)

text \<open>On an initialised context, whatever registers a value never returns: creating an object or an array,
  storing a property of a managed object when that makes a new version of it, and converting any value
  with a function in it.\<close>

theorem engine_never_returns:
  assumes "has_wrapper (gc X) ctx" and "proto_laws (br X)"
    and "fromJS n (br X) (heap X) w [] = Some (q, reg)"
    and "getProtoObject (gc X) (image X v) ctx s = Returns (t, Some p)" and "\<not> same_object X (set_attr X p nm q) p"
  shows "opNewObject (Suc m) X ctx s = Blocked \<and> opNewArray (Suc m) X ctx s = Blocked
    \<and> bridge_from n X ctx w s = (if reg = [] then Returns (s, q) else Blocked)
    \<and> (if v = JsNull \<or> v = JsUndefined then True else opSetProperty n X ctx v (Some nm) w s = Blocked)"
proof -
  have b: "bridge_from n X ctx w r = (if reg = [] then Returns (r, q) else Blocked)" for r
    using assms(3) by (simp add: bridge_from_def register_all_blocks [OF assms(1)])
  have act: "isActiveJSValue (JsVal k)" for k by (simp add: isActiveJSValue_def)
  have "toJS (Suc m) (br X) (p_new (br X)) = Some (TObject [])"
    using assms(2) by (intro toJS_opaque) (simp add: proto_laws_def)
  then have "opNewObject (Suc m) X ctx s = Blocked"
    using assms(1) by (simp add: opNewObject_def new_managed_def fresh_image_def register_active act)
  moreover have "toJS (Suc m) (br X) (p_list (br X) []) = Some (TArray [])"
  proof -
    have "\<forall>ps. let p = p_list (br X) ps in \<not> is_none (br X) p \<and> \<not> is_boolean (br X) p \<and> \<not> is_integer (br X) p
        \<and> \<not> is_double (br X) p \<and> \<not> is_string (br X) p \<and> as_list (br X) p = Some ps"
      using assms(2) unfolding proto_laws_def by blast
    then show ?thesis by (simp add: toJS.simps(2) Let_def)
  qed
  then have "opNewArray (Suc m) X ctx s = Blocked"
    using assms(1) by (simp add: opNewArray_def new_managed_def fresh_image_def register_active act)
  moreover have "opSetProperty n X ctx v (Some nm) w s = Blocked" if "v \<noteq> JsNull" "v \<noteq> JsUndefined"
    using assms(1,4,5) that getProtoObject_same [OF assms(4)]
    by (simp add: opSetProperty_def shouldUseProtoCore_def b register_active image_active Let_def)
  ultimately show ?thesis using b by simp
qed

text \<open>The atom of a property name is released exactly when the object is managed; a managed object without
  the property has it released and then used by the fallback.\<close>

theorem opGetProperty_atom:
  assumes "opGetProperty n X ctx v name s = Returns (u, r, frees)"
  shows "frees = (if has_wrapper (gc X) ctx \<and> (\<exists>t p. getProtoObject (gc X) (image X v) ctx s = Returns (t, Some p)) then 1 else 0)
    \<and> (r = Default \<and> frees = 1) = (\<exists>t p. has_wrapper (gc X) ctx \<and> getProtoObject (gc X) (image X v) ctx s = Returns (t, Some p)
        \<and> (case name of None \<Rightarrow> None | Some nm \<Rightarrow> get_attr X p nm) = None)"
proof (cases "has_wrapper (gc X) ctx")
  case False
  then show ?thesis using assms by (simp add: opGetProperty_def)
next
  case True
  then obtain t ob where g: "getProtoObject (gc X) (image X v) ctx s = Returns (t, ob)"
    using assms by (cases "getProtoObject (gc X) (image X v) ctx s") (auto simp: opGetProperty_def shouldUseProtoCore_def)
  show ?thesis
    using assms True g getProtoObject_same [OF g]
    by (cases ob) (auto simp: opGetProperty_def shouldUseProtoCore_def split: option.splits)
qed

section \<open>Comparison\<close>

lemma strcmp_less: "strcmp a b \<in> {- 1, 0, 1} \<and> strcmp b a = - strcmp a b \<and> (strcmp a b = 0) = (a = b)"
  by (induction a b rule: strcmp.induct) auto

lemma strcmp_trans: "strcmp a b \<le> 0 \<Longrightarrow> strcmp b c \<le> 0 \<Longrightarrow> strcmp a c \<le> 0"
proof (induction a b arbitrary: c rule: strcmp.induct)
  case (2 b bs)
  then show ?case by (cases c) simp_all
next
  case (4 a as b bs)
  then show ?case
  proof (cases c)
    case (Cons d ds)
    with 4 show ?thesis by (auto split: if_splits)
  qed simp
qed (simp, cases c rule: list.exhaust, simp_all)

text \<open>On strings \<open>opCompare\<close> is a total order of their texts up to a zero; a number that is neither
  less nor greater, such as NaN, compares as equal to everything.\<close>

theorem opCompare_strings:
  "opCompare X (JsString a) (JsString b) = - opCompare X (JsString b) (JsString a)
   \<and> (opCompare X (JsString a) (JsString b) = 0) =
      (c_bytes (text_or_empty X (JsString a)) = c_bytes (text_or_empty X (JsString b)))
   \<and> (if opCompare X (JsString a) (JsString b) \<le> 0 \<and> opCompare X (JsString b) (JsString c) \<le> 0
      then opCompare X (JsString a) (JsString c) \<le> 0 else True)"
proof -
  let ?t = "\<lambda>s. c_bytes (text_or_empty X (JsString s))"
  have c: "opCompare X (JsString x) (JsString y) = strcmp (?t x) (?t y)" for x y
    by (simp add: opCompare_def is_number_def is_text_def)
  show ?thesis
    unfolding c using strcmp_less [of "?t a" "?t b"] strcmp_less [of "?t b" "?t a"] strcmp_trans [of "?t a" "?t b" "?t c"]
    by simp
qed

section \<open>An instance\<close>

definition example_engine :: "((64 word \<times> (64 word \<times> pobj entry) list) list, (64 word \<times> pobj entry) list, int, pobj) engine" where
  "example_engine = \<lparr>gc = \<lparr>ctx_ops = alist_ops, map_ops = alist_ops, js_key_hash = (\<lambda>w. w), proto_hash = (\<lambda>p. 1),
       has_wrapper = (\<lambda>_. True), clock = 5\<rparr>,
     br = example_bridge, heap = [OFunction], val_tag = (\<lambda>v. 7), fresh_tag = (\<lambda>t. 8), get_attr = (\<lambda>p k. None),
     set_attr = (\<lambda>p k v. v), same_object = (=), is_method = (\<lambda>p. False), plus_d = (+), minus_d = (-),
     times_d = (*), over_d = (div), less_d = (<), zero_d = (\<lambda>d. d = 0), to_float64 = (\<lambda>v. Some 0),
     to_text = (\<lambda>v. None)\<rparr>"

definition managed_state :: "(64 word \<times> (64 word \<times> pobj entry) list) list gc_state" where
  "managed_state = \<lparr>contextMappings = Some [(1, [(7, Mapping \<lparr>jsValueTag = 7, protoObj = Some PSet, isRoot = False,
     isWeakRef = False, createdTimestamp = 0, jsValuePtr = JsVal 7\<rparr>)])], locked = False\<rparr>"

lemma managed_lookup: "getProtoObject (gc example_engine) (image example_engine (JsRef 3)) 1 managed_state = Returns (managed_state, Some PSet)"
  by (simp add: getProtoObject_def with_lock_def getContextMappings_def example_engine_def managed_state_def alist_ops_def
      image_def js_key_def getJSValueTag_def entry_protoObj_def Let_def)

lemma engine_never_returns_witness:
  "bridge_from 1 example_engine 1 (JsRef 0) managed_state = Blocked \<and>
   opSetProperty 1 example_engine 1 (JsRef 3) (Some []) (JsRef 0) managed_state = Blocked"
proof -
  have w: "has_wrapper (gc example_engine) 1" "proto_laws (br example_engine)"
    by (simp_all add: example_engine_def example_bridge_laws)
  have f: "fromJS 1 (br example_engine) (heap example_engine) (JsRef 0) [] = Some (PObj [], [0])"
    by (simp add: example_engine_def example_bridge_def fromJS.simps)
  have n: "\<not> same_object example_engine (set_attr example_engine PSet [] (PObj [])) PSet"
    by (simp add: example_engine_def)
  from engine_never_returns [OF w f managed_lookup n] show ?thesis by simp
qed

lemma opGetProperty_atom_witness:
  "opGetProperty 1 example_engine 1 (JsRef 3) (Some []) managed_state = Returns (managed_state, Default, 1)"
proof -
  have e: "\<exists>r frees. opGetProperty 1 example_engine 1 (JsRef 3) (Some []) managed_state = Returns (managed_state, r, frees)"
    using managed_lookup by (simp add: opGetProperty_def shouldUseProtoCore_def) (simp add: example_engine_def)
  then obtain r frees where r: "opGetProperty 1 example_engine 1 (JsRef 3) (Some []) managed_state = Returns (managed_state, r, frees)"
    by blast
  have "has_wrapper (gc example_engine) 1" "\<And>p k. get_attr example_engine p k = None" by (simp_all add: example_engine_def)
  with opGetProperty_atom [OF r] managed_lookup have "r = Default \<and> frees = 1" by auto
  with r show ?thesis by simp
qed

end
