(* ===== verification/Net.thy ===== *)
theory Net
  imports Fifo
begin

text \<open>
  Models \<open>src/modules/net/NetModule.cpp\<close>: TCP servers and sockets, their threads, and the callbacks they
  queue in the event loop.

  \<^item> The results of the socket calls are arguments of the operations (\<open>net_io\<close>). \<open>pton\<close> tells whether an
    address parses. An argument of JavaScript is what the code tells apart (\<open>net_arg\<close>).
  \<^item> A socket has an emitter when the global object of its context has an \<open>EventEmitter\<close>. A socket that a
    server accepts is made in a new context, whose global object has none.
  \<^item> \<open>net_step\<close> interleaves the calls of the program, the steps of the threads and the event loop.
    \<open>close\<close> and \<open>destroy\<close> wait for their thread before they return; here the wait is a step of its own
    (\<open>join\<close>). \<open>queued\<close> is the history of everything enqueued; \<open>sent\<close>, \<open>closed\<close> and \<open>shut\<close> are those of the
    calls on descriptors.
\<close>

type_synonym bytes = "nat list"

datatype net_thread = Not_started | Running | Finished

record net_server =
  ns_fd :: int
  ns_port :: int
  ns_host :: string
  ns_listening :: bool
  ns_closed :: bool
  ns_listener :: bool
  ns_thread :: net_thread

record net_socket =
  sk_fd :: int
  sk_connected :: bool
  sk_destroyed :: bool
  sk_remote :: "string \<times> int"
  sk_local :: "string \<times> int"
  sk_emitter :: bool
  sk_reader :: net_thread
  sk_accepted :: bool

datatype net_callback = Emit_connect nat | Emit_data nat bytes | Emit_end nat | Call_listener nat nat

record net_world =
  servers :: "net_server list"
  sockets :: "net_socket list"
  queued :: "net_callback list"
  delivered :: nat
  sent :: "(int \<times> bytes) list"
  closed :: "int list"
  shut :: "int list"
  terminated :: bool

datatype net_arg = NNumber int | NString string | NFunction | NObject "int option" "string option" bool | NOther

record net_io =
  sock :: int
  pton :: "string \<Rightarrow> bool"
  bind_ok :: bool
  bound_port :: "int option"
  listen_ok :: bool
  connect_ok :: "string \<Rightarrow> int \<Rightarrow> bool"
  local_addr :: "string \<times> int"
  peer_addr :: "string \<times> int"

datatype net_result = NThrow string | NUndefined | NNull | NBool bool | NAddress int string | NObj nat | NTerminate

definition put_server :: "nat \<Rightarrow> net_server \<Rightarrow> net_world \<Rightarrow> net_world" where
  "put_server i s w = w\<lparr>servers := (servers w)[i := s]\<rparr>"

definition put_socket :: "nat \<Rightarrow> net_socket \<Rightarrow> net_world \<Rightarrow> net_world" where
  "put_socket i s w = w\<lparr>sockets := (sockets w)[i := s]\<rparr>"

definition enqueue_net :: "net_callback list \<Rightarrow> net_world \<Rightarrow> net_world" where
  "enqueue_net cbs w = w\<lparr>queued := queued w @ cbs\<rparr>"

section \<open>Servers\<close>

definition net_createServer :: "net_arg option \<Rightarrow> net_world \<Rightarrow> net_result \<times> net_world" where
  "net_createServer arg w =
     (let l = (case arg of Some NFunction \<Rightarrow> True | Some (NObject _ _ f) \<Rightarrow> f | _ \<Rightarrow> False)
      in (NObj (length (servers w)), w\<lparr>servers := servers w @
        [\<lparr>ns_fd = - 1, ns_port = 0, ns_host = [], ns_listening = False, ns_closed = False, ns_listener = l,
          ns_thread = Not_started\<rparr>]\<rparr>))"

definition listen_args :: "net_arg option \<Rightarrow> int \<times> string" where
  "listen_args arg = (case arg of
     Some (NNumber p) \<Rightarrow> (p, ''0.0.0.0'')
   | Some (NObject p h _) \<Rightarrow> (case p of Some k \<Rightarrow> k | None \<Rightarrow> 0, case h of Some s \<Rightarrow> s | None \<Rightarrow> ''0.0.0.0'')
   | _ \<Rightarrow> (0, ''0.0.0.0''))"

text \<open>The task that makes the socket: the descriptor or -1, the descriptors it closed, and the port.\<close>

definition listen_task :: "net_io \<Rightarrow> int \<Rightarrow> string \<Rightarrow> int \<times> int list \<times> int" where
  "listen_task io p host =
     (if sock io < 0 then (- 1, [], p)
      else if \<not> (host = ''0.0.0.0'' \<or> host = []) \<and> \<not> pton io host then (- 1, [sock io], p)
      else if \<not> bind_ok io then (- 1, [sock io], p)
      else
        (let q = (if p = 0 then (case bound_port io of Some k \<Rightarrow> k | None \<Rightarrow> p) else p)
         in if \<not> listen_ok io then (- 1, [sock io], q) else (sock io, [], q)))"

definition net_serverListen :: "nat \<Rightarrow> net_arg option \<Rightarrow> net_io \<Rightarrow> net_world \<Rightarrow> net_result \<times> net_world" where
  "net_serverListen i arg io w =
     (if i \<ge> length (servers w) then (NThrow ''Invalid server object'', w)
      else
        (let s = servers w ! i; (p, host) = listen_args arg in
         if ns_listening s then (NThrow ''Server already listening'', w)
         else if p < 0 \<or> p > 65535 then (NThrow ''Invalid port number'', w)
         else
           (let (fd, cl, q) = listen_task io p host;
                w1 = w\<lparr>closed := closed w @ cl\<rparr>;
                s1 = s\<lparr>ns_port := q, ns_host := host\<rparr>
            in if fd < 0 then (NThrow ''Failed to create server socket'', put_server i s1 w1)
               else
                 (let s2 = s1\<lparr>ns_fd := fd, ns_listening := True\<rparr>
                  in if ns_thread s2 \<noteq> Not_started then (NTerminate, (put_server i s2 w1)\<lparr>terminated := True\<rparr>)
                     else (NUndefined, put_server i (s2\<lparr>ns_thread := Running\<rparr>) w1)))))"

definition server_close :: "net_server \<Rightarrow> net_server \<times> int list" where
  "server_close s =
     (if ns_closed s then (s, [])
      else (s\<lparr>ns_closed := True, ns_listening := False, ns_fd := - 1\<rparr>, if ns_fd s \<ge> 0 then [ns_fd s] else []))"

definition net_serverClose :: "nat \<Rightarrow> net_world \<Rightarrow> net_result \<times> net_world" where
  "net_serverClose i w =
     (if i < length (servers w)
      then (let (s, cl) = server_close (servers w ! i) in (NUndefined, (put_server i s w)\<lparr>closed := closed w @ cl\<rparr>))
      else (NUndefined, w))"

definition net_serverAddress :: "nat \<Rightarrow> net_world \<Rightarrow> net_result" where
  "net_serverAddress i w =
     (if i \<ge> length (servers w) \<or> \<not> ns_listening (servers w ! i) then NNull
      else NAddress (ns_port (servers w ! i)) (ns_host (servers w ! i)))"

section \<open>Sockets\<close>

definition new_socket :: "bool \<Rightarrow> net_socket" where
  "new_socket e = \<lparr>sk_fd = - 1, sk_connected = False, sk_destroyed = False, sk_remote = ([], 0), sk_local = ([], 0),
     sk_emitter = e, sk_reader = Not_started, sk_accepted = False\<rparr>"

definition connect_args :: "net_arg list \<Rightarrow> int \<times> string" where
  "connect_args args = (case args of
     NNumber p # rest \<Rightarrow> (p, case rest of NString h # _ \<Rightarrow> h | _ \<Rightarrow> ''localhost'')
   | NObject p h _ # _ \<Rightarrow> (case p of Some k \<Rightarrow> k | None \<Rightarrow> 0, case h of Some s \<Rightarrow> s | None \<Rightarrow> ''localhost'')
   | _ \<Rightarrow> (0, ''localhost''))"

text \<open>A host that does not parse as an address leaves the address zero.\<close>

definition connect_task :: "net_io \<Rightarrow> int \<Rightarrow> string \<Rightarrow> int \<times> int list" where
  "connect_task io p host =
     (if sock io < 0 then (- 1, [])
      else if \<not> connect_ok io (if pton io host then host else ''0.0.0.0'') p then (- 1, [sock io])
      else (sock io, []))"

definition net_socketConnect :: "nat \<Rightarrow> net_arg list \<Rightarrow> net_io \<Rightarrow> net_world \<Rightarrow> net_result \<times> net_world" where
  "net_socketConnect i args io w =
     (if i \<ge> length (sockets w) then (NThrow ''Invalid socket object'', w)
      else
        (let s = sockets w ! i; (p, host) = connect_args args in
         if sk_connected s then (NThrow ''Socket already connected'', w)
         else if p < 0 \<or> p > 65535 then (NThrow ''Invalid port number'', w)
         else
           (let (fd, cl) = connect_task io p host; w1 = w\<lparr>closed := closed w @ cl\<rparr>
            in if fd < 0 then (NThrow ''Connection failed'', w1)
               else
                 (let s1 = s\<lparr>sk_local := local_addr io, sk_remote := peer_addr io, sk_fd := fd, sk_connected := True\<rparr>;
                      w2 = enqueue_net (if sk_emitter s then [Emit_connect i] else []) w1
                  in if sk_reader s1 \<noteq> Not_started then (NTerminate, (put_socket i s1 w2)\<lparr>terminated := True\<rparr>)
                     else (NUndefined, put_socket i (s1\<lparr>sk_reader := Running\<rparr>) w2)))))"

definition net_createConnection :: "bool \<Rightarrow> net_arg list \<Rightarrow> net_io \<Rightarrow> net_world \<Rightarrow> net_result \<times> net_world" where
  "net_createConnection emitter args io w =
     (let i = length (sockets w); w1 = w\<lparr>sockets := sockets w @ [new_socket emitter]\<rparr>
      in if args = [] then (NObj i, w1)
         else (let (r, w2) = net_socketConnect i args io w1 in (if r = NTerminate then NTerminate else NObj i, w2)))"

text \<open>\<open>getDataFromJSValue\<close>: a buffer goes through its \<open>toString\<close>, and both through a C string;
  the bytes of a buffer whose conversion fails are zero.\<close>

datatype net_data = Data_buffer nat "bytes option" | Data_string "bytes option" | Data_other

definition c_text :: "bytes \<Rightarrow> bytes" where
  "c_text bs = takeWhile (\<lambda>b. b \<noteq> 0) bs"

definition net_getData :: "net_data \<Rightarrow> bytes" where
  "net_getData d = (case d of
     Data_buffer len (Some bs) \<Rightarrow> c_text bs | Data_buffer len None \<Rightarrow> replicate len 0
   | Data_string (Some bs) \<Rightarrow> c_text bs | _ \<Rightarrow> [])"

text \<open>\<open>k\<close> is what \<open>send\<close> returns: the number of bytes taken, or negative.\<close>

definition net_socketWrite :: "nat \<Rightarrow> net_data option \<Rightarrow> int \<Rightarrow> net_world \<Rightarrow> net_result \<times> net_world" where
  "net_socketWrite i data k w =
     (if i \<ge> length (sockets w) \<or> \<not> sk_connected (sockets w ! i) then (NThrow ''Socket not connected'', w)
      else (case data of
          None \<Rightarrow> (NThrow ''write requires data'', w)
        | Some d \<Rightarrow>
            if net_getData d = [] then (NBool False, w)
            else (NBool (k > 0), w\<lparr>sent := sent w @ [(sk_fd (sockets w ! i), take (nat k) (net_getData d))]\<rparr>)))"

definition net_socketEnd :: "nat \<Rightarrow> net_data option \<Rightarrow> int \<Rightarrow> net_world \<Rightarrow> net_result \<times> net_world" where
  "net_socketEnd i data k w =
     (if i \<ge> length (sockets w) then (NUndefined, w)
      else
        (let w1 = (if data \<noteq> None then snd (net_socketWrite i data k w) else w); s = sockets w1 ! i
         in (NUndefined, if sk_connected s \<and> sk_fd s \<ge> 0 then w1\<lparr>shut := shut w1 @ [sk_fd s]\<rparr> else w1)))"

definition socket_destroy :: "net_socket \<Rightarrow> net_socket \<times> int list" where
  "socket_destroy s =
     (if sk_destroyed s then (s, [])
      else (s\<lparr>sk_destroyed := True, sk_connected := False, sk_fd := - 1\<rparr>, if sk_fd s \<ge> 0 then [sk_fd s] else []))"

definition net_socketDestroy :: "nat \<Rightarrow> net_world \<Rightarrow> net_result \<times> net_world" where
  "net_socketDestroy i w =
     (if i < length (sockets w)
      then (let (s, cl) = socket_destroy (sockets w ! i) in (NUndefined, (put_socket i s w)\<lparr>closed := closed w @ cl\<rparr>))
      else (NUndefined, w))"

definition net_socketAddress :: "nat \<Rightarrow> net_world \<Rightarrow> net_result" where
  "net_socketAddress i w =
     (if i \<ge> length (sockets w) \<or> \<not> sk_connected (sockets w ! i) then NNull
      else NAddress (snd (sk_local (sockets w ! i))) (fst (sk_local (sockets w ! i))))"

section \<open>The threads\<close>

text \<open>One round of the read thread of a socket; \<open>bs\<close> is what \<open>recv\<close> delivers, nothing at the end or on an error.\<close>

definition reader_round :: "nat \<Rightarrow> bytes \<Rightarrow> net_world \<Rightarrow> net_world" where
  "reader_round i bs w =
     (let s = sockets w ! i; fin = (if sk_emitter s then [Emit_end i] else []) in
      if \<not> (sk_connected s \<and> \<not> sk_destroyed s) then enqueue_net fin (put_socket i (s\<lparr>sk_reader := Finished\<rparr>) w)
      else if bs = [] then enqueue_net fin (put_socket i (s\<lparr>sk_connected := False, sk_reader := Finished\<rparr>) w)
      else enqueue_net (if sk_emitter s then [Emit_data i bs] else []) w)"

text \<open>One round of the accept thread; \<open>c\<close> is what \<open>accept\<close> returns. The new socket has no emitter.\<close>

definition accept_round :: "nat \<Rightarrow> int \<Rightarrow> string \<times> int \<Rightarrow> string \<times> int \<Rightarrow> net_world \<Rightarrow> net_world" where
  "accept_round i c peer here w =
     (let s = servers w ! i in
      if \<not> (ns_listening s \<and> \<not> ns_closed s) then put_server i (s\<lparr>ns_thread := Finished\<rparr>) w
      else if c < 0 then w
      else
        (let k = length (sockets w);
             t = (new_socket False)\<lparr>sk_fd := c, sk_connected := True, sk_remote := peer, sk_local := here,
               sk_reader := Running, sk_accepted := True\<rparr>
         in enqueue_net (if ns_listener s then [Call_listener i k] else []) (w\<lparr>sockets := sockets w @ [t]\<rparr>)))"

inductive net_step :: "net_world \<Rightarrow> net_world \<Rightarrow> bool" where
  create_server: "\<not> terminated w \<Longrightarrow> net_step w (snd (net_createServer arg w))"
| listen: "\<not> terminated w \<Longrightarrow> net_step w (snd (net_serverListen i arg io w))"
| close: "\<not> terminated w \<Longrightarrow> net_step w (snd (net_serverClose i w))"
| create_connection: "\<not> terminated w \<Longrightarrow> net_step w (snd (net_createConnection e args io w))"
| connect: "\<not> terminated w \<Longrightarrow> net_step w (snd (net_socketConnect i args io w))"
| write_socket: "\<not> terminated w \<Longrightarrow> net_step w (snd (net_socketWrite i data k w))"
| end_socket: "\<not> terminated w \<Longrightarrow> net_step w (snd (net_socketEnd i data k w))"
| destroy: "\<not> terminated w \<Longrightarrow> net_step w (snd (net_socketDestroy i w))"
| read_round: "\<not> terminated w \<Longrightarrow> i < length (sockets w) \<Longrightarrow> sk_reader (sockets w ! i) = Running \<Longrightarrow>
    net_step w (reader_round i bs w)"
| accept: "\<not> terminated w \<Longrightarrow> i < length (servers w) \<Longrightarrow> ns_thread (servers w ! i) = Running \<Longrightarrow>
    net_step w (accept_round i c peer here w)"
| join_reader: "\<not> terminated w \<Longrightarrow> i < length (sockets w) \<Longrightarrow> sk_destroyed (sockets w ! i) \<Longrightarrow>
    sk_reader (sockets w ! i) = Finished \<Longrightarrow>
    net_step w (put_socket i ((sockets w ! i)\<lparr>sk_reader := Not_started\<rparr>) w)"
| join_accept: "\<not> terminated w \<Longrightarrow> i < length (servers w) \<Longrightarrow> ns_closed (servers w ! i) \<Longrightarrow>
    ns_thread (servers w ! i) = Finished \<Longrightarrow>
    net_step w (put_server i ((servers w ! i)\<lparr>ns_thread := Not_started\<rparr>) w)"
| deliver: "\<not> terminated w \<Longrightarrow> delivered w < length (queued w) \<Longrightarrow> net_step w (w\<lparr>delivered := Suc (delivered w)\<rparr>)"

definition net_start :: net_world where
  "net_start = \<lparr>servers = [], sockets = [], queued = [], delivered = 0, sent = [], closed = [], shut = [], terminated = False\<rparr>"

section \<open>Accepted connections are silent\<close>

definition socket_ok :: "net_socket \<Rightarrow> bool" where
  "socket_ok s \<longleftrightarrow> (sk_accepted s \<longrightarrow> \<not> sk_emitter s)"

fun callback_ok :: "net_socket list \<Rightarrow> net_callback \<Rightarrow> bool" where
  "callback_ok ss (Emit_connect i) = (i < length ss \<and> sk_emitter (ss ! i))"
| "callback_ok ss (Emit_data i bs) = (i < length ss \<and> sk_emitter (ss ! i) \<and> bs \<noteq> [])"
| "callback_ok ss (Emit_end i) = (i < length ss \<and> sk_emitter (ss ! i))"
| "callback_ok ss (Call_listener i k) = (k < length ss \<and> sk_accepted (ss ! k))"

definition net_inv :: "net_world \<Rightarrow> bool" where
  "net_inv w \<longleftrightarrow> list_all socket_ok (sockets w) \<and> list_all (callback_ok (sockets w)) (queued w)
     \<and> delivered w \<le> length (queued w)"

text \<open>Emitters and the origin of a socket never change, and sockets are never removed.\<close>

definition keeps_sockets :: "net_socket list \<Rightarrow> net_socket list \<Rightarrow> bool" where
  "keeps_sockets ss ts \<longleftrightarrow> length ss \<le> length ts \<and>
     list_all2 (\<lambda>s t. sk_emitter t = sk_emitter s \<and> sk_accepted t = sk_accepted s) ss (take (length ss) ts)"

lemma keeps_sockets_nth:
  "keeps_sockets ss ts \<Longrightarrow> i < length ss \<Longrightarrow>
     i < length ts \<and> sk_emitter (ts ! i) = sk_emitter (ss ! i) \<and> sk_accepted (ts ! i) = sk_accepted (ss ! i)"
  by (auto simp: keeps_sockets_def list_all2_conv_all_nth)

lemma callback_ok_keeps: "keeps_sockets ss ts \<Longrightarrow> callback_ok ss c \<Longrightarrow> callback_ok ts c"
  by (cases c) (auto dest: keeps_sockets_nth)

lemma keeps_refl: "keeps_sockets ss ss"
  by (simp add: keeps_sockets_def list_all2_same)

lemma keeps_append: "keeps_sockets ss (ss @ ts)"
  by (simp add: keeps_sockets_def list_all2_same)

lemma keeps_update:
  assumes "i < length ss \<Longrightarrow> sk_emitter t = sk_emitter (ss ! i) \<and> sk_accepted t = sk_accepted (ss ! i)"
  shows "keeps_sockets ss (ss[i := t])"
proof -
  have "sk_emitter (ss[i := t] ! j) = sk_emitter (ss ! j) \<and> sk_accepted (ss[i := t] ! j) = sk_accepted (ss ! j)"
    if "j < length ss" for j
  proof (cases "j = i")
    case True
    then show ?thesis using assms that by fastforce
  qed simp
  then have "list_all2 (\<lambda>s u. sk_emitter u = sk_emitter s \<and> sk_accepted u = sk_accepted s) ss (ss[i := t])"
    unfolding list_all2_conv_all_nth by simp
  then show ?thesis by (simp add: keeps_sockets_def)
qed

text \<open>A step keeps the sockets; what it adds, sockets and callbacks, is in order.\<close>

lemma net_inv_step:
  assumes "net_inv w" and "keeps_sockets (sockets w) (sockets u)"
    and "list_all socket_ok (drop (length (sockets w)) (sockets u))"
    and "queued u = queued w @ cbs" and "list_all (callback_ok (sockets u)) cbs"
    and "delivered u = delivered w"
  shows "net_inv u"
proof -
  have "socket_ok (sockets u ! i)" if "i < length (sockets u)" for i
  proof (cases "i < length (sockets w)")
    case True
    with keeps_sockets_nth [OF assms(2) True] assms(1) show ?thesis
      by (auto simp: net_inv_def socket_ok_def list_all_length)
  next
    case False
    then have "sockets u ! i = drop (length (sockets w)) (sockets u) ! (i - length (sockets w))" using that by simp
    moreover have "i - length (sockets w) < length (drop (length (sockets w)) (sockets u))" using that False by simp
    ultimately show ?thesis using assms(3) unfolding list_all_length by metis
  qed
  then have "list_all socket_ok (sockets u)" by (simp add: list_all_length)
  moreover have "list_all (callback_ok (sockets u)) (queued w)"
    using assms(1,2) by (auto simp: net_inv_def list_all_iff intro: callback_ok_keeps)
  ultimately show ?thesis using assms(1,4-6) by (simp add: net_inv_def)
qed

lemma net_inv_same_sockets:
  "net_inv w \<Longrightarrow> sockets u = sockets w \<Longrightarrow> queued u = queued w \<Longrightarrow> delivered u = delivered w \<Longrightarrow> net_inv u"
  by (simp add: net_inv_def)

text \<open>What \<open>connect\<close> changes: nothing, or one socket, with at most one callback.\<close>

lemma socketConnect_effect:
  fixes args :: "net_arg list" and io :: net_io
  assumes "i < length (sockets w)"
  defines "u \<equiv> snd (net_socketConnect i args io w)"
  shows "delivered u = delivered w \<and>
    (sockets u = sockets w \<and> queued u = queued w
     \<or> (\<exists>t. sockets u = (sockets w)[i := t] \<and> sk_emitter t = sk_emitter (sockets w ! i)
          \<and> sk_accepted t = sk_accepted (sockets w ! i)
          \<and> queued u = queued w @ (if sk_emitter t then [Emit_connect i] else [])))"
proof -
  obtain p host where a: "connect_args args = (p, host)" by fastforce
  obtain fd cl where t: "connect_task io p host = (fd, cl)" by fastforce
  note unfolded = net_socketConnect_def Let_def put_socket_def enqueue_net_def a t
  show ?thesis
  proof (cases "sk_connected (sockets w ! i) \<or> p < 0 \<or> p > 65535 \<or> fd < 0")
    case True
    then have "sockets u = sockets w" "queued u = queued w" "delivered u = delivered w"
      using assms(1) by (auto simp: u_def unfolded)
    then show ?thesis by blast
  next
    case False
    have "sockets u = (sockets w)[i := sockets u ! i]" "sk_emitter (sockets u ! i) = sk_emitter (sockets w ! i)"
      "sk_accepted (sockets u ! i) = sk_accepted (sockets w ! i)"
      "queued u = queued w @ (if sk_emitter (sockets u ! i) then [Emit_connect i] else [])" "delivered u = delivered w"
      using assms(1) False by (simp_all add: u_def unfolded)
    then show ?thesis by blast
  qed
qed

lemma net_inv_connect: "net_inv w \<Longrightarrow> net_inv (snd (net_socketConnect i args io w))"
proof (cases "i < length (sockets w)")
  case True
  let ?u = "snd (net_socketConnect i args io w)"
  assume inv: "net_inv w"
  note socketConnect_effect [OF True, of args io]
  then consider "sockets ?u = sockets w" "queued ?u = queued w" "delivered ?u = delivered w"
    | t where "sockets ?u = (sockets w)[i := t]" "sk_emitter t = sk_emitter (sockets w ! i)"
        "sk_accepted t = sk_accepted (sockets w ! i)"
        "queued ?u = queued w @ (if sk_emitter t then [Emit_connect i] else [])" "delivered ?u = delivered w"
    by blast
  then show ?thesis
  proof cases
    case 1
    then show ?thesis using inv by (intro net_inv_same_sockets [of w ?u]) simp_all
  next
    case 2
    then have "keeps_sockets (sockets w) (sockets ?u)" by (simp add: keeps_update)
    from net_inv_step [OF inv this _ 2(4) _ 2(5)] 2 True show ?thesis by simp
  qed
qed (simp add: net_socketConnect_def)

lemma net_step_inv: "net_step w u \<Longrightarrow> net_inv w \<Longrightarrow> net_inv u"
proof (induction rule: net_step.induct)
  case (create_server w arg)
  then show ?case by (elim net_inv_same_sockets) (simp_all add: net_createServer_def Let_def)
next
  case (listen w i arg io)
  then show ?case
    by (elim net_inv_same_sockets) (auto simp: net_serverListen_def Let_def put_server_def split: prod.splits)
next
  case (close w i)
  then show ?case
    by (elim net_inv_same_sockets) (auto simp: net_serverClose_def Let_def put_server_def split: prod.splits)
next
  case (create_connection w e args io)
  let ?w = "w\<lparr>sockets := sockets w @ [new_socket e]\<rparr>"
  have "net_inv ?w"
    using create_connection(2) by (intro net_inv_step [of w ?w "[]"]) (simp_all add: keeps_append socket_ok_def new_socket_def)
  from net_inv_connect [OF this, of "length (sockets w)" args io] \<open>net_inv ?w\<close> show ?case
    by (auto simp: net_createConnection_def Let_def split: prod.splits)
next
  case (connect w i args io)
  then show ?case by (simp add: net_inv_connect)
next
  case (write_socket w i data k)
  then show ?case
    by (elim net_inv_same_sockets) (auto simp: net_socketWrite_def split: option.splits)
next
  case (end_socket w i data k)
  then show ?case
    by (elim net_inv_same_sockets) (auto simp: net_socketEnd_def net_socketWrite_def Let_def split: option.splits)
next
  case (destroy w i)
  have "keeps_sockets (sockets w) (sockets (snd (net_socketDestroy i w)))"
    by (auto simp: net_socketDestroy_def socket_destroy_def Let_def put_socket_def keeps_refl intro!: keeps_update)
  moreover have "length (sockets (snd (net_socketDestroy i w))) = length (sockets w)"
    "queued (snd (net_socketDestroy i w)) = queued w" "delivered (snd (net_socketDestroy i w)) = delivered w"
    by (auto simp: net_socketDestroy_def socket_destroy_def Let_def put_socket_def)
  ultimately show ?case using net_inv_step [OF destroy(2), of _ "[]"] by simp
next
  case (read_round w i bs)
  let ?u = "reader_round i bs w"
  define cbs where "cbs = drop (length (queued w)) (queued ?u)"
  have k: "keeps_sockets (sockets w) (sockets ?u)" "length (sockets ?u) = length (sockets w)"
      "queued ?u = queued w @ cbs" "delivered ?u = delivered w"
    by (auto simp: cbs_def reader_round_def Let_def enqueue_net_def put_socket_def keeps_refl intro!: keeps_update)
  have "list_all (callback_ok (sockets ?u)) cbs"
    using read_round(2) by (auto simp: cbs_def reader_round_def Let_def enqueue_net_def put_socket_def)
  with net_inv_step [OF read_round(4) k(1) _ k(3) _ k(4)] k(2) show ?case by simp
next
  case (accept w i c peer here)
  let ?u = "accept_round i c peer here w"
  define cbs where "cbs = drop (length (queued w)) (queued ?u)"
  have k: "keeps_sockets (sockets w) (sockets ?u)" "queued ?u = queued w @ cbs" "delivered ?u = delivered w"
      "list_all socket_ok (drop (length (sockets w)) (sockets ?u))" "list_all (callback_ok (sockets ?u)) cbs"
    by (auto simp: cbs_def accept_round_def Let_def enqueue_net_def put_server_def keeps_refl keeps_append
        socket_ok_def new_socket_def)
  show ?case by (rule net_inv_step [OF accept(4) k(1,4,2,5,3)])
next
  case (join_reader w i)
  let ?u = "put_socket i ((sockets w ! i)\<lparr>sk_reader := Not_started\<rparr>) w"
  have "keeps_sockets (sockets w) (sockets ?u)" by (auto simp: put_socket_def intro!: keeps_update)
  then show ?case using net_inv_step [OF join_reader(5), of ?u "[]"] by (simp add: put_socket_def)
next
  case (join_accept w i)
  then show ?case by (elim net_inv_same_sockets) (simp_all add: put_server_def)
next
  case (deliver w)
  then show ?case by (simp add: net_inv_def)
qed

lemma net_inv_start: "net_inv net_start"
  by (simp add: net_inv_def net_start_def)

interpretation net_fifo: fifo_service "\<lambda>w. w = net_start" net_step net_inv queued
  "\<lambda>w. take (delivered w) (queued w)" "\<lambda>w. drop (delivered w) (queued w)"
  by unfold_locales (auto simp: net_inv_start intro: net_step_inv)

text \<open>Whatever happens, no callback delivers an event of a connection that a server accepted: such a
  socket has no emitter, and what it receives is dropped. Callbacks are delivered in order.\<close>

theorem accepted_sockets_silent:
  assumes "net_step\<^sup>*\<^sup>* net_start w" and "c \<in> set (queued w)"
  shows "(case c of
      Emit_connect i \<Rightarrow> \<not> sk_accepted (sockets w ! i)
    | Emit_data i bs \<Rightarrow> \<not> sk_accepted (sockets w ! i)
    | Emit_end i \<Rightarrow> \<not> sk_accepted (sockets w ! i)
    | Call_listener i k \<Rightarrow> sk_accepted (sockets w ! k))"
proof -
  have inv: "net_inv w" by (rule net_fifo.reachable_inv [OF assms(1) refl])
  then have "callback_ok (sockets w) c" using assms(2) by (auto simp: net_inv_def list_all_iff)
  moreover have "\<not> sk_accepted (sockets w ! i)" if "i < length (sockets w)" "sk_emitter (sockets w ! i)" for i
    using inv that by (auto simp: net_inv_def socket_ok_def list_all_length)
  ultimately show ?thesis by (cases c) auto
qed

definition example_io :: net_io where
  "example_io = \<lparr>sock = 3, pton = \<lambda>h. True, bind_ok = True, bound_port = None, listen_ok = True, connect_ok = \<lambda>h p. True,
     local_addr = (''127.0.0.1'', 5), peer_addr = (''127.0.0.1'', 80)\<rparr>"

lemma accepted_sockets_silent_witness:
  "\<not> sk_accepted (sockets (snd (net_createConnection True [NNumber 80] example_io net_start)) ! 0)"
proof -
  let ?w = "snd (net_createConnection True [NNumber 80] example_io net_start)"
  have "net_step\<^sup>*\<^sup>* net_start ?w"
    by (rule r_into_rtranclp, rule net_step.create_connection) (simp add: net_start_def)
  moreover have "Emit_connect 0 \<in> set (queued ?w)" by code_simp
  ultimately show ?thesis using accepted_sockets_silent [of ?w "Emit_connect 0"] by simp
qed

section \<open>What a connection delivers\<close>

fun reader_rounds :: "nat \<Rightarrow> bytes list \<Rightarrow> net_world \<Rightarrow> net_world" where
  "reader_rounds i [] w = w"
| "reader_rounds i (bs # bss) w =
     (if sk_reader (sockets w ! i) = Running then reader_rounds i bss (reader_round i bs w) else w)"

lemma reader_rounds_data:
  assumes "i < length (sockets w)" and "sk_connected (sockets w ! i)" and "\<not> sk_destroyed (sockets w ! i)"
    and "sk_emitter (sockets w ! i)" and "sk_reader (sockets w ! i) = Running" and "list_all (\<lambda>bs. bs \<noteq> []) bss"
  shows "reader_rounds i (bss @ [] # later) w = enqueue_net (map (Emit_data i) bss @ [Emit_end i])
    (put_socket i ((sockets w ! i)\<lparr>sk_connected := False, sk_reader := Finished\<rparr>) w)"
  using assms
proof (induction bss arbitrary: w)
  case Nil
  have "reader_rounds i later u = u" if "sk_reader (sockets u ! i) = Finished" for u
    using that by (cases later) auto
  with Nil show ?case by (simp add: reader_round_def Let_def enqueue_net_def put_socket_def)
next
  case (Cons bs bss)
  let ?u = "reader_round i bs w"
  have u: "?u = enqueue_net [Emit_data i bs] w"
    using Cons.prems by (simp add: reader_round_def Let_def)
  then have "sockets ?u = sockets w" by (simp add: enqueue_net_def)
  with Cons.IH [of ?u] Cons.prems show ?case
    by (simp add: u enqueue_net_def put_socket_def)
qed

text \<open>A connected socket with an emitter delivers the chunks it receives up to the end of the stream, in
  order, then one end; then it is no longer connected, its thread is not joined, and connecting it
  again ends the process.\<close>

theorem connection_delivers:
  assumes "i < length (sockets w)" and "sk_connected (sockets w ! i)" and "\<not> sk_destroyed (sockets w ! i)"
    and "sk_emitter (sockets w ! i)" and "sk_reader (sockets w ! i) = Running" and "list_all (\<lambda>bs. bs \<noteq> []) bss"
    and "sock io \<ge> 0" and "connect_ok io (if pton io h then h else ''0.0.0.0'') p" and "0 \<le> p" and "p \<le> 65535"
  shows "queued (reader_rounds i (bss @ [] # later) w) = queued w @ map (Emit_data i) bss @ [Emit_end i]
    \<and> fst (net_socketConnect i [NNumber p, NString h] io (reader_rounds i (bss @ [] # later) w)) = NTerminate"
  using assms(1,7-10)
  by (simp add: reader_rounds_data [OF assms(1-6)] enqueue_net_def put_socket_def net_socketConnect_def connect_args_def
      connect_task_def Let_def)

lemma connection_delivers_witness:
  "let w = snd (net_createConnection True [NNumber 80] example_io net_start)
   in fst (net_socketConnect 0 [NNumber 80, NString ''a''] example_io (reader_rounds 0 ([[1]] @ [[]]) w)) = NTerminate"
proof -
  let ?w = "snd (net_createConnection True [NNumber 80] example_io net_start)"
  have "0 < length (sockets ?w)" "sk_connected (sockets ?w ! 0)" "\<not> sk_destroyed (sockets ?w ! 0)"
    "sk_emitter (sockets ?w ! 0)" "sk_reader (sockets ?w ! 0) = Running" by code_simp+
  from connection_delivers [OF this, of "[[1]]" example_io "''a''" 80 "[]"] show ?thesis
    by (simp add: example_io_def Let_def)
qed

text \<open>A server that was closed listens again, but its thread ends before it accepts anything.\<close>

lemma listen_after_close:
  "i < length (servers w) \<Longrightarrow> ns_closed (servers w ! i) \<Longrightarrow> sockets (accept_round i c peer here w) = sockets w"
  by (simp add: accept_round_def Let_def put_server_def)

end
