(* ===== verification/Benchmarks.thy ===== *)
theory Benchmarks
  imports Semver FileTree
begin

text \<open>
  Models \<open>src/benchmarking/BenchmarkRunner.cpp\<close>: running benchmark scripts, their statistics, the reports,
  the baseline file, and the run for continuous integration that compares with it.

  \<^item> Doubles are a parameter (\<open>bench_env\<close>) with their arithmetic, their order, the conversion from
    integers, and their printing and reading. The result of the k-th command, with the milliseconds it
    took, and the k-th reading of the peak memory are parameters too. The scripts are taken to leave the
    files the runner reads as they are.
  \<^item> A \<open>BenchmarkResult\<close> starts with five fields that are not set; \<open>junk\<close> is what they hold.
\<close>

record 'd bench_env =
  dadd :: "'d \<Rightarrow> 'd \<Rightarrow> 'd"
  dsub :: "'d \<Rightarrow> 'd \<Rightarrow> 'd"
  dmul :: "'d \<Rightarrow> 'd \<Rightarrow> 'd"
  ddiv :: "'d \<Rightarrow> 'd \<Rightarrow> 'd"
  dsqrt :: "'d \<Rightarrow> 'd"
  dlt :: "'d \<Rightarrow> 'd \<Rightarrow> bool"
  dint :: "int \<Rightarrow> 'd"
  dshow :: "'d \<Rightarrow> string"
  dfixed :: "'d \<Rightarrow> string"
  stod :: "string \<Rightarrow> 'd option"
  outcome :: "nat \<Rightarrow> string \<Rightarrow> int \<times> nat"
  maxrss :: "nat \<Rightarrow> nat option"

record 'd bench_result =
  bname :: string
  protojs_time :: 'd
  nodejs_time :: 'd
  speedup :: 'd
  memory_usage :: nat
  success :: bool
  error_message :: string
  has_stats :: bool
  median_ms :: 'd
  stddev_ms :: 'd
  min_ms :: 'd
  max_ms :: 'd
  iterations_run :: nat

record 'd bench_stats =
  st_mean :: 'd
  st_median :: 'd
  st_stddev :: 'd
  st_min :: 'd
  st_max :: 'd
  st_iterations :: nat

record bench_world =
  disk :: tree
  ran :: "string list"
  asked :: nat

type_synonym 'd junk = "'d \<times> 'd \<times> 'd \<times> nat \<times> bool"

definition new_result :: "'d bench_env \<Rightarrow> 'd junk \<Rightarrow> string \<Rightarrow> 'd bench_result" where
  "new_result E J name = (case J of (a, b, c, m, s) \<Rightarrow>
     \<lparr>bname = name, protojs_time = a, nodejs_time = b, speedup = c, memory_usage = m, success = s, error_message = [],
       has_stats = False, median_ms = dint E 0, stddev_ms = dint E 0, min_ms = dint E 0, max_ms = dint E 0,
       iterations_run = 0\<rparr>)"

section \<open>Running\<close>

definition executeBenchmark :: "'d bench_env \<Rightarrow> string \<Rightarrow> string \<Rightarrow> bench_world \<Rightarrow> 'd \<times> bench_world" where
  "executeBenchmark E script runtime w =
     (let command = runtime @ '' '' @ script @ '' > /dev/null 2>&1'';
          (status, ms) = outcome E (length (ran w)) command
      in (if status \<noteq> 0 then dint E (- 1) else dint E (int ms), w\<lparr>ran := ran w @ [command]\<rparr>))"

definition getMemoryUsage :: "'d bench_env \<Rightarrow> bench_world \<Rightarrow> nat \<times> bench_world" where
  "getMemoryUsage E w =
     (case maxrss E (asked w) of Some k \<Rightarrow> k * 1024 | None \<Rightarrow> 0, w\<lparr>asked := Suc (asked w)\<rparr>)"

definition not_found :: "string \<Rightarrow> string" where
  "not_found f = ''Benchmark file not found: '' @ f"

definition runBenchmark :: "'d bench_env \<Rightarrow> 'd junk \<Rightarrow> string \<Rightarrow> bench_world \<Rightarrow> 'd bench_result \<times> bench_world" where
  "runBenchmark E J f w =
     (let r = (new_result E J f)\<lparr>success := False\<rparr> in
      if \<not> path_exists (disk w) f then (r\<lparr>error_message := not_found f\<rparr>, w)
      else
        (let (before, w1) = getMemoryUsage E w;
             (t, w2) = executeBenchmark E f ''protojs'' w1;
             (after, w3) = getMemoryUsage E w2;
             ok = dlt E (dint E 0) t
         in (r\<lparr>protojs_time := t, memory_usage := (if after > before then after - before else 0), success := ok,
               error_message := (if ok then [] else ''Failed to execute benchmark with protoJS'')\<rparr>, w3)))"

fun insert_sorted :: "'d bench_env \<Rightarrow> 'd \<Rightarrow> 'd list \<Rightarrow> 'd list" where
  "insert_sorted E x [] = [x]"
| "insert_sorted E x (y # ys) = (if dlt E y x then y # insert_sorted E x ys else x # y # ys)"

text \<open>\<open>std::sort\<close>\<close>

definition sort_samples :: "'d bench_env \<Rightarrow> 'd list \<Rightarrow> 'd list" where
  "sort_samples E xs = foldr (insert_sorted E) xs []"

definition computeStats :: "'d bench_env \<Rightarrow> 'd list \<Rightarrow> 'd bench_stats" where
  "computeStats E samples =
     (let z = dint E 0; none = \<lparr>st_mean = z, st_median = z, st_stddev = z, st_min = z, st_max = z, st_iterations = 0\<rparr> in
      if samples = [] then none
      else
        (let n = length samples;
             sorted = sort_samples E samples;
             mean = ddiv E (foldl (dadd E) z samples) (dint E (int n));
             mid = n div 2;
             median = (if n mod 2 = 1 then sorted ! mid
               else ddiv E (dadd E (sorted ! (mid - 1)) (sorted ! mid)) (dint E 2));
             sq = foldl (\<lambda>s v. dadd E s (dmul E (dsub E v mean) (dsub E v mean))) z samples;
             dev = (if n > 1 then dsqrt E (ddiv E sq (dint E (int (n - 1)))) else z)
         in \<lparr>st_mean = mean, st_median = median, st_stddev = dev, st_min = hd sorted, st_max = last sorted,
              st_iterations = n\<rparr>))"

fun collect_samples :: "'d bench_env \<Rightarrow> string \<Rightarrow> nat \<Rightarrow> bench_world \<Rightarrow> 'd list \<times> bench_world" where
  "collect_samples E f 0 w = ([], w)"
| "collect_samples E f (Suc n) w =
     (let (t, w1) = executeBenchmark E f ''protojs'' w; (ts, w2) = collect_samples E f n w1
      in (if dlt E (dint E 0) t then t # ts else ts, w2))"

definition runBenchmarkRepeated :: "'d bench_env \<Rightarrow> 'd junk \<Rightarrow> string \<Rightarrow> nat \<Rightarrow> bench_world \<Rightarrow> 'd bench_result \<times> bench_world" where
  "runBenchmarkRepeated E J f iterations w =
     (let r = (new_result E J f)\<lparr>success := False\<rparr> in
      if \<not> path_exists (disk w) f then (r\<lparr>error_message := not_found f\<rparr>, w)
      else
        (let (samples, w1) = collect_samples E f (if iterations = 0 then 1 else iterations) w in
         if samples = [] then (r\<lparr>error_message := ''All runs failed''\<rparr>, w1)
         else
           (let s = computeStats E samples; (m, w2) = getMemoryUsage E w1
            in (r\<lparr>protojs_time := st_mean s, has_stats := True, median_ms := st_median s, stddev_ms := st_stddev s,
                  min_ms := st_min s, max_ms := st_max s, iterations_run := length samples, success := True,
                  memory_usage := m\<rparr>, w2))))"

fun runSuite :: "'d bench_env \<Rightarrow> (nat \<Rightarrow> 'd junk) \<Rightarrow> string list \<Rightarrow> bench_world \<Rightarrow> 'd bench_result list \<times> bench_world" where
  "runSuite E J [] w = ([], w)"
| "runSuite E J (f # fs) w =
     (let (r, w1) = runBenchmark E (J (length fs)) f w; (rs, w2) = runSuite E J fs w1 in (r # rs, w2))"

definition compareWithNodeJS :: "'d bench_env \<Rightarrow> 'd junk \<Rightarrow> string \<Rightarrow> bench_world \<Rightarrow> 'd bench_result \<times> bench_world" where
  "compareWithNodeJS E J f w =
     (let (t, w1) = executeBenchmark E f ''protojs'' w; (u, w2) = executeBenchmark E f ''node'' w1;
          r = (new_result E J f)\<lparr>protojs_time := t, nodejs_time := u\<rparr>
      in if dlt E (dint E 0) t \<and> dlt E (dint E 0) u then (r\<lparr>speedup := ddiv E u t, success := True\<rparr>, w2)
         else (r\<lparr>success := False, error_message := ''Failed to execute benchmark with one or both runtimes''\<rparr>, w2))"

section \<open>Reports\<close>

definition ln :: "string \<Rightarrow> string" where
  "ln s = s @ [newline]"

text \<open>The ratio as the reports show it: how many times faster or slower.\<close>

definition shown_ratio :: "'d bench_env \<Rightarrow> 'd bench_result \<Rightarrow> string" where
  "shown_ratio E r = dshow E (if dlt E (dint E 1) (speedup r) then speedup r else ddiv E (dint E 1) (speedup r))"

definition kilobytes :: "'d bench_env \<Rightarrow> 'd bench_result \<Rightarrow> string" where
  "kilobytes E r = dshow E (ddiv E (dint E (int (memory_usage r))) (dint E 1024))"

definition report_entry :: "'d bench_env \<Rightarrow> 'd bench_result \<Rightarrow> string" where
  "report_entry E r =
     ln (''Benchmark: '' @ bname r)
   @ ln (''  protoJS Time: '' @ dshow E (protojs_time r) @ '' ms''
       @ (if has_stats r then '' (mean; n='' @ show_nat (iterations_run r) @ '' median='' @ dshow E (median_ms r)
           @ '' stddev='' @ dshow E (stddev_ms r) @ '' min='' @ dshow E (min_ms r) @ '' max='' @ dshow E (max_ms r) @ '')''
          else []))
   @ (if dlt E (dint E 0) (nodejs_time r) then
        ln (''  Node.js Time: '' @ dshow E (nodejs_time r) @ '' ms'')
      @ ln (''  Speedup: '' @ shown_ratio E r @ ''x '' @ (if dlt E (dint E 1) (speedup r) then ''faster'' else ''slower''))
      else [])
   @ ln (''  Memory: '' @ kilobytes E r @ '' KB'')
   @ ln (''  Status: '' @ (if success r then ''PASS'' else ''FAIL''))
   @ (if error_message r \<noteq> [] then ln (''  Error: '' @ error_message r) else [])
   @ ln []"

fun json_entries :: "'d bench_env \<Rightarrow> 'd bench_result list \<Rightarrow> string" where
  "json_entries E [] = []"
| "json_entries E (r # rs) =
     ln ''    {''
   @ ln (''      \"name\": \"'' @ bname r @ ''\",'')
   @ ln (''      \"protojs_time_ms\": '' @ dshow E (protojs_time r) @ '','')
   @ ln (''      \"nodejs_time_ms\": '' @ dshow E (nodejs_time r) @ '','')
   @ ln (''      \"speedup\": '' @ dshow E (speedup r) @ '','')
   @ ln (''      \"memory_usage_bytes\": '' @ show_nat (memory_usage r) @ '','')
   @ ln (''      \"success\": '' @ (if success r then ''true'' else ''false''))
   @ ln (if rs \<noteq> [] then ''    },'' else ''    }'')
   @ json_entries E rs"

definition bench_exportToJSON :: "'d bench_env \<Rightarrow> 'd bench_result list \<Rightarrow> string" where
  "bench_exportToJSON E rs = ln ''{'' @ ln ''  \"benchmarks\": ['' @ json_entries E rs @ ln ''  ]'' @ ln ''}''"

definition html_row :: "'d bench_env \<Rightarrow> 'd bench_result \<Rightarrow> string" where
  "html_row E r =
     ''<tr><td>'' @ bname r @ ''</td><td>'' @ dshow E (protojs_time r) @ ''</td><td>'' @ dshow E (nodejs_time r)
   @ ''</td><td>'' @ shown_ratio E r @ ''x</td><td>'' @ kilobytes E r @ ''</td><td>''
   @ (if success r then ''PASS'' else ''FAIL'') @ ln ''</td></tr>''"

definition bench_exportToHTML :: "'d bench_env \<Rightarrow> 'd bench_result list \<Rightarrow> string" where
  "bench_exportToHTML E rs =
     ln ''<!DOCTYPE html>'' @ ln ''<html><head><title>Benchmark Report</title>''
   @ ln ''<style>table{border-collapse:collapse;width:100%}th,td{border:1px solid #ddd;padding:8px;text-align:left}th{background-color:#4CAF50;color:white}</style>''
   @ ln ''</head><body><h1>Benchmark Report</h1><table>''
   @ ln ''<tr><th>Benchmark</th><th>protoJS (ms)</th><th>Node.js (ms)</th><th>Speedup</th><th>Memory (KB)</th><th>Status</th></tr>''
   @ concat (map (html_row E) rs) @ ln ''</table></body></html>''"

definition bench_generateReport :: "'d bench_env \<Rightarrow> 'd bench_result list \<Rightarrow> string \<Rightarrow> string" where
  "bench_generateReport E rs format =
     (if format = ''json'' then bench_exportToJSON E rs
      else if format = ''html'' then bench_exportToHTML E rs
      else ln ''=== Benchmark Report ==='' @ ln [] @ concat (map (report_entry E) rs))"

section \<open>Baselines\<close>

definition baseline_times :: "'d bench_env \<Rightarrow> 'd bench_result list \<Rightarrow> (string \<times> 'd) list" where
  "baseline_times E rs = foldl (\<lambda>m r. if success r \<and> dlt E (dint E 0) (protojs_time r)
     then map_put (bname r) (protojs_time r) m else m) [] rs"

definition detectRegressions :: "'d bench_env \<Rightarrow> 'd bench_result list \<Rightarrow> 'd bench_result list \<Rightarrow> 'd \<Rightarrow> string list" where
  "detectRegressions E current baseline threshold =
     (let m = baseline_times E baseline;
          factor = dadd E (dint E 1) (ddiv E threshold (dint E 100))
      in map bname (filter (\<lambda>r. success r \<and> dlt E (dint E 0) (protojs_time r) \<and>
           (case map_of m (bname r) of None \<Rightarrow> False | Some t \<Rightarrow> dlt E (dmul E t factor) (protojs_time r))) current))"

definition backslash :: char where
  "backslash = CHR 0x5C"

definition comma :: char where
  "comma = CHR '',''"

fun escapeBaselineField :: "string \<Rightarrow> string" where
  "escapeBaselineField [] = []"
| "escapeBaselineField (c # s) =
     (if c = newline \<or> c = CHR 0x0D \<or> c = comma \<or> c = backslash then [backslash] else []) @ c # escapeBaselineField s"

fun unescapeBaselineField :: "string \<Rightarrow> string" where
  "unescapeBaselineField (c # d # s) =
     (if c = backslash then d # unescapeBaselineField s else c # unescapeBaselineField (d # s))"
| "unescapeBaselineField s = s"

definition baseline_header :: string where
  "baseline_header = ''name,protojs_time_ms,nodejs_time_ms,speedup,memory_usage_bytes,success''"

definition baseline_line :: "'d bench_env \<Rightarrow> 'd bench_result \<Rightarrow> string" where
  "baseline_line E r = escapeBaselineField (bname r) @ comma # dshow E (protojs_time r) @ comma # dshow E (nodejs_time r)
     @ comma # dshow E (speedup r) @ comma # show_nat (memory_usage r) @ comma # (if success r then ''1'' else ''0'')"

definition saveBaseline :: "'d bench_env \<Rightarrow> 'd bench_result list \<Rightarrow> string \<Rightarrow> tree \<Rightarrow> bool \<times> tree" where
  "saveBaseline E rs path t =
     (case write_tree path (ln baseline_header @ concat (map (\<lambda>r. ln (baseline_line E r)) rs)) t of
        None \<Rightarrow> (False, t) | Some u \<Rightarrow> (True, u))"

text \<open>The lambda \<open>next\<close>: a field, and what is left of the line.\<close>

fun next_field :: "string \<Rightarrow> string \<times> string" where
  "next_field [] = ([], [])"
| "next_field [c] = (if c = comma then ([], []) else ([c], []))"
| "next_field (c # d # s) =
     (if c = backslash then (let (f, r) = next_field s in (d # f, r))
      else if c = comma then ([], d # s)
      else (let (f, r) = next_field (d # s) in (c # f, r)))"

text \<open>\<open>std::stoull\<close>; \<open>None\<close> is an exception.\<close>

definition stoull :: "string \<Rightarrow> nat option" where
  "stoull s =
     (let (sg, r) = read_sign (skip_ws s); ds = takeWhile is_digit r; v = digits_val ds
      in if ds = [] \<or> v \<ge> 2 ^ 64 then None
         else Some (if sg < 0 then (2 ^ 64 - v) mod 2 ^ 64 else v))"

definition parse_baseline_line :: "'d bench_env \<Rightarrow> string \<Rightarrow> 'd bench_result option" where
  "parse_baseline_line E line =
     (let (n, l1) = next_field line; (a, l2) = next_field l1; (b, l3) = next_field l2; (c, l4) = next_field l3;
          (d, e) = next_field l4
      in case (stod E a, stod E b, stod E c, stoull d) of
           (Some x, Some y, Some z, Some m) \<Rightarrow>
             Some (new_result E (x, y, z, m, e = ''1'' \<or> e = [CHR ''1'', newline] \<or> e = [CHR ''1'', CHR 0x0D])
               (unescapeBaselineField n))
         | _ \<Rightarrow> None)"

definition loadBaseline :: "'d bench_env \<Rightarrow> string \<Rightarrow> tree \<Rightarrow> 'd bench_result list" where
  "loadBaseline E path t =
     (case getlines (case read_tree t path of None \<Rightarrow> [] | Some c \<Rightarrow> c) of
        [] \<Rightarrow> []
      | h # ls \<Rightarrow> if h \<noteq> baseline_header then []
          else List.map_filter (parse_baseline_line E) (filter (\<lambda>l. l \<noteq> []) ls))"

section \<open>Configured runs\<close>

definition blank :: "char \<Rightarrow> bool" where
  "blank c \<longleftrightarrow> c = CHR '' '' \<or> c = CHR 0x09"

definition trim_line :: "string \<Rightarrow> string" where
  "trim_line l = dropWhile blank (rev (dropWhile (\<lambda>c. c = CHR 0x0D \<or> blank c) (rev l)))"

definition config_entries :: "string \<Rightarrow> string list" where
  "config_entries c = filter (\<lambda>l. l \<noteq> [] \<and> hd l \<noteq> CHR ''#'') (map trim_line (getlines c))"

definition suite_files :: "tree \<Rightarrow> string \<Rightarrow> string list" where
  "suite_files t path = tl (config_entries (case read_tree t path of None \<Rightarrow> [] | Some c \<Rightarrow> c))"

definition runSuiteFromFile :: "'d bench_env \<Rightarrow> (nat \<Rightarrow> 'd junk) \<Rightarrow> string \<Rightarrow> bench_world \<Rightarrow> 'd bench_result list \<times> bench_world" where
  "runSuiteFromFile E J path w = (let fs = suite_files (disk w) path in if fs = [] then ([], w) else runSuite E J fs w)"

record ci_result =
  ci_success :: bool
  ci_regressed :: "string list"
  ci_report :: string

definition write_report :: "string \<Rightarrow> string \<Rightarrow> tree \<Rightarrow> tree" where
  "write_report path c t = (if path = [] then t else case write_tree path c t of None \<Rightarrow> t | Some u \<Rightarrow> u)"

definition runForCI :: "'d bench_env \<Rightarrow> (nat \<Rightarrow> 'd junk) \<Rightarrow> string \<Rightarrow> string \<Rightarrow> 'd \<Rightarrow> string \<Rightarrow> bench_world \<Rightarrow> ci_result \<times> bench_world" where
  "runForCI E J config baseline_path threshold report_path w =
     (let (current, w1) = runSuiteFromFile E J config w in
      if current = [] then
        (\<lparr>ci_success = False, ci_regressed = [], ci_report = ''No benchmark results (invalid config or empty suite)''\<rparr>, w1)
      else
        (let baseline = loadBaseline E baseline_path (disk w1) in
         if baseline = [] then
           (let rep = ln ''No baseline found; saving current as baseline.'' @ bench_generateReport E current ''text'';
                t = snd (saveBaseline E current baseline_path (disk w1))
            in (\<lparr>ci_success = True, ci_regressed = [], ci_report = rep\<rparr>, w1\<lparr>disk := write_report report_path rep t\<rparr>))
         else
           (let reg = detectRegressions E current baseline threshold;
                rep = bench_generateReport E current ''text''
                  @ (if reg \<noteq> [] then ln [] @ ln (''=== REGRESSIONS (threshold '' @ dfixed E threshold @ ''%)'')
                       @ concat (map (\<lambda>n. ln (''  - '' @ n)) reg) else [])
            in (\<lparr>ci_success = (reg = []), ci_regressed = reg, ci_report = rep\<rparr>,
                w1\<lparr>disk := write_report report_path rep (disk w1)\<rparr>))))"

section \<open>The baseline file\<close>

lemma next_field_escape: "next_field (escapeBaselineField s @ comma # r) = (s, r)"
proof (induction s)
  case Nil
  then show ?case by (cases r) (simp_all add: comma_def backslash_def)
next
  case (Cons c s)
  obtain d u where d: "escapeBaselineField s @ comma # r = d # u" by (cases "escapeBaselineField s") auto
  with Cons show ?case by auto
qed

lemma next_field_plain: "comma \<notin> set f \<Longrightarrow> backslash \<notin> set f \<Longrightarrow> next_field (f @ comma # r) = (f, r)"
proof (induction f)
  case Nil
  then show ?case by (cases r) (simp_all add: comma_def backslash_def)
next
  case (Cons c f)
  obtain d u where d: "f @ comma # r = d # u" by (cases f) auto
  with Cons show ?case by auto
qed

lemma next_field_set: "set (fst (next_field l)) \<subseteq> set l"
  by (induction l rule: next_field.induct) (auto simp: Let_def split_beta)

lemma unescape_set: "set (unescapeBaselineField s) \<subseteq> set s"
  by (induction s rule: unescapeBaselineField.induct) auto

lemma unescape_length: "length (unescapeBaselineField s) \<le> length s"
  by (induction s rule: unescapeBaselineField.induct) auto

lemma unescape_id_iff: "unescapeBaselineField s = s \<longleftrightarrow> backslash \<notin> set (butlast s)"
proof (induction s rule: unescapeBaselineField.induct)
  case (1 c d s)
  have "d # unescapeBaselineField s \<noteq> c # d # s"
    using unescape_length [of s] by (metis Suc_n_not_le_n impossible_Cons le_SucI length_Cons list.inject)
  with 1 show ?case by auto
qed auto

lemma digit_plain: "is_digit c \<Longrightarrow> c \<noteq> comma \<and> c \<noteq> backslash \<and> c \<noteq> newline"
  by (auto simp: is_digit_def comma_def backslash_def newline_def less_eq_char_def)

lemma show_nat_plain: "comma \<notin> set (show_nat n)" "backslash \<notin> set (show_nat n)" "newline \<notin> set (show_nat n)"
  using show_nat_digits [of n] digit_plain by (auto simp: list_all_iff)

lemma stoull_show: "n < 2 ^ 64 \<Longrightarrow> stoull (show_nat n) = Some n"
proof -
  assume n: "n < 2 ^ 64"
  have ds: "list_all is_digit (show_nat n)" "show_nat n \<noteq> []" using show_nat_digits by auto
  then obtain c cs where c: "show_nat n = c # cs" "is_digit c" by (cases "show_nat n") auto
  then have r: "read_sign (skip_ws (show_nat n)) = (1, show_nat n)"
    using digit_not_special [OF c(2)] by (simp add: read_sign_def skip_ws_def)
  have t: "takeWhile is_digit (show_nat n) = show_nat n"
    using ds(1) by (simp add: list_all_iff takeWhile_eq_all_conv)
  show ?thesis unfolding stoull_def Let_def r prod.case t using n ds(2) by simp
qed

text \<open>A double that its printed form gives back.\<close>

definition printable :: "'d bench_env \<Rightarrow> 'd \<Rightarrow> bool" where
  "printable E d \<longleftrightarrow> stod E (dshow E d) = Some d
     \<and> comma \<notin> set (dshow E d) \<and> backslash \<notin> set (dshow E d) \<and> newline \<notin> set (dshow E d)"

definition writable :: "'d bench_env \<Rightarrow> 'd bench_result \<Rightarrow> bool" where
  "writable E r \<longleftrightarrow> printable E (protojs_time r) \<and> printable E (nodejs_time r) \<and> printable E (speedup r)
     \<and> memory_usage r < 2 ^ 64"

text \<open>What a baseline keeps of a result.\<close>

definition kept :: "'d bench_env \<Rightarrow> 'd bench_result \<Rightarrow> 'd bench_result" where
  "kept E r = new_result E (protojs_time r, nodejs_time r, speedup r, memory_usage r, success r) (bname r)"

lemma parse_saved_line:
  "writable E r \<Longrightarrow> parse_baseline_line E (baseline_line E r) = Some ((kept E r)\<lparr>bname := unescapeBaselineField (bname r)\<rparr>)"
  by (simp add: parse_baseline_line_def baseline_line_def writable_def printable_def next_field_escape next_field_plain
      show_nat_plain stoull_show kept_def new_result_def)

lemma newline_escape: "newline \<in> set (escapeBaselineField s) \<longleftrightarrow> newline \<in> set s"
  by (induction s) (auto simp: newline_def backslash_def)

lemma comma_newline: "comma \<noteq> newline"
  by (simp add: comma_def newline_def)

lemma newline_one: "newline \<noteq> CHR ''1''" "newline \<noteq> CHR ''0''"
  by (simp_all add: newline_def)

lemma newline_line: "writable E r \<Longrightarrow> newline \<in> set (baseline_line E r) \<longleftrightarrow> newline \<in> set (bname r)"
  using comma_newline
  by (auto simp: baseline_line_def writable_def printable_def newline_escape show_nat_plain newline_one)

lemma parsed_name: "parse_baseline_line E l = Some r \<Longrightarrow> set (bname r) \<subseteq> set l"
  using next_field_set [of l] unescape_set [of "fst (next_field l)"]
  by (auto simp: parse_baseline_line_def new_result_def Let_def split_beta split: option.splits)

lemma getlines_all: "\<forall>l \<in> set ls. newline \<notin> set l \<Longrightarrow> getlines (concat (map ln ls)) = ls"
  by (induction ls) (simp_all add: ln_def getlines_line)

lemma header_plain: "newline \<notin> set baseline_header"
  by (simp add: baseline_header_def newline_def)

lemma loaded_names:
  assumes "r \<in> set (loadBaseline E path t)"
  shows "newline \<notin> set (bname r)"
proof -
  let ?c = "case read_tree t path of None \<Rightarrow> [] | Some c \<Rightarrow> c"
  show ?thesis
  proof (cases "getlines ?c")
    case Nil
    then show ?thesis using assms by (simp add: loadBaseline_def)
  next
    case (Cons h ls)
    with assms obtain l where l: "l \<in> set ls" "parse_baseline_line E l = Some r"
      by (auto simp: loadBaseline_def List.map_filter_def split: if_splits)
    have "newline \<notin> set l" by (rule getlines_newline [of _ ?c]) (simp add: Cons l(1))
    then show ?thesis using parsed_name [OF l(2)] by blast
  qed
qed

lemma saved_content:
  "saveBaseline E rs path t = (True, u) \<Longrightarrow>
     read_tree u path = Some (concat (map ln (baseline_header # map (baseline_line E) rs)))"
  by (auto simp: saveBaseline_def write_tree_def read_tree_def map_of_put comp_def split: option.splits if_splits)

lemma load_saved:
  assumes "saveBaseline E rs path t = (True, u)" and "\<forall>r \<in> set rs. writable E r \<and> newline \<notin> set (bname r)"
  shows "loadBaseline E path u = map (\<lambda>r. (kept E r)\<lparr>bname := unescapeBaselineField (bname r)\<rparr>) rs"
proof -
  have "getlines (concat (map ln (baseline_header # map (baseline_line E) rs))) = baseline_header # map (baseline_line E) rs"
    by (rule getlines_all) (use assms(2) header_plain in \<open>auto simp: newline_line\<close>)
  moreover have "baseline_line E r \<noteq> []" for r by (simp add: baseline_line_def)
  then have "List.map_filter (parse_baseline_line E) (filter (\<lambda>l. l \<noteq> []) (map (baseline_line E) rs))
      = map (\<lambda>r. (kept E r)\<lparr>bname := unescapeBaselineField (bname r)\<rparr>) rs"
    using assms(2) by (induction rs) (simp_all add: List.map_filter_simps parse_saved_line)
  ultimately show ?thesis by (simp add: loadBaseline_def saved_content [OF assms(1)])
qed

text \<open>Loading the baseline that was saved gives the results back, without the statistics and the error
  messages, exactly when no name has a newline, or a backslash that is not its last character: a
  backslash is taken away twice, and a line is cut at an escaped newline.\<close>

theorem baseline_roundtrip:
  assumes "saveBaseline E rs path t = (True, u)" and "\<forall>r \<in> set rs. writable E r"
  shows "loadBaseline E path u = map (kept E) rs
    \<longleftrightarrow> (\<forall>r \<in> set rs. newline \<notin> set (bname r) \<and> backslash \<notin> set (butlast (bname r)))"
proof (cases "\<forall>r \<in> set rs. newline \<notin> set (bname r)")
  case True
  have "(kept E r)\<lparr>bname := b\<rparr> = kept E r \<longleftrightarrow> b = bname r" for r b by (auto simp: kept_def new_result_def)
  with True assms(2) show ?thesis by (simp add: load_saved [OF assms(1)] unescape_id_iff)
next
  case False
  have "bname (kept E r) = bname r" for r by (simp add: kept_def new_result_def)
  with False loaded_names [of _ E path u] show ?thesis by (metis image_eqI list.set_map)
qed

section \<open>Regressions\<close>

definition timed :: "'d bench_env \<Rightarrow> 'd bench_result \<Rightarrow> bool" where
  "timed E r \<longleftrightarrow> success r \<and> dlt E (dint E 0) (protojs_time r)"

lemma baseline_times_snoc:
  "baseline_times E (rs @ [r]) = (if timed E r then map_put (bname r) (protojs_time r) (baseline_times E rs) else baseline_times E rs)"
  by (simp add: baseline_times_def timed_def)

lemma baseline_times_find:
  "map_of (baseline_times E rs) n = map_option protojs_time (find (\<lambda>r. timed E r \<and> bname r = n) (rev rs))"
proof (induction rs rule: rev_induct)
  case Nil
  then show ?case by (simp add: baseline_times_def)
next
  case (snoc r rs)
  then show ?case by (auto simp: baseline_times_snoc map_of_put)
qed

lemma timed_kept: "timed E (kept E r) = timed E r" "bname (kept E r) = bname r" "protojs_time (kept E r) = protojs_time r"
  by (simp_all add: kept_def new_result_def timed_def)

lemma find_kept:
  "map_option protojs_time (find (\<lambda>r. timed E r \<and> bname r = n) (map (kept E) rs))
   = map_option protojs_time (find (\<lambda>r. timed E r \<and> bname r = n) rs)"
  by (induction rs) (simp_all add: timed_kept)

lemma detect_kept: "detectRegressions E current (map (kept E) rs) threshold = detectRegressions E current rs threshold"
  using find_kept [of E _ "rev rs"] by (simp add: detectRegressions_def baseline_times_find rev_map)

lemma detect_iff:
  "n \<in> set (detectRegressions E current rs threshold) \<longleftrightarrow>
     (\<exists>r b. r \<in> set current \<and> bname r = n \<and> timed E r
        \<and> find (\<lambda>r. timed E r \<and> bname r = n) (rev rs) = Some b
        \<and> dlt E (dmul E (protojs_time b) (dadd E (dint E 1) (ddiv E threshold (dint E 100)))) (protojs_time r))"
  by (auto simp: detectRegressions_def Let_def baseline_times_find timed_def split: option.splits)

lemma runSuite_disk: "disk (snd (runSuite E J fs w)) = disk w"
proof (induction fs arbitrary: w)
  case (Cons f fs)
  have "disk (snd (runBenchmark E K f w)) = disk w" for K
    by (simp add: runBenchmark_def Let_def getMemoryUsage_def executeBenchmark_def split_beta)
  with Cons show ?case by (simp add: Let_def split_beta)
qed simp

lemma runSuiteFromFile_disk: "disk (snd (runSuiteFromFile E J path w)) = disk w"
  by (simp add: runSuiteFromFile_def Let_def runSuite_disk)


text \<open>A script that takes less than a millisecond is reported as one that failed.\<close>

lemma fast_benchmark_fails:
  assumes "outcome E (length (ran w)) (''protojs '' @ f @ '' > /dev/null 2>&1'') = (0, 0)"
    and "path_exists (disk w) f" and "\<not> dlt E (dint E 0) (dint E 0)"
  shows "\<not> success (fst (runBenchmark E J f w))"
  using assms by (simp add: runBenchmark_def Let_def executeBenchmark_def getMemoryUsage_def split_beta)

text \<open>Doubles by integers, printed as integers; the k-th command takes \<open>10 + 10 k\<close> milliseconds.\<close>

definition example_bench :: "int bench_env" where
  "example_bench = \<lparr>dadd = (+), dsub = (-), dmul = (*), ddiv = (div), dsqrt = id, dlt = (<), dint = id, dshow = show_int,
     dfixed = show_int, stod = (\<lambda>s. map_option fst (read_int s)), outcome = (\<lambda>k c. (0, 10 + 10 * k)), maxrss = (\<lambda>k. Some 5)\<rparr>"

definition example_results :: "int bench_result list" where
  "example_results = [(new_result example_bench (12, 0, 0, 7, True) ''a.js'')\<lparr>error_message := ''x''\<rparr>]"

definition example_disk :: tree where
  "example_disk = [(''a.js'', Some ''''), (''c'', Some (concat (map ln [''suite'', ''# none'', '' a.js '', ''b.js''])))]"

lemma example_writable: "\<forall>r \<in> set example_results. writable example_bench r"
proof -
  have "printable example_bench 12" "printable example_bench 0" by code_simp+
  then show ?thesis by (simp add: example_results_def new_result_def writable_def)
qed

lemma example_saved:
  "saveBaseline example_bench example_results ''base'' example_disk
     = (True, snd (saveBaseline example_bench example_results ''base'' example_disk))"
  by code_simp

lemma example_names: "\<forall>r \<in> set example_results. newline \<notin> set (bname r) \<and> backslash \<notin> set (butlast (bname r))"
  by code_simp

lemma baseline_roundtrip_witness:
  "loadBaseline example_bench ''base'' (snd (saveBaseline example_bench example_results ''base'' example_disk))
     = map (kept example_bench) example_results"
  using baseline_roundtrip [OF example_saved example_writable] example_names by simp


end
