(* ===== verification/TestRunner.thy ===== *)
theory TestRunner
  imports Benchmarks
begin

text \<open>
  Models \<open>src/testing/NodeJSTestRunner.cpp\<close>: running a test with Node.js and with protoJS, the cache of
  expected outputs, suites in sequence and in parallel, and the reports.

  \<^item> \<open>popen\<close> gives the output, the exit status and the milliseconds of the k-th process started, or
    \<open>None\<close> if it does not start; then the time of its result is not set and holds \<open>stale\<close>. Outputs
    have no NUL byte. The tests leave the files the runner reads as they are.
  \<^item> \<open>runTestSuite\<close> runs one test after the other. In \<open>runTestSuiteParallel\<close> the tests of a batch are
    tasks whose steps interleave (\<open>task_step\<close>): a step is what a task does under the mutex of the
    cache, or one process.
\<close>

record 'd test_env = "'d bench_env" +
  popen :: "nat \<Rightarrow> string \<Rightarrow> (string \<times> int \<times> nat) option"
  stale :: "nat \<Rightarrow> 'd"

record 'd test_result =
  test_name :: string
  passed :: bool
  failure :: string
  execution_time :: 'd
  expected_output :: string
  actual_output :: string

record 'd report =
  total_tests :: int
  passed_tests :: int
  failed_tests :: int
  pass_rate :: 'd
  results :: "'d test_result list"
  compatibility_issues :: "string list"
  recommendations :: "(string \<times> string) list"

record runner =
  cache_enabled :: bool
  cache :: "(string \<times> string) list"
  started :: nat

section \<open>One test\<close>

definition setTestCacheEnabled :: "bool \<Rightarrow> runner \<Rightarrow> runner" where
  "setTestCacheEnabled b st = st\<lparr>cache_enabled := b\<rparr>"

definition clearTestCache :: "runner \<Rightarrow> runner" where
  "clearTestCache st = st\<lparr>cache := []\<rparr>"

definition execute_with :: "string \<Rightarrow> string \<Rightarrow> ('d, 'e) test_env_scheme \<Rightarrow> string \<Rightarrow> runner \<Rightarrow> 'd test_result \<times> runner" where
  "execute_with command message E f st =
     (let k = started st; r = \<lparr>test_name = f, passed = False, failure = [], execution_time = stale E k,
            expected_output = [], actual_output = []\<rparr>
      in (case popen E k (command @ f) of
            None \<Rightarrow> r\<lparr>failure := message\<rparr>
          | Some (out, status, ms) \<Rightarrow> r\<lparr>actual_output := out, execution_time := dint E (int ms), passed := (status = 0)\<rparr>,
          st\<lparr>started := Suc k\<rparr>))"

definition executeWithProtoJS :: "('d, 'e) test_env_scheme \<Rightarrow> string \<Rightarrow> runner \<Rightarrow> 'd test_result \<times> runner" where
  "executeWithProtoJS = execute_with ''./protojs '' ''Failed to execute test with protoJS''"

definition executeWithNodeJS :: "('d, 'e) test_env_scheme \<Rightarrow> string \<Rightarrow> runner \<Rightarrow> 'd test_result \<times> runner" where
  "executeWithNodeJS = execute_with ''node '' ''Failed to execute test with Node.js''"

definition trim_end :: "string \<Rightarrow> string" where
  "trim_end s = rev (dropWhile (\<lambda>c. c = CHR '' '' \<or> c = newline \<or> c = CHR 0x0D \<or> c = CHR 0x09) (rev s))"

definition compareOutputs :: "string \<Rightarrow> string \<Rightarrow> bool" where
  "compareOutputs expected actual \<longleftrightarrow> trim_end expected = trim_end actual"

text \<open>What the cache has for a test; nothing and an empty text are the same.\<close>

definition cached_output :: "string \<Rightarrow> runner \<Rightarrow> string" where
  "cached_output f st = (if cache_enabled st then (case map_of (cache st) f of None \<Rightarrow> [] | Some e \<Rightarrow> e) else [])"

definition store_output :: "string \<Rightarrow> string \<Rightarrow> runner \<Rightarrow> runner" where
  "store_output f e st = (if cache_enabled st then st\<lparr>cache := map_put f e (cache st)\<rparr> else st)"

definition judge :: "string \<Rightarrow> string \<Rightarrow> 'd test_result \<Rightarrow> 'd test_result" where
  "judge f e r =
     (let ok = compareOutputs e (actual_output r)
      in \<lparr>test_name = f, passed = ok, failure = (if ok then [] else ''Output mismatch between Node.js and protoJS''),
           execution_time = execution_time r, expected_output = e, actual_output = actual_output r\<rparr>)"

definition runTestInternal :: "('d, 'e) test_env_scheme \<Rightarrow> string \<Rightarrow> runner \<Rightarrow> 'd test_result \<times> runner" where
  "runTestInternal E f st =
     (let (e, st1) =
        (if cached_output f st \<noteq> [] then (cached_output f st, st)
         else (let (r, st1) = executeWithNodeJS E f st in (actual_output r, store_output f (actual_output r) st1)));
        (r, st2) = executeWithProtoJS E f st1
      in (judge f e r, st2))"

definition runTest :: "('d, 'e) test_env_scheme \<Rightarrow> string \<Rightarrow> runner \<Rightarrow> 'd test_result \<times> runner" where
  "runTest = runTestInternal"

section \<open>Suites\<close>

definition rate :: "('d, 'e) test_env_scheme \<Rightarrow> int \<Rightarrow> int \<Rightarrow> 'd" where
  "rate E p n = (if n > 0 then dmul E (ddiv E (dint E p) (dint E n)) (dint E 100) else dint E 0)"

definition priority :: "('d, 'e) test_env_scheme \<Rightarrow> 'd \<Rightarrow> string" where
  "priority E d =
     (if dlt E d (dint E 80) then ''High - Significant compatibility issues detected''
      else if dlt E d (dint E 95) then ''Medium - Some compatibility issues need attention''
      else ''Low - Good compatibility, minor issues remain'')"

definition issue :: "'d test_result \<Rightarrow> string" where
  "issue r = test_name r @ '': '' @ failure r"

text \<open>The end of both suites: the rate and the recommendation.\<close>

definition rated :: "('d, 'e) test_env_scheme \<Rightarrow> 'd report \<Rightarrow> 'd report" where
  "rated E p = (let d = rate E (passed_tests p) (total_tests p)
     in p\<lparr>pass_rate := d, recommendations := map_put ''priority'' (priority E d) (recommendations p)\<rparr>)"

definition empty_suite :: "('d, 'e) test_env_scheme \<Rightarrow> nat \<Rightarrow> 'd report" where
  "empty_suite E n = \<lparr>total_tests = int n, passed_tests = 0, failed_tests = 0, pass_rate = dint E 0, results = [],
     compatibility_issues = [], recommendations = []\<rparr>"

fun suite_loop :: "('d, 'e) test_env_scheme \<Rightarrow> string list \<Rightarrow> 'd report \<Rightarrow> runner \<Rightarrow> 'd report \<times> runner" where
  "suite_loop E [] p st = (p, st)"
| "suite_loop E (f # fs) p st =
     (let (r, st1) = runTestInternal E f st; q = p\<lparr>results := results p @ [r]\<rparr>
      in suite_loop E fs (if passed r then q\<lparr>passed_tests := passed_tests q + 1\<rparr>
           else q\<lparr>failed_tests := failed_tests q + 1, compatibility_issues := compatibility_issues q @ [f @ '': '' @ failure r]\<rparr>) st1)"

definition runTestSuite :: "('d, 'e) test_env_scheme \<Rightarrow> string list \<Rightarrow> runner \<Rightarrow> 'd report \<times> runner" where
  "runTestSuite E fs st = (let (p, st1) = suite_loop E fs (empty_suite E (length fs)) st in (rated E p, st1))"

text \<open>A task of \<open>runTestSuiteParallel\<close>, by what it does next.\<close>

datatype 'd task = Look_up string | Run_node string | Store string string | Run_proto string string | Finished "'d test_result"

inductive task_step :: "('d, 'e) test_env_scheme \<Rightarrow> runner \<times> 'd task list \<Rightarrow> runner \<times> 'd task list \<Rightarrow> bool"
  for E :: "('d, 'e) test_env_scheme" where
  look_up: "i < length ts \<Longrightarrow> ts ! i = Look_up f \<Longrightarrow>
    task_step E (st, ts) (st, ts[i := (if cached_output f st \<noteq> [] then Run_proto f (cached_output f st) else Run_node f)])"
| run_node: "i < length ts \<Longrightarrow> ts ! i = Run_node f \<Longrightarrow> executeWithNodeJS E f st = (r, st1) \<Longrightarrow>
    task_step E (st, ts) (st1, ts[i := Store f (actual_output r)])"
| store: "i < length ts \<Longrightarrow> ts ! i = Store f e \<Longrightarrow> task_step E (st, ts) (store_output f e st, ts[i := Run_proto f e])"
| run_proto: "i < length ts \<Longrightarrow> ts ! i = Run_proto f e \<Longrightarrow> executeWithProtoJS E f st = (r, st1) \<Longrightarrow>
    task_step E (st, ts) (st1, ts[i := Finished (judge f e r)])"

text \<open>A batch is done when every task is; its results are in the order of the files.\<close>

inductive parallel_results :: "('d, 'e) test_env_scheme \<Rightarrow> nat \<Rightarrow> string list \<Rightarrow> runner \<Rightarrow> 'd test_result list \<Rightarrow> runner \<Rightarrow> bool"
  for E :: "('d, 'e) test_env_scheme" and n :: nat where
  finished: "parallel_results E n [] st [] st"
| batch: "fs \<noteq> [] \<Longrightarrow> (task_step E)\<^sup>*\<^sup>* (st, map Look_up (take n fs)) (st1, map Finished rs) \<Longrightarrow>
    parallel_results E n (drop n fs) st1 ss st2 \<Longrightarrow> parallel_results E n fs st (rs @ ss) st2"

definition parallel_report :: "('d, 'e) test_env_scheme \<Rightarrow> 'd test_result list \<Rightarrow> 'd report" where
  "parallel_report E rs = rated E ((empty_suite E (length rs))
     \<lparr>results := rs, passed_tests := int (length (filter passed rs)),
      failed_tests := int (length (filter (\<lambda>r. \<not> passed r) rs)),
      compatibility_issues := map issue (filter (\<lambda>r. \<not> passed r) rs)\<rparr>)"

definition runTestSuiteParallel :: "('d, 'e) test_env_scheme \<Rightarrow> string list \<Rightarrow> nat \<Rightarrow> runner \<Rightarrow> 'd report \<Rightarrow> runner \<Rightarrow> bool" where
  "runTestSuiteParallel E fs n st p st1 \<longleftrightarrow>
     (\<exists>rs. parallel_results E (if n = 0 then 1 else n) fs st rs st1 \<and> p = parallel_report E rs)"

definition checkModuleCompatibility :: "('d, 'e) test_env_scheme \<Rightarrow> string \<Rightarrow> string list \<Rightarrow> runner \<Rightarrow> 'd report \<times> runner" where
  "checkModuleCompatibility E name fs st =
     (let (p, st1) = runTestSuite E fs st
      in (if dlt E (pass_rate p) (dint E 100)
          then p\<lparr>recommendations := map_put name (''Module compatibility: '' @ dfixed E (pass_rate p) @ ''%'') (recommendations p)\<rparr>
          else p, st1))"

section \<open>Reports\<close>

definition test_json :: "('d, 'e) test_env_scheme \<Rightarrow> bool \<Rightarrow> 'd test_result \<Rightarrow> string" where
  "test_json E at_end r =
     ln ''    {''
   @ ln (''      \"test_name\": \"'' @ test_name r @ ''\",'')
   @ ln (''      \"passed\": '' @ (if passed r then ''true'' else ''false'') @ '','')
   @ ln (''      \"execution_time_ms\": '' @ dshow E (execution_time r) @ '','')
   @ (if failure r \<noteq> [] then ln (''      \"error_message\": \"'' @ failure r @ ''\",'') else [])
   @ ln (if at_end then ''    }'' else ''    },'')"

fun tests_json :: "('d, 'e) test_env_scheme \<Rightarrow> 'd test_result list \<Rightarrow> string" where
  "tests_json E [] = []"
| "tests_json E (r # rs) = test_json E (rs = []) r @ tests_json E rs"

definition test_exportToJSON :: "('d, 'e) test_env_scheme \<Rightarrow> 'd report \<Rightarrow> string" where
  "test_exportToJSON E p =
     ln ''{'' @ ln (''  \"total_tests\": '' @ show_int (total_tests p) @ '','')
   @ ln (''  \"passed_tests\": '' @ show_int (passed_tests p) @ '','')
   @ ln (''  \"failed_tests\": '' @ show_int (failed_tests p) @ '','')
   @ ln (''  \"pass_rate\": '' @ dshow E (pass_rate p) @ '','') @ ln ''  \"results\": [''
   @ tests_json E (results p) @ ln ''  ]'' @ ln ''}''"

definition test_row :: "('d, 'e) test_env_scheme \<Rightarrow> 'd test_result \<Rightarrow> string" where
  "test_row E r =
     ''<tr><td>'' @ test_name r @ ''</td><td class=\"'' @ (if passed r then ''pass'' else ''fail'') @ ''\">''
   @ (if passed r then ''PASS'' else ''FAIL'') @ ''</td><td>'' @ dshow E (execution_time r) @ ''</td><td>''
   @ (if failure r = [] then ''-'' else failure r) @ ln ''</td></tr>''"

definition test_exportToHTML :: "('d, 'e) test_env_scheme \<Rightarrow> 'd report \<Rightarrow> string" where
  "test_exportToHTML E p =
     ln ''<!DOCTYPE html>'' @ ln ''<html><head><title>Node.js Compatibility Report</title>''
   @ ln ''<style>table{border-collapse:collapse;width:100%}th,td{border:1px solid #ddd;padding:8px;text-align:left}th{background-color:#4CAF50;color:white}.pass{color:green}.fail{color:red}</style>''
   @ ln ''</head><body><h1>Node.js Compatibility Report</h1>''
   @ ln (''<p>Total Tests: '' @ show_int (total_tests p) @ '' | Passed: '' @ show_int (passed_tests p)
       @ '' | Failed: '' @ show_int (failed_tests p) @ '' | Pass Rate: '' @ dshow E (pass_rate p) @ ''%</p>'')
   @ ln ''<table><tr><th>Test</th><th>Status</th><th>Time (ms)</th><th>Error</th></tr>''
   @ concat (map (test_row E) (results p)) @ ln ''</table></body></html>''"

definition test_generateReport :: "('d, 'e) test_env_scheme \<Rightarrow> 'd report \<Rightarrow> string \<Rightarrow> string" where
  "test_generateReport E p format =
     (if format = ''json'' then test_exportToJSON E p
      else if format = ''html'' then test_exportToHTML E p
      else
        ln ''=== Node.js Compatibility Report ==='' @ ln []
      @ ln (''Total Tests: '' @ show_int (total_tests p)) @ ln (''Passed: '' @ show_int (passed_tests p))
      @ ln (''Failed: '' @ show_int (failed_tests p)) @ ln (''Pass Rate: '' @ dshow E (pass_rate p) @ ''%'') @ ln []
      @ (if compatibility_issues p \<noteq> []
         then ln ''Compatibility Issues:'' @ concat (map (\<lambda>i. ln (''  - '' @ i)) (compatibility_issues p)) @ ln [] else [])
      @ (if recommendations p \<noteq> []
         then ln ''Recommendations:'' @ concat (map (\<lambda>(k, v). ln (''  - '' @ k @ '': '' @ v)) (recommendations p)) else []))"

definition identifyGaps :: "'d report \<Rightarrow> string list" where
  "identifyGaps p = map issue (filter (\<lambda>r. \<not> passed r) (results p))"

record 'd coverage_summary =
  cs_total :: int
  cs_passed :: int
  cs_failed :: int
  cs_rate :: 'd
  cs_passed_tests :: "string list"
  cs_failed_tests :: "string list"

definition getCoverageSummary :: "'d report \<Rightarrow> 'd coverage_summary" where
  "getCoverageSummary p = \<lparr>cs_total = total_tests p, cs_passed = passed_tests p, cs_failed = failed_tests p, cs_rate = pass_rate p,
     cs_passed_tests = map test_name (filter passed (results p)),
     cs_failed_tests = map test_name (filter (\<lambda>r. \<not> passed r) (results p))\<rparr>"

fun quoted_names :: "bool \<Rightarrow> string list \<Rightarrow> string" where
  "quoted_names first [] = []"
| "quoted_names first (n # ns) = (if first then [] else '','') @ [newline] @ ''    \"'' @ n @ ''\"'' @ quoted_names False ns"

definition coverage_text :: "('d, 'e) test_env_scheme \<Rightarrow> 'd coverage_summary \<Rightarrow> string \<Rightarrow> string" where
  "coverage_text E s format =
     (if format = ''json'' then
        ln ''{'' @ ln (''  \"total\": '' @ show_int (cs_total s) @ '','') @ ln (''  \"passed\": '' @ show_int (cs_passed s) @ '','')
      @ ln (''  \"failed\": '' @ show_int (cs_failed s) @ '','') @ ln (''  \"pass_rate\": '' @ dshow E (cs_rate s) @ '','')
      @ ''  \"passed_tests\": ['' @ quoted_names True (cs_passed_tests s) @ ln [] @ ln ''  ],''
      @ ''  \"failed_tests\": ['' @ quoted_names True (cs_failed_tests s) @ ln [] @ ln ''  ]'' @ ln ''}''
      else
        ln ''=== Test Coverage Summary ==='' @ ln []
      @ ln (''Total: '' @ show_int (cs_total s) @ '' | Passed: '' @ show_int (cs_passed s) @ '' | Failed: ''
          @ show_int (cs_failed s) @ '' | Pass Rate: '' @ dshow E (cs_rate s) @ ''%'') @ ln []
      @ ln ''Passed tests:'' @ concat (map (\<lambda>n. ln (''  - '' @ n)) (cs_passed_tests s))
      @ ln ''Failed tests:'' @ concat (map (\<lambda>n. ln (''  - '' @ n)) (cs_failed_tests s)))"

definition exportCoverageReport :: "('d, 'e) test_env_scheme \<Rightarrow> 'd report \<Rightarrow> string \<Rightarrow> string \<Rightarrow> tree \<Rightarrow> bool \<times> tree" where
  "exportCoverageReport E p path format t =
     (case write_tree path (coverage_text E (getCoverageSummary p) format) t of None \<Rightarrow> (False, t) | Some u \<Rightarrow> (True, u))"

definition runTestSuiteFromFile :: "('d, 'e) test_env_scheme \<Rightarrow> string \<Rightarrow> tree \<Rightarrow> runner \<Rightarrow> 'd report \<times> runner" where
  "runTestSuiteFromFile E path t st =
     (let fs = suite_files t path in if fs = [] then (empty_suite E 0, st) else runTestSuite E fs st)"

definition runTestsForCI :: "('d, 'e) test_env_scheme \<Rightarrow> string \<Rightarrow> 'd \<Rightarrow> string \<Rightarrow> tree \<Rightarrow> runner \<Rightarrow> (bool \<times> string) \<times> tree \<times> runner" where
  "runTestsForCI E path minimum report_path t st =
     (let (p, st1) = runTestSuiteFromFile E path t st in
      if total_tests p = 0 then ((False, ''No tests run (invalid config or empty suite)''), t, st1)
      else (let text = test_generateReport E p ''text''
            in ((\<not> dlt E (pass_rate p) minimum, text), write_report report_path text t, st1)))"

section \<open>Suites in parallel\<close>

text \<open>Programs print the same each time they run; times and exit statuses may differ.\<close>

definition deterministic :: "('d, 'e) test_env_scheme \<Rightarrow> bool" where
  "deterministic E \<longleftrightarrow> (\<forall>k c. map_option fst (popen E k c) = map_option fst (popen E 0 c))"

definition output_of :: "('d, 'e) test_env_scheme \<Rightarrow> string \<Rightarrow> string" where
  "output_of E c = (case popen E 0 c of None \<Rightarrow> [] | Some r \<Rightarrow> fst r)"

definition node_text :: "('d, 'e) test_env_scheme \<Rightarrow> string \<Rightarrow> string" where
  "node_text E f = output_of E (''node '' @ f)"

definition protojs_text :: "('d, 'e) test_env_scheme \<Rightarrow> string \<Rightarrow> string" where
  "protojs_text E f = output_of E (''./protojs '' @ f)"

definition timeless :: "('d, 'e) test_env_scheme \<Rightarrow> 'd test_result \<Rightarrow> 'd test_result" where
  "timeless E r = r\<lparr>execution_time := dint E 0\<rparr>"

definition timeless_report :: "('d, 'e) test_env_scheme \<Rightarrow> 'd report \<Rightarrow> 'd report" where
  "timeless_report E p = p\<lparr>results := map (timeless E) (results p)\<rparr>"

text \<open>The result of a test, as the two outputs alone determine it.\<close>

definition verdict_of :: "('d, 'e) test_env_scheme \<Rightarrow> string \<Rightarrow> 'd test_result" where
  "verdict_of E f =
     (let e = node_text E f; a = protojs_text E f; ok = compareOutputs e a
      in \<lparr>test_name = f, passed = ok, failure = (if ok then [] else ''Output mismatch between Node.js and protoJS''),
           execution_time = dint E 0, expected_output = e, actual_output = a\<rparr>)"

definition cache_ok :: "('d, 'e) test_env_scheme \<Rightarrow> runner \<Rightarrow> bool" where
  "cache_ok E st \<longleftrightarrow> (\<forall>f e. map_of (cache st) f = Some e \<longrightarrow> e = node_text E f)"

lemma execute_with_output:
  assumes "deterministic E"
  shows "actual_output (fst (execute_with c m E f st)) = output_of E (c @ f)"
proof -
  have "map_option fst (popen E (started st) (c @ f)) = map_option fst (popen E 0 (c @ f))"
    using assms unfolding deterministic_def by blast
  then show ?thesis
    by (auto simp: execute_with_def output_of_def Let_def split: option.splits)
qed

lemma execute_with_state: "snd (execute_with c m E f st) = st\<lparr>started := Suc (started st)\<rparr>"
  by (simp add: execute_with_def Let_def)

lemma node_output: "deterministic E \<Longrightarrow> executeWithNodeJS E f st = (r, st1) \<Longrightarrow>
    actual_output r = node_text E f \<and> st1 = st\<lparr>started := Suc (started st)\<rparr>"
  by (metis executeWithNodeJS_def execute_with_output execute_with_state fst_conv snd_conv node_text_def)

lemma protojs_output: "deterministic E \<Longrightarrow> executeWithProtoJS E f st = (r, st1) \<Longrightarrow>
    actual_output r = protojs_text E f \<and> st1 = st\<lparr>started := Suc (started st)\<rparr>"
  by (metis executeWithProtoJS_def execute_with_output execute_with_state fst_conv snd_conv protojs_text_def)

lemma cache_ok_started: "cache_ok E (st\<lparr>started := k\<rparr>) = cache_ok E st"
  by (simp add: cache_ok_def)

lemma cache_ok_store: "cache_ok E st \<Longrightarrow> cache_ok E (store_output f (node_text E f) st)"
  by (simp add: cache_ok_def store_output_def map_of_put)

lemma cached_output_ok: "cache_ok E st \<Longrightarrow> cached_output f st \<noteq> [] \<Longrightarrow> cached_output f st = node_text E f"
  by (auto simp: cached_output_def cache_ok_def split: if_splits option.splits)

lemma judge_verdict:
  "actual_output r = protojs_text E f \<Longrightarrow>
     timeless E (judge f (node_text E f) r) = verdict_of E f"
  by (simp add: timeless_def judge_def verdict_of_def Let_def)

lemma runTestInternal_verdict:
  assumes "deterministic E" and "cache_ok E st"
  shows "timeless E (fst (runTestInternal E f st)) = verdict_of E f \<and> cache_ok E (snd (runTestInternal E f st))"
proof (cases "cached_output f st \<noteq> []")
  case True
  obtain r st2 where p: "executeWithProtoJS E f st = (r, st2)" by fastforce
  have "runTestInternal E f st = (judge f (cached_output f st) r, st2)"
    using True p unfolding runTestInternal_def by simp
  then show ?thesis
    using protojs_output [OF assms(1) p] cached_output_ok [OF assms(2) True] assms(2)
    by (simp add: judge_verdict cache_ok_started)
next
  case False
  obtain n st1 where n: "executeWithNodeJS E f st = (n, st1)" by fastforce
  obtain r st2 where p: "executeWithProtoJS E f (store_output f (actual_output n) st1) = (r, st2)" by fastforce
  have "runTestInternal E f st = (judge f (actual_output n) r, st2)"
    using False n p unfolding runTestInternal_def by simp
  then show ?thesis
    using node_output [OF assms(1) n] protojs_output [OF assms(1) p] assms(2)
    by (simp add: judge_verdict cache_ok_started cache_ok_store)
qed

text \<open>The suite in sequence makes the report of its results.\<close>

lemma runTestInternal_name: "test_name (fst (runTestInternal E f st)) = f"
  by (simp add: runTestInternal_def judge_def Let_def split_beta)

fun run_all :: "('d, 'e) test_env_scheme \<Rightarrow> string list \<Rightarrow> runner \<Rightarrow> 'd test_result list" where
  "run_all E [] st = []"
| "run_all E (f # fs) st = (let (r, st1) = runTestInternal E f st in r # run_all E fs st1)"

lemma suite_loop_results:
  "fst (suite_loop E fs p st) = (let rs = run_all E fs st in p\<lparr>results := results p @ rs,
     passed_tests := passed_tests p + int (length (filter passed rs)),
     failed_tests := failed_tests p + int (length (filter (\<lambda>r. \<not> passed r) rs)),
     compatibility_issues := compatibility_issues p @ map issue (filter (\<lambda>r. \<not> passed r) rs)\<rparr>)"
proof (induction fs arbitrary: p st)
  case (Cons f fs)
  obtain r st1 where r: "runTestInternal E f st = (r, st1)" by fastforce
  then have "test_name r = f" using runTestInternal_name [of E f st] by simp
  with Cons r show ?case by (simp add: Let_def issue_def)
qed (simp add: Let_def)

lemma length_run_all: "length (run_all E fs st) = length fs"
  by (induction fs arbitrary: st) (simp_all add: split_beta)

lemma runTestSuite_report: "fst (runTestSuite E fs st) = parallel_report E (run_all E fs st)"
  using suite_loop_results [of E fs "empty_suite E (length fs)" st]
  by (simp add: runTestSuite_def parallel_report_def split_beta Let_def empty_suite_def length_run_all)

lemma run_all_verdicts:
  "deterministic E \<Longrightarrow> cache_ok E st \<Longrightarrow> map (timeless E) (run_all E fs st) = map (verdict_of E) fs"
proof (induction fs arbitrary: st)
  case (Cons f fs)
  with runTestInternal_verdict [OF Cons.prems, of f] show ?case by (simp add: split_beta)
qed simp

lemma timeless_simps: "passed (timeless E r) = passed r" "issue (timeless E r) = issue r"
  by (simp_all add: timeless_def issue_def)

lemma filter_timeless:
  "length (filter passed (map (timeless E) rs)) = length (filter passed rs)"
  "length (filter (\<lambda>r. \<not> passed r) (map (timeless E) rs)) = length (filter (\<lambda>r. \<not> passed r) rs)"
  "map issue (filter (\<lambda>r. \<not> passed r) (map (timeless E) rs)) = map issue (filter (\<lambda>r. \<not> passed r) rs)"
  by (induction rs) (simp_all add: timeless_simps)

lemma timeless_parallel_report: "timeless_report E (parallel_report E rs) = parallel_report E (map (timeless E) rs)"
  unfolding parallel_report_def filter_timeless
  by (simp add: timeless_report_def rated_def Let_def empty_suite_def)

text \<open>What the tasks of a batch keep, whatever their order.\<close>

fun task_ok :: "('d, 'e) test_env_scheme \<Rightarrow> string \<Rightarrow> 'd task \<Rightarrow> bool" where
  "task_ok E f (Look_up g) = (g = f)"
| "task_ok E f (Run_node g) = (g = f)"
| "task_ok E f (Store g e) = (g = f \<and> e = node_text E f)"
| "task_ok E f (Run_proto g e) = (g = f \<and> e = node_text E f)"
| "task_ok E f (Finished r) = (timeless E r = verdict_of E f)"

lemma tasks_ok_update:
  "list_all2 (task_ok E) fs ts \<Longrightarrow> task_ok E (fs ! i) t \<Longrightarrow> list_all2 (task_ok E) fs (ts[i := t])"
  by (metis list_all2_update_cong list_update_id)

lemma task_step_ok:
  assumes "task_step E (st, ts) (st1, us)" and "deterministic E" and "cache_ok E st" and "list_all2 (task_ok E) fs ts"
  shows "cache_ok E st1 \<and> list_all2 (task_ok E) fs us"
  using assms(1)
proof cases
  case (look_up i f)
  then have "f = fs ! i" using assms(4) by (metis list_all2_nthD2 task_ok.simps(1))
  with look_up assms(3,4) show ?thesis
    by (auto intro!: tasks_ok_update simp: cached_output_ok)
next
  case (run_node i f r)
  then have "f = fs ! i" using assms(4) by (metis list_all2_nthD2 task_ok.simps(2))
  with run_node assms(3,4) node_output [OF assms(2) run_node(4)] show ?thesis
    by (auto intro!: tasks_ok_update simp: cache_ok_started)
next
  case (store i f e)
  then have "f = fs ! i" "e = node_text E f" using assms(4) by (metis list_all2_nthD2 task_ok.simps(3))+
  with store assms(3,4) show ?thesis by (auto intro!: tasks_ok_update cache_ok_store)
next
  case (run_proto i f e r)
  then have "f = fs ! i" "e = node_text E f" using assms(4) by (metis list_all2_nthD2 task_ok.simps(4))+
  with run_proto assms(3,4) protojs_output [OF assms(2) run_proto(4)] show ?thesis
    by (auto intro!: tasks_ok_update simp: cache_ok_started judge_verdict)
qed

lemma task_steps_ok:
  assumes "(task_step E)\<^sup>*\<^sup>* s t" and "deterministic E" and "cache_ok E (fst s)" and "list_all2 (task_ok E) fs (snd s)"
  shows "cache_ok E (fst t) \<and> list_all2 (task_ok E) fs (snd t)"
  using assms(1)
proof induction
  case base
  with assms(3,4) show ?case by simp
next
  case (step t u)
  with task_step_ok [of E "fst t" "snd t" "fst u" "snd u" fs] assms(2) show ?case by simp
qed

lemma parallel_results_verdicts:
  assumes "parallel_results E n fs st rs st1" and "deterministic E" and "cache_ok E st"
  shows "map (timeless E) rs = map (verdict_of E) fs \<and> cache_ok E st1"
  using assms(1,3)
proof induction
  case (batch fs st st1 rs ss st2)
  have "list_all2 (task_ok E) (take n fs) (map Look_up (take n fs))" by (simp add: list_all2_conv_all_nth)
  with task_steps_ok [OF batch(2) assms(2), of "take n fs"] batch.prems
  have ok: "cache_ok E st1" "list_all2 (task_ok E) (take n fs) (map Finished rs)" by simp_all
  then have "list_all2 (\<lambda>f r. timeless E r = verdict_of E f) (take n fs) rs" by (simp add: list_all2_map2)
  then have "map (timeless E) rs = map (verdict_of E) (take n fs)"
    by (induction rule: list_all2_induct) simp_all
  with ok batch.IH show ?case by (metis append_take_drop_id map_append)
qed simp

text \<open>A batch can always be finished: one task after the other.\<close>

lemma task_finishes:
  fixes E :: "('d, 'e) test_env_scheme"
  shows "\<exists>r st1. (task_step E)\<^sup>*\<^sup>* (st, ps @ Look_up f # ts) (st1, ps @ Finished r # ts)"
proof -
  let ?S = "task_step E" and ?i = "length ps"
  have run: "\<exists>r st1. ?S\<^sup>*\<^sup>* (u, ps @ Run_proto f e # ts) (st1, ps @ Finished r # ts)" for u e
  proof -
    obtain r v where "executeWithProtoJS E f u = (r, v)" by fastforce
    with task_step.run_proto [of ?i "ps @ Run_proto f e # ts" f e E u r v] show ?thesis by auto
  qed
  note look = task_step.look_up [of ?i "ps @ Look_up f # ts" f E st]
  show ?thesis
  proof (cases "cached_output f st \<noteq> []")
    case True
    with look run [of st "cached_output f st"] show ?thesis by (auto intro: converse_rtranclp_into_rtranclp)
  next
    case False
    obtain n u where n: "executeWithNodeJS E f st = (n, u)" by fastforce
    let ?e = "actual_output n"
    have "?S (st, ps @ Look_up f # ts) (st, ps @ Run_node f # ts)" using look False by simp
    moreover have "?S (st, ps @ Run_node f # ts) (u, ps @ Store f ?e # ts)"
      using task_step.run_node [of ?i "ps @ Run_node f # ts" f E st n u] n by simp
    moreover have "?S (u, ps @ Store f ?e # ts) (store_output f ?e u, ps @ Run_proto f ?e # ts)"
      using task_step.store [of ?i "ps @ Store f ?e # ts" f ?e E u] by simp
    ultimately show ?thesis using run [of "store_output f ?e u" ?e] by (meson converse_rtranclp_into_rtranclp)
  qed
qed

lemma batch_finishes:
  fixes E :: "('d, 'e) test_env_scheme"
  shows "\<exists>rs st1. (task_step E)\<^sup>*\<^sup>* (st, map Finished ds @ map Look_up fs) (st1, map Finished (ds @ rs))"
proof (induction fs arbitrary: st ds)
  case (Cons f fs)
  obtain r u where r: "(task_step E)\<^sup>*\<^sup>* (st, map Finished ds @ Look_up f # map Look_up fs)
      (u, map Finished ds @ Finished r # map Look_up fs)"
    using task_finishes by blast
  obtain rs st1 where "(task_step E)\<^sup>*\<^sup>* (u, map Finished (ds @ [r]) @ map Look_up fs) (st1, map Finished ((ds @ [r]) @ rs))"
    using Cons.IH by blast
  then have "(task_step E)\<^sup>*\<^sup>* (st, map Finished ds @ map Look_up (f # fs)) (st1, map Finished (ds @ r # rs))"
    using r by (auto intro: rtranclp_trans)
  then show ?case by blast
qed (metis append.right_neutral list.map(1) rtranclp.rtrancl_refl)

lemma parallel_finishes:
  assumes "0 < n"
  shows "\<exists>rs st1. parallel_results E n fs st rs st1"
proof (induction "length fs" arbitrary: fs st rule: less_induct)
  case less
  show ?case
  proof (cases "fs = []")
    case True
    then show ?thesis using parallel_results.finished by blast
  next
    case False
    obtain rs u where "(task_step E)\<^sup>*\<^sup>* (st, map Finished [] @ map Look_up (take n fs)) (u, map Finished ([] @ rs))"
      using batch_finishes by blast
    then have b: "(task_step E)\<^sup>*\<^sup>* (st, map Look_up (take n fs)) (u, map Finished rs)" by simp
    have "length (drop n fs) < length fs" using False assms by simp
    from less [OF this] obtain ss v where "parallel_results E n (drop n fs) u ss v" by blast
    with parallel_results.batch [OF False b] show ?thesis by blast
  qed
qed


definition example_test :: "int test_env" where
  "example_test = bench_env.extend example_bench
     (test_env.fields (\<lambda>k c. if c = ''node a'' then Some (''1 '', 0, k) else if c = ''./protojs a'' then Some (''1'', 1, k) else None)
       (\<lambda>k. 7))"

lemma example_deterministic: "deterministic example_test"
  by (simp add: deterministic_def example_test_def bench_env.defs test_env.defs)


text \<open>A test whose two processes print nothing passes, even when neither of them ran.\<close>

lemma silent_tests_pass:
  assumes "popen E (started st) (''node '' @ f) = None" and "popen E (Suc (started st)) (''./protojs '' @ f) = None"
    and "\<not> cache_enabled st"
  shows "passed (fst (runTestInternal E f st))"
  using assms by (simp add: runTestInternal_def cached_output_def executeWithNodeJS_def executeWithProtoJS_def
      execute_with_def store_output_def judge_def compareOutputs_def Let_def)

end
