(* ===== verification/Crypto.thy ===== *)
theory Crypto
  imports Net "HOL-Library.Char_ord"
begin

text \<open>
  Models \<open>src/modules/crypto/CryptoModule.cpp\<close>: hashes over OpenSSL's digest contexts, random bytes, and
  the ciphers, signatures and keys, which the code leaves as stubs.

  \<^item> Parameters (\<open>evp\<close>): the calls of OpenSSL on a digest context, whether a context can be allocated,
    and the random bytes. What \<open>EVP_DigestFinal_ex\<close> does not set counts as no bytes.
  \<^item> \<open>this\<close> is the index of the object whose data a method finds, or \<open>None\<close> if there is none. A text
    argument is \<open>None\<close> when it is missing and \<open>Some None\<close> when it has no C string.
\<close>

record 'c evp =
  evp_new :: "'c option"
  evp_init :: "string \<Rightarrow> 'c \<Rightarrow> 'c"
  evp_update :: "'c \<Rightarrow> bytes \<Rightarrow> 'c"
  evp_final :: "'c \<Rightarrow> bytes \<times> 'c"
  context_made :: bool
  rand_bytes :: "nat \<Rightarrow> bytes option"

datatype 'c crypto_object = Hash string 'c | Cipher string bool bool | Signer string bool | Verifier string bool

datatype crypto_result = CThrow string | CException | CThis | CObject nat | CBytes bytes | CText string | CBool bool
  | CKeys string string

type_synonym 'c objects = "'c crypto_object list"

section \<open>Hashes\<close>

text \<open>The constructor of \<open>HashData\<close>: an unknown algorithm leaves the context without a digest.\<close>

definition supported :: "string \<Rightarrow> bool" where
  "supported a \<longleftrightarrow> a \<in> {''md5'', ''sha1'', ''sha256'', ''sha512''}"

definition new_hash :: "'c evp \<Rightarrow> string \<Rightarrow> 'c \<Rightarrow> 'c crypto_object" where
  "new_hash E a c = Hash a (if supported a then evp_init E a c else c)"

definition createHash :: "'c evp \<Rightarrow> string option option \<Rightarrow> 'c objects \<Rightarrow> crypto_result \<times> 'c objects" where
  "createHash E arg os = (case arg of
     None \<Rightarrow> (CThrow ''createHash expects algorithm name'', os)
   | Some None \<Rightarrow> (CException, os)
   | Some (Some a) \<Rightarrow> (case evp_new E of
        None \<Rightarrow> (CThrow ''Failed to create hash context'', os)
      | Some c \<Rightarrow> (CObject (length os), os @ [new_hash E a c])))"

definition hash_data :: "nat option \<Rightarrow> 'c objects \<Rightarrow> (nat \<times> string \<times> 'c) option" where
  "hash_data this os = (case this of
     None \<Rightarrow> None
   | Some i \<Rightarrow> if i < length os then (case os ! i of Hash a c \<Rightarrow> Some (i, a, c) | _ \<Rightarrow> None) else None)"

definition getBufferData :: "net_data \<Rightarrow> bytes" where
  "getBufferData d = (case d of
     Data_buffer len (Some bs) \<Rightarrow> c_text bs | Data_buffer len None \<Rightarrow> replicate len 0
   | Data_string (Some bs) \<Rightarrow> c_text bs | _ \<Rightarrow> [])"

definition hashUpdate :: "'c evp \<Rightarrow> nat option \<Rightarrow> net_data option \<Rightarrow> 'c objects \<Rightarrow> crypto_result \<times> 'c objects" where
  "hashUpdate E this arg os = (case arg of
     None \<Rightarrow> (CThrow ''update expects data'', os)
   | Some d \<Rightarrow> (case hash_data this os of
        None \<Rightarrow> (CThrow ''Invalid hash object'', os)
      | Some (i, a, c) \<Rightarrow>
          let bs = getBufferData d
          in if bs = [] then (CThis, os) else (CThis, os[i := Hash a (evp_update E c bs)])))"

definition hex_char :: "nat \<Rightarrow> char" where
  "hex_char n = (if n < 10 then char_of (48 + n) else char_of (87 + n))"

definition hashToString :: "bytes \<Rightarrow> string" where
  "hashToString bs = concat (map (\<lambda>b. [hex_char (b div 16), hex_char (b mod 16)]) bs)"

definition digest_text :: "string option option \<Rightarrow> bytes \<Rightarrow> string" where
  "digest_text encoding h =
     (case (case encoding of None \<Rightarrow> Some ''hex'' | Some e \<Rightarrow> e) of
        Some e \<Rightarrow> if e = ''hex'' \<or> e = ''base64'' then hashToString h else map char_of h
      | None \<Rightarrow> map char_of h)"

text \<open>\<open>encoding\<close> is \<open>None\<close> unless the argument is a string. The text passes through a C string.\<close>

definition hashDigest :: "'c evp \<Rightarrow> nat option \<Rightarrow> string option option \<Rightarrow> 'c objects \<Rightarrow> crypto_result \<times> 'c objects" where
  "hashDigest E this encoding os = (case hash_data this os of
     None \<Rightarrow> (CThrow ''Invalid hash object'', os)
   | Some (i, a, c) \<Rightarrow>
       let (h, c1) = evp_final E c
       in (CText (takeWhile (\<lambda>x. x \<noteq> CHR 0x00) (digest_text encoding h)), os[i := Hash a c1]))"

section \<open>Random bytes\<close>

text \<open>The argument, converted to a 32-bit integer: \<open>None\<close> if missing, \<open>Some None\<close> if the conversion throws.\<close>

definition randomBytes :: "'c evp \<Rightarrow> int option option \<Rightarrow> crypto_result" where
  "randomBytes E arg = (case arg of
     None \<Rightarrow> CThrow ''randomBytes expects size''
   | Some None \<Rightarrow> CException
   | Some (Some n) \<Rightarrow>
       if n < 0 \<or> n > 1024 * 1024 then CThrow ''Invalid size''
       else (case rand_bytes E (nat n) of None \<Rightarrow> CThrow ''Failed to generate random bytes'' | Some bs \<Rightarrow> CBytes bs))"

section \<open>Ciphers\<close>

text \<open>\<open>createCipher\<close>, \<open>createDecipher\<close> and the two with an initialisation vector: the number of arguments, the
  algorithm, and nothing of the password, the key or the vector.\<close>

definition new_cipher :: "'c evp \<Rightarrow> bool \<Rightarrow> nat \<Rightarrow> string \<Rightarrow> nat \<Rightarrow> string option \<Rightarrow> 'c objects \<Rightarrow> crypto_result \<times> 'c objects" where
  "new_cipher E enc least message argc algo os =
     (if argc < least then (CThrow message, os)
      else (case algo of None \<Rightarrow> (CException, os)
        | Some a \<Rightarrow> (CObject (length os), os @ [Cipher a enc (context_made E)])))"

definition createCipher :: "'c evp \<Rightarrow> nat \<Rightarrow> string option \<Rightarrow> 'c objects \<Rightarrow> crypto_result \<times> 'c objects" where
  "createCipher E = new_cipher E True 2 ''createCipher expects algorithm and password''"

definition createDecipher :: "'c evp \<Rightarrow> nat \<Rightarrow> string option \<Rightarrow> 'c objects \<Rightarrow> crypto_result \<times> 'c objects" where
  "createDecipher E = new_cipher E False 2 ''createDecipher expects algorithm and password''"

definition createCipheriv :: "'c evp \<Rightarrow> nat \<Rightarrow> string option \<Rightarrow> 'c objects \<Rightarrow> crypto_result \<times> 'c objects" where
  "createCipheriv E = new_cipher E True 3 ''createCipheriv expects algorithm, key, and iv''"

definition createDecipheriv :: "'c evp \<Rightarrow> nat \<Rightarrow> string option \<Rightarrow> 'c objects \<Rightarrow> crypto_result \<times> 'c objects" where
  "createDecipheriv E = new_cipher E False 3 ''createDecipheriv expects algorithm, key, and iv''"

definition is_cipher :: "nat option \<Rightarrow> 'c objects \<Rightarrow> bool" where
  "is_cipher this os = (case this of
     None \<Rightarrow> False | Some i \<Rightarrow> i < length os \<and> (case os ! i of Cipher a e ok \<Rightarrow> ok | _ \<Rightarrow> False))"

definition cipherUpdate :: "nat option \<Rightarrow> net_data option \<Rightarrow> 'c objects \<Rightarrow> crypto_result" where
  "cipherUpdate this arg os = (case arg of
     None \<Rightarrow> CThrow ''update expects data''
   | Some d \<Rightarrow> if \<not> is_cipher this os then CThrow ''Invalid cipher object'' else CBytes (getBufferData d))"

definition cipherFinal :: "nat option \<Rightarrow> 'c objects \<Rightarrow> crypto_result" where
  "cipherFinal this os = (if \<not> is_cipher this os then CThrow ''Invalid cipher object'' else CBytes [])"

section \<open>Signatures and keys\<close>

definition createSign :: "'c evp \<Rightarrow> string option option \<Rightarrow> 'c objects \<Rightarrow> crypto_result \<times> 'c objects" where
  "createSign E arg os = (case arg of
     None \<Rightarrow> (CThrow ''createSign expects algorithm'', os)
   | Some None \<Rightarrow> (CException, os)
   | Some (Some a) \<Rightarrow> (CObject (length os), os @ [Signer a (context_made E)]))"

definition is_signer :: "nat option \<Rightarrow> 'c objects \<Rightarrow> bool" where
  "is_signer this os = (case this of
     None \<Rightarrow> False | Some i \<Rightarrow> i < length os \<and> (case os ! i of Signer a ok \<Rightarrow> ok | _ \<Rightarrow> False))"

definition signUpdate :: "nat option \<Rightarrow> nat \<Rightarrow> 'c objects \<Rightarrow> crypto_result" where
  "signUpdate this argc os =
     (if argc < 1 then CThrow ''update expects data''
      else if \<not> is_signer this os then CThrow ''Invalid sign object'' else CThis)"

definition signSign :: "nat option \<Rightarrow> 'c objects \<Rightarrow> crypto_result" where
  "signSign this os = (if \<not> is_signer this os then CThrow ''Invalid sign object'' else CBytes [])"

definition createVerify :: "'c evp \<Rightarrow> string option option \<Rightarrow> 'c objects \<Rightarrow> crypto_result \<times> 'c objects" where
  "createVerify E arg os = (case arg of
     None \<Rightarrow> (CThrow ''createVerify expects algorithm'', os)
   | Some None \<Rightarrow> (CException, os)
   | Some (Some a) \<Rightarrow> (CObject (length os), os @ [Verifier a (context_made E)]))"

definition is_verifier :: "nat option \<Rightarrow> 'c objects \<Rightarrow> bool" where
  "is_verifier this os = (case this of
     None \<Rightarrow> False | Some i \<Rightarrow> i < length os \<and> (case os ! i of Verifier a ok \<Rightarrow> ok | _ \<Rightarrow> False))"

definition verifyUpdate :: "nat option \<Rightarrow> nat \<Rightarrow> 'c objects \<Rightarrow> crypto_result" where
  "verifyUpdate this argc os =
     (if argc < 1 then CThrow ''update expects data''
      else if \<not> is_verifier this os then CThrow ''Invalid verify object'' else CThis)"

definition verifyVerify :: "nat option \<Rightarrow> nat \<Rightarrow> 'c objects \<Rightarrow> crypto_result" where
  "verifyVerify this argc os =
     (if argc < 1 then CThrow ''verify expects signature''
      else if \<not> is_verifier this os then CThrow ''Invalid verify object'' else CBool False)"

definition generateKeyPair :: "nat \<Rightarrow> string option \<Rightarrow> crypto_result" where
  "generateKeyPair argc type =
     (if argc < 3 then CThrow ''generateKeyPair expects type, options, and callback''
      else if type = None then CException else CKeys ''placeholder'' ''placeholder'')"

section \<open>What a hash digests\<close>

fun hash_updates :: "'c evp \<Rightarrow> nat \<Rightarrow> net_data list \<Rightarrow> 'c objects \<Rightarrow> 'c objects" where
  "hash_updates E i [] os = os"
| "hash_updates E i (d # ds) os = hash_updates E i ds (snd (hashUpdate E (Some i) (Some d) os))"

text \<open>What OpenSSL documents: after any updates, the digest is that of their concatenation.\<close>

definition digests :: "'c evp \<Rightarrow> string \<Rightarrow> (bytes \<Rightarrow> bytes) \<Rightarrow> bool" where
  "digests E a H \<longleftrightarrow> (\<forall>c chunks. evp_new E = Some c \<longrightarrow>
     fst (evp_final E (foldl (evp_update E) (evp_init E a c) chunks)) = H (concat chunks))"

lemma hash_updates_object:
  "i < length os \<Longrightarrow> os ! i = Hash a c \<Longrightarrow>
   hash_updates E i ds os = os[i := Hash a (foldl (evp_update E) c (filter (\<lambda>bs. bs \<noteq> []) (map getBufferData ds)))]"
proof (induction ds arbitrary: os c)
  case (Cons d ds)
  let ?bs = "getBufferData d"
  have u: "snd (hashUpdate E (Some i) (Some d) os) = (if ?bs = [] then os else os[i := Hash a (evp_update E c ?bs)])"
    using Cons.prems by (simp add: hashUpdate_def hash_data_def Let_def)
  show ?case
  proof (cases "?bs = []")
    case True
    with u Cons show ?thesis by simp
  next
    case False
    with u Cons.prems show ?thesis
      using Cons.IH [of "os[i := Hash a (evp_update E c ?bs)]" "evp_update E c ?bs"] by simp
  qed
qed (metis filter.simps(1) foldl_Nil hash_updates.simps(1) list.map(1) list_update_id)

lemma concat_nonempty: "concat (filter (\<lambda>bs. bs \<noteq> []) xss) = concat xss"
  by (induction xss) simp_all

lemma hex_char_not_NUL: "n < 16 \<Longrightarrow> hex_char n \<noteq> CHR 0x00"
proof -
  assume "n < 16"
  then have "n \<in> set [0..<16]" by simp
  moreover have "\<forall>n \<in> set [0..<16]. hex_char n \<noteq> CHR 0x00" by code_simp
  ultimately show ?thesis by blast
qed

lemma high_half: "(b::nat) < 256 \<Longrightarrow> b div 16 < 16"
  by simp

lemma hash_text_plain: "list_all (\<lambda>b. b < 256) h \<Longrightarrow> takeWhile (\<lambda>x. x \<noteq> CHR 0x00) (hashToString h) = hashToString h"
  by (induction h) (simp_all add: hashToString_def hex_char_not_NUL high_half)

definition hex_val :: "char \<Rightarrow> nat" where
  "hex_val c = (if of_char c < (58::nat) then of_char c - 48 else of_char c - 87)"

fun hex_bytes :: "string \<Rightarrow> bytes" where
  "hex_bytes (a # b # s) = (16 * hex_val a + hex_val b) # hex_bytes s"
| "hex_bytes s = []"

lemma hex_val_char: "n < 16 \<Longrightarrow> hex_val (hex_char n) = n"
  by (auto simp: hex_val_def hex_char_def take_bit_nat_eq_self)

lemma hex_bytes_text: "list_all (\<lambda>b. b < 256) h \<Longrightarrow> hex_bytes (hashToString h) = h"
  by (induction h) (simp_all add: hashToString_def hex_val_char high_half)

text \<open>Whatever data a hash is given, in whatever pieces, its digest in hexadecimal spells the digest of their
  concatenation, for the four algorithms; asking for base64 gives the same text.\<close>

theorem hash_digests:
  assumes "supported a" and "digests E a H" and "evp_new E = Some c" and "\<And>bs. list_all (\<lambda>b. b < 256) (H bs)"
    and "encoding \<in> {None, Some (Some ''hex''), Some (Some ''base64'')}"
  shows "\<exists>t. fst (hashDigest E (Some (length os)) encoding
        (hash_updates E (length os) ds (snd (createHash E (Some (Some a)) os)))) = CText t
      \<and> hex_bytes t = H (concat (map getBufferData ds))"
proof -
  let ?c = "evp_init E a c"
  let ?os = "os @ [Hash a ?c]"
  let ?chunks = "filter (\<lambda>bs. bs \<noteq> []) (map getBufferData ds)"
  have "snd (createHash E (Some (Some a)) os) = ?os" using assms(1,3) by (simp add: createHash_def new_hash_def)
  then have u: "hash_updates E (length os) ds (snd (createHash E (Some (Some a)) os))
      = ?os[length os := Hash a (foldl (evp_update E) ?c ?chunks)]"
    using hash_updates_object [of "length os" ?os a ?c E ds] by simp
  have f: "fst (evp_final E (foldl (evp_update E) ?c ?chunks)) = H (concat (map getBufferData ds))"
    using assms(2,3) by (simp add: digests_def concat_nonempty)
  have d: "digest_text encoding h = hashToString h" for h using assms(5) by (auto simp: digest_text_def)
  show ?thesis
    unfolding u using f assms(4)
    by (simp add: hashDigest_def hash_data_def split_beta d hash_text_plain hex_bytes_text)
qed

text \<open>Encryption and decryption give back what they are given, for every algorithm, key and vector.\<close>

definition cipher_updates :: "nat \<Rightarrow> net_data list \<Rightarrow> 'c objects \<Rightarrow> crypto_result list" where
  "cipher_updates i ds os = map (\<lambda>d. cipherUpdate (Some i) (Some d) os) ds @ [cipherFinal (Some i) os]"

theorem ciphers_copy:
  assumes "context_made E"
  shows "cipher_updates (length os) ds (snd (createCipheriv E 3 (Some a) os)) = map (\<lambda>d. CBytes (getBufferData d)) ds @ [CBytes []]
    \<and> cipher_updates (length os) ds (snd (createDecipheriv E 3 (Some a) os)) = map (\<lambda>d. CBytes (getBufferData d)) ds @ [CBytes []]"
  using assms by (simp add: cipher_updates_def createCipheriv_def createDecipheriv_def new_cipher_def cipherUpdate_def cipherFinal_def is_cipher_def)

text \<open>No signature is ever accepted.\<close>

lemma verify_rejects: "verifyVerify this argc os \<noteq> CBool True"
  by (simp add: verifyVerify_def)

definition example_evp :: "bytes evp" where
  "example_evp = \<lparr>evp_new = Some [], evp_init = (\<lambda>a c. []), evp_update = (\<lambda>c bs. c @ bs),
     evp_final = (\<lambda>c. ([sum_list c mod 256, length c mod 256], c)), context_made = True, rand_bytes = (\<lambda>n. None)\<rparr>"

lemma foldl_concat: "foldl (\<lambda>c bs. c @ bs) xs chunks = xs @ concat chunks"
  by (induction chunks arbitrary: xs) simp_all

lemma hash_digests_witness:
  "\<exists>t. fst (hashDigest example_evp (Some 0) None (hash_updates example_evp 0
       [Data_string (Some [3, 4]), Data_other, Data_string (Some [5])] (snd (createHash example_evp (Some (Some ''md5'')) []))))
     = CText t \<and> hex_bytes t = [12, 3]"
proof -
  let ?H = "\<lambda>bs. [sum_list bs mod 256, length bs mod 256]"
  have "digests example_evp ''md5'' ?H"
    by (simp add: digests_def example_evp_def foldl_concat)
  from hash_digests [OF _ this, of "[]" None "[]" "[Data_string (Some [3, 4]), Data_other, Data_string (Some [5])]"]
  show ?thesis by (simp add: supported_def example_evp_def getBufferData_def c_text_def)
qed

lemma ciphers_copy_witness:
  "cipher_updates 0 [Data_string (Some [104, 105])] (snd (createCipheriv example_evp 3 (Some ''aes-256-cbc'') []))
    = [CBytes [104, 105], CBytes []]"
  using ciphers_copy [of example_evp "[]" "[Data_string (Some [104, 105])]" "''aes-256-cbc''"]
  by (simp add: example_evp_def getBufferData_def c_text_def)

end
