(* ===== verification/Dgram.thy ===== *)
theory Dgram
  imports Net
begin

text \<open>
  Models \<open>src/modules/dgram/DgramModule.cpp\<close>: UDP sockets, their receive thread and the messages it queues.

  \<^item> What the socket calls return are arguments (\<open>udp_io\<close>). An emitter is there when the global object has
    an \<open>EventEmitter\<close>.
  \<^item> The sum of the offset and the length of \<open>send\<close> is an \<open>int32_t\<close>: it wraps, as compiled code does,
    although C++ leaves its overflow undefined. A datagram that starts or ends outside the bytes is
    \<open>Outside\<close>.
  \<^item> \<open>dgram_step\<close> interleaves the calls, the rounds of the receive threads and the event loop; the wait for
    a thread in \<open>close\<close> is a step of its own.
\<close>

record udp_socket =
  us_fd :: int
  us_bound :: bool
  us_closed :: bool
  us_port :: int
  us_address :: string
  us_emitter :: bool
  us_thread :: net_thread

datatype datagram = Inside bytes | Outside

record udp_world =
  udps :: "udp_socket list"
  messages :: "(nat \<times> bytes \<times> string \<times> int) list"
  handled :: nat
  datagrams :: "(int \<times> datagram \<times> string \<times> int) list"
  shut_fds :: "int list"
  ended :: bool

record udp_io =
  udp_fd :: int
  address_ok :: "string \<Rightarrow> bool"
  bound :: bool
  real_port :: "int option"
  option_set :: bool

datatype udp_result = UThrow string | UException | UUndefined | UNull | UBool bool | UAddress int string | UObject nat | UTerminate

definition put_udp :: "nat \<Rightarrow> udp_socket \<Rightarrow> udp_world \<Rightarrow> udp_world" where
  "put_udp i s w = w\<lparr>udps := (udps w)[i := s]\<rparr>"

section \<open>Calls\<close>

definition apos :: "string \<Rightarrow> string" where
  "apos s = CHR 0x27 # s @ [CHR 0x27]"

definition createSocket :: "string option option \<Rightarrow> bool \<Rightarrow> udp_io \<Rightarrow> udp_world \<Rightarrow> udp_result \<times> udp_world" where
  "createSocket arg emitter io w = (case arg of
     None \<Rightarrow> (UThrow (''createSocket expects type ('' @ apos ''udp4'' @ '' or '' @ apos ''udp6'' @ '')''), w)
   | Some None \<Rightarrow> (UException, w)
   | Some (Some t) \<Rightarrow>
       if t \<noteq> ''udp6'' \<and> t \<noteq> ''udp4'' then (UThrow (''createSocket expects '' @ apos ''udp4'' @ '' or '' @ apos ''udp6''), w)
       else if udp_fd io < 0 then (UThrow ''Failed to create UDP socket'', w)
       else (UObject (length (udps w)), w\<lparr>udps := udps w @
         [\<lparr>us_fd = udp_fd io, us_bound = False, us_closed = False, us_port = 0, us_address = [], us_emitter = emitter,
           us_thread = Not_started\<rparr>]\<rparr>))"

text \<open>The port and the address of \<open>bind\<close>: numbers and texts, or the properties of an object.\<close>

definition bind_args :: "net_arg list \<Rightarrow> int \<times> string" where
  "bind_args args = (case args of
     NNumber p # rest \<Rightarrow> (p, case rest of NString h # _ \<Rightarrow> h | _ \<Rightarrow> ''0.0.0.0'')
   | NObject p h _ # _ \<Rightarrow> (case p of Some k \<Rightarrow> k | None \<Rightarrow> 0, case h of Some s \<Rightarrow> s | None \<Rightarrow> ''0.0.0.0'')
   | _ \<Rightarrow> (0, ''0.0.0.0''))"

definition socketBind :: "nat \<Rightarrow> net_arg list \<Rightarrow> udp_io \<Rightarrow> udp_world \<Rightarrow> udp_result \<times> udp_world" where
  "socketBind i args io w =
     (if i \<ge> length (udps w) then (UThrow ''Invalid socket object'', w)
      else
        (let s = udps w ! i; (p, a) = bind_args args in
         if us_bound s then (UThrow ''Socket already bound'', w)
         else if p < 0 \<or> p > 65535 then (UThrow ''Invalid port number'', w)
         else if \<not> (a = ''0.0.0.0'' \<or> a = []) \<and> \<not> address_ok io a then (UThrow ''Invalid address'', w)
         else if us_fd s < 0 \<or> \<not> bound io then (UThrow ''bind() failed'', w)
         else
           (let q = (if p = 0 then (case real_port io of Some k \<Rightarrow> k | None \<Rightarrow> p) else p);
                t = s\<lparr>us_port := q, us_address := a, us_bound := True\<rparr>
            in if us_thread t \<noteq> Not_started then (UTerminate, (put_udp i t w)\<lparr>ended := True\<rparr>)
               else (UUndefined, put_udp i (t\<lparr>us_thread := Running\<rparr>) w))))"

definition wrap32 :: "int \<Rightarrow> int" where
  "wrap32 n = (n + 2 ^ 31) mod 2 ^ 32 - 2 ^ 31"

definition dgram_getData :: "net_data \<Rightarrow> bytes" where
  "dgram_getData d = (case d of
     Data_buffer len (Some bs) \<Rightarrow> c_text bs | Data_buffer len None \<Rightarrow> replicate len 0
   | Data_string (Some bs) \<Rightarrow> c_text bs | _ \<Rightarrow> [])"

text \<open>The test of \<open>send\<close> on the region of the bytes, and the region.\<close>

definition region_accepted :: "int \<Rightarrow> int \<Rightarrow> nat \<Rightarrow> bool" where
  "region_accepted off len n \<longleftrightarrow> \<not> (off < 0 \<or> wrap32 (off + len) > wrap32 (int n))"

definition region :: "bytes \<Rightarrow> int \<Rightarrow> int \<Rightarrow> datagram" where
  "region bs off len =
     (if 0 \<le> off \<and> 0 \<le> len \<and> off + len \<le> int (length bs) then Inside (take (nat len) (drop (nat off) bs)) else Outside)"

text \<open>A message with the arguments that follow it: numbers, an address, or anything else.\<close>

definition number_arg :: "net_arg list \<Rightarrow> nat \<Rightarrow> int \<Rightarrow> int" where
  "number_arg args k d = (if k < length args then (case args ! k of NNumber n \<Rightarrow> n | _ \<Rightarrow> d) else d)"

definition string_arg :: "net_arg list \<Rightarrow> nat \<Rightarrow> string \<Rightarrow> string" where
  "string_arg args k d = (if k < length args then (case args ! k of NString s \<Rightarrow> s | _ \<Rightarrow> d) else d)"

definition socketSend :: "nat \<Rightarrow> net_data \<Rightarrow> net_arg list \<Rightarrow> udp_io \<Rightarrow> bool \<Rightarrow> udp_world \<Rightarrow> udp_result \<times> udp_world" where
  "socketSend i data args io ok w =
     (if i \<ge> length (udps w) \<or> \<not> us_bound (udps w ! i) then (UThrow ''Socket not bound'', w)
      else if length args < 2 then (UThrow ''send expects (msg, offset, length, port, address, callback)'', w)
      else
        (let bs = dgram_getData data in
         if bs = [] then (UBool False, w)
         else
           (let off = number_arg args 0 0; len = number_arg args 1 (wrap32 (int (length bs)));
                p = number_arg args 2 0; a = string_arg args 3 ''localhost''
            in if p \<le> 0 \<or> p > 65535 then (UThrow ''Invalid port number'', w)
               else if \<not> region_accepted off len (length bs) then (UThrow ''Invalid offset or length'', w)
               else if \<not> address_ok io a then (UThrow ''Invalid address'', w)
               else (UBool ok, w\<lparr>datagrams := datagrams w @ [(us_fd (udps w ! i), region bs off len, a, p)]\<rparr>))))"

definition udp_close :: "udp_socket \<Rightarrow> udp_socket \<times> int list" where
  "udp_close s =
     (if us_closed s then (s, [])
      else (s\<lparr>us_closed := True, us_bound := False, us_fd := - 1\<rparr>, if us_fd s \<ge> 0 then [us_fd s] else []))"

definition socketClose :: "nat \<Rightarrow> udp_world \<Rightarrow> udp_result \<times> udp_world" where
  "socketClose i w =
     (if i < length (udps w)
      then (let (s, cl) = udp_close (udps w ! i) in (UUndefined, (put_udp i s w)\<lparr>shut_fds := shut_fds w @ cl\<rparr>))
      else (UUndefined, w))"

definition has_fd :: "nat \<Rightarrow> udp_world \<Rightarrow> bool" where
  "has_fd i w \<longleftrightarrow> i < length (udps w) \<and> us_fd (udps w ! i) \<ge> 0"

definition socketAddMembership :: "nat \<Rightarrow> string option option \<Rightarrow> udp_io \<Rightarrow> udp_world \<Rightarrow> udp_result" where
  "socketAddMembership i arg io w = (case arg of
     None \<Rightarrow> UThrow ''addMembership expects multicast address''
   | Some None \<Rightarrow> UException
   | Some (Some a) \<Rightarrow>
       if \<not> has_fd i w then UThrow ''Invalid socket''
       else if \<not> address_ok io a then UThrow ''Invalid multicast address''
       else if \<not> option_set io then UThrow ''addMembership() failed'' else UUndefined)"

definition socketSetBroadcast :: "nat \<Rightarrow> bool option \<Rightarrow> udp_io \<Rightarrow> udp_world \<Rightarrow> udp_result" where
  "socketSetBroadcast i arg io w =
     (if arg = None then UThrow ''setBroadcast expects a boolean''
      else if \<not> has_fd i w then UThrow ''Invalid socket''
      else if \<not> option_set io then UThrow ''setBroadcast() failed'' else UUndefined)"

definition socketAddress :: "nat \<Rightarrow> udp_world \<Rightarrow> udp_result" where
  "socketAddress i w =
     (if i \<ge> length (udps w) \<or> \<not> us_bound (udps w ! i) then UNull
      else UAddress (us_port (udps w ! i)) (us_address (udps w ! i)))"

section \<open>The receive thread\<close>

text \<open>One round: \<open>None\<close> is an error of \<open>recvfrom\<close>, otherwise the datagram and where it came from.\<close>

definition receive_round :: "nat \<Rightarrow> (bytes \<times> string \<times> int) option \<Rightarrow> udp_world \<Rightarrow> udp_world" where
  "receive_round i r w =
     (let s = udps w ! i in
      if \<not> (us_bound s \<and> \<not> us_closed s) then put_udp i (s\<lparr>us_thread := Finished\<rparr>) w
      else (case r of None \<Rightarrow> w
        | Some (bs, a, p) \<Rightarrow> if us_emitter s then w\<lparr>messages := messages w @ [(i, bs, a, p)]\<rparr> else w))"

inductive dgram_step :: "udp_world \<Rightarrow> udp_world \<Rightarrow> bool" where
  create: "\<not> ended w \<Longrightarrow> dgram_step w (snd (createSocket arg e io w))"
| bind: "\<not> ended w \<Longrightarrow> dgram_step w (snd (socketBind i args io w))"
| send: "\<not> ended w \<Longrightarrow> dgram_step w (snd (socketSend i data args io ok w))"
| close: "\<not> ended w \<Longrightarrow> dgram_step w (snd (socketClose i w))"
| receive: "\<not> ended w \<Longrightarrow> i < length (udps w) \<Longrightarrow> us_thread (udps w ! i) = Running \<Longrightarrow> dgram_step w (receive_round i r w)"
| join: "\<not> ended w \<Longrightarrow> i < length (udps w) \<Longrightarrow> us_closed (udps w ! i) \<Longrightarrow> us_thread (udps w ! i) = Finished \<Longrightarrow>
    dgram_step w (put_udp i ((udps w ! i)\<lparr>us_thread := Not_started\<rparr>) w)"
| deliver: "\<not> ended w \<Longrightarrow> handled w < length (messages w) \<Longrightarrow> dgram_step w (w\<lparr>handled := Suc (handled w)\<rparr>)"

section \<open>Closed sockets\<close>

text \<open>A step keeps closed sockets closed and queues nothing for them.\<close>

definition silent :: "nat \<Rightarrow> udp_world \<Rightarrow> udp_world \<Rightarrow> bool" where
  "silent i w u \<longleftrightarrow> i < length (udps u) \<and> us_closed (udps u ! i)
     \<and> filter (\<lambda>m. fst m = i) (messages u) = filter (\<lambda>m. fst m = i) (messages w)"

lemma silent_put:
  "i < length (udps w) \<Longrightarrow> us_closed (udps w ! i) \<Longrightarrow> (i = k \<Longrightarrow> us_closed s) \<Longrightarrow> silent i w (put_udp k s w)"
  by (cases "i = k") (simp_all add: silent_def put_udp_def)

lemma silent_update:
  "silent i w (u\<lparr>ended := b\<rparr>) = silent i w u" "silent i w (u\<lparr>shut_fds := f\<rparr>) = silent i w u"
  "silent i w (u\<lparr>handled := n\<rparr>) = silent i w u" "silent i w (u\<lparr>datagrams := d\<rparr>) = silent i w u"
  by (simp_all add: silent_def)

lemma silent_refl: "i < length (udps w) \<Longrightarrow> us_closed (udps w ! i) \<Longrightarrow> silent i w w"
  by (simp add: silent_def)

lemma closed_bind:
  assumes "i < length (udps w)" and "us_closed (udps w ! i)"
  shows "silent i w (snd (socketBind k args io w))"
  using assms
  by (auto simp: socketBind_def Let_def silent_update split: prod.splits option.splits intro!: silent_put silent_refl)

lemma closed_step:
  assumes "dgram_step w u" and "i < length (udps w)" and "us_closed (udps w ! i)"
  shows "silent i w u"
  using assms
proof cases
  case (create arg e io)
  with assms(2,3) show ?thesis
    by (auto simp: createSocket_def silent_def nth_append split: option.splits)
next
  case (bind k args io)
  with assms(2,3) show ?thesis by (simp add: closed_bind)
next
  case (send k data args io ok)
  with assms(2,3) show ?thesis by (simp add: socketSend_def Let_def silent_update silent_refl)
next
  case (close k)
  with assms(2,3) show ?thesis
    by (auto simp: socketClose_def udp_close_def Let_def silent_update intro!: silent_put silent_refl)
next
  case (receive k r)
  with assms(2,3) show ?thesis
    by (auto simp: receive_round_def Let_def silent_def put_udp_def nth_list_update split: option.splits)
next
  case (join k)
  with assms(2,3) show ?thesis by (auto intro!: silent_put)
next
  case deliver
  with assms(2,3) show ?thesis by (simp add: silent_update silent_refl)
qed

text \<open>Once a socket is closed, no message of it is queued any more, whatever happens.\<close>

theorem closed_socket_silent:
  assumes "dgram_step\<^sup>*\<^sup>* w u" and "i < length (udps w)" and "us_closed (udps w ! i)"
  shows "us_closed (udps u ! i) \<and> filter (\<lambda>m. fst m = i) (messages u) = filter (\<lambda>m. fst m = i) (messages w)"
proof -
  have "silent i w u"
    using assms(1)
  proof (induction rule: rtranclp_induct)
    case base
    show ?case using assms(2,3) by (rule silent_refl)
  next
    case (step t u)
    then show ?case using closed_step [OF step(2), of i] by (simp add: silent_def)
  qed
  then show ?thesis by (simp add: silent_def)
qed

section \<open>The region that is sent\<close>

lemma wrap32_cases:
  assumes "- (2 ^ 31) \<le> n" and "n < 2 ^ 32"
  shows "wrap32 n = (if n < 2 ^ 31 then n else n - 2 ^ 32)"
proof (cases "n < 2 ^ 31")
  case True
  then have "(n + 2 ^ 31) mod 2 ^ 32 = n + 2 ^ 31" using assms by (intro mod_pos_pos_trivial) simp_all
  with True show ?thesis by (simp add: wrap32_def)
next
  case False
  have "(n + 2 ^ 31) mod 2 ^ 32 = (n + 2 ^ 31 - 2 ^ 32) mod 2 ^ 32"
    by (metis diff_add_cancel mod_add_self2)
  also have "\<dots> = n + 2 ^ 31 - 2 ^ 32" using False assms by (intro mod_pos_pos_trivial) simp_all
  finally show ?thesis using False by (simp add: wrap32_def)
qed

lemma region_accepted_iff:
  assumes "- (2 ^ 31) \<le> off" "off < 2 ^ 31" "- (2 ^ 31) \<le> len" "len < 2 ^ 31" "n < 2 ^ 31"
  shows "region_accepted off len n \<longleftrightarrow> 0 \<le> off \<and> (off + len \<le> int n \<or> 2 ^ 31 \<le> off + len)"
proof (cases "0 \<le> off")
  case True
  then have "wrap32 (off + len) = (if off + len < 2 ^ 31 then off + len else off + len - 2 ^ 32)"
    using assms by (intro wrap32_cases) simp_all
  moreover have "wrap32 (int n) = int n" using assms(5) wrap32_cases [of "int n"] by simp
  ultimately show ?thesis using True assms by (auto simp: region_accepted_def)
qed (simp add: region_accepted_def)

text \<open>C32: What the test of \<open>send\<close> lets through although it lies outside the bytes: exactly the negative
  lengths, and the ends that overflow 32 bits.\<close>

theorem send_bounds:
  assumes "- (2 ^ 31) \<le> off" "off < 2 ^ 31" "- (2 ^ 31) \<le> len" "len < 2 ^ 31"
    and "i < length (udps w)" and "us_bound (udps w ! i)" and "0 < port" and "port \<le> 65535" and "address_ok io a"
    and "dgram_getData data \<noteq> []" and "length (dgram_getData data) < 2 ^ 31"
  shows "fst (socketSend i data [NNumber off, NNumber len, NNumber port, NString a] io ok w) =
      (if 0 \<le> off \<and> (off + len \<le> int (length (dgram_getData data)) \<or> 2 ^ 31 \<le> off + len) then UBool ok
       else UThrow ''Invalid offset or length'')
    \<and> (0 \<le> off \<and> (len < 0 \<and> off + len \<le> int (length (dgram_getData data)) \<or> 2 ^ 31 \<le> off + len) \<longleftrightarrow>
       datagrams (snd (socketSend i data [NNumber off, NNumber len, NNumber port, NString a] io ok w))
         = datagrams w @ [(us_fd (udps w ! i), Outside, a, port)])"
proof -
  note r = region_accepted_iff [OF assms(1-4,11)]
  have "length (dgram_getData data) < 2 ^ 31" by (rule assms(11))
  then show ?thesis
    using assms(1-10) r by (auto simp: socketSend_def Let_def number_arg_def string_arg_def region_def)
qed

definition example_udp :: udp_io where
  "example_udp = \<lparr>udp_fd = 3, address_ok = (\<lambda>a. True), bound = True, real_port = Some 9, option_set = True\<rparr>"

definition udp_none :: udp_world where
  "udp_none = \<lparr>udps = [], messages = [], handled = 0, datagrams = [], shut_fds = [], ended = False\<rparr>"

definition udp_bound :: udp_world where
  "udp_bound = snd (socketBind 0 [] example_udp (snd (createSocket (Some (Some ''udp4'')) True example_udp udp_none)))"

lemma send_bounds_witness:
  "datagrams (snd (socketSend 0 (Data_string (Some [1, 2])) [NNumber 1, NNumber (- 1), NNumber 80, NString ''a''] example_udp True udp_bound))
    = [(3, Outside, ''a'', 80)]"
proof -
  have "0 < length (udps udp_bound)" "us_bound (udps udp_bound ! 0)" "us_fd (udps udp_bound ! 0) = 3" "datagrams udp_bound = []"
    by code_simp+
  then show ?thesis
    using send_bounds [of 1 "- 1" 0 udp_bound 80 example_udp "''a''" "Data_string (Some [1, 2])" True]
    by (simp add: example_udp_def dgram_getData_def c_text_def)
qed

lemma closed_socket_silent_witness:
  "let w = snd (socketClose 0 (receive_round 0 (Some ([7], ''b'', 5)) udp_bound)); u = receive_round 0 (Some ([8], ''b'', 5)) w
   in filter (\<lambda>m. fst m = 0) (messages u) = [(0, [7], ''b'', 5)]"
proof -
  let ?w = "snd (socketClose 0 (receive_round 0 (Some ([7], ''b'', 5)) udp_bound))"
  have c: "0 < length (udps ?w)" "us_closed (udps ?w ! 0)" "\<not> ended ?w" "us_thread (udps ?w ! 0) = Running"
      "filter (\<lambda>m. fst m = 0) (messages ?w) = [(0, [7], ''b'', 5)]"
    by code_simp+
  have "dgram_step\<^sup>*\<^sup>* ?w (receive_round 0 (Some ([8], ''b'', 5)) ?w)"
    by (rule r_into_rtranclp, rule dgram_step.receive [OF c(3,1,4)])
  from closed_socket_silent [OF this c(1,2)] c(5) show ?thesis by (simp add: Let_def)
qed

end
