(* ===== verification/ChildProcess.thy ===== *)
theory ChildProcess
  imports Fifo
begin

text \<open>
  Models \<open>src/modules/child_process/ChildProcessModule.cpp\<close>: spawning processes, the two threads that read
  a child's output, the thread that waits for its end, and the events they queue.

  \<^item> What \<open>pipe\<close> and \<open>fork\<close> return are arguments. The child itself is a process that writes bytes to its
    two pipes and ends with a wait status; \<open>written\<close> is all it wrote, \<open>unread\<close> what is still in the pipe.
  \<^item> When \<open>pipe\<close> or \<open>fork\<close> fails the data of the child is deleted, but the object keeps the pointer: the
    child is \<open>Dangling\<close>, and a method that reads the data is \<open>Undefined\<close>.
  \<^item> An event reaches the program only through functions \<open>emit\<close> that the program itself put on the child
    and on its streams (\<open>has_emit\<close>): the class has none. \<open>called\<close> is the history of these calls.
  \<^item> A reader thread tests the flags (\<open>Checking\<close>), then waits for bytes (\<open>Reading\<close>).
\<close>

type_synonym bytes = "nat list"

datatype reader = Checking | Reading | Done

record pipe_stream =
  written :: bytes
  unread :: bytes
  reading :: reader
  stream_emit :: bool

record child_data =
  argv :: "string list"
  pid :: int
  spawned :: bool
  killed :: bool
  exit_code :: int
  exit_signal :: int
  child_emit :: bool
  stdout :: pipe_stream
  stderr :: pipe_stream
  wait_status :: "nat option"
  waited :: bool

datatype child = Child child_data | Dangling

datatype child_event = Data nat bool bytes | Exit nat int int

record child_world =
  kids :: "child list"
  queue :: "child_event list"
  taken :: nat
  called :: "child_event list"
  signals :: "(int \<times> int) list"

datatype child_result = PThrow string | PException | PUndefined | PBool bool | PChild nat | Undefined

section \<open>Calls\<close>

definition new_stream :: pipe_stream where
  "new_stream = \<lparr>written = [], unread = [], reading = Checking, stream_emit = False\<rparr>"

definition new_child :: "string list \<Rightarrow> int \<Rightarrow> child_data" where
  "new_child args p = \<lparr>argv = args, pid = p, spawned = True, killed = False, exit_code = - 1, exit_signal = 0, child_emit = False,
     stdout = new_stream, stderr = new_stream, wait_status = None, waited = False\<rparr>"

text \<open>\<open>forked\<close> is what \<open>fork\<close> returns in the parent. The program and its arguments are passed to \<open>execvp\<close>.\<close>

definition spawnProcess :: "string \<Rightarrow> string list \<Rightarrow> bool \<Rightarrow> int \<Rightarrow> child_world \<Rightarrow> child_world" where
  "spawnProcess command args pipes forked w =
     w\<lparr>kids := kids w @ [if \<not> pipes \<or> forked < 0 then Dangling else Child (new_child (command # args) forked)]\<rparr>"

text \<open>The arguments of an array that have no C string are left out.\<close>

definition spawn :: "string option option \<Rightarrow> string option list \<Rightarrow> bool \<Rightarrow> int \<Rightarrow> child_world \<Rightarrow> child_result \<times> child_world" where
  "spawn arg args pipes forked w = (case arg of
     None \<Rightarrow> (PThrow ''spawn expects command'', w)
   | Some None \<Rightarrow> (PException, w)
   | Some (Some c) \<Rightarrow> (PChild (length (kids w)), spawnProcess c (List.map_filter id args) pipes forked w))"

definition exec :: "string option option \<Rightarrow> string option list \<Rightarrow> bool \<Rightarrow> int \<Rightarrow> child_world \<Rightarrow> child_result \<times> child_world" where
  "exec = spawn"

definition execFile :: "string option option \<Rightarrow> string option list \<Rightarrow> bool \<Rightarrow> int \<Rightarrow> child_world \<Rightarrow> child_result \<times> child_world" where
  "execFile = spawn"

definition child_fork :: "string option option \<Rightarrow> string option list \<Rightarrow> bool \<Rightarrow> int \<Rightarrow> child_world \<Rightarrow> child_result \<times> child_world" where
  "child_fork = spawn"

definition signal_number :: "string option \<Rightarrow> int" where
  "signal_number s = (case s of
     None \<Rightarrow> 15
   | Some t \<Rightarrow> if t = ''SIGTERM'' then 15 else if t = ''SIGINT'' then 2 else if t = ''SIGKILL'' then 9 else 15)"

definition childKill :: "nat \<Rightarrow> string option \<Rightarrow> child_world \<Rightarrow> child_result \<times> child_world" where
  "childKill i sig w =
     (if i \<ge> length (kids w) then (PUndefined, w)
      else (case kids w ! i of
          Dangling \<Rightarrow> (Undefined, w)
        | Child d \<Rightarrow>
            if pid d > 0
            then (PUndefined, w\<lparr>signals := signals w @ [(pid d, signal_number sig)], kids := (kids w)[i := Child (d\<lparr>killed := True\<rparr>)]\<rparr>)
            else (PUndefined, w)))"

definition childSend :: "nat \<Rightarrow> nat \<Rightarrow> child_world \<Rightarrow> child_result" where
  "childSend i argc w =
     (if argc < 1 then PThrow ''send expects a message''
      else if i \<ge> length (kids w) then PUndefined
      else (case kids w ! i of Dangling \<Rightarrow> Undefined | Child d \<Rightarrow> if spawned d then PBool True else PUndefined))"

section \<open>The process and the threads\<close>

text \<open>\<open>True\<close> is the standard output, \<open>False\<close> the standard error.\<close>

definition stream :: "bool \<Rightarrow> child_data \<Rightarrow> pipe_stream" where
  "stream b d = (if b then stdout d else stderr d)"

definition put_stream :: "bool \<Rightarrow> pipe_stream \<Rightarrow> child_data \<Rightarrow> child_data" where
  "put_stream b s d = (if b then d\<lparr>stdout := s\<rparr> else d\<lparr>stderr := s\<rparr>)"

definition put_child :: "nat \<Rightarrow> child_data \<Rightarrow> child_world \<Rightarrow> child_world" where
  "put_child i d w = w\<lparr>kids := (kids w)[i := Child d]\<rparr>"

text \<open>The process writes, while it runs.\<close>

definition child_writes :: "nat \<Rightarrow> bool \<Rightarrow> bytes \<Rightarrow> child_data \<Rightarrow> child_world \<Rightarrow> child_world" where
  "child_writes i b bs d w =
     (let s = stream b d in put_child i (put_stream b (s\<lparr>written := written s @ bs, unread := unread s @ bs\<rparr>) d) w)"

text \<open>The head of a reader's loop.\<close>

definition reader_checks :: "nat \<Rightarrow> bool \<Rightarrow> child_data \<Rightarrow> child_world \<Rightarrow> child_world" where
  "reader_checks i b d w =
     put_child i (put_stream b ((stream b d)\<lparr>reading := (if spawned d \<and> \<not> killed d then Reading else Done)\<rparr>) d) w"

text \<open>A read of \<open>n\<close> bytes; no bytes end the loop.\<close>

definition reader_reads :: "nat \<Rightarrow> bool \<Rightarrow> nat \<Rightarrow> child_data \<Rightarrow> child_world \<Rightarrow> child_world" where
  "reader_reads i b n d w =
     (let s = stream b d; bs = take n (unread s) in
      if bs = [] then put_child i (put_stream b (s\<lparr>reading := Done\<rparr>) d) w
      else (put_child i (put_stream b (s\<lparr>unread := drop n (unread s), reading := Checking\<rparr>) d) w)
        \<lparr>queue := queue w @ [Data i b bs]\<rparr>)"

text \<open>What \<open>WIFEXITED\<close>, \<open>WEXITSTATUS\<close>, \<open>WIFSIGNALED\<close> and \<open>WTERMSIG\<close> read off a wait status.\<close>

definition decode_status :: "nat \<Rightarrow> child_data \<Rightarrow> child_data" where
  "decode_status st d =
     (let t = st mod 128 in
      if t = 0 then d\<lparr>exit_code := int (st div 256 mod 256)\<rparr>
      else if t \<noteq> 127 then d\<lparr>exit_signal := int t\<rparr> else d)"

definition waiter_returns :: "nat \<Rightarrow> nat \<Rightarrow> child_data \<Rightarrow> child_world \<Rightarrow> child_world" where
  "waiter_returns i st d w =
     (let e = decode_status st (d\<lparr>spawned := False, waited := True\<rparr>)
      in (put_child i e w)\<lparr>queue := queue w @ [Exit i (exit_code e) (exit_signal e)]\<rparr>)"

text \<open>A callback: it calls \<open>emit\<close> where it finds functions of that name.\<close>

fun emits :: "child_world \<Rightarrow> child_event \<Rightarrow> bool" where
  "emits w (Data i b bs) = (case kids w ! i of Child d \<Rightarrow> child_emit d \<and> stream_emit (stream b d) | Dangling \<Rightarrow> False)"
| "emits w (Exit i c s) = (case kids w ! i of Child d \<Rightarrow> child_emit d | Dangling \<Rightarrow> False)"

definition run_event :: "child_world \<Rightarrow> child_world" where
  "run_event w = (let e = queue w ! taken w
     in w\<lparr>taken := Suc (taken w), called := (if emits w e then called w @ [e] else called w)\<rparr>)"

inductive child_step :: "child_world \<Rightarrow> child_world \<Rightarrow> bool" where
  spawn: "child_step w (snd (spawn arg args pipes forked w))"
| kill: "child_step w (snd (childKill i sig w))"
| writes: "i < length (kids w) \<Longrightarrow> kids w ! i = Child d \<Longrightarrow> wait_status d = None \<Longrightarrow> child_step w (child_writes i b bs d w)"
| ends: "i < length (kids w) \<Longrightarrow> kids w ! i = Child d \<Longrightarrow> wait_status d = None \<Longrightarrow>
    child_step w (put_child i (d\<lparr>wait_status := Some st\<rparr>) w)"
| checks: "i < length (kids w) \<Longrightarrow> kids w ! i = Child d \<Longrightarrow> reading (stream b d) = Checking \<Longrightarrow> child_step w (reader_checks i b d w)"
| reads: "i < length (kids w) \<Longrightarrow> kids w ! i = Child d \<Longrightarrow> reading (stream b d) = Reading \<Longrightarrow> 0 < n \<Longrightarrow> n \<le> 4096 \<Longrightarrow>
    unread (stream b d) \<noteq> [] \<or> wait_status d \<noteq> None \<Longrightarrow> child_step w (reader_reads i b n d w)"
| waits: "i < length (kids w) \<Longrightarrow> kids w ! i = Child d \<Longrightarrow> wait_status d = Some st \<Longrightarrow> \<not> waited d \<Longrightarrow>
    child_step w (waiter_returns i st d w)"
| run: "taken w < length (queue w) \<Longrightarrow> child_step w (run_event w)"

text \<open>The program gives a child, or one of its streams, a function \<open>emit\<close>.\<close>

inductive program_step :: "child_world \<Rightarrow> child_world \<Rightarrow> bool" where
  child: "i < length (kids w) \<Longrightarrow> kids w ! i = Child d \<Longrightarrow> program_step w (put_child i (d\<lparr>child_emit := True\<rparr>) w)"
| strm: "i < length (kids w) \<Longrightarrow> kids w ! i = Child d \<Longrightarrow>
    program_step w (put_child i (put_stream b ((stream b d)\<lparr>stream_emit := True\<rparr>) d) w)"

definition no_children :: child_world where
  "no_children = \<lparr>kids = [], queue = [], taken = 0, called = [], signals = []\<rparr>"

section \<open>Output arrives in order\<close>

text \<open>The bytes of one stream of one child among some events.\<close>

fun chunk :: "nat \<Rightarrow> bool \<Rightarrow> child_event \<Rightarrow> bytes" where
  "chunk i b (Data j c bs) = (if i = j \<and> b = c then bs else [])"
| "chunk i b (Exit j c s) = []"

definition out_bytes :: "nat \<Rightarrow> bool \<Rightarrow> child_event list \<Rightarrow> bytes" where
  "out_bytes i b es = concat (map (chunk i b) es)"

lemma output_simps [simp]: "out_bytes i b [] = []" "out_bytes i b (es @ fs) = out_bytes i b es @ out_bytes i b fs"
  "out_bytes i b (e # es) = chunk i b e @ out_bytes i b es"
  by (simp_all add: out_bytes_def)

fun event_child :: "child_event \<Rightarrow> nat" where
  "event_child (Data i b bs) = i"
| "event_child (Exit i c s) = i"

fun child_ok :: "nat \<Rightarrow> child_event list \<Rightarrow> child \<Rightarrow> bool" where
  "child_ok i es Dangling = True"
| "child_ok i es (Child d) = (\<forall>b. written (stream b d) = out_bytes i b es @ unread (stream b d))"

definition children_inv :: "child_world \<Rightarrow> bool" where
  "children_inv w \<longleftrightarrow> (\<forall>i < length (kids w). child_ok i (queue w) (kids w ! i))
     \<and> list_all (\<lambda>e. event_child e < length (kids w)) (queue w) \<and> taken w \<le> length (queue w)"

lemma stream_put [simp]: "stream b (put_stream c s d) = (if b = c then s else stream b d)"
  by (simp add: stream_def put_stream_def)

lemma output_later: "list_all (\<lambda>e. event_child e < n) es \<Longrightarrow> out_bytes n b es = []"
proof (induction es)
  case (Cons e es)
  then show ?case by (cases e) auto
qed simp

lemma children_inv_put:
  assumes "children_inv w" and "i < length (kids w)" and "child_ok i (queue w @ es) (Child d)"
    and "\<And>j b. j \<noteq> i \<Longrightarrow> out_bytes j b es = []" and "list_all (\<lambda>e. event_child e = i) es"
  shows "children_inv ((put_child i d w)\<lparr>queue := queue w @ es\<rparr>)"
proof -
  have "child_ok j (queue w @ es) (kids w ! j)" if "j < length (kids w)" "j \<noteq> i" for j
    using assms(1,4) that by (cases "kids w ! j") (auto simp: children_inv_def dest!: spec [of _ j])
  then show ?thesis
    using assms by (auto simp: children_inv_def put_child_def nth_list_update list_all_iff)
qed

lemma children_inv_same:
  assumes "children_inv w" and "i < length (kids w)" and "child_ok i (queue w) (Child d)"
  shows "children_inv (put_child i d w)"
proof -
  have "(put_child i d w)\<lparr>queue := queue w\<rparr> = put_child i d w" by (simp add: put_child_def)
  with children_inv_put [OF assms(1,2), of "[]" d] assms(3) show ?thesis by simp
qed

lemma child_okD: "children_inv w \<Longrightarrow> i < length (kids w) \<Longrightarrow> kids w ! i = Child d \<Longrightarrow>
    written (stream b d) = out_bytes i b (queue w) @ unread (stream b d)"
  by (metis child_ok.simps(2) children_inv_def)

lemma stream_update [simp]:
  "stream b (d\<lparr>killed := k\<rparr>) = stream b d" "stream b (d\<lparr>wait_status := st\<rparr>) = stream b d"
  "stream b (d\<lparr>spawned := s, waited := v\<rparr>) = stream b d" "stream b (d\<lparr>child_emit := e\<rparr>) = stream b d"
  "stream b (decode_status n d) = stream b d"
  by (simp_all add: stream_def decode_status_def Let_def)

lemma children_inv_spawn:
  assumes "children_inv w"
  shows "children_inv (spawnProcess c args pipes forked w)"
proof -
  have "child_ok (length (kids w)) (queue w) (Child (new_child a p))" for a p
    using assms output_later [of "length (kids w)" "queue w"]
    by (simp add: children_inv_def new_child_def stream_def new_stream_def)
  then show ?thesis
    using assms by (auto simp: children_inv_def spawnProcess_def nth_append less_Suc_eq list_all_iff)
qed

lemma children_inv_step:
  assumes "child_step w u" and "children_inv w"
  shows "children_inv u"
  using assms(1)
proof cases
  case (spawn arg args pipes forked)
  with assms(2) show ?thesis by (auto simp: spawn_def children_inv_spawn split: option.splits)
next
  case (kill i sig)
  show ?thesis
  proof (cases "i < length (kids w)")
    case True
    show ?thesis
    proof (cases "kids w ! i")
      case (Child d)
      have "children_inv (put_child i (d\<lparr>killed := True\<rparr>) w)"
        using children_inv_same [OF assms(2) True] child_okD [OF assms(2) True Child] by simp
      with kill Child True assms(2) show ?thesis
        by (simp add: childKill_def put_child_def children_inv_def)
    qed (use kill assms(2) in \<open>simp add: childKill_def\<close>)
  qed (use kill assms(2) in \<open>simp add: childKill_def\<close>)
next
  case (writes i d b bs)
  then show ?thesis
    using children_inv_same [OF assms(2)] child_okD [OF assms(2) writes(2,3)] by (simp add: child_writes_def Let_def)
next
  case (ends i d st)
  then show ?thesis
    using children_inv_same [OF assms(2)] child_okD [OF assms(2) ends(2,3)] by simp
next
  case (checks i d b)
  then show ?thesis
    using children_inv_same [OF assms(2)] child_okD [OF assms(2) checks(2,3)] by (simp add: reader_checks_def)
next
  case (reads i d b n)
  let ?s = "stream b d"
  show ?thesis
  proof (cases "take n (unread ?s) = []")
    case True
    with reads show ?thesis
      using children_inv_same [OF assms(2)] child_okD [OF assms(2) reads(2,3)] by (simp add: reader_reads_def Let_def)
  next
    case False
    then have u: "u = (put_child i (put_stream b (?s\<lparr>unread := drop n (unread ?s), reading := Checking\<rparr>) d) w)
        \<lparr>queue := queue w @ [Data i b (take n (unread ?s))]\<rparr>"
      using reads(1) by (simp add: reader_reads_def Let_def)
    show ?thesis
      unfolding u
      by (rule children_inv_put [OF assms(2) reads(2)])
        (use child_okD [OF assms(2) reads(2,3)] in auto)
  qed
next
  case (waits i d st)
  let ?e = "decode_status st (d\<lparr>spawned := False, waited := True\<rparr>)"
  have u: "u = (put_child i ?e w)\<lparr>queue := queue w @ [Exit i (exit_code ?e) (exit_signal ?e)]\<rparr>"
    using waits(1) by (simp add: waiter_returns_def Let_def)
  show ?thesis
    unfolding u
    by (rule children_inv_put [OF assms(2) waits(2)]) (use child_okD [OF assms(2) waits(2,3)] in auto)
next
  case run
  with assms(2) show ?thesis by (simp add: run_event_def children_inv_def Let_def)
qed

lemma children_inv_program:
  assumes "program_step w u" and "children_inv w"
  shows "children_inv u"
  using assms(1)
proof cases
  case (child i d)
  then show ?thesis using children_inv_same [OF assms(2)] child_okD [OF assms(2) child(2,3)] by simp
next
  case (strm i d b)
  then show ?thesis using children_inv_same [OF assms(2)] child_okD [OF assms(2) strm(2,3)] by simp
qed

lemma children_inv_start: "children_inv no_children"
  by (simp add: no_children_def children_inv_def)

interpretation child_events: fifo_service "\<lambda>w. w = no_children" "\<lambda>w u. child_step w u \<or> program_step w u" children_inv
  queue "\<lambda>w. take (taken w) (queue w)" "\<lambda>w. drop (taken w) (queue w)"
  by unfold_locales (auto simp: children_inv_start intro: children_inv_step children_inv_program)

text \<open>C33: Whatever the interleaving, the bytes that the events of a stream carry, in the order in which the event
  loop runs them, are a prefix of what the child wrote to it.\<close>

theorem child_output_in_order:
  assumes "(\<lambda>w u. child_step w u \<or> program_step w u)\<^sup>*\<^sup>* no_children w" and "i < length (kids w)" and "kids w ! i = Child d"
  shows "\<exists>rest. written (stream b d) = out_bytes i b (take (taken w) (queue w)) @ out_bytes i b (drop (taken w) (queue w)) @ rest"
proof -
  have inv: "children_inv w" by (rule child_events.reachable_inv [OF assms(1) refl])
  have "out_bytes i b (queue w) = out_bytes i b (take (taken w) (queue w)) @ out_bytes i b (drop (taken w) (queue w))"
    by (metis append_take_drop_id output_simps(2))
  with child_okD [OF inv assms(2,3), of b] show ?thesis by simp
qed

text \<open>A child can write and end with success, its end can be announced and both readers can be gone, while
  what it wrote is still in the pipe: it is never read.\<close>

theorem output_can_be_lost:
  "\<exists>w d. child_step\<^sup>*\<^sup>* no_children w \<and> kids w = [Child d] \<and> queue w = [Exit 0 0 0]
     \<and> reading (stdout d) = Done \<and> reading (stderr d) = Done \<and> unread (stdout d) = [104, 105]"
proof -
  let ?d0 = "new_child [''ls''] 7"
  let ?w0 = "snd (spawn (Some (Some ''ls'')) [] True 7 no_children)"
  let ?d1 = "put_stream True (new_stream\<lparr>written := [104, 105], unread := [104, 105]\<rparr>) ?d0"
  let ?w1 = "child_writes 0 True [104, 105] ?d0 ?w0"
  let ?d2 = "?d1\<lparr>wait_status := Some 0\<rparr>"
  let ?w2 = "put_child 0 ?d2 ?w1"
  let ?d3 = "decode_status 0 (?d2\<lparr>spawned := False, waited := True\<rparr>)"
  let ?w3 = "waiter_returns 0 0 ?d2 ?w2"
  let ?d4 = "put_stream True ((stream True ?d3)\<lparr>reading := Done\<rparr>) ?d3"
  let ?w4 = "reader_checks 0 True ?d3 ?w3"
  let ?w5 = "reader_checks 0 False ?d4 ?w4"
  have k: "kids ?w0 = [Child ?d0]" "kids ?w1 = [Child ?d1]" "kids ?w2 = [Child ?d2]" "kids ?w3 = [Child ?d3]" "kids ?w4 = [Child ?d4]"
    by code_simp+
  have "child_step no_children ?w0" by (rule child_step.spawn)
  moreover have "child_step ?w0 ?w1" using k(1) by (intro child_step.writes) (simp_all add: new_child_def)
  moreover have "child_step ?w1 ?w2" using k(2) by (intro child_step.ends) (simp_all add: put_stream_def new_child_def)
  moreover have "child_step ?w2 ?w3" using k(3) by (intro child_step.waits) (simp_all add: put_stream_def new_child_def)
  moreover have "reading (stream True ?d3) = Checking" "reading (stream False ?d4) = Checking" by code_simp+
  then have "child_step ?w3 ?w4" "child_step ?w4 ?w5" using k(4,5) by (auto intro: child_step.checks)
  ultimately have "child_step\<^sup>*\<^sup>* no_children ?w5" by (meson converse_rtranclp_into_rtranclp rtranclp.rtrancl_refl)
  moreover have "kids ?w5 = [Child (put_stream False ((stream False ?d4)\<lparr>reading := Done\<rparr>) ?d4)]" "queue ?w5 = [Exit 0 0 0]"
    by code_simp+
  moreover have "reading (stdout (put_stream False ((stream False ?d4)\<lparr>reading := Done\<rparr>) ?d4)) = Done
      \<and> reading (stderr (put_stream False ((stream False ?d4)\<lparr>reading := Done\<rparr>) ?d4)) = Done
      \<and> unread (stdout (put_stream False ((stream False ?d4)\<lparr>reading := Done\<rparr>) ?d4)) = [104, 105]"
    by code_simp
  ultimately show ?thesis by blast
qed

lemma child_output_in_order_witness:
  "let w0 = snd (spawn (Some (Some ''ls'')) [] True 7 no_children); d0 = new_child [''ls''] 7;
       w1 = child_writes 0 True [104, 105, 10] d0 w0; d1 = (case kids w1 ! 0 of Child d \<Rightarrow> d);
       w2 = reader_checks 0 True d1 w1; d2 = (case kids w2 ! 0 of Child d \<Rightarrow> d);
       w3 = reader_reads 0 True 2 d2 w2; d3 = (case kids w3 ! 0 of Child d \<Rightarrow> d)
   in queue w3 = [Data 0 True [104, 105]]
      \<and> (\<exists>rest. written (stream True d3) = out_bytes 0 True [] @ out_bytes 0 True [Data 0 True [104, 105]] @ rest)"
proof -
  let ?d0 = "new_child [''ls''] 7"
  let ?w0 = "snd (spawn (Some (Some ''ls'')) [] True 7 no_children)"
  let ?w1 = "child_writes 0 True [104, 105, 10] ?d0 ?w0"
  let ?d1 = "case kids ?w1 ! 0 of Child d \<Rightarrow> d"
  let ?w2 = "reader_checks 0 True ?d1 ?w1"
  let ?d2 = "case kids ?w2 ! 0 of Child d \<Rightarrow> d"
  let ?w3 = "reader_reads 0 True 2 ?d2 ?w2"
  let ?d3 = "case kids ?w3 ! 0 of Child d \<Rightarrow> d"
  have k: "kids ?w0 ! 0 = Child ?d0" "kids ?w1 ! 0 = Child ?d1" "kids ?w2 ! 0 = Child ?d2" "kids ?w3 ! 0 = Child ?d3"
    and l: "0 < length (kids ?w0)" "0 < length (kids ?w1)" "0 < length (kids ?w2)" "0 < length (kids ?w3)"
    and f: "wait_status ?d0 = None" "reading (stream True ?d1) = Checking" "reading (stream True ?d2) = Reading"
      "unread (stream True ?d2) \<noteq> []" "taken ?w3 = 0"
    and q: "queue ?w3 = [Data 0 True [104, 105]]"
    by code_simp+
  have "child_step no_children ?w0" "child_step ?w0 ?w1" "child_step ?w1 ?w2" "child_step ?w2 ?w3"
    using child_step.spawn child_step.writes [OF l(1) k(1) f(1)] child_step.checks [OF l(2) k(2) f(2)]
      child_step.reads [OF l(3) k(3) f(3), of 2] f(4) by simp_all
  then have "child_step\<^sup>*\<^sup>* no_children ?w3" by (meson converse_rtranclp_into_rtranclp rtranclp.rtrancl_refl)
  then have "(\<lambda>w u. child_step w u \<or> program_step w u)\<^sup>*\<^sup>* no_children ?w3"
    using mono_rtranclp [of child_step "\<lambda>w u. child_step w u \<or> program_step w u"] by blast
  from child_output_in_order [OF this l(4) k(4), of True] show ?thesis using q f(5) by (simp add: Let_def)
qed

end
