(* ===== verification/Cluster.thy ===== *)
theory Cluster
  imports Prelude
begin

text \<open>
  Models \<open>src/modules/cluster/ClusterModule.cpp\<close>, as the master process runs it: forking workers, sending
  to them over a socket pair, disconnecting and killing them.

  \<^item> What \<open>socketpair\<close> and \<open>fork\<close> return are arguments. A forked worker leaves at once (\<open>_exit(0)\<close>); until then
    it holds the other end of the pair. Writing bytes to a pair whose other end is closed raises
    \<open>SIGPIPE\<close>, which no code of the repository handles: the master ends.
  \<^item> The \<open>online\<close> event calls a function \<open>emit\<close> of the worker object, which has none unless the
    program puts one there.
\<close>

record worker =
  wk_pid :: int
  wk_id :: int
  write_end :: bool
  disconnected :: bool
  wk_killed :: bool
  gone :: bool

record master =
  counter :: int
  workers :: "worker list"
  worker_processes :: "(int \<times> nat) list"
  online :: "nat list"
  sent_to :: "(nat \<times> string) list"
  kills :: "(int \<times> int) list"
  dead :: bool

datatype cluster_result = ThrowC string | ExcC | UndefC | BoolC bool | WorkerC nat

definition setupMaster :: cluster_result where
  "setupMaster = UndefC"

text \<open>The environment that \<open>fork\<close> collects, from the keys and values that have C strings. Nothing uses it.\<close>

definition fork_env :: "(string option \<times> string option) list \<Rightarrow> (string \<times> string) list" where
  "fork_env ps = foldl (\<lambda>m (k, v). case (k, v) of (Some a, Some b) \<Rightarrow> map_put a b m | _ \<Rightarrow> m) [] ps"

definition cluster_fork :: "bool \<Rightarrow> int \<Rightarrow> master \<Rightarrow> cluster_result \<times> master" where
  "cluster_fork pair forked m =
     (let n = counter m + 1; m1 = m\<lparr>counter := n\<rparr> in
      if \<not> pair then (ThrowC ''Failed to create IPC pipe'', m1)
      else if forked < 0 then (ThrowC ''fork() failed'', m1)
      else
        (let i = length (workers m1)
         in (WorkerC i, m1\<lparr>workers := workers m1 @ [\<lparr>wk_pid = forked, wk_id = n, write_end = True, disconnected = False,
               wk_killed = False, gone = False\<rparr>],
             worker_processes := map_put forked i (worker_processes m1), online := online m1 @ [i]\<rparr>)))"

definition put_worker :: "nat \<Rightarrow> worker \<Rightarrow> master \<Rightarrow> master" where
  "put_worker i k m = m\<lparr>workers := (workers m)[i := k]\<rparr>"

text \<open>The message, converted to a C string: \<open>None\<close> if that fails.\<close>

definition sendMessageToWorker :: "nat \<Rightarrow> string option \<Rightarrow> master \<Rightarrow> master" where
  "sendMessageToWorker i msg m =
     (if i \<ge> length (workers m) \<or> \<not> write_end (workers m ! i) then m
      else (case msg of
          None \<Rightarrow> m
        | Some s \<Rightarrow>
            let t = takeWhile (\<lambda>c. c \<noteq> CHR 0x00) s
            in if gone (workers m ! i) \<and> t \<noteq> [] then m\<lparr>dead := True\<rparr> else m\<lparr>sent_to := sent_to m @ [(i, t)]\<rparr>))"

definition workerSend :: "nat \<Rightarrow> string option option \<Rightarrow> master \<Rightarrow> cluster_result \<times> master" where
  "workerSend i arg m = (case arg of
     None \<Rightarrow> (ThrowC ''send expects a message'', m)
   | Some msg \<Rightarrow>
       if i \<ge> length (workers m) \<or> disconnected (workers m ! i) \<or> wk_killed (workers m ! i) then (UndefC, m)
       else (UndefC, sendMessageToWorker i msg m))"

definition workerDisconnect :: "nat \<Rightarrow> master \<Rightarrow> cluster_result \<times> master" where
  "workerDisconnect i m =
     (UndefC, if i < length (workers m) then put_worker i ((workers m ! i)\<lparr>disconnected := True, write_end := False\<rparr>) m else m)"

definition cluster_signal :: "string option \<Rightarrow> int" where
  "cluster_signal s = (case s of
     None \<Rightarrow> 15
   | Some t \<Rightarrow> if t = ''SIGTERM'' then 15 else if t = ''SIGINT'' then 2 else if t = ''SIGKILL'' then 9 else 15)"

definition workerKill :: "nat \<Rightarrow> string option \<Rightarrow> master \<Rightarrow> cluster_result \<times> master" where
  "workerKill i sig m =
     (if i \<ge> length (workers m) then (UndefC, m)
      else if wk_pid (workers m ! i) > 0
      then (UndefC, (put_worker i ((workers m ! i)\<lparr>wk_killed := True\<rparr>) m)
             \<lparr>kills := kills m @ [(wk_pid (workers m ! i), cluster_signal sig)]\<rparr>)
      else (UndefC, m))"

definition isMasterGetter :: "bool \<Rightarrow> cluster_result" where
  "isMasterGetter master = BoolC master"

definition isWorkerGetter :: "bool \<Rightarrow> cluster_result" where
  "isWorkerGetter master = BoolC (\<not> master)"

inductive cluster_step :: "master \<Rightarrow> master \<Rightarrow> bool" where
  fork: "\<not> dead m \<Longrightarrow> cluster_step m (snd (cluster_fork pair forked m))"
| leave: "i < length (workers m) \<Longrightarrow> cluster_step m (put_worker i ((workers m ! i)\<lparr>gone := True\<rparr>) m)"
| send: "\<not> dead m \<Longrightarrow> cluster_step m (snd (workerSend i arg m))"
| disconnect: "\<not> dead m \<Longrightarrow> cluster_step m (snd (workerDisconnect i m))"
| kill: "\<not> dead m \<Longrightarrow> cluster_step m (snd (workerKill i sig m))"

definition cluster_start :: master where
  "cluster_start = \<lparr>counter = 0, workers = [], worker_processes = [], online = [], sent_to = [], kills = [], dead = False\<rparr>"

section \<open>Sending to a worker\<close>

text \<open>The write end is open until the worker is disconnected. The ids of the workers are positive, grow,
  and are not above the counter.\<close>

definition cluster_inv :: "master \<Rightarrow> bool" where
  "cluster_inv m \<longleftrightarrow> list_all (\<lambda>k. write_end k = (\<not> disconnected k)) (workers m)
     \<and> sorted_wrt (<) (map wk_id (workers m)) \<and> list_all (\<lambda>k. 0 < wk_id k \<and> wk_id k \<le> counter m) (workers m) \<and> 0 \<le> counter m"

lemma cluster_inv_put:
  assumes "cluster_inv m" and "i < length (workers m)" and "wk_id k = wk_id (workers m ! i)"
    and "write_end k = (\<not> disconnected k)"
  shows "cluster_inv (put_worker i k m)"
proof -
  have ids: "map wk_id ((workers m)[i := k]) = map wk_id (workers m)"
    using assms(2,3) by (simp add: map_update list_update_same_conv)
  have "list_all (\<lambda>j. 0 < j \<and> j \<le> counter m) (map wk_id ((workers m)[i := k]))"
    using assms(1) unfolding ids by (simp add: cluster_inv_def list.pred_map comp_def)
  then have "list_all (\<lambda>k. 0 < wk_id k \<and> wk_id k \<le> counter m) ((workers m)[i := k])" by (simp add: list.pred_map comp_def)
  moreover have "list_all (\<lambda>k. write_end k = (\<not> disconnected k)) ((workers m)[i := k])"
    using assms(1,2,4) by (auto simp: cluster_inv_def list_all_length nth_list_update)
  ultimately show ?thesis using assms(1) ids by (simp add: cluster_inv_def put_worker_def)
qed

lemma cluster_inv_same:
  "cluster_inv m \<Longrightarrow> workers u = workers m \<Longrightarrow> counter u = counter m \<Longrightarrow> cluster_inv u"
  by (simp add: cluster_inv_def)

lemma cluster_inv_step:
  assumes "cluster_step m u" and "cluster_inv m"
  shows "cluster_inv u"
  using assms(1)
proof cases
  case (fork pair forked)
  have "wk_id k < counter m + 1" if "k \<in> set (workers m)" for k
    using assms(2) that by (auto simp: cluster_inv_def list_all_iff)
  with assms(2) fork show ?thesis
    by (auto simp: cluster_fork_def Let_def cluster_inv_def sorted_wrt_append list_all_iff intro: less_imp_le)
next
  case (leave i)
  then show ?thesis
    using cluster_inv_put [OF assms(2) leave(2)] assms(2) by (simp add: cluster_inv_def list_all_length)
next
  case (send i arg)
  then show ?thesis
    using cluster_inv_same [OF assms(2)]
    by (auto simp: workerSend_def sendMessageToWorker_def Let_def split: option.splits)
next
  case (disconnect i)
  then show ?thesis
    using cluster_inv_put [OF assms(2), of i] assms(2) by (simp add: workerDisconnect_def)
next
  case (kill i sig)
  show ?thesis
  proof (cases "i < length (workers m)")
    case True
    have "cluster_inv (put_worker i ((workers m ! i)\<lparr>wk_killed := True\<rparr>) m)"
      using cluster_inv_put [OF assms(2) True] assms(2) True by (simp add: cluster_inv_def list_all_length)
    then have "cluster_inv ((put_worker i ((workers m ! i)\<lparr>wk_killed := True\<rparr>) m)\<lparr>kills := ks\<rparr>)" for ks
      by (rule cluster_inv_same) simp_all
    with kill True assms(2) show ?thesis by (simp add: workerKill_def)
  qed (use kill assms(2) in \<open>simp add: workerKill_def\<close>)
qed

lemma cluster_inv_start: "cluster_inv cluster_start"
  by (simp add: cluster_start_def cluster_inv_def)

interpretation cluster_system: transition_invariant "\<lambda>s. s = cluster_start" cluster_step cluster_inv
  by unfold_locales (auto intro: cluster_inv_start cluster_inv_step)

lemma cluster_reachable_inv: "cluster_step\<^sup>*\<^sup>* cluster_start m \<Longrightarrow> cluster_inv m"
  by (rule cluster_system.reachable_inv [OF _ refl])

text \<open>Once a worker has left, which each does at once, sending it a text ends the master, unless the
  program disconnected it or killed it before.\<close>

theorem send_ends_master:
  assumes "cluster_step\<^sup>*\<^sup>* cluster_start m" and "i < length (workers m)" and "gone (workers m ! i)"
    and "takeWhile (\<lambda>c. c \<noteq> CHR 0x00) msg \<noteq> []"
  shows "dead (snd (workerSend i (Some (Some msg)) m)) \<longleftrightarrow>
    dead m \<or> \<not> disconnected (workers m ! i) \<and> \<not> wk_killed (workers m ! i)"
proof -
  have "write_end (workers m ! i) = (\<not> disconnected (workers m ! i))"
    using cluster_reachable_inv [OF assms(1)] assms(2) by (simp add: cluster_inv_def list_all_length)
  with assms(2-4) show ?thesis by (auto simp: workerSend_def sendMessageToWorker_def Let_def)
qed

lemma send_ends_master_witness:
  "let m = snd (cluster_fork True 5 cluster_start); u = put_worker 0 ((workers m ! 0)\<lparr>gone := True\<rparr>) m
   in dead (snd (workerSend 0 (Some (Some ''hi'')) u))"
proof -
  let ?m = "snd (cluster_fork True 5 cluster_start)"
  let ?u = "put_worker 0 ((workers ?m ! 0)\<lparr>gone := True\<rparr>) ?m"
  have "cluster_step cluster_start ?m" by (rule cluster_step.fork) (simp add: cluster_start_def)
  moreover have "cluster_step ?m ?u" by (rule cluster_step.leave) code_simp
  ultimately have r: "cluster_step\<^sup>*\<^sup>* cluster_start ?u" by (meson converse_rtranclp_into_rtranclp rtranclp.rtrancl_refl)
  have "0 < length (workers ?u)" "gone (workers ?u ! 0)" "takeWhile (\<lambda>c. c \<noteq> CHR 0x00) ''hi'' \<noteq> []"
    "\<not> disconnected (workers ?u ! 0)" "\<not> wk_killed (workers ?u ! 0)" by code_simp+
  with send_ends_master [OF r this(1-3)] show ?thesis by (simp add: Let_def)
qed

text \<open>The workers have ids of their own.\<close>

lemma worker_ids_distinct: "cluster_step\<^sup>*\<^sup>* cluster_start m \<Longrightarrow> distinct (map wk_id (workers m))"
  using cluster_reachable_inv by (auto simp: cluster_inv_def strict_sorted_iff)

end
