(* ===== verification/Workers.thy ===== *)
theory Workers
  imports Prelude
begin

text \<open>
  Models \<open>src/modules/worker_threads/WorkerThreadsModule.cpp\<close>: the threads of workers, with a runtime and
  a context of their own, and the messages and events between them and the main thread.

  \<^item> Whether a runtime and a context can be made, the file of the script, what the script posts and how it
    ends are arguments of the steps.
  \<^item> The code keeps pointers to the worker's context. \<open>Freed\<close> is a pointer to one it has freed; a callback
    that uses it, or uses a context while the worker runs in it, is undefined (\<open>broken\<close>).
  \<^item> The text of an exception is freed before the callback that reads it runs (\<open>Freed_text\<close>).
  \<^item> \<open>postMessage\<close> of a worker's \<open>parentPort\<close> looks for its data under the class 0. The port is a plain
    object, whose class is another: it finds nothing.
\<close>

datatype worker_context = No_context | Live | Freed

datatype phase = Starting | Executing | Ended

datatype error_text = Text string | Freed_text

datatype worker_event = Error error_text | Exit_event | Message_to_main string | Message_to_worker string

record worker_thread =
  filename :: string
  worker_data :: "string option"
  worker_phase :: phase
  ctx :: worker_context
  running :: bool
  wt_terminated :: bool
  has_emit :: bool
  posted :: "string list"
  ending :: "worker_event list"

record worker_world =
  threads :: "worker_thread list"
  events :: "(nat \<times> worker_event) list"
  next_event :: nat
  emitted :: "(nat \<times> worker_event) list"
  broken :: bool

datatype worker_result = WThrow string | WException | WUndefined | WNull | WBool bool | WObject nat | WPort | WData string

section \<open>The main thread\<close>

definition WorkerConstructor :: "string option option \<Rightarrow> string option \<Rightarrow> worker_world \<Rightarrow> worker_result \<times> worker_world" where
  "WorkerConstructor arg data w = (case arg of
     None \<Rightarrow> (WThrow ''Worker constructor expects filename'', w)
   | Some None \<Rightarrow> (WException, w)
   | Some (Some f) \<Rightarrow> (WObject (length (threads w)), w\<lparr>threads := threads w @
       [\<lparr>filename = f, worker_data = data, worker_phase = Starting, ctx = No_context, running = True, wt_terminated = False,
         has_emit = False, posted = [], ending = []\<rparr>]\<rparr>))"

definition put_thread :: "nat \<Rightarrow> worker_thread \<Rightarrow> worker_world \<Rightarrow> worker_world" where
  "put_thread i t w = w\<lparr>threads := (threads w)[i := t]\<rparr>"

definition enqueue_event :: "nat \<Rightarrow> worker_event list \<Rightarrow> worker_world \<Rightarrow> worker_world" where
  "enqueue_event i es w = w\<lparr>events := events w @ map (Pair i) es\<rparr>"

definition workerPostMessage :: "nat \<Rightarrow> string option \<Rightarrow> worker_world \<Rightarrow> worker_result \<times> worker_world" where
  "workerPostMessage i msg w = (case msg of
     None \<Rightarrow> (WThrow ''postMessage expects a message'', w)
   | Some m \<Rightarrow>
       if i \<ge> length (threads w) \<or> \<not> running (threads w ! i) then (WUndefined, w)
       else (WUndefined, if ctx (threads w ! i) \<noteq> No_context then enqueue_event i [Message_to_worker m] w else w))"

definition workerTerminate :: "nat \<Rightarrow> worker_world \<Rightarrow> worker_result \<times> worker_world" where
  "workerTerminate i w =
     (WUndefined, if i < length (threads w) then put_thread i ((threads w ! i)\<lparr>wt_terminated := True, running := False\<rparr>) w else w)"

text \<open>The getters, by whether the calling thread is a worker's.\<close>

definition isMainThread :: "bool \<Rightarrow> worker_result" where
  "isMainThread in_worker = WBool (\<not> in_worker)"

definition parentPortGetter :: "bool \<Rightarrow> worker_result" where
  "parentPortGetter in_worker = (if in_worker then WPort else WNull)"

definition workerDataGetter :: "bool \<Rightarrow> string option \<Rightarrow> worker_result" where
  "workerDataGetter in_worker data = (case data of Some d \<Rightarrow> if in_worker then WData d else WUndefined | None \<Rightarrow> WUndefined)"

section \<open>The worker's thread\<close>

text \<open>\<open>workerThreadExecution\<close> up to the script: \<open>code\<close> is the content of the file, if it opens.\<close>

definition thread_ends :: "worker_event list \<Rightarrow> worker_thread \<Rightarrow> worker_thread" where
  "thread_ends es t = t\<lparr>worker_phase := Ended, ending := es\<rparr>"

definition thread_starts :: "bool \<Rightarrow> bool \<Rightarrow> string option \<Rightarrow> worker_thread \<Rightarrow> worker_event list \<times> worker_thread" where
  "thread_starts runtime context_ok code t =
     (if \<not> runtime then (let es = [Error (Text ''Failed to create worker runtime'')] in (es, thread_ends es t))
      else if \<not> context_ok then (let es = [Error (Text ''Failed to create worker context'')] in (es, thread_ends es t))
      else (case code of
          None \<Rightarrow> (let es = [Error (Text (''Cannot open file: '' @ filename t))] in (es, thread_ends es (t\<lparr>ctx := Freed\<rparr>)))
        | Some c \<Rightarrow> ([], t\<lparr>ctx := Live, worker_phase := Executing\<rparr>)))"

text \<open>\<open>sendMessageToMain\<close>, and \<open>postMessage\<close> of the port: \<open>found\<close> is what \<open>JS_GetOpaque(this_val, 0)\<close> finds.\<close>

definition sendMessageToMain :: "nat \<Rightarrow> string \<Rightarrow> worker_world \<Rightarrow> worker_world" where
  "sendMessageToMain i m w = enqueue_event i [Message_to_main m] w"

definition port_class :: nat where
  "port_class = 1"

definition get_opaque :: "nat \<Rightarrow> nat \<Rightarrow> nat \<Rightarrow> nat option" where
  "get_opaque i class_of asked = (if class_of = asked then Some i else None)"

definition portPostMessage :: "nat \<Rightarrow> string option \<Rightarrow> worker_world \<Rightarrow> worker_world" where
  "portPostMessage i msg w =
     (let w1 = (case msg of Some m \<Rightarrow> put_thread i ((threads w ! i)\<lparr>posted := posted (threads w ! i) @ [m]\<rparr>) w | None \<Rightarrow> w)
      in (case (get_opaque i port_class 0, msg) of (Some k, Some m) \<Rightarrow> sendMessageToMain k m w1 | _ \<Rightarrow> w1))"

text \<open>The script ends: with an exception or without one.\<close>

definition script_ends :: "bool \<Rightarrow> worker_thread \<Rightarrow> worker_event list \<times> worker_thread" where
  "script_ends throws t =
     (let es = (if throws then [Error Freed_text] else []) @ [Exit_event] in (es, thread_ends es t))"

text \<open>What a callback does on the main thread. One that finds no \<open>emit\<close> does nothing else.\<close>

definition run_callback :: "worker_world \<Rightarrow> worker_world" where
  "run_callback w =
     (let (i, e) = events w ! next_event w; t = threads w ! i; w1 = w\<lparr>next_event := Suc (next_event w)\<rparr> in
      case e of
        Message_to_worker m \<Rightarrow> if ctx t = Freed \<or> worker_phase t = Executing then w1\<lparr>broken := True\<rparr> else w1
      | Error Freed_text \<Rightarrow> if has_emit t then w1\<lparr>broken := True\<rparr> else w1
      | _ \<Rightarrow> if has_emit t then w1\<lparr>emitted := emitted w1 @ [(i, e)]\<rparr> else w1)"

inductive worker_step :: "worker_world \<Rightarrow> worker_world \<Rightarrow> bool" where
  create: "worker_step w (snd (WorkerConstructor arg data w))"
| post: "worker_step w (snd (workerPostMessage i msg w))"
| terminate: "worker_step w (snd (workerTerminate i w))"
| set_emit: "i < length (threads w) \<Longrightarrow> worker_step w (put_thread i ((threads w ! i)\<lparr>has_emit := True\<rparr>) w)"
| starts: "i < length (threads w) \<Longrightarrow> worker_phase (threads w ! i) = Starting \<Longrightarrow>
    thread_starts runtime context_ok code (threads w ! i) = (es, t) \<Longrightarrow> worker_step w (enqueue_event i es (put_thread i t w))"
| port: "i < length (threads w) \<Longrightarrow> worker_phase (threads w ! i) = Executing \<Longrightarrow> worker_step w (portPostMessage i msg w)"
| script: "i < length (threads w) \<Longrightarrow> worker_phase (threads w ! i) = Executing \<Longrightarrow>
    script_ends throws (threads w ! i) = (es, t) \<Longrightarrow> worker_step w (enqueue_event i es (put_thread i t w))"
| callback: "next_event w < length (events w) \<Longrightarrow> \<not> broken w \<Longrightarrow> worker_step w (run_callback w)"

definition worker_start :: worker_world where
  "worker_start = \<lparr>threads = [], events = [], next_event = 0, emitted = [], broken = False\<rparr>"

section \<open>What the main thread hears of a worker\<close>

fun to_worker :: "worker_event \<Rightarrow> bool" where
  "to_worker (Message_to_worker m) = True"
| "to_worker e = False"

text \<open>The events queued for the main thread about a worker.\<close>

definition heard :: "nat \<Rightarrow> worker_world \<Rightarrow> worker_event list" where
  "heard i w = map snd (filter (\<lambda>(j, e). j = i \<and> \<not> to_worker e) (events w))"

definition thread_ok :: "worker_thread \<Rightarrow> bool" where
  "thread_ok t \<longleftrightarrow> (worker_phase t \<noteq> Ended \<longrightarrow> ending t = []) \<and> (worker_phase t = Starting \<longrightarrow> posted t = [])
     \<and> (worker_phase t = Ended \<longrightarrow> ending t \<in> {[Exit_event], [Error Freed_text, Exit_event]} \<or> (\<exists>m. ending t = [Error (Text m)]))"

definition workers_inv :: "worker_world \<Rightarrow> bool" where
  "workers_inv w \<longleftrightarrow> (\<forall>i < length (threads w). heard i w = ending (threads w ! i) \<and> thread_ok (threads w ! i))
     \<and> list_all (\<lambda>(i, e). i < length (threads w)) (events w)"

lemma heard_later: "list_all (\<lambda>(i, e). i < n) (events w) \<Longrightarrow> heard n w = []"
  by (auto simp: heard_def list_all_iff filter_empty_conv)

lemma heard_enqueue: "heard j (enqueue_event i es w) = heard j w @ (if j = i then filter (\<lambda>e. \<not> to_worker e) es else [])"
  by (simp add: heard_def enqueue_event_def filter_map comp_def)

lemma heard_put [simp]: "heard j (put_thread i t w) = heard j w"
  by (simp add: heard_def put_thread_def)

lemma threads_simps [simp]: "threads (enqueue_event i es w) = threads w" "threads (put_thread i t w) = (threads w)[i := t]"
  "events (enqueue_event i es w) = events w @ map (Pair i) es" "events (put_thread i t w) = events w"
  by (simp_all add: enqueue_event_def put_thread_def)

lemma workers_inv_update:
  assumes "workers_inv w" and "i < length (threads w)" and "ending t = ending (threads w ! i) @ filter (\<lambda>e. \<not> to_worker e) es"
    and "thread_ok t"
  shows "workers_inv (enqueue_event i es (put_thread i t w))"
  using assms by (auto simp: workers_inv_def heard_enqueue nth_list_update list_all_iff)

lemma workers_inv_put:
  assumes "workers_inv w" and "i < length (threads w)" and "ending t = ending (threads w ! i)" and "thread_ok t"
  shows "workers_inv (put_thread i t w)"
  using assms by (auto simp: workers_inv_def nth_list_update)

lemma workers_inv_post:
  assumes "workers_inv w" and "i < length (threads w)"
  shows "workers_inv (enqueue_event i [Message_to_worker m] w)"
  using assms by (auto simp: workers_inv_def heard_enqueue list_all_iff)

lemma workers_inv_step:
  assumes "worker_step w u" and "workers_inv w"
  shows "workers_inv u"
  using assms(1)
proof cases
  case (create arg data)
  have "heard (length (threads w)) w = []" using assms(2) by (simp add: workers_inv_def heard_later)
  moreover have "heard j (w\<lparr>threads := ts\<rparr>) = heard j w" for j ts by (simp add: heard_def)
  ultimately show ?thesis
    using assms(2) create
    by (auto simp: WorkerConstructor_def workers_inv_def thread_ok_def nth_append less_Suc_eq list_all_iff split: option.splits)
next
  case (post i msg)
  with assms(2) show ?thesis by (auto simp: workerPostMessage_def workers_inv_post split: option.splits)
next
  case (terminate i)
  with assms(2) show ?thesis
    by (auto simp: workerTerminate_def thread_ok_def workers_inv_def nth_list_update)
next
  case (set_emit i)
  with assms(2) show ?thesis by (auto simp: thread_ok_def workers_inv_def nth_list_update)
next
  case (starts i runtime context_ok code es t)
  have "ending (threads w ! i) = []" using assms(2) starts(2,3) by (simp add: workers_inv_def thread_ok_def)
  moreover have "ending t = filter (\<lambda>e. \<not> to_worker e) es" "thread_ok t"
    using starts(4) assms(2) starts(2,3)
    by (auto simp: thread_starts_def thread_ends_def thread_ok_def workers_inv_def Let_def split: if_splits option.splits)
  ultimately show ?thesis using workers_inv_update [OF assms(2) starts(2)] starts(1) by simp
next
  case (port i msg)
  have "portPostMessage i msg w = (case msg of None \<Rightarrow> w
      | Some m \<Rightarrow> put_thread i ((threads w ! i)\<lparr>posted := posted (threads w ! i) @ [m]\<rparr>) w)"
    by (simp add: portPostMessage_def get_opaque_def port_class_def split: option.split)
  moreover have "thread_ok ((threads w ! i)\<lparr>posted := ms\<rparr>)" for ms
    using assms(2) port(2,3) by (simp add: workers_inv_def thread_ok_def)
  ultimately show ?thesis
    using workers_inv_put [OF assms(2) port(2)] assms(2) port(1) by (simp split: option.split)
next
  case (script i throws es t)
  have "ending (threads w ! i) = []" using assms(2) script(2,3) by (simp add: workers_inv_def thread_ok_def)
  moreover have "ending t = filter (\<lambda>e. \<not> to_worker e) es" "thread_ok t"
    using script(4) by (cases throws; auto simp: script_ends_def thread_ends_def thread_ok_def Let_def)+
  ultimately show ?thesis using workers_inv_update [OF assms(2) script(2)] script(1) by simp
next
  case callback
  have "threads u = threads w" "events u = events w"
    using callback(1) by (auto simp: run_callback_def Let_def split: prod.splits worker_event.splits error_text.splits)
  then show ?thesis using assms(2) by (simp add: workers_inv_def heard_def)
qed

lemma workers_inv_start: "workers_inv worker_start"
  by (simp add: workers_inv_def worker_start_def)

interpretation worker_system: transition_invariant "\<lambda>s. s = worker_start" worker_step workers_inv
  by unfold_locales (auto intro: workers_inv_start workers_inv_step)

lemma workers_reachable_inv: "worker_step\<^sup>*\<^sup>* worker_start w \<Longrightarrow> workers_inv w"
  by (rule worker_system.reachable_inv [OF _ refl])

text \<open>Whatever a worker posts, the main thread hears of it only that it ended: nothing before, then one
  error that kept it from starting, or its exit, after an error if the script threw. No message
  arrives.\<close>

theorem worker_is_heard_ending:
  assumes "worker_step\<^sup>*\<^sup>* worker_start w" and "i < length (threads w)"
  shows "(if worker_phase (threads w ! i) \<noteq> Ended then heard i w = []
      else (\<exists>m. heard i w = [Error (Text m)]) \<or> heard i w = [Exit_event] \<or> heard i w = [Error Freed_text, Exit_event])
    \<and> Message_to_main m \<notin> set (heard i w)"
proof -
  have "heard i w = ending (threads w ! i)" "thread_ok (threads w ! i)"
    using workers_reachable_inv [OF assms(1)] assms(2) by (simp_all add: workers_inv_def)
  then show ?thesis by (auto simp: thread_ok_def)
qed

lemma run_callback_text:
  "events w ! next_event w = (i, Error (Text s)) \<Longrightarrow> \<exists>em. run_callback w = w\<lparr>next_event := Suc (next_event w), emitted := em\<rparr>"
  by (cases "has_emit (threads w ! i)")
    (rule exI [of _ "emitted w @ [(i, Error (Text s))]"] exI [of _ "emitted w"], simp add: run_callback_def Let_def)+

lemma run_callback_freed:
  "events w ! next_event w = (i, Message_to_worker m) \<Longrightarrow> ctx (threads w ! i) = Freed \<Longrightarrow> broken (run_callback w)"
  by (simp add: run_callback_def Let_def)

text \<open>A message to a worker whose file did not open uses a context that was freed.\<close>

theorem message_to_failed_worker:
  assumes "i < length (threads w)" and "worker_phase (threads w ! i) = Starting" and "running (threads w ! i)"
    and "next_event w = length (events w)" and "thread_starts True True None (threads w ! i) = (es, t)"
  shows "broken (run_callback (run_callback (snd (workerPostMessage i (Some m) (enqueue_event i es (put_thread i t w))))))"
proof -
  let ?s = "''Cannot open file: '' @ filename (threads w ! i)"
  have e: "es = [Error (Text ?s)]" and t: "ctx t = Freed" "running t"
    using assms(3,5) by (auto simp: thread_starts_def thread_ends_def Let_def)
  let ?w = "enqueue_event i es (put_thread i t w)"
  let ?u = "snd (workerPostMessage i (Some m) ?w)"
  have u: "?u = enqueue_event i [Message_to_worker m] ?w" using assms(1) t by (simp add: workerPostMessage_def)
  then have ev: "events ?u = events w @ [(i, Error (Text ?s)), (i, Message_to_worker m)]" "next_event ?u = length (events w)"
      "threads ?u ! i = t"
    using assms(1,4) e by (simp_all add: enqueue_event_def put_thread_def)
  then obtain em where r: "run_callback ?u = ?u\<lparr>next_event := Suc (next_event ?u), emitted := em\<rparr>"
    using run_callback_text [of ?u i ?s] by auto
  have "ctx (threads ?u ! i) = Freed" by (simp only: ev(3) t(1))
  then show ?thesis
    unfolding r by (intro run_callback_freed [of _ i m]) (simp_all add: ev(1,2) nth_append)
qed

definition one_worker :: worker_world where
  "one_worker = snd (WorkerConstructor (Some (Some ''none.js'')) None worker_start)"

lemma worker_is_heard_ending_witness:
  "let t = snd (thread_starts True True (Some ''postMessage(1)'') (threads one_worker ! 0));
       w1 = enqueue_event 0 [] (put_thread 0 t one_worker); w2 = portPostMessage 0 (Some ''1'') w1
   in heard 0 w2 = [] \<and> posted (threads w2 ! 0) = [''1'']"
proof -
  let ?t = "snd (thread_starts True True (Some ''postMessage(1)'') (threads one_worker ! 0))"
  let ?w1 = "enqueue_event 0 [] (put_thread 0 ?t one_worker)"
  let ?w2 = "portPostMessage 0 (Some ''1'') ?w1"
  have s: "thread_starts True True (Some ''postMessage(1)'') (threads one_worker ! 0) = ([], ?t)"
    "0 < length (threads one_worker)" "worker_phase (threads one_worker ! 0) = Starting"
    "0 < length (threads ?w1)" "worker_phase (threads ?w1 ! 0) = Executing" by code_simp+
  have "worker_step worker_start one_worker" unfolding one_worker_def by (rule worker_step.create)
  moreover have "worker_step one_worker ?w1" by (rule worker_step.starts [OF s(2,3,1)])
  moreover have "worker_step ?w1 ?w2" by (rule worker_step.port [OF s(4,5)])
  ultimately have r: "worker_step\<^sup>*\<^sup>* worker_start ?w2" by (meson converse_rtranclp_into_rtranclp rtranclp.rtrancl_refl)
  have "0 < length (threads ?w2)" "worker_phase (threads ?w2 ! 0) \<noteq> Ended" "posted (threads ?w2 ! 0) = [''1'']" by code_simp+
  with worker_is_heard_ending [OF r this(1)] show ?thesis by (simp add: Let_def)
qed

lemma message_to_failed_worker_witness:
  "let t = snd (thread_starts True True None (threads one_worker ! 0))
   in broken (run_callback (run_callback (snd (workerPostMessage 0 (Some ''x'')
        (enqueue_event 0 [Error (Text ''Cannot open file: none.js'')] (put_thread 0 t one_worker))))))"
proof -
  have "0 < length (threads one_worker)" "worker_phase (threads one_worker ! 0) = Starting" "running (threads one_worker ! 0)"
    "next_event one_worker = length (events one_worker)"
    "thread_starts True True None (threads one_worker ! 0)
      = ([Error (Text ''Cannot open file: none.js'')], snd (thread_starts True True None (threads one_worker ! 0)))"
    by code_simp+
  from message_to_failed_worker [OF this] show ?thesis by (simp add: Let_def)
qed

end
