(* ===== verification/Paths.thy ===== *)
theory Paths
  imports FileTree
begin

text \<open>
  Models \<open>src/modules/path/PathModule.cpp\<close> and the parts of \<open>std::filesystem::path\<close> it uses, as the
  library has them on POSIX systems.

  \<^item> A path is its text. What asks the disk is a parameter (\<open>path_env\<close>): the working directory,
    \<open>canonical\<close> and \<open>relative\<close>, where \<open>None\<close> is an exception.
  \<^item> An argument is \<open>None\<close> when it has no C string.
\<close>

record path_env =
  current_path :: string
  canonical :: "string \<Rightarrow> string option"
  relative_path :: "string \<Rightarrow> string \<Rightarrow> string option"

datatype path_result = Path string | Flag bool | Throw string | Failed

section \<open>Paths\<close>

definition is_absolute :: "string \<Rightarrow> bool" where
  "is_absolute p \<longleftrightarrow> p \<noteq> [] \<and> hd p = slash"

text \<open>\<open>p /= q\<close>\<close>

definition append_path :: "string \<Rightarrow> string \<Rightarrow> string" where
  "append_path p q =
     (if is_absolute q then q else if p = [] \<or> last p = slash then p @ q else p @ slash # q)"

definition filename_of :: "string \<Rightarrow> string" where
  "filename_of p = rev (takeWhile (\<lambda>c. c \<noteq> slash) (rev p))"

definition parent_of :: "string \<Rightarrow> string" where
  "parent_of p =
     (let d = rev (dropWhile (\<lambda>c. c \<noteq> slash) (rev p)); e = rev (dropWhile (\<lambda>c. c = slash) (rev d))
      in if e \<noteq> [] then e else if d = [] then [] else if filename_of p = [] then p else [slash])"

definition extension_of :: "string \<Rightarrow> string" where
  "extension_of p =
     (let f = filename_of p in
      if f = ''.'' \<or> f = ''..'' then []
      else (case str_rfind CHR ''.'' f of None \<Rightarrow> [] | Some i \<Rightarrow> if i = 0 then [] else drop i f))"

text \<open>The names of a path, and whether a separator follows the last one.\<close>

fun split_path :: "string \<Rightarrow> string list" where
  "split_path [] = [[]]"
| "split_path (c # s) =
     (if c = slash then [] # split_path s else (case split_path s of [] \<Rightarrow> [[c]] | f # fs \<Rightarrow> (c # f) # fs))"

definition names_of :: "string \<Rightarrow> string list" where
  "names_of p = filter (\<lambda>n. n \<noteq> []) (split_path p)"

definition ends_slash :: "string \<Rightarrow> bool" where
  "ends_slash p \<longleftrightarrow> names_of p \<noteq> [] \<and> last p = slash"

text \<open>\<open>lexically_normal\<close>: the names kept so far, the last one first, and whether a separator ends them.\<close>

fun add_name :: "bool \<Rightarrow> string list \<times> bool \<Rightarrow> string \<Rightarrow> string list \<times> bool" where
  "add_name root (ns, tr) n =
     (if n = ''.'' then (ns, True)
      else if n = ''..'' then
        (case ns of
           [] \<Rightarrow> if root then ([], tr) else ([''..''], False)
         | m # ms \<Rightarrow> if m = ''..'' then (''..'' # ns, False) else (ms, True))
      else (n # ns, False))"

fun join_names :: "string list \<Rightarrow> string" where
  "join_names [] = []"
| "join_names [n] = n"
| "join_names (n # ns) = n @ slash # join_names ns"

definition render_path :: "bool \<Rightarrow> string list \<Rightarrow> bool \<Rightarrow> string" where
  "render_path root ns tr =
     (let body = join_names ns @ (if ns \<noteq> [] \<and> tr \<and> last ns \<noteq> ''..'' then [slash] else [])
      in if root then slash # body else if body = [] then ''.'' else body)"

definition lexically_normal :: "string \<Rightarrow> string" where
  "lexically_normal p =
     (if p = [] then []
      else (let (ns, tr) = foldl (add_name (is_absolute p)) ([], False) (names_of p)
            in render_path (is_absolute p) (rev ns) (tr \<or> ends_slash p)))"

section \<open>The module\<close>

definition path_join :: "string option list \<Rightarrow> path_result" where
  "path_join args =
     (let parts = List.map_filter id args
      in if parts = [] then Path ''.'' else Path (foldl append_path [] (filter (\<lambda>p. p \<noteq> []) parts)))"

definition absolute :: "path_env \<Rightarrow> string \<Rightarrow> string" where
  "absolute E p = (if is_absolute p then p else append_path (current_path E) p)"

definition path_resolve :: "path_env \<Rightarrow> string option list \<Rightarrow> path_result" where
  "path_resolve E args =
     (let p = foldl append_path (current_path E) (List.map_filter id args)
      in Path (case canonical E p of Some q \<Rightarrow> q | None \<Rightarrow> absolute E p))"

text \<open>The functions of one path.\<close>

definition with_path :: "string \<Rightarrow> string option option \<Rightarrow> (string \<Rightarrow> path_result) \<Rightarrow> path_result" where
  "with_path message arg f = (case arg of None \<Rightarrow> Throw message | Some None \<Rightarrow> Failed | Some (Some p) \<Rightarrow> f p)"

definition path_normalize :: "string option option \<Rightarrow> path_result" where
  "path_normalize arg = with_path ''normalize expects a path'' arg (\<lambda>p. Path (lexically_normal p))"

definition path_dirname :: "string option option \<Rightarrow> path_result" where
  "path_dirname arg = with_path ''dirname expects a path'' arg (\<lambda>p. Path (parent_of p))"

definition path_basename :: "string option option \<Rightarrow> path_result" where
  "path_basename arg = with_path ''basename expects a path'' arg (\<lambda>p. Path (filename_of p))"

definition path_extname :: "string option option \<Rightarrow> path_result" where
  "path_extname arg = with_path ''extname expects a path'' arg (\<lambda>p. Path (extension_of p))"

definition path_isAbsolute :: "string option option \<Rightarrow> path_result" where
  "path_isAbsolute arg = with_path ''isAbsolute expects a path'' arg (\<lambda>p. Flag (is_absolute p))"

definition path_relative :: "path_env \<Rightarrow> string option list \<Rightarrow> path_result" where
  "path_relative E args = (case args of
     Some f # Some t # _ \<Rightarrow> (case relative_path E t f of Some r \<Rightarrow> Path r | None \<Rightarrow> Path [])
   | _ # _ # _ \<Rightarrow> Failed
   | _ \<Rightarrow> Throw ''relative expects two paths'')"

section \<open>Normal paths\<close>

lemma split_path_nonempty: "split_path s \<noteq> []"
  by (cases s) (auto split: list.splits)

lemma split_path_plain: "slash \<notin> set n \<Longrightarrow> split_path n = [n]"
  by (induction n) auto

lemma split_path_append: "slash \<notin> set n \<Longrightarrow> split_path (n @ slash # s) = n # split_path s"
  by (induction n) auto

lemma split_path_names: "n \<in> set (split_path s) \<Longrightarrow> slash \<notin> set n"
  by (induction s arbitrary: n) (auto split: if_splits list.splits)

lemma names_of_slash: "names_of (slash # s) = names_of s"
  by (simp add: names_of_def)

definition plain :: "string \<Rightarrow> bool" where
  "plain n \<longleftrightarrow> n \<noteq> [] \<and> slash \<notin> set n"

lemma names_of_plain: "n \<in> set (names_of s) \<Longrightarrow> plain n"
  using split_path_names by (auto simp: names_of_def plain_def)

lemma names_of_join:
  "list_all plain ns \<Longrightarrow> names_of (join_names ns @ (if b \<and> ns \<noteq> [] then [slash] else [])) = ns"
proof (induction ns rule: join_names.induct)
  case (2 n)
  then show ?case
    using split_path_append [of n "[]"] by (simp add: plain_def names_of_def split_path_plain)
next
  case (3 n m ms)
  let ?s = "join_names (m # ms) @ (if b then [slash] else [])"
  have "split_path (n @ slash # ?s) = n # split_path ?s" using 3(2) by (simp add: plain_def split_path_append)
  moreover have "filter (\<lambda>n. n \<noteq> []) (split_path ?s) = m # ms" using 3 by (simp add: names_of_def)
  ultimately show ?case using 3(2) by (simp add: names_of_def plain_def)
qed (simp add: names_of_def)

text \<open>The names of a normal path: parents first, unless the path has a root, then proper names.\<close>

definition normal_names :: "bool \<Rightarrow> string list \<Rightarrow> bool" where
  "normal_names root ns \<longleftrightarrow> list_all (\<lambda>n. plain n \<and> n \<noteq> ''.'') ns
     \<and> (\<forall>i < length ns. ns ! i = ''..'' \<longrightarrow> \<not> root \<and> (\<forall>j < i. ns ! j = ''..''))"

lemma normal_names_snoc:
  "normal_names root (ns @ [n]) \<longleftrightarrow> normal_names root ns \<and> plain n \<and> n \<noteq> ''.''
     \<and> (n = ''..'' \<longrightarrow> \<not> root \<and> list_all (\<lambda>m. m = ''..'') ns)"
  by (auto simp: normal_names_def nth_append less_Suc_eq list_all_length)

definition kept :: "bool \<Rightarrow> string list \<times> bool \<Rightarrow> bool" where
  "kept root st \<longleftrightarrow> normal_names root (rev (fst st))"

lemma normal_names_butlast: "normal_names root (ns @ [n]) \<Longrightarrow> normal_names root ns"
  by (simp add: normal_names_snoc)

lemma kept_add: "kept root st \<Longrightarrow> plain n \<Longrightarrow> kept root (add_name root st n)"
proof (induction root st n rule: add_name.induct)
  case (1 root ns tr n)
  show ?case
  proof (cases ns)
    case Nil
    with 1 show ?thesis by (auto simp: kept_def normal_names_def)
  next
    case (Cons m ms)
    then have "normal_names root (rev ms @ [m])" using 1 by (simp add: kept_def)
    with Cons 1 show ?thesis
      using normal_names_snoc [of root "rev ms @ [m]" n] by (auto simp: kept_def normal_names_snoc)
  qed
qed

lemma kept_fold: "kept root st \<Longrightarrow> list_all plain ns \<Longrightarrow> kept root (foldl (add_name root) st ns)"
  by (induction ns arbitrary: st) (simp_all del: add_name.simps add: kept_add)

lemma kept_start: "kept root ([], tr)"
  by (simp add: kept_def normal_names_def)

lemma normal_names_fold:
  "normal_names root ns \<Longrightarrow> foldl (add_name root) ([], False) ns = (rev ns, False)"
proof (induction ns rule: rev_induct)
  case (snoc n ns)
  then have "normal_names root ns" "n \<noteq> ''.''"
    "n = ''..'' \<longrightarrow> \<not> root \<and> list_all (\<lambda>m. m = ''..'') ns" by (simp_all add: normal_names_snoc)
  with snoc.IH show ?case by (cases "rev ns") (auto simp: list_all_iff)
qed simp

lemma normal_names_plain: "normal_names root ns \<Longrightarrow> list_all plain ns"
  by (auto simp: normal_names_def list_all_iff)

lemma join_names_ends:
  "list_all plain ns \<Longrightarrow> ns \<noteq> []
   \<Longrightarrow> join_names ns \<noteq> [] \<and> hd (join_names ns) \<noteq> slash \<and> last (join_names ns) \<noteq> slash"
  by (induction ns rule: join_names.induct) (auto simp: plain_def hd_append dest: hd_in_set last_in_set)

lemma names_of_plain_all: "list_all plain (names_of p)"
  by (simp add: list_all_iff names_of_plain)

text \<open>What is read back from a rendered normal path.\<close>

lemma names_of_dot: "names_of ''.'' = [''.'']"
  by code_simp

lemma render_reads:
  assumes "normal_names root ns"
  shows "is_absolute (render_path root ns tr) = root"
    and "names_of (render_path root ns tr) = (if ns = [] \<and> \<not> root then [''.''] else ns)"
    and "ns \<noteq> [] \<Longrightarrow> ends_slash (render_path root ns tr) = (tr \<and> last ns \<noteq> ''..'')"
    and "render_path root ns tr \<noteq> []"
proof -
  note plain = normal_names_plain [OF assms]
  note ends = join_names_ends [OF plain]
  let ?b = "tr \<and> last ns \<noteq> ''..''"
  have body: "names_of (join_names ns @ (if ns \<noteq> [] \<and> tr \<and> last ns \<noteq> ''..'' then [slash] else [])) = ns"
    using names_of_join [OF plain, of ?b] by (simp add: conj_ac cong: if_cong)
  show "is_absolute (render_path root ns tr) = root"
    using ends by (cases ns) (auto simp: render_path_def is_absolute_def Let_def hd_append slash_def)
  show "names_of (render_path root ns tr) = (if ns = [] \<and> \<not> root then [''.''] else ns)"
    using body ends by (auto simp: render_path_def Let_def names_of_slash names_of_dot)
  then show "ends_slash (render_path root ns tr) = (tr \<and> last ns \<noteq> ''..'')" if "ns \<noteq> []"
    using ends that by (auto simp: render_path_def ends_slash_def Let_def)
  show "render_path root ns tr \<noteq> []"
    by (simp add: render_path_def Let_def)
qed

lemma render_normal:
  assumes "normal_names root ns"
  shows "lexically_normal (render_path root ns tr) = render_path root ns tr"
proof (cases "ns = []")
  case True
  then show ?thesis using render_reads [OF assms, of tr]
    by (cases root) (auto simp: lexically_normal_def render_path_def)
next
  case False
  then show ?thesis using render_reads [OF assms, of tr] normal_names_fold [OF assms]
    by (simp add: lexically_normal_def) (simp add: render_path_def cong: if_cong)
qed

text \<open>Normalising a path twice gives what normalising it once gives.\<close>

theorem normalize_idempotent: "lexically_normal (lexically_normal p) = lexically_normal p"
proof (cases "p = []")
  case False
  obtain ns tr where f: "foldl (add_name (is_absolute p)) ([], False) (names_of p) = (ns, tr)"
    by fastforce
  have "kept (is_absolute p) (ns, tr)"
    using kept_fold [OF kept_start names_of_plain_all, of "is_absolute p" False p] by (simp only: f)
  then have "normal_names (is_absolute p) (rev ns)" by (simp add: kept_def)
  then show ?thesis using False f by (simp add: lexically_normal_def [of p] render_normal)
qed (simp add: lexically_normal_def)

text \<open>\<open>basename\<close> and \<open>dirname\<close> take apart what \<open>join\<close> put together.\<close>

lemma name_runs:
  "slash \<notin> set f \<Longrightarrow> takeWhile (\<lambda>c. c \<noteq> slash) (f @ xs) = f @ takeWhile (\<lambda>c. c \<noteq> slash) xs"
  "slash \<notin> set f \<Longrightarrow> dropWhile (\<lambda>c. c \<noteq> slash) (f @ xs) = dropWhile (\<lambda>c. c \<noteq> slash) xs"
  by (induction f) auto

lemma last_name:
  assumes "slash \<notin> set f"
  shows "filename_of f = f" and "filename_of (d @ slash # f) = f"
proof -
  have f: "slash \<notin> set (rev f)" using assms by simp
  show "filename_of f = f" by (simp only: filename_of_def append_Nil2 name_runs(1) [OF f, of "[]", simplified append_Nil2 takeWhile.simps] rev_rev_ident)
  show "filename_of (d @ slash # f) = f"
    using name_runs(1) [OF f, of "slash # rev d"] by (simp add: filename_of_def)
qed

lemma append_name: "slash \<notin> set f \<Longrightarrow> d \<noteq> [] \<Longrightarrow> last d \<noteq> slash \<Longrightarrow> append_path d f = d @ slash # f"
  by (cases f) (auto simp: append_path_def is_absolute_def)

lemma filename_of_append: "slash \<notin> set f \<Longrightarrow> filename_of (append_path d f) = f"
proof -
  assume f: "slash \<notin> set f"
  then have a: "append_path d f = f \<or> (\<exists>e. append_path d f = e @ slash # f)"
    by (cases d rule: rev_cases; cases f) (auto simp: append_path_def is_absolute_def)
  then show ?thesis using last_name [OF f] by auto
qed

lemma parent_of_append:
  assumes "slash \<notin> set f" and "d \<noteq> []" and "last d \<noteq> slash"
  shows "parent_of (append_path d f) = d"
proof -
  have "dropWhile (\<lambda>c. c = slash) (rev d) = rev d"
    using assms(2,3) by (cases d rule: rev_cases) auto
  moreover have "rev (append_path d f) = rev f @ slash # rev d" using append_name [OF assms] by simp
  moreover have "dropWhile (\<lambda>c. c \<noteq> slash) (rev f @ slash # rev d) = slash # rev d"
    using assms(1) by (simp add: name_runs(2))
  ultimately show ?thesis unfolding parent_of_def Let_def using assms(2) by simp
qed

text \<open>
  Where the module differs from Node's: \<open>join\<close> does not normalise, and an absolute part discards
  what precedes it; a single name has no directory; a path ending in a separator has no name.
\<close>

lemma path_differences:
  "path_join [Some ''a'', Some ''..'', Some ''b''] = Path ''a/../b''"
  "path_join [Some ''a'', Some ''/b''] = Path ''/b''"
  "path_join [Some []] = Path []"
  "path_dirname (Some (Some ''a'')) = Path []"
  "path_basename (Some (Some ''/a/'')) = Path []"
  "path_normalize (Some (Some [])) = Path []"
  by code_simp+

end
