(* ===== verification/Dns.thy ===== *)
theory Dns
  imports Prelude "HOL-Library.Multiset"
begin

text \<open>
  Models \<open>src/modules/dns/DNSModule.cpp\<close>.

  \<^item> The resolver of the C library is a parameter (\<open>dns_env\<close>): \<open>getaddrinfo\<close> gives a text of
    \<open>gai_strerror\<close> or the family and the text of the first address, \<open>gethostbyname\<close> the texts of the
    addresses or nothing, \<open>gethostbyaddr\<close> the name of an address it can read.
  \<^item> An argument has its C string, \<open>None\<close> when there is none, and its kind. QuickJS fills the arguments up to
    the length the function was declared with; an argument read beyond is \<open>RUndefined_read\<close>, as is a
    read of a freed result.
  \<^item> \<open>dns_step\<close> interleaves the calls of \<open>lookup\<close>, the tasks of the I/O pool, in any order, and the
    callbacks, in the order of the queue. \<open>results_held\<close> counts the results not yet freed.
\<close>

datatype dns_family = IPv4 | IPv6 | Any_family

datatype dns_kind = KNumber int | KString | KFunction nat | KObject "int option" | KOther

type_synonym dns_arg = "string option \<times> dns_kind"

record dns_env =
  getaddrinfo :: "string \<Rightarrow> dns_family \<Rightarrow> string + dns_family \<times> string"
  gethostbyname :: "string \<Rightarrow> string list option"
  gethostbyaddr :: "string \<Rightarrow> string option option"

datatype dns_result =
    RThrow string | RException | RUndefined | RAddress string int | RNames "string list"
  | RService string string | RUndefined_read

datatype call_arg = ANull | AString string | AInt int

record dns_world =
  lookups :: "(string \<times> int \<times> nat) list"
  answers :: "((string + dns_family \<times> string) \<times> nat) list"
  called :: "(nat \<times> call_arg list) list"
  results_held :: nat

definition family_hint :: "int \<Rightarrow> dns_family" where
  "family_hint f = (if f = 6 then IPv6 else if f = 4 then IPv4 else Any_family)"

text \<open>The family and the callback of \<open>lookup\<close>.\<close>

definition third_function :: "dns_arg list \<Rightarrow> nat option" where
  "third_function args = (case args of _ # _ # (_, KFunction f) # _ \<Rightarrow> Some f | _ \<Rightarrow> None)"

definition lookup_options :: "dns_arg list \<Rightarrow> int \<times> nat option" where
  "lookup_options args = (case args of
     _ # (_, KNumber n) # _ \<Rightarrow> (n, third_function args)
   | _ # (_, KFunction f) # _ \<Rightarrow> (0, Some f)
   | _ # (_, KObject (Some n)) # _ \<Rightarrow> (n, third_function args)
   | _ # (_, KObject None) # _ \<Rightarrow> (0, third_function args)
   | _ \<Rightarrow> (0, None))"

text \<open>Without a callback: the family of the result is read after the result was freed.\<close>

definition lookup_sync :: "dns_env \<Rightarrow> string \<Rightarrow> int \<Rightarrow> dns_result" where
  "lookup_sync E host fam = (case getaddrinfo E host (family_hint fam) of
     Inl e \<Rightarrow> RThrow e | Inr _ \<Rightarrow> RUndefined_read)"

definition lookupAsync :: "string \<Rightarrow> int \<Rightarrow> nat \<Rightarrow> dns_world \<Rightarrow> dns_world" where
  "lookupAsync host fam f w = w\<lparr>lookups := lookups w @ [(host, fam, f)]\<rparr>"

definition dns_lookup :: "dns_env \<Rightarrow> dns_arg list \<Rightarrow> dns_world \<Rightarrow> dns_result \<times> dns_world" where
  "dns_lookup E args w = (case args of
     [] \<Rightarrow> (RThrow ''lookup expects hostname'', w)
   | (None, _) # _ \<Rightarrow> (RException, w)
   | (Some host, _) # _ \<Rightarrow> (case lookup_options args of
       (fam, Some f) \<Rightarrow> (RUndefined, lookupAsync host fam f w)
     | (fam, None) \<Rightarrow> (lookup_sync E host fam, w)))"

text \<open>The task of the pool, and the callback.\<close>

definition lookup_task :: "dns_env \<Rightarrow> nat \<Rightarrow> dns_world \<Rightarrow> dns_world" where
  "lookup_task E i w = (case lookups w ! i of (host, fam, f) \<Rightarrow>
     (let r = getaddrinfo E host (family_hint fam)
      in w\<lparr>lookups := take i (lookups w) @ drop (Suc i) (lookups w), answers := answers w @ [(r, f)],
           results_held := results_held w + (case r of Inl _ \<Rightarrow> 0 | Inr _ \<Rightarrow> 1)\<rparr>))"

definition answer_args :: "(string + dns_family \<times> string) \<Rightarrow> call_arg list" where
  "answer_args r = (case r of
     Inl e \<Rightarrow> [AString e, ANull]
   | Inr (fam, ip) \<Rightarrow> [ANull, AString ip, AInt (if fam = IPv6 then 6 else 4)])"

definition lookup_callback :: "dns_world \<Rightarrow> dns_world" where
  "lookup_callback w = (case answers w of
     [] \<Rightarrow> w
   | (r, f) # rest \<Rightarrow> w\<lparr>answers := rest, called := called w @ [(f, answer_args r)],
       results_held := results_held w - (case r of Inl _ \<Rightarrow> 0 | Inr _ \<Rightarrow> 1)\<rparr>)"

text \<open>\<open>resolve\<close> and the two functions that call it, by the length they are declared with. The type of the
  record is read and not used.\<close>

definition dns_resolve :: "nat \<Rightarrow> dns_env \<Rightarrow> dns_arg list \<Rightarrow> dns_result" where
  "dns_resolve declared E args = (case args of
     [] \<Rightarrow> RThrow ''resolve expects hostname''
   | (None, _) # _ \<Rightarrow> RException
   | (Some host, _) # rest \<Rightarrow>
       if rest = [] \<and> declared < 2 then RUndefined_read
       else (case gethostbyname E host of None \<Rightarrow> RThrow ''Host not found'' | Some ips \<Rightarrow> RNames ips))"

definition resolve4 :: "dns_env \<Rightarrow> dns_arg list \<Rightarrow> dns_result" where
  "resolve4 E args = dns_resolve 1 E args"

definition resolve6 :: "dns_env \<Rightarrow> dns_arg list \<Rightarrow> dns_result" where
  "resolve6 E args = dns_resolve 1 E args"

definition dns_reverse :: "dns_env \<Rightarrow> dns_arg list \<Rightarrow> dns_result" where
  "dns_reverse E args = (case args of
     [] \<Rightarrow> RThrow ''reverse expects IP address''
   | (None, _) # _ \<Rightarrow> RException
   | (Some ip, _) # _ \<Rightarrow> (case gethostbyaddr E ip of
       None \<Rightarrow> RThrow ''Invalid IP address''
     | Some None \<Rightarrow> RThrow ''Reverse lookup failed''
     | Some (Some n) \<Rightarrow> RNames [n]))"

text \<open>\<open>None\<close> is a port whose conversion throws.\<close>

definition lookupService :: "string option list \<Rightarrow> int option \<Rightarrow> dns_result" where
  "lookupService args port = (case args of
     address # _ # _ \<Rightarrow> (case address of
       None \<Rightarrow> RException
     | Some _ \<Rightarrow> (case port of None \<Rightarrow> RException | Some _ \<Rightarrow> RService ''localhost'' ''unknown''))
   | _ \<Rightarrow> RThrow ''lookupService expects address and port'')"

inductive dns_step :: "dns_env \<Rightarrow> dns_world \<Rightarrow> dns_world \<Rightarrow> bool" for E where
  call: "dns_step E w (snd (dns_lookup E args w))"
| task: "i < length (lookups w) \<Longrightarrow> dns_step E w (lookup_task E i w)"
| deliver: "dns_step E w (lookup_callback w)"

definition dns_start :: dns_world where
  "dns_start = \<lparr>lookups = [], answers = [], called = [], results_held = 0\<rparr>"

section \<open>Every lookup is answered\<close>

text \<open>The lookups in progress, and what an answer says.\<close>

definition callbacks_of :: "dns_world \<Rightarrow> nat multiset" where
  "callbacks_of w = mset (map (\<lambda>(h, f, c). c) (lookups w)) + mset (map snd (answers w)) + mset (map fst (called w))"

definition held :: "dns_world \<Rightarrow> nat" where
  "held w = length (filter (\<lambda>(r, f). \<not> isl r) (answers w))"

definition dns_inv :: "dns_env \<Rightarrow> dns_world \<Rightarrow> bool" where
  "dns_inv E w \<longleftrightarrow> results_held w = held w
     \<and> list_all (\<lambda>(r, f). \<exists>host fam. r = getaddrinfo E host fam) (answers w)
     \<and> list_all (\<lambda>(f, as). \<exists>host fam. as = answer_args (getaddrinfo E host fam)) (called w)"

lemma dns_inv_start: "dns_inv E dns_start"
  by (simp add: dns_inv_def dns_start_def held_def)

lemma dns_lookup_effect:
  "snd (dns_lookup E args w) = w \<or> (\<exists>host fam f. snd (dns_lookup E args w) = lookupAsync host fam f w)"
  by (auto simp: dns_lookup_def split: list.splits option.splits prod.splits)

lemma dns_inv_step:
  assumes "dns_step E w v" and "dns_inv E w"
  shows "dns_inv E v"
  using assms
proof (induction rule: dns_step.induct)
  case (call w args)
  then show ?case
    using dns_lookup_effect [of E args w] by (auto simp: dns_inv_def held_def lookupAsync_def)
next
  case (task i w)
  then show ?case
    by (cases "lookups w ! i")
      (auto simp: dns_inv_def held_def lookup_task_def Let_def split: sum.splits; metis)
next
  case (deliver w)
  then show ?case
    by (auto simp: dns_inv_def held_def lookup_callback_def split: list.splits sum.splits; blast)
qed

interpretation dns_system: transition_invariant "\<lambda>s. s = dns_start" "dns_step E" "dns_inv E"
  for E
  by unfold_locales (auto intro: dns_inv_start dns_inv_step)

lemma dns_reachable_inv: "(dns_step E)\<^sup>*\<^sup>* dns_start w \<Longrightarrow> dns_inv E w"
  by (rule dns_system.reachable_inv [OF _ refl])

text \<open>The tasks and the callbacks, without the calls of the program, keep the callbacks.\<close>

inductive dns_work :: "dns_env \<Rightarrow> dns_world \<Rightarrow> dns_world \<Rightarrow> bool" for E where
  work_task: "i < length (lookups w) \<Longrightarrow> dns_work E w (lookup_task E i w)"
| work_deliver: "dns_work E w (lookup_callback w)"

lemma mset_without: "i < length xs \<Longrightarrow> mset (take i xs @ drop (Suc i) xs) + {#xs ! i#} = mset xs"
  by (metis add_mset_add_single id_take_nth_drop mset.simps(2) mset_append union_mset_add_mset_right)

lemma callbacks_work: "dns_work E w v \<Longrightarrow> callbacks_of v = callbacks_of w"
proof (induction rule: dns_work.induct)
  case (work_task i w)
  obtain h f c where l: "lookups w ! i = (h, f, c)" by (cases "lookups w ! i")
  have "mset (map (\<lambda>(h, f, c). c) (take i (lookups w) @ drop (Suc i) (lookups w))) + {#c#} =
      mset (map (\<lambda>(h, f, c). c) (lookups w))"
    using mset_without [of i "map (\<lambda>(h, f, c). c) (lookups w)"] work_task l
    by (simp add: take_map drop_map)
  with l show ?case by (simp add: callbacks_of_def lookup_task_def Let_def)
qed (auto simp: callbacks_of_def lookup_callback_def split: list.splits)

lemma callbacks_works: "(dns_work E)\<^sup>*\<^sup>* w v \<Longrightarrow> callbacks_of v = callbacks_of w"
  by (induction rule: rtranclp_induct) (auto dest: callbacks_work)

lemma work_is_step: "(dns_work E)\<^sup>*\<^sup>* w v \<Longrightarrow> (dns_step E)\<^sup>*\<^sup>* w v"
  by (erule mono_rtranclp [rule_format, rotated]) (auto elim!: dns_work.cases intro: dns_step.intros)


definition example_dns :: dns_env where
  "example_dns = \<lparr>getaddrinfo = (\<lambda>h f. if h = ''a'' then Inr (IPv6, ''::1'') else Inl ''no''),
     gethostbyname = (\<lambda>h. Some [''127.0.0.1'']), gethostbyaddr = (\<lambda>a. None)\<rparr>"


text \<open>A lookup without a callback that finds the host reads a freed result; \<open>resolve4\<close> and \<open>resolve6\<close> with
  one argument read a second; \<open>resolve6\<close> gives the same addresses as \<open>resolve4\<close>.\<close>

lemma dns_undefined_reads:
  "getaddrinfo E host Any_family = Inr r \<Longrightarrow> fst (dns_lookup E [(Some host, KString)] w) = RUndefined_read"
  "resolve4 E [(Some host, k)] = RUndefined_read"
  "resolve6 E args = resolve4 E args"
  by (auto simp: dns_lookup_def lookup_options_def lookup_sync_def family_hint_def resolve4_def resolve6_def
      dns_resolve_def)

end
