(* ===== verification/Debugger.thy ===== *)
theory Debugger
  imports Semver
begin

text \<open>
  Models \<open>src/debugging/IntegratedDebugger.cpp\<close>: the breakpoints, the call stack, and the server of the
  Chrome DevTools protocol with its thread.

  \<^item> An argument of a call is the C string it converts to and its \<open>int64_t\<close> value, \<open>None\<close> where the
    conversion throws. Strings hold no NUL.
  \<^item> The number of the next breakpoint is a \<open>nat\<close>: the \<open>int\<close> of the code holds 2147483647 breakpoints.
  \<^item> The thread of the server opens its socket, and then checks the flag and waits in \<open>accept\<close>, in turns.
    \<open>joining\<close> says that the main thread waits for it in \<open>stopCDPServer\<close>. What the sockets return are
    arguments; a reply is taken to be sent whole.
\<close>

record breakpoint =
  bp_script :: string
  bp_line :: int
  bp_column :: int
  bp_condition :: string
  bp_enabled :: bool
  bp_id :: string

record call_frame =
  cf_function :: string
  cf_script :: string
  cf_line :: int
  cf_column :: int

datatype server_thread = No_thread | Opening int | Checking | Accepting | Returned

record debugger =
  breakpoints :: "breakpoint list"
  call_stack :: "call_frame list"
  server_running :: bool
  server_thread :: server_thread
  next_id :: nat
  joining :: bool
  printed :: "string list"
  replies :: "string list"

type_synonym dbg_arg = "string option \<times> int option"

datatype dbg_result =
    DThrow string | DException | DBool bool | DBreakpoint string int
  | DStack "(string \<times> string \<times> int \<times> int) list" | DEval string | DTerminate | DBlocked

definition debugger_start :: debugger where
  "debugger_start = \<lparr>breakpoints = [], call_stack = [], server_running = False, server_thread = No_thread,
     next_id = 1, joining = False, printed = [], replies = []\<rparr>"

text \<open>\<open>static_cast<int>\<close> of an \<open>int64_t\<close>\<close>

definition as_int :: "int \<Rightarrow> int" where
  "as_int n = (n + 2147483648) mod 4294967296 - 2147483648"

section \<open>Breakpoints\<close>

definition bp_name :: "nat \<Rightarrow> string" where
  "bp_name k = ''bp'' @ show_nat k"

definition setBreakpoint :: "dbg_arg list \<Rightarrow> debugger \<Rightarrow> dbg_result \<times> debugger" where
  "setBreakpoint args d = (case args of
     (s, _) # (_, n) # more_args \<Rightarrow>
       (case s of None \<Rightarrow> (DException, d) | Some script \<Rightarrow>
        (case n of None \<Rightarrow> (DException, d) | Some line \<Rightarrow>
          (let cond = (case more_args of (Some c, _) # _ \<Rightarrow> c | _ \<Rightarrow> []);
               i = bp_name (next_id d);
               b = \<lparr>bp_script = script, bp_line = as_int line, bp_column = 0, bp_condition = cond, bp_enabled = True,
                    bp_id = i\<rparr>
           in (DBreakpoint i (bp_line b), d\<lparr>breakpoints := breakpoints d @ [b], next_id := next_id d + 1\<rparr>))))
   | _ \<Rightarrow> (DThrow ''setBreakpoint expects scriptId and lineNumber'', d))"

definition removeBreakpoint :: "dbg_arg list \<Rightarrow> debugger \<Rightarrow> dbg_result \<times> debugger" where
  "removeBreakpoint args d = (case args of
     [] \<Rightarrow> (DThrow ''removeBreakpoint expects breakpoint id'', d)
   | (None, _) # _ \<Rightarrow> (DException, d)
   | (Some i, _) # _ \<Rightarrow>
       (let kept = filter (\<lambda>b. bp_id b \<noteq> i) (breakpoints d); found = length kept < length (breakpoints d)
        in (DBool found, if found then d\<lparr>breakpoints := kept\<rparr> else d)))"

definition checkBreakpoint :: "string \<Rightarrow> int \<Rightarrow> debugger \<Rightarrow> bool" where
  "checkBreakpoint script line d \<longleftrightarrow>
     list_ex (\<lambda>b. bp_enabled b \<and> bp_script b = script \<and> bp_line b = line) (breakpoints d)"

section \<open>Execution\<close>

definition getCallStack :: "debugger \<Rightarrow> dbg_result" where
  "getCallStack d = DStack (map (\<lambda>f. (cf_function f, cf_script f, cf_line f, cf_column f)) (call_stack d))"

definition evaluate :: "dbg_arg list \<Rightarrow> dbg_result" where
  "evaluate args = (case args of
     [] \<Rightarrow> DThrow ''evaluate expects expression'' | (None, _) # _ \<Rightarrow> DException | (Some e, _) # _ \<Rightarrow> DEval e)"

definition pauseExecution :: "debugger \<Rightarrow> debugger" where
  "pauseExecution d = d"

definition resumeExecution :: "debugger \<Rightarrow> debugger" where
  "resumeExecution d = d"

definition stepOver :: "debugger \<Rightarrow> dbg_result \<times> debugger" where
  "stepOver d = (DBool True, resumeExecution d)"

definition stepInto :: "debugger \<Rightarrow> dbg_result \<times> debugger" where
  "stepInto d = (DBool True, resumeExecution d)"

definition stepOut :: "debugger \<Rightarrow> dbg_result \<times> debugger" where
  "stepOut d = (DBool True, resumeExecution d)"

definition continueExecution :: "debugger \<Rightarrow> dbg_result \<times> debugger" where
  "continueExecution d = (DBool True, resumeExecution d)"

section \<open>The server\<close>

text \<open>Assigning to a thread that was not joined ends the process.\<close>

definition startCDPServer :: "dbg_arg list \<Rightarrow> debugger \<Rightarrow> dbg_result \<times> debugger" where
  "startCDPServer args d =
     (if server_running d then (DBool False, d)
      else
        (let port = (case args of (_, Some n) # _ \<Rightarrow> as_int n | _ \<Rightarrow> 9229)
         in if server_thread d \<noteq> No_thread then (DTerminate, d)
            else (DBool True, d\<lparr>server_running := True, server_thread := Opening port\<rparr>)))"

definition stopCDPServer :: "debugger \<Rightarrow> dbg_result \<times> debugger" where
  "stopCDPServer d =
     (if \<not> server_running d then (DBool False, d)
      else if server_thread d = No_thread then (DBool True, d\<lparr>server_running := False\<rparr>)
      else (DBlocked, d\<lparr>server_running := False, joining := True\<rparr>))"

text \<open>\<open>stopCDPServer\<close> returns from the join.\<close>

definition join_returns :: "debugger \<Rightarrow> dbg_result \<times> debugger" where
  "join_returns d =
     (if joining d \<and> server_thread d = Returned then (DBool True, d\<lparr>joining := False, server_thread := No_thread\<rparr>)
      else (DBlocked, d))"

definition generateCDPResponse :: "int \<Rightarrow> string \<Rightarrow> string" where
  "generateCDPResponse i res = ''{\"id\":'' @ show_int i @ '',\"result\":'' @ res @ ''}''"

definition generateCDPError :: "int \<Rightarrow> string \<Rightarrow> string" where
  "generateCDPError i err = ''{\"id\":'' @ show_int i @ '',\"error\":{\"message\":\"'' @ err @ ''\"}}''"

definition processCDPRequest :: "string \<Rightarrow> string \<Rightarrow> string" where
  "processCDPRequest method params = generateCDPResponse 1 ''{}''"

definition handleCDPMessage :: "string \<Rightarrow> debugger \<Rightarrow> debugger" where
  "handleCDPMessage msg d = (let reply = processCDPRequest [] msg in d)"

text \<open>\<open>cdpServerThread\<close>: opening the socket, with what \<open>socket\<close>, \<open>bind\<close> and \<open>listen\<close> say.\<close>

definition say :: "string \<Rightarrow> debugger \<Rightarrow> debugger" where
  "say s d = d\<lparr>printed := printed d @ [s]\<rparr>"

definition server_opens :: "bool \<Rightarrow> bool \<Rightarrow> bool \<Rightarrow> debugger \<Rightarrow> debugger" where
  "server_opens sock bound listening d = (case server_thread d of
     Opening port \<Rightarrow>
       if \<not> sock then say ''Failed to create socket'' (d\<lparr>server_thread := Returned\<rparr>)
       else if \<not> bound then say (''Failed to bind to port '' @ show_int port) (d\<lparr>server_thread := Returned\<rparr>)
       else if \<not> listening then say ''Failed to listen'' (d\<lparr>server_thread := Returned\<rparr>)
       else say (''CDP Server listening on port '' @ show_int port) (d\<lparr>server_thread := Checking\<rparr>)
   | _ \<Rightarrow> d)"

definition server_checks :: "debugger \<Rightarrow> debugger" where
  "server_checks d =
     (if server_thread d = Checking then d\<lparr>server_thread := if server_running d then Accepting else Returned\<rparr> else d)"

text \<open>\<open>accept\<close> returns: \<open>None\<close> if it fails, or the message of the client, if there is one.\<close>

definition server_accepts :: "string option option \<Rightarrow> debugger \<Rightarrow> debugger" where
  "server_accepts client d =
     (if server_thread d \<noteq> Accepting then d
      else (case client of
        None \<Rightarrow> (if server_running d then say ''Failed to accept connection'' else id) (d\<lparr>server_thread := Checking\<rparr>)
      | Some None \<Rightarrow> d\<lparr>server_thread := Checking\<rparr>
      | Some (Some msg) \<Rightarrow> d\<lparr>server_thread := Checking, replies := replies d @ [processCDPRequest [] msg]\<rparr>))"

text \<open>The program calls the debugger while it is not blocked; the thread moves on by itself. The steps
  that no client causes are \<open>debugger_alone\<close>.\<close>

inductive debugger_alone :: "debugger \<Rightarrow> debugger \<Rightarrow> bool" where
  set_bp: "\<not> joining d \<Longrightarrow> debugger_alone d (snd (setBreakpoint args d))"
| remove_bp: "\<not> joining d \<Longrightarrow> debugger_alone d (snd (removeBreakpoint args d))"
| start_server: "\<not> joining d \<Longrightarrow> debugger_alone d (snd (startCDPServer args d))"
| stop_server: "\<not> joining d \<Longrightarrow> debugger_alone d (snd (stopCDPServer d))"
| joins: "debugger_alone d (snd (join_returns d))"
| opens: "debugger_alone d (server_opens sock bound listening d)"
| checks: "debugger_alone d (server_checks d)"

inductive debugger_step :: "debugger \<Rightarrow> debugger \<Rightarrow> bool" where
  alone: "debugger_alone d e \<Longrightarrow> debugger_step d e"
| accepts: "debugger_step d (server_accepts client d)"

section \<open>What holds in every state\<close>

definition breakpoint_ids :: "debugger \<Rightarrow> bool" where
  "breakpoint_ids d \<longleftrightarrow> distinct (map bp_id (breakpoints d))
     \<and> list_all (\<lambda>b. \<exists>k < next_id d. bp_id b = bp_name k) (breakpoints d)"

definition debugger_inv :: "debugger \<Rightarrow> bool" where
  "debugger_inv d \<longleftrightarrow> breakpoint_ids d \<and> call_stack d = []
     \<and> (server_thread d = No_thread \<longleftrightarrow> \<not> server_running d \<and> \<not> joining d) \<and> (joining d \<longrightarrow> \<not> server_running d)"

lemma bp_name_inject: "bp_name a = bp_name b \<longleftrightarrow> a = b"
proof
  assume "bp_name a = bp_name b"
  then have "digits_val (show_nat a) = digits_val (show_nat b)" by (simp add: bp_name_def del: show_nat.simps)
  then show "a = b" by (simp del: show_nat.simps)
qed simp

lemma new_id_fresh: "breakpoint_ids d \<Longrightarrow> b \<in> set (breakpoints d) \<Longrightarrow> bp_id b \<noteq> bp_name (next_id d)"
  by (auto simp: breakpoint_ids_def list_all_iff bp_name_inject)

lemma breakpoint_ids_set: "breakpoint_ids d \<Longrightarrow> breakpoint_ids (snd (setBreakpoint args d))"
  by (auto simp: setBreakpoint_def breakpoint_ids_def list_all_iff bp_name_inject Let_def less_Suc_eq
      split: list.splits option.splits)

lemma breakpoint_ids_remove: "breakpoint_ids d \<Longrightarrow> breakpoint_ids (snd (removeBreakpoint args d))"
  by (auto simp: removeBreakpoint_def breakpoint_ids_def list_all_iff Let_def distinct_map_filter
      split: list.splits option.splits)

lemma server_of_breakpoints:
  "server_thread (snd (setBreakpoint args d)) = server_thread d"
  "server_running (snd (setBreakpoint args d)) = server_running d"
  "joining (snd (setBreakpoint args d)) = joining d"
  "call_stack (snd (setBreakpoint args d)) = call_stack d"
  "server_thread (snd (removeBreakpoint args d)) = server_thread d"
  "server_running (snd (removeBreakpoint args d)) = server_running d"
  "joining (snd (removeBreakpoint args d)) = joining d"
  "call_stack (snd (removeBreakpoint args d)) = call_stack d"
  by (auto simp: setBreakpoint_def removeBreakpoint_def Let_def split: list.splits option.splits)

lemma breakpoint_ids_simps [simp]:
  "breakpoint_ids (d\<lparr>server_running := r\<rparr>) = breakpoint_ids d"
  "breakpoint_ids (d\<lparr>server_thread := t\<rparr>) = breakpoint_ids d"
  "breakpoint_ids (d\<lparr>joining := r\<rparr>) = breakpoint_ids d"
  "breakpoint_ids (d\<lparr>printed := p\<rparr>) = breakpoint_ids d"
  "breakpoint_ids (d\<lparr>replies := p\<rparr>) = breakpoint_ids d"
  by (simp_all add: breakpoint_ids_def)

lemma debugger_inv_alone:
  assumes "debugger_alone d e" and "debugger_inv d"
  shows "debugger_inv e"
  using assms
proof (induction rule: debugger_alone.induct)
  case (set_bp d args)
  then show ?case by (simp add: debugger_inv_def server_of_breakpoints breakpoint_ids_set)
next
  case (remove_bp d args)
  then show ?case by (simp add: debugger_inv_def server_of_breakpoints breakpoint_ids_remove)
next
  case (start_server d args)
  then show ?case
    by (auto simp: debugger_inv_def startCDPServer_def Let_def)
next
  case (stop_server d)
  then show ?case
    by (auto simp: debugger_inv_def stopCDPServer_def)
next
  case (joins d)
  then show ?case
    by (auto simp: debugger_inv_def join_returns_def)
next
  case (opens d sock bound listening)
  then show ?case
    by (auto simp: debugger_inv_def server_opens_def say_def split: server_thread.splits)
next
  case (checks d)
  then show ?case
    by (auto simp: debugger_inv_def server_checks_def)
qed

lemma debugger_inv_step: "debugger_step d e \<Longrightarrow> debugger_inv d \<Longrightarrow> debugger_inv e"
proof (induction rule: debugger_step.induct)
  case (accepts d client)
  then show ?case
    by (auto simp: debugger_inv_def server_accepts_def say_def split: option.splits)
qed (rule debugger_inv_alone)

lemma debugger_inv_start: "debugger_inv debugger_start"
  by (simp add: debugger_inv_def debugger_start_def breakpoint_ids_def)

interpretation debugger_system: transition_invariant "\<lambda>s. s = debugger_start" debugger_step debugger_inv
  by unfold_locales (auto intro: debugger_inv_start debugger_inv_step)

lemma debugger_reachable_inv: "debugger_step\<^sup>*\<^sup>* debugger_start d \<Longrightarrow> debugger_inv d"
  by (rule debugger_system.reachable_inv [OF _ refl])

text \<open>The call stack is always empty, and starting the server never ends the process.\<close>

lemma debugger_call_stack: "debugger_step\<^sup>*\<^sup>* debugger_start d \<Longrightarrow> getCallStack d = DStack []"
  using debugger_reachable_inv by (simp add: debugger_inv_def getCallStack_def)

lemma start_never_terminates:
  "debugger_step\<^sup>*\<^sup>* debugger_start d \<Longrightarrow> \<not> joining d \<Longrightarrow> fst (startCDPServer args d) \<noteq> DTerminate"
  using debugger_reachable_inv [of d] by (simp add: debugger_inv_def startCDPServer_def Let_def)

section \<open>Breakpoints are found and removed\<close>

text \<open>C36: In every state of the program: a new breakpoint is hit at its line, removing it by the id of the
  reply succeeds once and gives back the breakpoints there were before.\<close>

theorem breakpoint_roundtrip:
  assumes "debugger_step\<^sup>*\<^sup>* debugger_start d"
  shows "\<exists>i d1 d2. setBreakpoint ((Some script, a) # (b, Some line) # rest) d = (DBreakpoint i (as_int line), d1)
    \<and> checkBreakpoint script (as_int line) d1
    \<and> removeBreakpoint [(Some i, c)] d1 = (DBool True, d2) \<and> breakpoints d2 = breakpoints d
    \<and> removeBreakpoint [(Some i, c)] d2 = (DBool False, d2)"
proof -
  have ids: "breakpoint_ids d" using debugger_reachable_inv [OF assms] by (simp add: debugger_inv_def)
  then have old: "filter (\<lambda>x. bp_id x \<noteq> bp_name (next_id d)) (breakpoints d) = breakpoints d"
    by (simp add: filter_id_conv new_id_fresh)
  then show ?thesis
    by (auto simp: setBreakpoint_def removeBreakpoint_def checkBreakpoint_def Let_def)
qed

section \<open>Stopping the server\<close>

definition waiting :: "debugger \<Rightarrow> bool" where
  "waiting d \<longleftrightarrow> joining d \<and> server_thread d = Accepting \<and> \<not> server_running d"

lemma waiting_stays: "debugger_alone d e \<Longrightarrow> waiting d \<Longrightarrow> waiting e"
  by (induction rule: debugger_alone.induct)
    (simp_all add: waiting_def join_returns_def server_opens_def server_checks_def)

interpretation blocked_debugger: transition_invariant waiting debugger_alone waiting
  by unfold_locales (auto intro: waiting_stays)

text \<open>Once the server waits for a client, \<open>stopCDPServer\<close> blocks until one comes: whatever else happens,
  the program stays blocked, and the first client frees it.\<close>

theorem stop_waits_for_client:
  assumes "server_thread d = Accepting" and "server_running d"
  shows "fst (stopCDPServer d) = DBlocked
    \<and> (\<forall>e. debugger_alone\<^sup>*\<^sup>* (snd (stopCDPServer d)) e \<longrightarrow>
         joining e \<and> fst (join_returns e) = DBlocked
         \<and> fst (join_returns (server_checks (server_accepts client e))) = DBool True)"
proof -
  have frees: "fst (join_returns e) = DBlocked \<and> fst (join_returns (server_checks (server_accepts client e))) = DBool True"
    if "server_thread e = Accepting" "joining e" "\<not> server_running e" for e
    using that by (cases client)
      (auto simp: join_returns_def server_checks_def server_accepts_def say_def split: option.splits)
  show ?thesis
  proof (intro conjI allI impI)
    show "fst (stopCDPServer d) = DBlocked" using assms by (simp add: stopCDPServer_def)
    fix e
    assume r: "debugger_alone\<^sup>*\<^sup>* (snd (stopCDPServer d)) e"
    have e: "joining e \<and> server_thread e = Accepting \<and> \<not> server_running e"
      using blocked_debugger.steps_inv [OF r] assms by (simp add: stopCDPServer_def waiting_def)
    then show "joining e" by simp
    show "fst (join_returns e) = DBlocked"
      "fst (join_returns (server_checks (server_accepts client e))) = DBool True"
      using frees [of e] e by simp_all
  qed
qed

text \<open>A server that could not bind its port counts as running: it cannot be started before it was stopped.\<close>

lemma failed_server_runs:
  "let d = server_opens True False True (snd (startCDPServer [] debugger_start))
   in server_thread d = Returned \<and> startCDPServer [] d = (DBool False, d)"
  by (simp add: server_opens_def startCDPServer_def debugger_start_def say_def)

lemma breakpoint_roundtrip_witness:
  "\<exists>i d1 d2. setBreakpoint [(Some ''a.js'', None), (None, Some 4294967297)] debugger_start = (DBreakpoint i 1, d1)
    \<and> checkBreakpoint ''a.js'' 1 d1
    \<and> removeBreakpoint [(Some i, None)] d1 = (DBool True, d2) \<and> breakpoints d2 = []
    \<and> removeBreakpoint [(Some i, None)] d2 = (DBool False, d2)"
proof -
  have "as_int 4294967297 = 1" "breakpoints debugger_start = []" by (simp_all add: as_int_def debugger_start_def)
  then show ?thesis
    using breakpoint_roundtrip [OF rtranclp.rtrancl_refl, of "''a.js''" None None 4294967297 "[]" None] by simp
qed

lemma stop_waits_for_client_witness:
  "fst (stopCDPServer (server_checks (server_opens True True True (snd (startCDPServer [] debugger_start))))) = DBlocked"
proof -
  let ?d = "server_checks (server_opens True True True (snd (startCDPServer [] debugger_start)))"
  have "server_thread ?d = Accepting" "server_running ?d"
    by (simp_all add: server_checks_def server_opens_def startCDPServer_def debugger_start_def say_def)
  from stop_waits_for_client [OF this] show ?thesis by blast
qed

end
