(* ===== verification/Contexts.thy ===== *)
theory Contexts
  imports ThreadPool GcBridge
begin

text \<open>
  Models \<open>src/JSContext.cpp\<close>, the object that owns a QuickJS context and starts and stops what the
  process shares, and the singletons of \<open>src/CPUThreadPool.cpp\<close> and \<open>src/IOThreadPool.cpp\<close>.

  \<^item> A pool whose \<open>shutdown\<close> was called is \<open>Shut\<close>, with the state it had then; \<open>submit\<close> throws there
    (\<open>ThreadPool\<close>). That \<open>shutdown\<close> returns is not part of this theory.
  \<^item> \<open>opaque_set\<close> holds the contexts whose opaque pointer is set, which \<open>GCBridge\<close> asks for;
    \<open>live_contexts\<close> the contexts made by QuickJS and not freed. The address of a new context is an argument.
  \<^item> \<open>ExecutionEngine::initialize\<close> and \<open>cleanup\<close> are empty.
\<close>

datatype 'a pool_instance = Open "'a pool" | Shut "'a pool"

record ('c, 'a) process =
  opaque_set :: "64 word set"
  live_contexts :: "64 word list"
  gc_table :: "'c gc_state"
  cpu_instance :: "'a pool_instance option"
  io_instance :: "'a pool_instance option"
  defaultFactor :: rat
  errors_printed :: "string list"

section \<open>The pools\<close>

definition pool_submit :: "'a \<Rightarrow> 'a pool_instance \<Rightarrow> 'a pool_instance cpp" where
  "pool_submit task i = (case i of
     Open q \<Rightarrow> (case submit task q of Inl e \<Rightarrow> Inl e | Inr r \<Rightarrow> Inr (Open r))
   | Shut q \<Rightarrow> (case submit task (q\<lparr>shutdownFlag := True\<rparr>) of Inl e \<Rightarrow> Inl e | Inr r \<Rightarrow> Inr (Shut r)))"

definition shut_instance :: "'a pool_instance \<Rightarrow> 'a pool_instance" where
  "shut_instance i = (case i of Open q \<Rightarrow> Shut q | Shut q \<Rightarrow> Shut q)"

definition cpu_getInstance :: "nat \<Rightarrow> ('c, 'a) process \<Rightarrow> 'a pool_instance cpp \<times> ('c, 'a) process" where
  "cpu_getInstance cores p = (case cpu_instance p of
     Some i \<Rightarrow> (Inr i, p)
   | None \<Rightarrow> (case CPUThreadPool cores 0 of
       Inl e \<Rightarrow> (Inl e, p) | Inr q \<Rightarrow> (Inr (Open q), p\<lparr>cpu_instance := Some (Open q)\<rparr>)))"

definition cpu_initialize :: "nat \<Rightarrow> nat \<Rightarrow> ('c, 'a) process \<Rightarrow> unit cpp \<times> ('c, 'a) process" where
  "cpu_initialize cores numThreads p =
     (let p1 = p\<lparr>cpu_instance := map_option shut_instance (cpu_instance p)\<rparr>
      in (case CPUThreadPool cores numThreads of
            Inl e \<Rightarrow> (Inl e, p1) | Inr q \<Rightarrow> (Inr (), p1\<lparr>cpu_instance := Some (Open q)\<rparr>)))"

definition cpu_shutdown :: "('c, 'a) process \<Rightarrow> ('c, 'a) process" where
  "cpu_shutdown p = p\<lparr>cpu_instance := None\<rparr>"

definition io_getInstance :: "nat \<Rightarrow> ('c, 'a) process \<Rightarrow> 'a pool_instance cpp \<times> ('c, 'a) process" where
  "io_getInstance cores p = (case io_instance p of
     Some i \<Rightarrow> (Inr i, p)
   | None \<Rightarrow> (case IOThreadPool cores (defaultFactor p) 0 of
       Inl e \<Rightarrow> (Inl e, p) | Inr q \<Rightarrow> (Inr (Open q), p\<lparr>io_instance := Some (Open q)\<rparr>)))"

definition io_initialize :: "nat \<Rightarrow> nat \<Rightarrow> rat \<Rightarrow> ('c, 'a) process \<Rightarrow> unit cpp \<times> ('c, 'a) process" where
  "io_initialize cores numThreads factor p =
     (let p1 = p\<lparr>io_instance := map_option shut_instance (io_instance p), defaultFactor := factor\<rparr>
      in (case IOThreadPool cores factor numThreads of
            Inl e \<Rightarrow> (Inl e, p1) | Inr q \<Rightarrow> (Inr (), p1\<lparr>io_instance := Some (Open q)\<rparr>)))"

definition io_shutdown :: "('c, 'a) process \<Rightarrow> ('c, 'a) process" where
  "io_shutdown p = p\<lparr>io_instance := None\<rparr>"

section \<open>JSContextWrapper\<close>

text \<open>What \<open>GCBridge\<close> sees of the contexts.\<close>

definition gc_view :: "('c, 'm, 'o) gc_env \<Rightarrow> ('c, 'a) process \<Rightarrow> ('c, 'm, 'o) gc_env" where
  "gc_view E p = E\<lparr>has_wrapper := \<lambda>c. c \<in> opaque_set p\<rparr>"

definition JSContextWrapper :: "('c, 'm, 'o) gc_env \<Rightarrow> nat \<Rightarrow> 64 word \<Rightarrow> nat \<Rightarrow> nat \<Rightarrow> rat \<Rightarrow> ('c, 'a) process
    \<Rightarrow> (unit cpp \<times> ('c, 'a) process) outcome" where
  "JSContextWrapper E cores ctx cpuThreads ioThreads ioFactor p =
     (let p1 = p\<lparr>live_contexts := live_contexts p @ [ctx]\<rparr>
      in outcome_bind (gc_initialize (gc_view E p1) ctx (gc_table p1)) (\<lambda>(t, _).
        let p2 = p1\<lparr>gc_table := t, opaque_set := insert ctx (opaque_set p1)\<rparr>
        in (case cpu_initialize cores (if cpuThreads > 0 then cpuThreads else 0) p2 of
              (Inl e, p3) \<Rightarrow> Returns (Inl e, p3)
            | (Inr _, p3) \<Rightarrow>
                Returns (if ioThreads > 0 then io_initialize cores ioThreads 3 p3
                         else io_initialize cores 0 ioFactor p3))))"

definition destroy_wrapper :: "('c, 'm, 'o) gc_env \<Rightarrow> 64 word \<Rightarrow> ('c, 'a) process \<Rightarrow> ('c, 'a) process outcome" where
  "destroy_wrapper E ctx p =
     outcome_bind (cleanup (gc_view E p) ctx (gc_table p)) (\<lambda>(t, _).
       Returns ((io_shutdown (cpu_shutdown (p\<lparr>gc_table := t\<rparr>)))
         \<lparr>opaque_set := opaque_set p - {ctx}, live_contexts := remove1 ctx (live_contexts p)\<rparr>))"

text \<open>\<open>eval\<close>, given what \<open>JS_Eval\<close> returns: a value, or an exception and its text, if it has one. The
  exception has been taken from the context when \<open>eval\<close> returns it.\<close>

definition wrapper_eval :: "(string \<Rightarrow> string \<Rightarrow> string option + 'v) \<Rightarrow> string \<Rightarrow> string \<Rightarrow> ('c, 'a) process
    \<Rightarrow> 'v option \<times> ('c, 'a) process" where
  "wrapper_eval js code filename p = (case js code filename of
     Inr v \<Rightarrow> (Some v, p)
   | Inl None \<Rightarrow> (None, p)
   | Inl (Some s) \<Rightarrow> (None, p\<lparr>errors_printed := errors_printed p @ [''Exception in '' @ filename @ '': '' @ s @ [newline]]\<rparr>))"

section \<open>The life of a context\<close>

lemma pools_start:
  "cpu_initialize cores n p = (Inr (), q) \<Longrightarrow> \<exists>i. cpu_instance q = Some (Open i) \<and> shutdownFlag i = False"
  "io_initialize cores n f p = (Inr (), q) \<Longrightarrow> \<exists>i. io_instance q = Some (Open i) \<and> shutdownFlag i = False"
  by (auto simp: cpu_initialize_def io_initialize_def CPUThreadPool_def IOThreadPool_def ThreadPoolExecutor_def Let_def
      split: if_splits)

lemma cpu_initialize_effect:
  "\<exists>i. cpu_initialize cores n p = (Inr (), p\<lparr>cpu_instance := Some (Open i)\<rparr>)"
  by (auto simp: cpu_initialize_def CPUThreadPool_def ThreadPoolExecutor_def cpu_getOptimalThreadCount_def Let_def)

lemma io_initialize_effect:
  fixes p :: "('a, 'b) process"
  shows "(if n = 0 \<and> f \<le> 0
    then io_initialize cores n f p =
      (Inl Invalid_argument, p\<lparr>io_instance := map_option shut_instance (io_instance p), defaultFactor := f\<rparr>)
    else \<exists>i. io_initialize cores n f p = (Inr (), p\<lparr>io_instance := Some (Open i), defaultFactor := f\<rparr>))"
proof -
  have c: "of_nat (if cores = 0 then 1 else cores) > (0 :: rat)" by simp
  have "io_getOptimalThreadCount cores f = 0 \<longleftrightarrow> f \<le> 0"
    using mult_le_0_iff [of "of_nat (if cores = 0 then 1 else cores)" f] c
    by (simp add: io_getOptimalThreadCount_def del: of_nat_eq_0_iff)
  then have io: "(IOThreadPool cores f n :: 'b pool cpp) = Inl Invalid_argument \<longleftrightarrow> n = 0 \<and> f \<le> 0"
    by (auto simp: IOThreadPool_def ThreadPoolExecutor_def)
  show ?thesis
  proof (cases "n = 0 \<and> f \<le> 0")
    case False
    then obtain q :: "'b pool" where "IOThreadPool cores f n = Inr q"
      using io by (auto simp: IOThreadPool_def ThreadPoolExecutor_def split: if_splits)
    then have "io_initialize cores n f p = (Inr (), p\<lparr>io_instance := Some (Open q), defaultFactor := f\<rparr>)"
      by (simp add: io_initialize_def Let_def)
    then show ?thesis unfolding if_not_P [OF False] by blast
  next
    case True
    with io have "(IOThreadPool cores f n :: 'b pool cpp) = Inl Invalid_argument" by simp
    then show ?thesis unfolding if_P [OF True] by (simp add: io_initialize_def Let_def)
  qed
qed

text \<open>The opaque pointer is set after \<open>GCBridge::initialize\<close> has asked for it: the call does nothing.\<close>

lemma initialize_without_wrapper:
  "\<not> locked (gc_table p) \<Longrightarrow> ctx \<notin> opaque_set p
   \<Longrightarrow> gc_initialize (gc_view E p) ctx (gc_table p) = Returns (gc_table p, ())"
  by (simp add: gc_initialize_def with_lock_def gc_view_def)

lemma cleanup_empties:
  assumes "env_ok E" and "\<not> locked (gc_table p)" and "ctx \<in> opaque_set p"
  shows "\<exists>t. cleanup (gc_view E p) ctx (gc_table p) = Returns (t, ()) \<and> \<not> locked t
    \<and> (\<forall>k. \<not> has (map_ops E) (ctx_map E ctx t) k)"
proof -
  have ok: "env_ok (gc_view E p)"
    unfolding env_ok_def gc_view_def using env_okD [OF assms(1)] by (simp del: env_okD)
  have m: "ctx_map E ctx t = ctx_map (gc_view E p) ctx t" for t
    by (cases "contextMappings t") (simp_all add: ctx_map_def getContextMappings_def gc_view_def Let_def del: fst_get)
  have new: "map_ops (gc_view E p) = map_ops E" by (simp add: gc_view_def)
  let ?u = "snd (getContextMappings (gc_view E p) ctx ((gc_table p)\<lparr>locked := True\<rparr>))"
  let ?t = "(setContextMappings (gc_view E p) ctx (newSparseList (map_ops E)) ?u)\<lparr>locked := False\<rparr>"
  have "has_wrapper (gc_view E p) ctx" using assms(3) by (simp add: gc_view_def)
  then have "cleanup (gc_view E p) ctx (gc_table p) = Returns (?t, ())"
    using assms(2) by (simp add: cleanup_def with_lock_def Let_def split_beta new)
  moreover have "ctx_map E ctx ?t = newSparseList (map_ops E)"
    unfolding m using ok by simp
  ultimately show ?thesis using assms(1) by simp
qed


text \<open>An I/O pool that fails to start leaves the one there was, shut: every task handed to it is refused.\<close>

lemma failed_io_restart:
  assumes "io_instance p = Some (Open q)" and "f \<le> 0"
  shows "\<exists>i r. io_getInstance cores (snd (io_initialize cores 0 f p)) = (Inr i, r) \<and> pool_submit task i = Inl Runtime_error"
  using assms io_initialize_effect [of 0 f cores p]
  by (simp add: io_getInstance_def shut_instance_def pool_submit_def submit_def)


end
