(* ===== verification/Native.thy ===== *)
theory Native
  imports ObjectCount Engine "HOL-Library.Multiset"
begin

text \<open>
  Models \<open>src/native/DynamicLibraryLoader.cpp\<close>, \<open>NativeModuleWrapper.cpp\<close> and the structures of
  \<open>NativeModuleABI.h\<close>.

  \<^item> The dynamic linker is a parameter (\<open>linker\<close>): the handle \<open>dlopen\<close> gives for a path, the text of
    \<open>dlerror\<close>, and the information behind the symbol of a handle. \<open>open_handles\<close> holds one entry for
    each \<open>dlopen\<close> not undone by \<open>dlclose\<close>. A deleted \<open>LoadedModule\<close> is \<open>None\<close>.
  \<^item> The functions of a native module are arguments. \<open>initializeModule\<close> and \<open>handleNativeException\<close> work on
    the counted heap of \<open>ObjectCount\<close>, where the text of an error is a counted cell of its own.
  \<^item> \<open>callNativeFunction\<close> converts with \<open>TypeBridge\<close>, and registers what the conversion meets, as in \<open>Engine\<close>.
\<close>

record module_info =
  abi_version :: int
  info_name :: "string option"
  info_version :: "string option"
  has_init :: bool
  has_cleanup :: bool

definition ProtoJSNativeModuleInfo :: module_info where
  "ProtoJSNativeModuleInfo = \<lparr>abi_version = 0, info_name = None, info_version = None, has_init = False, has_cleanup = False\<rparr>"

record loaded_module =
  lm_handle :: nat
  lm_info :: module_info
  lm_path :: string

record linker =
  dlopen :: "string \<Rightarrow> nat option"
  dlerror :: "string \<Rightarrow> string"
  dlsym :: "nat \<Rightarrow> module_info option"

record loader =
  open_handles :: "nat list"
  modules :: "loaded_module option list"
  load_errors :: "string list"

section \<open>DynamicLibraryLoader\<close>

definition validateABI :: "module_info option \<Rightarrow> bool" where
  "validateABI i = (case i of None \<Rightarrow> False | Some m \<Rightarrow> abi_version m = 1 \<and> info_name m \<noteq> None \<and> has_init m)"

definition openLibrary :: "linker \<Rightarrow> string \<Rightarrow> loader \<Rightarrow> nat option \<times> loader" where
  "openLibrary E path L = (case dlopen E path of None \<Rightarrow> (None, L) | Some h \<Rightarrow> (Some h, L\<lparr>open_handles := h # open_handles L\<rparr>))"

definition getSymbol :: "linker \<Rightarrow> nat \<Rightarrow> module_info option" where
  "getSymbol E h = dlsym E h"

definition closeLibrary :: "nat \<Rightarrow> loader \<Rightarrow> loader" where
  "closeLibrary h L = L\<lparr>open_handles := remove1 h (open_handles L)\<rparr>"

definition complain :: "string \<Rightarrow> loader \<Rightarrow> loader" where
  "complain s L = L\<lparr>load_errors := load_errors L @ [s]\<rparr>"

definition load :: "linker \<Rightarrow> string \<Rightarrow> loader \<Rightarrow> nat option \<times> loader" where
  "load E path L = (case openLibrary E path L of
     (None, L1) \<Rightarrow> (None, complain (''Failed to load library: '' @ path @ '' - '' @ dlerror E path) L1)
   | (Some h, L1) \<Rightarrow> (case getSymbol E h of
       None \<Rightarrow> (None, closeLibrary h (complain ''Symbol protojs_native_module_info not found'' L1))
     | Some i \<Rightarrow>
         if \<not> validateABI (Some i) then (None, closeLibrary h (complain ''ABI version mismatch'' L1))
         else (Some (length (modules L1)),
               L1\<lparr>modules := modules L1 @ [Some \<lparr>lm_handle = h, lm_info = i, lm_path = path\<rparr>]\<rparr>)))"

text \<open>Unloading a deleted module uses freed memory: \<open>None\<close>.\<close>

definition unload :: "nat option \<Rightarrow> loader \<Rightarrow> loader option" where
  "unload m L = (case m of
     None \<Rightarrow> Some L
   | Some i \<Rightarrow> (case modules L ! i of
       None \<Rightarrow> None
     | Some lm \<Rightarrow> Some ((closeLibrary (lm_handle lm) L)\<lparr>modules := (modules L)[i := None]\<rparr>)))"

text \<open>The module's \<open>init\<close> is given the module object and the heap. The count of \<open>exports\<close> is raised twice, for the value read
  and for the value returned.\<close>

definition initializeModule :: "module_info option \<Rightarrow> (nat \<Rightarrow> ObjectCount.heap \<Rightarrow> int \<times> ObjectCount.heap) \<Rightarrow> nat
    \<Rightarrow> ObjectCount.heap \<Rightarrow> jsv \<times> ObjectCount.heap" where
  "initializeModule info init m h =
     (if (case info of None \<Rightarrow> True | Some i \<Rightarrow> \<not> has_init i) then (JException [], h)
      else (case init m h of (res, h1) \<Rightarrow>
        if res \<noteq> 0 then (JException [], h1)
        else (case js_get m ''exports'' h1 of (ex, h2) \<Rightarrow>
          if is_exception ex then (JException [], h2) else (ex, js_dup ex h2))))"

definition getLibraryExtension :: string where
  "getLibraryExtension = ''.so''"

definition getLibraryPrefix :: string where
  "getLibraryPrefix = ''lib''"

section \<open>NativeModuleWrapper\<close>

text \<open>The function that \<open>wrapNativeFunction\<close> makes, by whether the context has its wrapper when it is called.\<close>

datatype wrapped = Wrapped_undefined | Wrapped_throw string

definition wrapped_call :: "bool \<Rightarrow> wrapped" where
  "wrapped_call opaque = (if opaque then Wrapped_undefined else Wrapped_throw ''JSContextWrapper not found'')"

definition wrapNativeFunction :: "'f \<Rightarrow> bool \<Rightarrow> string + (bool \<Rightarrow> wrapped)" where
  "wrapNativeFunction func opaque = (if \<not> opaque then Inl ''JSContextWrapper not found'' else Inr wrapped_call)"

text \<open>A native function returns an object or throws.\<close>

datatype 'p native_outcome = Returned 'p | Std_exception string | Other_exception

datatype 'd native_result = Native_value "'d jstree" | Native_error string | Native_type_error string

definition convertArgumentsToProtoList :: "nat \<Rightarrow> ('c, 'm, 'd, 'p) engine \<Rightarrow> 64 word \<Rightarrow> 'd jsval list \<Rightarrow> 'c gc_state
    \<Rightarrow> ('c gc_state \<times> 'p list) outcome" where
  "convertArgumentsToProtoList n X ctx args s = bridge_all n X ctx args s"

definition convertArgumentsToKeywordParams :: "'d jsval list \<Rightarrow> (nat \<times> 'p) list" where
  "convertArgumentsToKeywordParams args = []"

definition callNativeFunction :: "nat \<Rightarrow> ('c, 'm, 'd, 'p) engine \<Rightarrow> 64 word \<Rightarrow> ('p \<Rightarrow> 'p list \<Rightarrow> (nat \<times> 'p) list \<Rightarrow> 'p native_outcome)
    \<Rightarrow> 'd jsval \<Rightarrow> 'd jsval list \<Rightarrow> 'c gc_state \<Rightarrow> ('c gc_state \<times> 'd native_result) outcome" where
  "callNativeFunction n X ctx func this args s =
     outcome_bind (bridge_from n X ctx this s) (\<lambda>(s1, self).
       outcome_bind (convertArgumentsToProtoList n X ctx args s1) (\<lambda>(s2, ps).
         (case func self ps (convertArgumentsToKeywordParams args) of
            Returned r \<Rightarrow> (case toJS n (br X) r of None \<Rightarrow> Out_of_depth | Some t \<Rightarrow> Returns (s2, Native_value t))
          | Std_exception e \<Rightarrow> Returns (s2, Native_error (''Native module error: '' @ e))
          | Other_exception \<Rightarrow> Returns (s2, Native_type_error ''Unknown exception in native function''))))"

text \<open>The error object and its message, on the counted heap: the property takes the reference, which is then
  given back once more.\<close>

definition handleNativeException :: "nat \<Rightarrow> ObjectCount.heap \<Rightarrow> jsv \<times> ObjectCount.heap" where
  "handleNativeException n h =
     (let (e, h) = js_new h; (m, h) = js_new h; h = js_set n e ''message'' (JObject m) h
      in (JObject e, js_free n (JObject m) h))"

section \<open>Every open library belongs to a module\<close>

inductive loader_step :: "linker \<Rightarrow> loader \<Rightarrow> loader \<Rightarrow> bool" for E where
  loads: "loader_step E L (snd (load E path L))"
| unloads: "i < length (modules L) \<Longrightarrow> unload (Some i) L = Some M \<Longrightarrow> loader_step E L M"

definition loader_start :: loader where
  "loader_start = \<lparr>open_handles = [], modules = [], load_errors = []\<rparr>"

fun live_handles :: "loaded_module option list \<Rightarrow> nat multiset" where
  "live_handles [] = {#}"
| "live_handles (None # ms) = live_handles ms"
| "live_handles (Some lm # ms) = add_mset (lm_handle lm) (live_handles ms)"

definition loader_inv :: "loader \<Rightarrow> bool" where
  "loader_inv L \<longleftrightarrow> mset (open_handles L) = live_handles (modules L)
     \<and> list_all (\<lambda>m. case m of None \<Rightarrow> True | Some lm \<Rightarrow> validateABI (Some (lm_info lm))) (modules L)"

lemma live_handles_append: "live_handles (ms @ ns) = live_handles ms + live_handles ns"
  by (induction ms rule: live_handles.induct) simp_all

lemma live_handles_nth: "i < length ms \<Longrightarrow> ms ! i = Some lm \<Longrightarrow> lm_handle lm \<in># live_handles ms"
proof (induction ms arbitrary: i rule: live_handles.induct)
  case (2 ms)
  then show ?case by (cases i) auto
next
  case (3 m ms)
  then show ?case by (cases i) auto
qed simp

lemma live_handles_delete:
  "i < length ms \<Longrightarrow> ms ! i = Some lm \<Longrightarrow> live_handles (ms[i := None]) = live_handles ms - {#lm_handle lm#}"
proof (induction ms arbitrary: i rule: live_handles.induct)
  case (2 ms)
  then show ?case by (cases i) auto
next
  case (3 m ms)
  then show ?case using live_handles_nth by (cases i) (auto simp: diff_union_swap)
qed simp

lemma load_effect:
  "snd (load E path L) = L\<lparr>load_errors := load_errors (snd (load E path L))\<rparr>
   \<or> (\<exists>h i. validateABI (Some i) \<and> snd (load E path L) =
      L\<lparr>open_handles := h # open_handles L, modules := modules L @ [Some \<lparr>lm_handle = h, lm_info = i, lm_path = path\<rparr>]\<rparr>)"
  by (auto simp: load_def openLibrary_def closeLibrary_def complain_def split: option.splits)

lemma loader_inv_step:
  assumes "loader_step E L M" and "loader_inv L"
  shows "loader_inv M"
  using assms
proof (induction rule: loader_step.induct)
  case (loads L path)
  from load_effect [of E path L] show ?case
  proof
    assume "snd (load E path L) = L\<lparr>load_errors := load_errors (snd (load E path L))\<rparr>"
    then obtain es where "snd (load E path L) = L\<lparr>load_errors := es\<rparr>" by blast
    with loads show ?thesis by (simp add: loader_inv_def)
  qed (use loads in \<open>auto simp: loader_inv_def live_handles_append\<close>)
next
  case (unloads i L M)
  then show ?case
    by (auto simp: loader_inv_def unload_def closeLibrary_def live_handles_delete list_all_length nth_list_update
        split: option.splits if_splits)
qed

lemma loader_inv_start: "loader_inv loader_start"
  by (simp add: loader_inv_def loader_start_def)

interpretation loader_system: transition_invariant "\<lambda>s. s = loader_start" "loader_step E" loader_inv
  for E
  by unfold_locales (auto intro: loader_inv_start loader_inv_step)

text \<open>The libraries that are open are those of the modules loaded and not unloaded, whatever libraries failed to load, and each
  of these modules has the right version, a name and an \<open>init\<close>.\<close>

theorem handles_match_modules:
  assumes "(loader_step E)\<^sup>*\<^sup>* loader_start L"
  shows "mset (open_handles L) = live_handles (modules L)
    \<and> list_all (\<lambda>m. case m of None \<Rightarrow> True | Some lm \<Rightarrow> validateABI (Some (lm_info lm))) (modules L)"
proof -
  have "loader_inv L" using assms by (rule loader_system.reachable_inv [OF _ refl])
  then show ?thesis by (simp add: loader_inv_def)
qed

section \<open>Counts\<close>

text \<open>One reference to the exports of a native module is never given back: the caller gets one, and the count
  grows by two.\<close>

lemma initializeModule_leaks:
  assumes "init m h = (0, h1)" and "prop_of h1 m ''exports'' = JObject a" and "a < length h1" and "has_init i"
  shows "\<exists>h2. initializeModule (Some i) init m h = (JObject a, h2) \<and> fst (h2 ! a) = fst (h1 ! a) + 2"
  using assms by (simp add: initializeModule_def js_get_def js_dup_def)

text \<open>The message of a native error is released while the error object still holds it.\<close>

lemma native_error_releases_message:
  "case handleNativeException (Suc n) h of (e, h') \<Rightarrow>
     e = JObject (length h) \<and> prop_of h' (length h) ''message'' = JObject (Suc (length h)) \<and> fst (h' ! Suc (length h)) = 0"
  using js_new_append [of h "[]"] js_new_append [of h "[_]"]
  by (simp add: handleNativeException_def Let_def js_set_new append_cells prop_of_def)

section \<open>Calls of native functions\<close>

lemma bridge_plain:
  "fromJS n (br X) (Engine.heap X) v [] = Some (p, []) \<Longrightarrow> bridge_from n X ctx v s = Returns (s, p)"
  by (simp add: bridge_from_def)

lemma bridge_all_plain:
  "list_all2 (\<lambda>v p. fromJS n (br X) (Engine.heap X) v [] = Some (p, [])) vs ps \<Longrightarrow> bridge_all n X ctx vs s = Returns (s, ps)"
  by (induction vs ps rule: list_all2_induct) (simp_all add: bridge_plain)

text \<open>A native function that returns one of its arguments gives JavaScript the image of that argument under the two
  conversions, when no value it is given has a function in it.\<close>

theorem native_call_returns_argument:
  assumes "proto_laws (br X)" and "heap_ok (br X) (Engine.heap X)" and "i < length vs" and "text_ok (vs ! i)"
    and "fromJS n (br X) (Engine.heap X) this [] = Some (self, [])"
    and "list_all2 (\<lambda>v p. fromJS n (br X) (Engine.heap X) v [] = Some (p, [])) vs ps"
  shows "callNativeFunction n X ctx (\<lambda>q qs kw. Returned (qs ! i)) this vs s
    = Returns (s, Native_value (shape n (br X) (Engine.heap X) (vs ! i)))"
proof -
  have "fromJS n (br X) (Engine.heap X) (vs ! i) [] = Some (ps ! i, [])"
    using list_all2_nthD [OF assms(6,3)] .
  from bridge_shape [OF assms(1,2,4) this]
  show ?thesis
    using bridge_plain [OF assms(5)] bridge_all_plain [OF assms(6)]
    by (simp add: callNativeFunction_def convertArgumentsToProtoList_def)
qed

text \<open>A wrapped function never calls the native one.\<close>

lemma wrapped_functions_do_nothing: "wrapNativeFunction f True = Inr g \<Longrightarrow> g True = Wrapped_undefined"
  by (auto simp: wrapNativeFunction_def wrapped_call_def)

definition example_linker :: linker where
  "example_linker = \<lparr>dlopen = (\<lambda>p. Some 5), dlerror = (\<lambda>p. []),
     dlsym = (\<lambda>h. Some \<lparr>abi_version = 1, info_name = Some ''m'', info_version = None, has_init = True, has_cleanup = False\<rparr>)\<rparr>"

lemma handles_match_modules_witness:
  "mset (open_handles (snd (load example_linker ''a.so'' loader_start))) = live_handles (modules (snd (load example_linker ''a.so'' loader_start)))
   \<and> open_handles (snd (load example_linker ''a.so'' loader_start)) = [5]"
proof -
  have "(loader_step example_linker)\<^sup>*\<^sup>* loader_start (snd (load example_linker ''a.so'' loader_start))"
    using loader_step.loads by blast
  from handles_match_modules [OF this] show ?thesis
    by (simp add: load_def openLibrary_def getSymbol_def validateABI_def example_linker_def loader_start_def)
qed

lemma native_call_returns_argument_witness:
  "callNativeFunction 1 example_engine 1 (\<lambda>q qs kw. Returned (qs ! 0)) JsUndefined [JsBool True] managed_state
    = Returns (managed_state, Native_value (TBool True))"
proof -
  have l: "proto_laws (br example_engine)" "heap_ok (br example_engine) (Engine.heap example_engine)"
    by (simp_all add: example_engine_def example_bridge_laws heap_ok_def js_children_def)
  have a: "0 < length [JsBool True :: int jsval]" "text_ok ([JsBool True :: int jsval] ! 0)" by simp_all
  have b: "fromJS 1 (br example_engine) (Engine.heap example_engine) JsUndefined [] = Some (PNone, [])"
    by (simp add: example_engine_def example_bridge_def fromJS.simps)
  have c: "list_all2 (\<lambda>v p. fromJS 1 (br example_engine) (Engine.heap example_engine) v [] = Some (p, [])) [JsBool True] [PBool True]"
    by (simp add: example_engine_def example_bridge_def fromJS.simps)
  from native_call_returns_argument [OF l a b c, of 1 managed_state] show ?thesis by simp
qed

end
