(* ===== verification/Startup.thy ===== *)
theory Startup
  imports CommonJs Cli
begin

text \<open>
  Models what the program puts on the global object before it runs anything: the \<open>init\<close> functions of the
  modules and the order in which \<open>main\<close> calls them, for a script and for the REPL.

  \<^item> \<open>Native\<close> is a native function with the length it is declared with, \<open>Constructor\<close> one with its length,
    the class whose prototype it gives and its own properties. A class has the properties of its prototype.
  \<^item> Setting a property that exists keeps its place. Making a class again leaves it and sets its prototype.
  \<^item> The arguments of the process and the three variables of its environment that are read are arguments.
\<close>

datatype api =
    Native nat
  | Constructor nat string "(string \<times> api) list"
  | Function_object nat "(string \<times> api) list"
  | Object "(string \<times> api) list"
  | Strings "string list"
  | Text string

record startup =
  classes :: "(string \<times> (string \<times> api) list) list"
  globals :: "(string \<times> api) list"

record process_env =
  env_PATH :: "string option"
  env_HOME :: "string option"
  env_USER :: "string option"

definition add_class :: "string \<Rightarrow> (string \<times> api) list \<Rightarrow> startup \<Rightarrow> startup" where
  "add_class name ps s = s\<lparr>classes := AList.update name ps (classes s)\<rparr>"

definition set_global :: "string \<Rightarrow> api \<Rightarrow> startup \<Rightarrow> startup" where
  "set_global name v s = s\<lparr>globals := AList.update name v (globals s)\<rparr>"

section \<open>The modules\<close>

definition Console_init :: "startup \<Rightarrow> startup" where
  "Console_init s =
     set_global ''console'' (Object [(''log'', Native 1), (''error'', Native 1), (''warn'', Native 1)]) s"

definition Deferred_init :: "startup \<Rightarrow> startup" where
  "Deferred_init s =
     set_global ''Deferred'' (Constructor 1 ''Deferred'' [])
    (add_class ''Deferred'' [(''then'', Native 1), (''catch'', Native 1)] s)"

definition IOModule_init :: "startup \<Rightarrow> startup" where
  "IOModule_init s =
     set_global ''io'' (Object [(''readFile'', Native 1), (''writeFile'', Native 2), (''readFileAsync'', Native 1),
      (''writeFileAsync'', Native 2)]) s"

definition ProtoCoreModule_init :: "startup \<Rightarrow> startup" where
  "ProtoCoreModule_init s =
     set_global ''protoCore'' (Object [(''Set'', Constructor 1 ''ProtoSet'' []), (''Multiset'', Constructor 1 ''ProtoMultiset'' []),
      (''SparseList'', Constructor 0 ''ProtoSparseList'' []), (''Tuple'', Native 1),
      (''ImmutableObject'', Native 1), (''MutableObject'', Native 1), (''isImmutable'', Native 1),
      (''makeImmutable'', Native 1), (''makeMutable'', Native 1)])
    (add_class ''ProtoSparseList'' [(''set'', Native 2), (''get'', Native 1), (''has'', Native 1), (''size'', Native 0)]
    (add_class ''ProtoMultiset'' [(''add'', Native 1), (''count'', Native 1), (''remove'', Native 1), (''size'', Native 0)]
    (add_class ''ProtoSet'' [(''add'', Native 1), (''has'', Native 1), (''remove'', Native 1), (''size'', Native 0)] s)))"

definition PathModule_init :: "startup \<Rightarrow> startup" where
  "PathModule_init s =
     set_global ''path'' (Object [(''join'', Native 1), (''resolve'', Native 1), (''normalize'', Native 1), (''dirname'', Native 1),
      (''basename'', Native 1), (''extname'', Native 1), (''isAbsolute'', Native 1), (''relative'', Native 2)]) s"

definition FSModule_init :: "startup \<Rightarrow> startup" where
  "FSModule_init s =
     set_global ''fs'' (Object [
      (''promises'', Object [(''readFile'', Native 1), (''writeFile'', Native 2), (''readdir'', Native 1), (''mkdir'', Native 1), (''stat'', Native 1)]),
      (''readFileSync'', Native 1), (''writeFileSync'', Native 2), (''readdirSync'', Native 1),
      (''mkdirSync'', Native 1), (''statSync'', Native 1), (''unlinkSync'', Native 1),
      (''rmdirSync'', Native 1), (''renameSync'', Native 2), (''copyFileSync'', Native 2),
      (''createReadStream'', Native 1), (''createWriteStream'', Native 1)]) s"

definition URLModule_init :: "startup \<Rightarrow> startup" where
  "URLModule_init s =
     set_global ''url'' (Object [(''URL'', Constructor 1 ''URL'' [])])
    (add_class ''URL'' [(''toString'', Native 0)] s)"

definition HTTPModule_init :: "startup \<Rightarrow> startup" where
  "HTTPModule_init s =
     set_global ''http'' (Object [(''createServer'', Native 1), (''request'', Native 1)])
    (add_class ''ClientRequest'' [(''write'', Native 1), (''end'', Native 1)]
    (add_class ''ServerResponse'' [(''writeHead'', Native 2), (''write'', Native 1), (''end'', Native 1)]
    (add_class ''IncomingMessage'' [(''getHeader'', Native 1)]
    (add_class ''HTTPServer'' [(''listen'', Native 1), (''close'', Native 0)] s))))"

definition EventsModule_init :: "startup \<Rightarrow> startup" where
  "EventsModule_init s =
     set_global ''events'' (Object [(''EventEmitter'', Constructor 0 ''EventEmitter'' [])])
    (add_class ''EventEmitter'' [(''on'', Native 2), (''once'', Native 2), (''emit'', Native 1), (''removeListener'', Native 2)] s)"

definition StreamModule_init :: "startup \<Rightarrow> startup" where
  "StreamModule_init s =
     set_global ''stream'' (Object [(''Readable'', Constructor 0 ''ReadableStream'' []), (''Writable'', Constructor 0 ''WritableStream'' []),
      (''Duplex'', Constructor 0 ''DuplexStream'' []), (''Transform'', Constructor 0 ''TransformStream'' []),
      (''PassThrough'', Constructor 0 [] [])])
    (add_class ''TransformStream'' [(''read'', Native 1), (''write'', Native 1)]
    (add_class ''DuplexStream'' [(''read'', Native 1), (''write'', Native 1)]
    (add_class ''WritableStream'' [(''write'', Native 1), (''end'', Native 1)]
    (add_class ''ReadableStream'' [(''read'', Native 1), (''pipe'', Native 1)] s))))"

definition UtilModule_init :: "startup \<Rightarrow> startup" where
  "UtilModule_init s =
     set_global ''util'' (Object [(''promisify'', Native 1),
      (''types'', Object [(''isArray'', Native 1), (''isString'', Native 1), (''isNumber'', Native 1), (''isObject'', Native 1), (''isFunction'', Native 1), (''isDate'', Native 1)]),
      (''inspect'', Native 1), (''format'', Native 1)]) s"

definition CryptoModule_init :: "startup \<Rightarrow> startup" where
  "CryptoModule_init s =
     set_global ''crypto'' (Object [(''createHash'', Native 1), (''randomBytes'', Native 1), (''createCipher'', Native 2),
      (''createDecipher'', Native 2), (''createCipheriv'', Native 3), (''createDecipheriv'', Native 3),
      (''createSign'', Native 1), (''createVerify'', Native 1), (''generateKeyPair'', Native 3)])
    (add_class ''Verify'' [(''update'', Native 1), (''verify'', Native 1)]
    (add_class ''Sign'' [(''update'', Native 1), (''sign'', Native 1)]
    (add_class ''Cipher'' [(''update'', Native 1), (''final'', Native 1)]
    (add_class ''Hash'' [(''update'', Native 1), (''digest'', Native 1)] s))))"

definition BufferModule_init :: "startup \<Rightarrow> startup" where
  "BufferModule_init s =
     set_global ''Buffer'' (Constructor 2 ''Buffer'' [(''from'', Native 2), (''alloc'', Native 3), (''concat'', Native 2), (''isBuffer'', Native 1)])
    (add_class ''Buffer'' [(''toString'', Native 3), (''slice'', Native 2), (''copy'', Native 4), (''fill'', Native 4),
      (''indexOf'', Native 3), (''includes'', Native 2)] s)"

definition NetModule_init :: "startup \<Rightarrow> startup" where
  "NetModule_init s =
     set_global ''net'' (Object [(''createServer'', Native 1), (''createConnection'', Native 1)])
    (add_class ''NetSocket'' [(''connect'', Native 2), (''write'', Native 1), (''end'', Native 1), (''destroy'', Native 0),
      (''address'', Native 0)]
    (add_class ''NetServer'' [(''listen'', Native 1), (''close'', Native 0), (''address'', Native 0)] s))"

definition WorkerThreadsModule_init :: "startup \<Rightarrow> startup" where
  "WorkerThreadsModule_init s =
     set_global ''worker_threads'' (Object [(''Worker'', Constructor 1 ''Worker'' []), (''isMainThread'', Native 0), (''parentPort'', Native 0),
      (''workerData'', Native 0)])
    (add_class ''Worker'' [(''postMessage'', Native 1), (''terminate'', Native 0)] s)"

definition ClusterModule_init :: "startup \<Rightarrow> startup" where
  "ClusterModule_init s =
     set_global ''cluster'' (Object [(''setupMaster'', Native 1), (''fork'', Native 1), (''isMaster'', Native 0), (''isWorker'', Native 0)])
    (add_class ''ClusterWorker'' [(''send'', Native 1), (''disconnect'', Native 0), (''kill'', Native 1)] s)"

definition DgramModule_init :: "startup \<Rightarrow> startup" where
  "DgramModule_init s =
     set_global ''dgram'' (Object [(''createSocket'', Native 1)])
    (add_class ''DgramSocket'' [(''bind'', Native 1), (''send'', Native 1), (''close'', Native 0), (''addMembership'', Native 1),
      (''setBroadcast'', Native 1), (''address'', Native 0)] s)"

definition ChildProcessModule_init :: "startup \<Rightarrow> startup" where
  "ChildProcessModule_init s =
     set_global ''child_process'' (Object [(''spawn'', Native 2), (''exec'', Native 2), (''execFile'', Native 2), (''fork'', Native 1)])
    (add_class ''ChildProcess'' [(''kill'', Native 1), (''send'', Native 1)] s)"

definition DNSModule_init :: "startup \<Rightarrow> startup" where
  "DNSModule_init s =
     set_global ''dns'' (Object [(''lookup'', Native 2), (''resolve'', Native 2), (''resolve4'', Native 1), (''resolve6'', Native 1),
      (''reverse'', Native 1), (''lookupService'', Native 2)]) s"

definition MemoryAnalyzer_init :: "startup \<Rightarrow> startup" where
  "MemoryAnalyzer_init s =
     set_global ''memory'' (Object [(''takeHeapSnapshot'', Native 0), (''detectLeaks'', Native 2), (''exportSnapshot'', Native 2),
      (''getMemoryUsage'', Native 0), (''startAllocationTracking'', Native 0),
      (''stopAllocationTracking'', Native 0)]) s"

definition Profiler_init :: "startup \<Rightarrow> startup" where
  "Profiler_init s =
     set_global ''profiler'' (Object [(''startProfiling'', Native 0), (''stopProfiling'', Native 0), (''getProfile'', Native 0),
      (''startMemoryProfiling'', Native 0), (''stopMemoryProfiling'', Native 0),
      (''getMemoryProfile'', Native 0)]) s"

definition IntegratedDebugger_init :: "startup \<Rightarrow> startup" where
  "IntegratedDebugger_init s =
     set_global ''debugger'' (Object [(''startCDPServer'', Native 1), (''stopCDPServer'', Native 0), (''setBreakpoint'', Native 3),
      (''removeBreakpoint'', Native 1), (''getCallStack'', Native 0), (''evaluate'', Native 1),
      (''stepOver'', Native 0), (''stepInto'', Native 0), (''stepOut'', Native 0), (''continue'', Native 0)]) s"

definition CommonJSLoader_init :: "startup \<Rightarrow> startup" where
  "CommonJSLoader_init s =
     set_global ''require'' (Function_object 1 [(''resolve'', Native 1), (''cache'', Object [])]) s"

definition env_object :: "process_env \<Rightarrow> (string \<times> api) list" where
  "env_object penv =
     concat (map (\<lambda>(k, v). case v of None \<Rightarrow> [] | Some t \<Rightarrow> [(k, Text t)])
       [(''PATH'', env_PATH penv), (''HOME'', env_HOME penv), (''USER'', env_USER penv)])"

definition ProcessModule_init :: "string list \<Rightarrow> process_env \<Rightarrow> startup \<Rightarrow> startup" where
  "ProcessModule_init argv penv s =
     set_global ''process'' (Object [(''argv'', Strings argv), (''env'', Object (env_object penv)), (''cwd'', Native 0),
      (''platform'', Native 0), (''arch'', Native 0), (''exit'', Native 1)]) s"

text \<open>The visual profiler adds to the profiler, if there is one.\<close>

definition VisualProfiler_init :: "startup \<Rightarrow> startup" where
  "VisualProfiler_init s = (case map_of (globals s) ''profiler'' of
     Some (Object ps) \<Rightarrow> set_global ''profiler'' (Object (AList.update ''generateHTMLReport'' (Native 1)
       (AList.update ''exportProfile'' (Native 1) ps))) s
   | _ \<Rightarrow> s)"

section \<open>The program\<close>

definition main_startup :: "string list \<Rightarrow> process_env \<Rightarrow> startup" where
  "main_startup argv penv = fold (\<lambda>f s. f s)
      [Console_init, Deferred_init, IOModule_init, ProtoCoreModule_init, ProcessModule_init argv penv,
       CommonJSLoader_init, PathModule_init, FSModule_init, URLModule_init, HTTPModule_init, EventsModule_init,
       StreamModule_init, UtilModule_init, CryptoModule_init, BufferModule_init, NetModule_init,
       WorkerThreadsModule_init, ClusterModule_init, DgramModule_init, ChildProcessModule_init, DNSModule_init,
       MemoryAnalyzer_init, Profiler_init, VisualProfiler_init, IntegratedDebugger_init] \<lparr>classes = [], globals = []\<rparr>"

definition repl_startup :: "string list \<Rightarrow> process_env \<Rightarrow> startup" where
  "repl_startup argv penv = fold (\<lambda>f s. f s)
      [Console_init, Deferred_init, IOModule_init, ProtoCoreModule_init, ProcessModule_init argv penv,
       CommonJSLoader_init, PathModule_init, FSModule_init, URLModule_init, HTTPModule_init, EventsModule_init,
       StreamModule_init, UtilModule_init, CryptoModule_init, BufferModule_init, NetModule_init,
       WorkerThreadsModule_init, ClusterModule_init, DgramModule_init, ChildProcessModule_init, DNSModule_init,
       ChildProcessModule_init, MemoryAnalyzer_init, Profiler_init, VisualProfiler_init, IntegratedDebugger_init] \<lparr>classes = [], globals = []\<rparr>"

text \<open>A script also gets its path and its directory.\<close>

definition script_startup :: "string list \<Rightarrow> process_env \<Rightarrow> string \<Rightarrow> startup" where
  "script_startup argv penv file_name =
     set_global ''__dirname'' (Text (script_dirname file_name))
       (set_global ''__filename'' (Text file_name) (main_startup argv penv))"

section \<open>What a program finds\<close>

lemmas startup_inits = Console_init_def Deferred_init_def IOModule_init_def ProtoCoreModule_init_def PathModule_init_def
  FSModule_init_def URLModule_init_def HTTPModule_init_def EventsModule_init_def StreamModule_init_def
  UtilModule_init_def CryptoModule_init_def BufferModule_init_def NetModule_init_def
  WorkerThreadsModule_init_def ClusterModule_init_def DgramModule_init_def ChildProcessModule_init_def
  DNSModule_init_def MemoryAnalyzer_init_def Profiler_init_def IntegratedDebugger_init_def
  CommonJSLoader_init_def ProcessModule_init_def

text \<open>The names on the global object.\<close>

definition add_new :: "string \<Rightarrow> string list \<Rightarrow> string list" where
  "add_new k ks = (if k \<in> set ks then ks else ks @ [k])"

lemma names_set_global: "map fst (globals (set_global k v s)) = add_new k (map fst (globals s))"
proof -
  have "map fst (AList.update k v ps) = add_new k (map fst ps)" for ps
    by (induction ps) (auto simp: add_new_def)
  then show ?thesis by (simp add: set_global_def)
qed

lemma map_set_global: "map_of (globals (set_global k v s)) j = (if j = k then Some v else map_of (globals s) j)"
  by (simp add: set_global_def update_conv')

lemma globals_add_class [simp]: "globals (add_class c ps s) = globals s"
  by (simp add: add_class_def)

lemma names_init:
  shows "map fst (globals (Console_init s)) = add_new ''console'' (map fst (globals s))"
    "map fst (globals (Deferred_init s)) = add_new ''Deferred'' (map fst (globals s))"
    "map fst (globals (IOModule_init s)) = add_new ''io'' (map fst (globals s))"
    "map fst (globals (ProtoCoreModule_init s)) = add_new ''protoCore'' (map fst (globals s))"
    "map fst (globals (PathModule_init s)) = add_new ''path'' (map fst (globals s))"
    "map fst (globals (FSModule_init s)) = add_new ''fs'' (map fst (globals s))"
    "map fst (globals (URLModule_init s)) = add_new ''url'' (map fst (globals s))"
    "map fst (globals (HTTPModule_init s)) = add_new ''http'' (map fst (globals s))"
    "map fst (globals (EventsModule_init s)) = add_new ''events'' (map fst (globals s))"
    "map fst (globals (StreamModule_init s)) = add_new ''stream'' (map fst (globals s))"
    "map fst (globals (UtilModule_init s)) = add_new ''util'' (map fst (globals s))"
    "map fst (globals (CryptoModule_init s)) = add_new ''crypto'' (map fst (globals s))"
    "map fst (globals (BufferModule_init s)) = add_new ''Buffer'' (map fst (globals s))"
    "map fst (globals (NetModule_init s)) = add_new ''net'' (map fst (globals s))"
    "map fst (globals (WorkerThreadsModule_init s)) = add_new ''worker_threads'' (map fst (globals s))"
    "map fst (globals (ClusterModule_init s)) = add_new ''cluster'' (map fst (globals s))"
    "map fst (globals (DgramModule_init s)) = add_new ''dgram'' (map fst (globals s))"
    "map fst (globals (ChildProcessModule_init s)) = add_new ''child_process'' (map fst (globals s))"
    "map fst (globals (DNSModule_init s)) = add_new ''dns'' (map fst (globals s))"
    "map fst (globals (MemoryAnalyzer_init s)) = add_new ''memory'' (map fst (globals s))"
    "map fst (globals (Profiler_init s)) = add_new ''profiler'' (map fst (globals s))"
    "map fst (globals (IntegratedDebugger_init s)) = add_new ''debugger'' (map fst (globals s))"
    "map fst (globals (CommonJSLoader_init s)) = add_new ''require'' (map fst (globals s))"
    "map fst (globals (ProcessModule_init argv penv s)) = add_new ''process'' (map fst (globals s))"
  by (simp_all only: startup_inits names_set_global globals_add_class)

lemma names_visual: "map fst (globals (VisualProfiler_init s)) = map fst (globals s)"
proof (cases "map_of (globals s) ''profiler''")
  case (Some v)
  then have "''profiler'' \<in> set (map fst (globals s))" by (metis list.set_map map_of_SomeD fst_conv image_eqI)
  then have "map fst (globals (set_global ''profiler'' w s)) = map fst (globals s)" for w
    unfolding names_set_global add_new_def by (rule if_P)
  then show ?thesis using Some by (cases v) (simp_all only: VisualProfiler_init_def option.case api.case)
qed (simp add: VisualProfiler_init_def)

definition start_names :: "string list" where
  "start_names = [''console'', ''Deferred'', ''io'', ''protoCore'', ''process'', ''require'', ''path'', ''fs'', ''url'', ''http'',
     ''events'', ''stream'', ''util'', ''crypto'', ''Buffer'', ''net'', ''worker_threads'', ''cluster'', ''dgram'',
     ''child_process'', ''dns'', ''memory'', ''profiler'', ''debugger'']"

lemma main_names: "map fst (globals (main_startup argv penv)) = start_names"
  unfolding main_startup_def fold_simps comp_def id_def names_init names_visual
  by (simp add: add_new_def start_names_def)

lemma script_names: "map fst (globals (script_startup argv penv f)) = start_names @ [''__filename'', ''__dirname'']"
  unfolding script_startup_def names_set_global main_names by (simp add: add_new_def start_names_def)

text \<open>The REPL and a script start with the same objects; making the child processes twice changes nothing.\<close>

lemma update_same: "map_of ps k = Some v \<Longrightarrow> AList.update k v ps = ps"
  by (induction ps) auto

lemma child_process_twice:
  "ChildProcessModule_init (DNSModule_init (ChildProcessModule_init s)) = DNSModule_init (ChildProcessModule_init s)"
  unfolding ChildProcessModule_init_def DNSModule_init_def set_global_def add_class_def
  by (simp add: update_same update_conv')

lemma repl_same_start: "repl_startup argv penv = main_startup argv penv"
  unfolding repl_startup_def main_startup_def fold_simps comp_def id_def child_process_twice ..

text \<open>The global object that the loader of modules sees has these properties.\<close>

definition serves :: "cjs_env \<Rightarrow> startup \<Rightarrow> bool" where
  "serves env s \<longleftrightarrow> list_all (\<lambda>(n, v). global env n \<noteq> JUndef) (globals s)"

lemma serves_names: "serves env s \<longleftrightarrow> list_all (\<lambda>n. global env n \<noteq> JUndef) (map fst (globals s))"
  by (simp add: serves_def list_all_iff split_beta)

lemma start_names_bare: "m \<in> set start_names \<Longrightarrow> isBareSpecifier m \<and> m \<noteq> ''buffer''"
  by (auto simp: start_names_def isBareSpecifier_def)


text \<open>There is no global \<open>EventEmitter\<close>, which the constructors of streams and sockets look for; the flags of \<open>cluster\<close>
  and \<open>worker_threads\<close> and the platform are functions, which count as true.\<close>

lemma start_gaps:
  "''EventEmitter'' \<notin> set (map fst (globals (script_startup argv penv f)))"
  "map_of (globals (main_startup argv penv)) ''cluster'' = Some (Object [(''setupMaster'', Native 1), (''fork'', Native 1),
     (''isMaster'', Native 0), (''isWorker'', Native 0)])"
proof -
  have v: "map_of (globals (VisualProfiler_init s)) ''cluster'' = map_of (globals s) ''cluster''" for s
    by (simp add: VisualProfiler_init_def map_set_global split: option.split api.split)
  show "map_of (globals (main_startup argv penv)) ''cluster'' = Some (Object [(''setupMaster'', Native 1), (''fork'', Native 1),
     (''isMaster'', Native 0), (''isWorker'', Native 0)])"
    unfolding main_startup_def fold_simps comp_def id_def by (simp add: v startup_inits map_set_global)
qed (simp add: script_names start_names_def)

definition example_cjs :: cjs_env where
  "example_cjs = \<lparr>fs = \<lparr>is_file = (\<lambda>p. False), is_dir = (\<lambda>p. False), canonical = (\<lambda>p. None), read_file = (\<lambda>p. None)\<rparr>,
     global = (\<lambda>n. JFunction n), to_cstring = (\<lambda>v. None), has_space = False, import_module = (\<lambda>m. None),
     library_load = (\<lambda>p. False), library_init = (\<lambda>p m. JUndef), script = (\<lambda>c. None)\<rparr>"


end
