(* ===== verification/FsStreams.thy ===== *)
theory FsStreams
  imports Startup Streams
begin

text \<open>
  Models \<open>createReadStream\<close> and \<open>createWriteStream\<close> of \<open>src/modules/fs/FSModule.cpp\<close>, over the global object of
  \<open>Startup\<close> and the streams of \<open>Streams\<close>.

  \<^item> The path is \<open>None\<close> without an argument, and \<open>Some None\<close> when the argument has no C string. The property
    \<open>_path\<close> of the stream is part of the result.
  \<^item> A constructor that is not one of the stream module's is the program's own: \<open>By_program\<close>.
\<close>

datatype file_stream = FThrow string | FException | Stream_object nat string | Plain_object string | By_program string

text \<open>The constructor: a global of that name, or the property of the stream module.\<close>

definition stream_constructor :: "string \<Rightarrow> string \<Rightarrow> startup \<Rightarrow> api option" where
  "stream_constructor global_name property s = (case map_of (globals s) global_name of
     Some c \<Rightarrow> Some c
   | None \<Rightarrow> (case map_of (globals s) ''stream'' of Some (Object ps) \<Rightarrow> map_of ps property | _ \<Rightarrow> None))"

definition is_callable :: "api \<Rightarrow> bool" where
  "is_callable a = (case a of Native n \<Rightarrow> True | Constructor n c ps \<Rightarrow> True | Function_object n ps \<Rightarrow> True | _ \<Rightarrow> False)"

definition made :: "stream_heap \<times> stream_result \<Rightarrow> string \<Rightarrow> file_stream \<times> stream_heap" where
  "made r p = (case r of (h, SObject i) \<Rightarrow> (Stream_object i p, h) | (h, _) \<Rightarrow> (By_program p, h))"

definition construct :: "bool \<Rightarrow> api \<Rightarrow> string \<Rightarrow> stream_heap \<Rightarrow> file_stream \<times> stream_heap" where
  "construct em c p h = (case c of
     Constructor n cls ps \<Rightarrow>
       if cls = ''ReadableStream'' then made (ReadableStreamConstructor h) p
       else if cls = ''WritableStream'' then made (WritableStreamConstructor em h) p
       else (By_program p, h)
   | _ \<Rightarrow> (By_program p, h))"

definition file_stream :: "string \<Rightarrow> string \<Rightarrow> string \<Rightarrow> bool \<Rightarrow> startup \<Rightarrow> string option option \<Rightarrow> stream_heap
    \<Rightarrow> file_stream \<times> stream_heap" where
  "file_stream message global_name property em s arg h = (case arg of
     None \<Rightarrow> (FThrow message, h)
   | Some None \<Rightarrow> (FException, h)
   | Some (Some p) \<Rightarrow> (case stream_constructor global_name property s of
       Some c \<Rightarrow> if is_callable c then construct em c p h else (Plain_object p, h)
     | None \<Rightarrow> (Plain_object p, h)))"

definition createReadStream :: "bool \<Rightarrow> startup \<Rightarrow> string option option \<Rightarrow> stream_heap \<Rightarrow> file_stream \<times> stream_heap" where
  "createReadStream = file_stream ''createReadStream expects a file path'' ''ReadableStream'' ''Readable''"

definition createWriteStream :: "bool \<Rightarrow> startup \<Rightarrow> string option option \<Rightarrow> stream_heap \<Rightarrow> file_stream \<times> stream_heap" where
  "createWriteStream = file_stream ''createWriteStream expects a file path'' ''WritableStream'' ''Writable''"

section \<open>No file is read\<close>

lemma stream_module: "map_of (globals (script_startup argv penv f)) ''stream'' =
  Some (Object [(''Readable'', Constructor 0 ''ReadableStream'' []), (''Writable'', Constructor 0 ''WritableStream'' []),
      (''Duplex'', Constructor 0 ''DuplexStream'' []), (''Transform'', Constructor 0 ''TransformStream'' []),
      (''PassThrough'', Constructor 0 [] [])])"
proof -
  have v: "map_of (globals (VisualProfiler_init s)) ''stream'' = map_of (globals s) ''stream''" for s
    by (simp add: VisualProfiler_init_def map_set_global split: option.split api.split)
  show ?thesis
    unfolding script_startup_def main_startup_def fold_simps comp_def id_def by (simp add: v startup_inits map_set_global)
qed

lemma no_stream_globals:
  "map_of (globals (script_startup argv penv f)) ''ReadableStream'' = None"
  "map_of (globals (script_startup argv penv f)) ''WritableStream'' = None"
proof -
  have "''ReadableStream'' \<notin> fst ` set (globals (script_startup argv penv f))"
    "''WritableStream'' \<notin> fst ` set (globals (script_startup argv penv f))"
    unfolding set_map [symmetric] script_names by (simp_all add: start_names_def)
  then show "map_of (globals (script_startup argv penv f)) ''ReadableStream'' = None"
    "map_of (globals (script_startup argv penv f)) ''WritableStream'' = None"
    by (simp_all add: map_of_eq_None_iff)
qed

lemma createReadStream_result:
  "createReadStream em (script_startup argv penv f) (Some (Some p)) h = (Stream_object (length h) p, h @ [Readable ReadableStreamData])"
  by (simp add: createReadStream_def file_stream_def stream_constructor_def no_stream_globals stream_module is_callable_def
      construct_def made_def ReadableStreamConstructor_def)

lemma createWriteStream_result:
  "createWriteStream em (script_startup argv penv f) (Some (Some p)) h
    = (Stream_object (length h) p, h @ [Writable (WritableStreamData em)])"
  by (simp add: createWriteStream_def file_stream_def stream_constructor_def no_stream_globals stream_module is_callable_def
      construct_def made_def WritableStreamConstructor_def)

text \<open>The stream of a file is an empty stream: whatever a program does with it, no read gives a byte of the file, or
  its end.\<close>

theorem file_streams_never_deliver:
  "case createReadStream em (script_startup argv penv f) (Some (Some p)) [] of
     (r, h) \<Rightarrow> r = Stream_object 0 p \<and> list_all undelivered (stream_run cs h)"
  by (simp add: createReadStream_result ReadableStreamData_def idle_run)

end
