(* ===== verification/Lifetimes.thy ===== *)
theory Lifetimes
  imports Prelude
begin

text \<open>
  Models when the native data behind the objects of the modules is given back: the destructors of the data
  structures below \<open>src/modules/\<close>, and the finalizers that QuickJS calls when the count of an object reaches 0.

  \<^item> A destructor is the list of what it releases, in order. A descriptor is open when it is not negative.
  \<^item> A value that the data holds is the object itself (\<open>Self\<close>) or another one; \<open>None\<close> is \<open>undefined\<close>.
  \<^item> \<open>life_step\<close> follows one object: the program copies and drops its references, and the object is finalized when
    neither the program nor its own data holds one. The classes have no mark function, so the cycle collector does not see
    what their data holds.
\<close>

datatype jsref = Self | Other nat

datatype release =
    Close int | Join | Stop | Free jsref | Free_context | Free_runtime | Erase_pid int | Free_digest | Free_key
  | Free_memory

definition close_open :: "int list \<Rightarrow> release list" where
  "close_open fds = map Close (filter (\<lambda>fd. fd \<ge> 0) fds)"

definition join_if :: "bool \<Rightarrow> release list" where
  "join_if joinable = (if joinable then [Join] else [])"

definition free_value :: "jsref option \<Rightarrow> release list" where
  "free_value v = (case v of None \<Rightarrow> [] | Some r \<Rightarrow> [Free r])"

section \<open>Processes and threads\<close>

record child_owner =
  co_stdout_thread :: bool
  co_stderr_thread :: bool
  co_fds :: "int list"
  co_object :: "jsref option"

text \<open>The data that \<open>spawnProcess\<close> makes holds a reference to its object. The six descriptors are those of the
  three pipes.\<close>

definition spawned_child :: "int list \<Rightarrow> child_owner" where
  "spawned_child fds = \<lparr>co_stdout_thread = True, co_stderr_thread = True, co_fds = fds, co_object = Some Self\<rparr>"

definition child_destructor :: "child_owner \<Rightarrow> release list" where
  "child_destructor d = join_if (co_stdout_thread d) @ join_if (co_stderr_thread d) @ close_open (co_fds d)
     @ free_value (co_object d)"

record worker_owner =
  wo_joinable :: bool
  wo_context :: bool
  wo_runtime :: bool
  wo_object :: "jsref option"
  wo_data :: "jsref option"

definition started_worker :: "jsref option \<Rightarrow> worker_owner" where
  "started_worker data = \<lparr>wo_joinable = True, wo_context = False, wo_runtime = False, wo_object = Some Self, wo_data = data\<rparr>"

definition worker_destructor :: "worker_owner \<Rightarrow> release list" where
  "worker_destructor d = (if wo_joinable d then [Stop, Join] else []) @ (if wo_context d then [Free_context] else [])
     @ (if wo_runtime d then [Free_runtime] else []) @ free_value (wo_object d) @ free_value (wo_data d)"

record cluster_owner =
  cl_pid :: int
  cl_fds :: "int list"
  cl_object :: "jsref option"

definition forked_worker :: "int \<Rightarrow> int list \<Rightarrow> cluster_owner" where
  "forked_worker pid fds = \<lparr>cl_pid = pid, cl_fds = fds, cl_object = Some Self\<rparr>"

definition cluster_destructor :: "cluster_owner \<Rightarrow> release list" where
  "cluster_destructor d = close_open (cl_fds d) @ free_value (cl_object d)"

definition cluster_finalizer :: "cluster_owner \<Rightarrow> release list" where
  "cluster_finalizer d = (if cl_pid d > 0 then [Erase_pid (cl_pid d)] else []) @ cluster_destructor d"

section \<open>Sockets and servers\<close>

text \<open>TCP servers, TCP sockets and UDP sockets have the same shape; the value is the listener or the emitter.\<close>

record socket_owner =
  so_closed :: bool
  so_fd :: int
  so_joinable :: bool
  so_value :: "jsref option"

definition net_server_close :: "socket_owner \<Rightarrow> release list \<times> socket_owner" where
  "net_server_close d =
     (if so_closed d then ([], d)
      else (close_open [so_fd d] @ join_if (so_joinable d), d\<lparr>so_closed := True, so_fd := -1, so_joinable := False\<rparr>))"

definition net_server_destructor :: "socket_owner \<Rightarrow> release list" where
  "net_server_destructor d = fst (net_server_close d) @ free_value (so_value d)"

definition net_socket_destroy :: "socket_owner \<Rightarrow> release list \<times> socket_owner" where
  "net_socket_destroy d =
     (if so_closed d then ([], d)
      else (close_open [so_fd d] @ join_if (so_joinable d), d\<lparr>so_closed := True, so_fd := -1, so_joinable := False\<rparr>))"

definition net_socket_destructor :: "socket_owner \<Rightarrow> release list" where
  "net_socket_destructor d = fst (net_socket_destroy d) @ free_value (so_value d)"

definition dgram_close :: "socket_owner \<Rightarrow> release list \<times> socket_owner" where
  "dgram_close d =
     (if so_closed d then ([], d)
      else (close_open [so_fd d] @ join_if (so_joinable d), d\<lparr>so_closed := True, so_fd := -1, so_joinable := False\<rparr>))"

definition dgram_destructor :: "socket_owner \<Rightarrow> release list" where
  "dgram_destructor d = fst (dgram_close d) @ free_value (so_value d)"

text \<open>The HTTP server gives its listener back before it stops the thread that calls it.\<close>

record http_owner =
  ho_fd :: int
  ho_joinable :: bool
  ho_value :: "jsref option"

definition http_server_destructor :: "http_owner \<Rightarrow> release list" where
  "http_server_destructor d = close_open [ho_fd d] @ free_value (ho_value d)
     @ (if ho_joinable d then [Stop, Join] else [])"

definition http_server_close :: "http_owner \<Rightarrow> release list \<times> http_owner" where
  "http_server_close d = ([Stop] @ close_open [ho_fd d] @ join_if (ho_joinable d), d\<lparr>ho_fd := -1, ho_joinable := False\<rparr>)"

definition http_request_destructor :: "jsref option \<Rightarrow> release list" where
  "http_request_destructor emitter = free_value emitter"

definition http_response_destructor :: "http_owner \<Rightarrow> release list" where
  "http_response_destructor d = free_value (ho_value d) @ close_open [ho_fd d]"

section \<open>Streams, emitters, digests and collections\<close>

definition readable_destructor :: "jsref option \<Rightarrow> release list" where
  "readable_destructor emitter = free_value emitter"

definition writable_destructor :: "jsref option \<Rightarrow> release list" where
  "writable_destructor emitter = free_value emitter"

definition duplex_destructor :: "jsref option \<Rightarrow> jsref option \<Rightarrow> release list" where
  "duplex_destructor r w = readable_destructor r @ writable_destructor w"

definition transform_destructor :: "jsref option \<Rightarrow> jsref option \<Rightarrow> jsref option \<Rightarrow> jsref option \<Rightarrow> release list" where
  "transform_destructor tr fl r w = free_value tr @ free_value fl @ duplex_destructor r w"

definition emitter_destructor :: "(string \<times> jsref list) list \<Rightarrow> release list" where
  "emitter_destructor listeners = concat (map (\<lambda>(e, hs). map Free hs) listeners)"

definition hash_destructor :: "bool \<Rightarrow> release list" where
  "hash_destructor ctx = (if ctx then [Free_digest] else [])"

definition sign_destructor :: "bool \<Rightarrow> bool \<Rightarrow> release list" where
  "sign_destructor ctx pkey = (if ctx then [Free_digest] else []) @ (if pkey then [Free_key] else [])"

definition collection_finalizer :: "bool \<Rightarrow> release list" where
  "collection_finalizer ptr = (if ptr then [Free_memory] else [])"

section \<open>The life of an object\<close>

datatype native =
    Child child_owner | Worker worker_owner | Cluster_worker cluster_owner
  | Net_server socket_owner | Net_socket socket_owner | Dgram_socket socket_owner
  | Http_server http_owner | Http_response http_owner | Http_message "jsref option"
  | Readable_stream "jsref option" | Writable_stream "jsref option" | Duplex_stream "jsref option" "jsref option"
  | Transform_stream "jsref option" "jsref option" "jsref option" "jsref option"
  | Emitter "(string \<times> jsref list) list" | Hash bool | Sign bool bool | Collection bool

fun finalizer :: "native \<Rightarrow> release list" where
  "finalizer (Child d) = child_destructor d"
| "finalizer (Worker d) = worker_destructor d"
| "finalizer (Cluster_worker d) = cluster_finalizer d"
| "finalizer (Net_server d) = net_server_destructor d"
| "finalizer (Net_socket d) = net_socket_destructor d"
| "finalizer (Dgram_socket d) = dgram_destructor d"
| "finalizer (Http_server d) = http_server_destructor d"
| "finalizer (Http_response d) = http_response_destructor d"
| "finalizer (Http_message e) = http_request_destructor e"
| "finalizer (Readable_stream e) = readable_destructor e"
| "finalizer (Writable_stream e) = writable_destructor e"
| "finalizer (Duplex_stream r w) = duplex_destructor r w"
| "finalizer (Transform_stream t f r w) = transform_destructor t f r w"
| "finalizer (Emitter ls) = emitter_destructor ls"
| "finalizer (Hash c) = hash_destructor c"
| "finalizer (Sign c k) = sign_destructor c k"
| "finalizer (Collection p) = collection_finalizer p"

text \<open>How often the data holds its own object.\<close>

definition own_references :: "native \<Rightarrow> nat" where
  "own_references n = length (filter (\<lambda>r. r = Free Self) (finalizer n))"

record life =
  held :: nat
  refcount :: nat
  data_of :: "native option"
  released :: "release list"

definition life_start :: "native \<Rightarrow> life" where
  "life_start n = \<lparr>held = 1, refcount = 1 + own_references n, data_of = Some n, released = []\<rparr>"

definition copy_reference :: "life \<Rightarrow> life" where
  "copy_reference s = s\<lparr>held := held s + 1, refcount := refcount s + 1\<rparr>"

definition drop_reference :: "life \<Rightarrow> life" where
  "drop_reference s =
     (let s1 = s\<lparr>held := held s - 1, refcount := refcount s - 1\<rparr>
      in if refcount s > 1 then s1
         else (case data_of s of None \<Rightarrow> s1 | Some n \<Rightarrow> s1\<lparr>data_of := None, released := released s @ finalizer n\<rparr>))"

inductive life_step :: "life \<Rightarrow> life \<Rightarrow> bool" where
  copies: "held s > 0 \<Longrightarrow> life_step s (copy_reference s)"
| drops: "held s > 0 \<Longrightarrow> life_step s (drop_reference s)"

definition life_inv :: "native \<Rightarrow> life \<Rightarrow> bool" where
  "life_inv n s \<longleftrightarrow>
     (if held s = 0 \<and> own_references n = 0 then refcount s = 0 \<and> data_of s = None \<and> released s = finalizer n
      else refcount s = held s + own_references n \<and> data_of s = Some n \<and> released s = [])"

lemma life_inv_start: "life_inv n (life_start n)"
  by (simp add: life_inv_def life_start_def)

lemma life_inv_step: "life_step s t \<Longrightarrow> life_inv n s \<Longrightarrow> life_inv n t"
  by (induction rule: life_step.induct)
    (auto simp: life_inv_def copy_reference_def drop_reference_def Let_def split: if_splits)

interpretation life_system: transition_invariant "\<lambda>s. s = life_start n" life_step "life_inv n"
  for n
  by unfold_locales (auto intro: life_inv_start life_inv_step)

text \<open>Once the program has dropped its last reference, an object whose data does not hold it has released all, each thing
  once and in the order of its destructor; an object whose data holds it, like those of child processes and of workers,
  never releases anything.\<close>

theorem finalized_unless_self_held:
  assumes "life_step\<^sup>*\<^sup>* (life_start n) s" and "held s = 0"
  shows "released s = (if own_references n = 0 then finalizer n else [])"
  using life_system.reachable_inv [OF assms(1) refl] assms(2) by (auto simp: life_inv_def split: if_splits)

lemma finalized_unless_self_held_witness:
  "let n = Net_server \<lparr>so_closed = False, so_fd = 4, so_joinable = True, so_value = Some (Other 9)\<rparr>
   in released (drop_reference (life_start n)) = [Close 4, Join, Free (Other 9)]"
proof -
  let ?n = "Net_server \<lparr>so_closed = False, so_fd = 4, so_joinable = True, so_value = Some (Other 9)\<rparr>"
  have "life_step (life_start ?n) (drop_reference (life_start ?n))"
    by (rule life_step.drops) (simp add: life_start_def)
  then have r: "life_step\<^sup>*\<^sup>* (life_start ?n) (drop_reference (life_start ?n))" by blast
  have f: "finalizer ?n = [Close 4, Join, Free (Other 9)]"
    by (simp add: net_server_destructor_def net_server_close_def close_open_def join_if_def free_value_def)
  then have o: "own_references ?n = 0" by (simp add: own_references_def)
  have "held (drop_reference (life_start ?n)) = 0"
    by (simp add: drop_reference_def life_start_def o Let_def)
  from finalized_unless_self_held [OF r this] o f show ?thesis by (simp add: Let_def)
qed

text \<open>The data of child processes, workers and forked workers holds its own object: none of them is ever released.\<close>

lemma self_held:
  "own_references (Child (spawned_child fds)) = 1" "own_references (Worker (started_worker v)) > 0"
  "own_references (Cluster_worker (forked_worker pid fds)) = 1"
  by (simp_all add: own_references_def child_destructor_def worker_destructor_def cluster_destructor_def cluster_finalizer_def
      spawned_child_def started_worker_def forked_worker_def join_if_def free_value_def close_open_def filter_empty_conv)

lemma child_never_released:
  assumes "life_step\<^sup>*\<^sup>* (life_start (Child (spawned_child fds))) s"
  shows "released s = []"
  using life_system.reachable_inv [OF assms refl] by (simp add: life_inv_def self_held)

text \<open>Closing a server or a socket and finalizing it later releases what finalizing alone does, once.\<close>

lemma close_then_finalize:
  "fst (net_server_close d) @ net_server_destructor (snd (net_server_close d)) = net_server_destructor d"
  "fst (net_socket_destroy d) @ net_socket_destructor (snd (net_socket_destroy d)) = net_socket_destructor d"
  "fst (dgram_close d) @ dgram_destructor (snd (dgram_close d)) = dgram_destructor d"
  "filter (\<lambda>r. r \<noteq> Stop) (fst (http_server_close h) @ http_server_destructor (snd (http_server_close h)))
     = close_open [ho_fd h] @ join_if (ho_joinable h) @ free_value (ho_value h)"
  by (auto simp: net_server_close_def net_server_destructor_def net_socket_destroy_def net_socket_destructor_def dgram_close_def
      dgram_destructor_def http_server_close_def http_server_destructor_def close_open_def join_if_def free_value_def
      split: option.splits)

text \<open>An HTTP server that is not closed before it is finalized gives its listener back while its thread may still call it.\<close>

lemma http_listener_freed_before_join:
  "ho_joinable h \<Longrightarrow> http_server_destructor h = close_open [ho_fd h] @ free_value (ho_value h) @ [Stop, Join]"
  by (simp add: http_server_destructor_def)

end
