(* ===== verification/Transport.thy ===== *)
theory Transport
  imports Registry
begin

text \<open>
  Models the connections of \<open>src/npm/NPMRegistry.cpp\<close>: what \<open>tlsConnect\<close>, \<open>tcpGet\<close>, \<open>httpGet\<close> and \<open>httpDownload\<close> open,
  send and close, with every failure of the system calls.

  \<^item> The answers of the system to one attempt are an \<open>attempt\<close>, a parameter; \<open>at_reads\<close> holds the results of the reads, of which the
    loops of the code take those before the first that brings nothing.
  \<^item> What a function does to sockets and TLS objects is a list of events. \<open>wire_run\<close> follows the stack of what is held; it is
    \<open>None\<close> when something is released that is not the last thing acquired, or when something is sent on nothing.
  \<^item> \<open>wire_net\<close> is the network these attempts amount to: with it for the parameter of \<open>Registry\<close>, the functions here return what
    those of \<open>Registry\<close> return.
\<close>

record attempt =
  at_resolves :: bool
  at_socket :: int
  at_connects :: bool
  at_context :: bool
  at_ssl :: bool
  at_handshake :: bool
  at_written :: int
  at_reads :: "string list"

datatype resource = Socket int | Tls_context | Tls_session

datatype wire_event = Acquire resource | Release resource | Sent string

type_synonym network = "nat \<Rightarrow> string \<Rightarrow> nat \<Rightarrow> string \<Rightarrow> attempt"

definition received :: "attempt \<Rightarrow> string list" where
  "received a = takeWhile (\<lambda>c. c \<noteq> []) (at_reads a)"

section \<open>Connections\<close>

record tls_conn =
  tc_sock :: int
  tc_ssl :: bool
  tc_ctx :: bool

definition TlsConn :: tls_conn where
  "TlsConn = \<lparr>tc_sock = -1, tc_ssl = False, tc_ctx = False\<rparr>"

definition tls_destructor :: "tls_conn \<Rightarrow> wire_event list" where
  "tls_destructor c = (if tc_ssl c then [Release Tls_session] else []) @ (if tc_ctx c then [Release Tls_context] else [])
     @ (if tc_sock c \<ge> 0 then [Release (Socket (tc_sock c))] else [])"

text \<open>\<open>tlsConnect\<close> fills the connection as far as it gets; what it leaves there its destructor releases.\<close>

definition tlsConnect :: "attempt \<Rightarrow> tls_conn \<Rightarrow> bool \<times> tls_conn \<times> wire_event list" where
  "tlsConnect a c =
     (let s = at_socket a; c1 = c\<lparr>tc_sock := s\<rparr>; c2 = c1\<lparr>tc_ctx := True\<rparr>; c3 = c2\<lparr>tc_ssl := True\<rparr> in
      if \<not> at_resolves a then (False, c, [])
      else if s < 0 then (False, c1, [])
      else if \<not> at_connects a then (False, c1\<lparr>tc_sock := -1\<rparr>, [Acquire (Socket s), Release (Socket s)])
      else if \<not> at_context a then (False, c1, [Acquire (Socket s)])
      else if \<not> at_ssl a then (False, c2, [Acquire (Socket s), Acquire Tls_context])
      else (at_handshake a, c3, [Acquire (Socket s), Acquire Tls_context, Acquire Tls_session]))"

definition tls_get :: "attempt \<Rightarrow> string \<Rightarrow> string \<times> wire_event list" where
  "tls_get a req =
     (let (connected, c, w) = tlsConnect a TlsConn in
      if \<not> connected then ([], w @ tls_destructor c)
      else if at_written a \<le> 0 then ([], w @ [Sent req] @ tls_destructor c)
      else (response_body (concat (map c_str (received a))), w @ [Sent req] @ tls_destructor c))"

definition tcpGet :: "attempt \<Rightarrow> string \<Rightarrow> string \<times> wire_event list" where
  "tcpGet a req =
     (let s = Socket (at_socket a) in
      if \<not> at_resolves a then ([], [])
      else if at_socket a < 0 then ([], [])
      else if \<not> at_connects a then ([], [Acquire s, Release s])
      else if at_written a < 0 then ([], [Acquire s, Sent req, Release s])
      else (response_body (concat (map c_str (received a))), [Acquire s, Sent req, Release s]))"

section \<open>Requests\<close>

definition port_of :: "string \<Rightarrow> nat" where
  "port_of protocol = (if protocol = ''https'' then 443 else 80)"

definition wire_get :: "network \<Rightarrow> string \<Rightarrow> npm_state \<Rightarrow> string \<times> wire_event list \<times> npm_state" where
  "wire_get nw url st =
     (let (protocol, host, path) = parseUrl url in
      if host = [] then ([], [], st)
      else
        (let req = http_request ''application/json'' host path;
             a = nw (requests st) host (port_of protocol) req;
             (r, w) = (if protocol = ''https'' then tls_get a req else tcpGet a req)
         in (r, w, st\<lparr>requests := requests st + 1\<rparr>)))"

definition tls_download :: "attempt \<Rightarrow> string \<Rightarrow> string \<Rightarrow> npm_state \<Rightarrow> bool \<times> wire_event list \<times> npm_state" where
  "tls_download a req target st =
     (let (connected, c, w) = tlsConnect a TlsConn in
      if \<not> connected then (False, w @ tls_destructor c, st)
      else if at_written a \<le> 0 then (False, w @ [Sent req] @ tls_destructor c, st)
      else (let (ok, st1) = header_loop target [] (received a) st in (ok, w @ [Sent req] @ tls_destructor c, st1)))"

text \<open>Without TLS the download makes the socket before it looks the host up.\<close>

definition tcp_download :: "attempt \<Rightarrow> string \<Rightarrow> string \<Rightarrow> npm_state \<Rightarrow> bool \<times> wire_event list \<times> npm_state" where
  "tcp_download a req target st =
     (let s = Socket (at_socket a) in
      if at_socket a < 0 then (False, [], st)
      else if \<not> at_resolves a then (False, [Acquire s, Release s], st)
      else if \<not> at_connects a then (False, [Acquire s, Release s], st)
      else if at_written a < 0 then (False, [Acquire s, Sent req, Release s], st)
      else (let (ok, st1) = header_loop target [] (received a) st in (ok, [Acquire s, Sent req, Release s], st1)))"

definition wire_download :: "network \<Rightarrow> string \<Rightarrow> string \<Rightarrow> bool \<Rightarrow> npm_state \<Rightarrow> bool \<times> wire_event list \<times> npm_state" where
  "wire_download nw url target progress st =
     (let (protocol, host, path) = parseUrl url in
      if host = [] then (False, [], st)
      else if \<not> progress then
        (let (data, w, st1) = wire_get nw url st in
         if data = [] then (False, w, st1)
         else (case write_tree target data (disk st1) of
             None \<Rightarrow> (False, w, st1)
           | Some d \<Rightarrow> (True, w, st1\<lparr>disk := d\<rparr>)))
      else
        (let req = http_request ''application/octet-stream'' host path;
             a = nw (requests st) host (port_of protocol) req;
             st1 = st\<lparr>requests := requests st + 1\<rparr>
         in if protocol = ''https'' then tls_download a req target st1 else tcp_download a req target st1))"

section \<open>What is held\<close>

fun wire_run :: "resource list \<Rightarrow> wire_event list \<Rightarrow> resource list option" where
  "wire_run held [] = Some held"
| "wire_run held (Acquire r # w) = (if r \<in> set held then None else wire_run (r # held) w)"
| "wire_run held (Release r # w) = (case held of [] \<Rightarrow> None | h # hs \<Rightarrow> if h = r then wire_run hs w else None)"
| "wire_run held (Sent d # w) = (if held = [] then None else wire_run held w)"

definition established :: "bool \<Rightarrow> attempt \<Rightarrow> bool" where
  "established tls a \<longleftrightarrow> at_resolves a \<and> at_socket a \<ge> 0 \<and> at_connects a
     \<and> (if tls then at_context a \<and> at_ssl a \<and> at_handshake a \<and> at_written a > 0 else at_written a \<ge> 0)"

definition wire_net :: "network \<Rightarrow> nat \<Rightarrow> bool \<Rightarrow> nat \<Rightarrow> string \<Rightarrow> string \<Rightarrow> string list option" where
  "wire_net nw i tls port host req =
     (let a = nw i host port req in if established tls a then Some (received a) else None)"

lemma tls_get_result:
  "fst (tls_get a req) = (if established True a then response_body (concat (map c_str (received a))) else [])"
  by (simp add: tls_get_def tlsConnect_def established_def Let_def)

lemma tcpGet_result:
  "fst (tcpGet a req) = (if established False a then response_body (concat (map c_str (received a))) else [])"
  by (simp add: tcpGet_def established_def Let_def)

lemma tls_get_released: "wire_run [] (snd (tls_get a req)) = Some []"
  by (simp add: tls_get_def tlsConnect_def tls_destructor_def TlsConn_def Let_def)

lemma tcpGet_released: "wire_run [] (snd (tcpGet a req)) = Some []"
  by (simp add: tcpGet_def Let_def)

lemma tls_download_result:
  "case tls_download a req target st of (r, w, st') \<Rightarrow> wire_run [] w = Some []
     \<and> (r, st') = (if established True a then header_loop target [] (received a) st else (False, st))"
  by (simp add: tls_download_def tlsConnect_def tls_destructor_def TlsConn_def established_def Let_def split: prod.split)

lemma tcp_download_result:
  "case tcp_download a req target st of (r, w, st') \<Rightarrow> wire_run [] w = Some []
     \<and> (r, st') = (if established False a then header_loop target [] (received a) st else (False, st))"
  by (simp add: tcp_download_def established_def Let_def split: prod.split)

lemma wire_get_refines:
  "case wire_get nw url st of (r, w, st') \<Rightarrow> wire_run [] w = Some []
     \<and> httpGet (env\<lparr>net := wire_net nw\<rparr>) url st = (r, st')"
proof -
  obtain protocol host path where u: "parseUrl url = (protocol, host, path)" by (cases "parseUrl url") auto
  let ?req = "http_request ''application/json'' host path"
  let ?a = "nw (requests st) host (port_of protocol) ?req"
  let ?g = "if protocol = ''https'' then tls_get ?a ?req else tcpGet ?a ?req"
  obtain r w where g: "?g = (r, w)" by (metis surj_pair)
  have w: "wire_run [] w = Some []" using tls_get_released [of ?a ?req] tcpGet_released [of ?a ?req] g by (auto split: if_splits)
  have r: "r = (if established (protocol = ''https'') ?a then response_body (concat (map c_str (received ?a))) else [])"
    using tls_get_result [of ?a ?req] tcpGet_result [of ?a ?req] g by (auto split: if_splits)
  have "wire_get nw url st = (if host = [] then ([], [], st) else (r, w, st\<lparr>requests := requests st + 1\<rparr>))"
    using g by (simp add: wire_get_def u Let_def)
  moreover have "httpGet (env\<lparr>net := wire_net nw\<rparr>) url st = (if host = [] then ([], st) else (r, st\<lparr>requests := requests st + 1\<rparr>))"
    by (simp add: r httpGet_def exchange_def wire_net_def port_of_def u Let_def)
  ultimately show ?thesis using w by simp
qed

text \<open>C38: whatever fails, a download releases every socket and TLS object it acquired, once and in the reverse order, sends only on
  an open connection, and returns what the model of the client returns over the network that these connections amount to.\<close>

theorem connections_released:
  "case wire_download nw url target progress st of (r, w, st') \<Rightarrow> wire_run [] w = Some []
     \<and> httpDownload (env\<lparr>net := wire_net nw\<rparr>) url target progress st = (r, st')"
proof -
  obtain protocol host path where u: "parseUrl url = (protocol, host, path)" by (cases "parseUrl url") auto
  let ?req = "http_request ''application/octet-stream'' host path"
  let ?a = "nw (requests st) host (port_of protocol) ?req"
  let ?st = "st\<lparr>requests := requests st + 1\<rparr>"
  have get: "wire_run [] w = Some []" "httpGet (env\<lparr>net := wire_net nw\<rparr>) url st = (r, st')"
    if "wire_get nw url st = (r, w, st')" for r w st'
    using wire_get_refines [where env = env and nw = nw and url = url and st = st] that by simp_all
  show ?thesis
  proof (cases "host = [] \<or> \<not> progress")
    case True
    obtain r w st' where g: "wire_get nw url st = (r, w, st')" by (metis surj_pair)
    show ?thesis
      using True get [OF g] by (cases "host = []") (auto simp: wire_download_def httpDownload_def u g split: option.split)
  next
    case False
    define tls where "tls = (protocol = ''https'')"
    let ?d = "if tls then tls_download ?a ?req target ?st else tcp_download ?a ?req target ?st"
    have d: "case ?d of (r, w, st') \<Rightarrow> wire_run [] w = Some []
        \<and> (r, st') = (if established tls ?a then header_loop target [] (received ?a) ?st else (False, ?st))"
      using tls_download_result [where a = ?a and req = ?req and target = target and st = ?st]
        tcp_download_result [where a = ?a and req = ?req and target = target and st = ?st] by (cases tls) simp_all
    have "wire_download nw url target progress st = ?d" using False by (simp add: wire_download_def u Let_def tls_def)
    moreover have "httpDownload (env\<lparr>net := wire_net nw\<rparr>) url target progress st =
        (if established tls ?a then header_loop target [] (received ?a) ?st else (False, ?st))"
      using False by (simp add: httpDownload_def exchange_def wire_net_def port_of_def u Let_def tls_def)
    moreover obtain r w st' where "?d = (r, w, st')" by (metis surj_pair)
    ultimately show ?thesis using d by (simp only: prod.case simp_thms)
  qed
qed

end
