(* ===== verification/Program.thy ===== *)
theory Program
  imports ThreadPool EventLoop Deferred
begin

text \<open>
  Puts the CPU pool, the Deferreds, the event loop and \<open>main\<close> together, from the start of the script to the
  end of the process (\<open>src/main.cpp\<close>, \<open>src/JSContext.cpp\<close>, \<open>src/Deferred.cpp\<close>).

  \<^item> The tasks of the CPU pool are the jobs of the Deferreds, and nothing else: \<open>executeTaskInWorkerThread\<close> is
    the only caller of its \<open>submit\<close>. They are numbered in the order in which they are submitted.
  \<^item> What a job posts is what \<open>workerThreadExecution\<close> posts in the state \<open>w\<close> in which the worker finds its
    Deferred; \<open>w\<close> is chosen when the job is submitted. It posts one callback at a time, and other threads may
    enqueue theirs (\<open>Foreign\<close>) in between.
  \<^item> \<open>main\<close> is the program counter \<open>phase\<close>. The local queue of its \<open>processCallbacks\<close> is in the state of the
    loop. A callback of a Deferred calls native functions that do nothing; \<open>eff\<close> is the effect of the others.
  \<^item> The destructor of the wrapper shuts the CPU pool down, then the I/O pool, and frees the runtime. The steps of
    the I/O pool are those of \<open>ThreadPool\<close> again and are not repeated. When the process exits, the static event
    loop is destroyed with the callbacks that are still in its queue.
  \<^item> With \<open>--check\<close>, and at the end of the REPL, \<open>main\<close> returns without draining (\<open>no_drain\<close>).
\<close>

datatype program_callback = Of_job nat callback | Foreign nat

datatype phase =
    Evaluating        \<comment> \<open>in \<open>wrapper.eval\<close>\<close>
  | Draining          \<comment> \<open>in the loop over \<open>hasPendingCallbacks\<close>\<close>
  | Last_round        \<comment> \<open>before the last \<open>processCallbacks\<close>\<close>
  | Last_calls        \<comment> \<open>in it\<close>
  | Shutting_cpu | Shutting_io
  | Runtime_freed     \<comment> \<open>the wrapper is gone\<close>
  | Gone              \<comment> \<open>static objects are gone\<close>

record program =
  phase :: phase
  cpu :: "nat pool"
  loop :: "program_callback event_loop"
  posts :: "nat \<Rightarrow> callback list"     \<comment> \<open>what the job posts in all\<close>
  left :: "nat \<Rightarrow> callback list"      \<comment> \<open>what it has not posted yet\<close>
  destroyed :: "program_callback list"
  at_last :: nat                      \<comment> \<open>callbacks enqueued when the last round took the queue\<close>

definition program_start :: "program \<Rightarrow> bool" where
  "program_start p \<longleftrightarrow> phase p = Evaluating \<and> pool_start (cpu p) \<and> loop p = loop_init \<and>
     destroyed p = [] \<and> at_last p = 0"

section \<open>Steps\<close>

definition effect_of :: "(nat \<Rightarrow> nat effect) \<Rightarrow> program_callback \<Rightarrow> program_callback effect" where
  "effect_of eff cb = (case cb of
     Of_job j c \<Rightarrow> \<lparr>enqueues = [], stops = False, throws = False\<rparr>
   | Foreign k \<Rightarrow> \<lparr>enqueues = map Foreign (enqueues (eff k)), stops = stops (eff k), throws = throws (eff k)\<rparr>)"

text \<open>JavaScript runs during the evaluation and in the callbacks.\<close>

definition runs_js :: "program \<Rightarrow> bool" where
  "runs_js p \<longleftrightarrow> phase p \<in> {Evaluating, Draining, Last_calls}"

definition next_job :: "program \<Rightarrow> nat" where
  "next_job p = length (submitted (cpu p))"

text \<open>Nobody calls \<open>shutdownNow\<close>; \<open>shutdown\<close> runs in its phase only; a job returns when it has posted
  everything.\<close>

definition pool_allowed :: "program \<Rightarrow> nat pool \<Rightarrow> bool" where
  "pool_allowed p c \<longleftrightarrow> submitted c = submitted (cpu p) \<and> now c = N_none \<and>
     (phase p = Shutting_cpu \<or> shut c = shut (cpu p)) \<and>
     (finished c = finished (cpu p) \<or> left p (last (finished c)) = [])"

text \<open>\<open>processCallbacks\<close> takes the queue and, when the local queue is empty, returns.\<close>

definition take_queue :: "'cb event_loop \<Rightarrow> 'cb event_loop" where
  "take_queue l = l\<lparr>loop_pc := Running_callbacks (callbackQueue l), callbackQueue := []\<rparr>"

definition leave_calls :: "'cb event_loop \<Rightarrow> 'cb event_loop" where
  "leave_calls l = l\<lparr>loop_pc := Idle\<rparr>"

definition exit_process :: "program \<Rightarrow> program" where
  "exit_process p = p\<lparr>phase := Gone, loop := (loop p)\<lparr>callbackQueue := []\<rparr>,
     destroyed := callbackQueue (loop p)\<rparr>"

inductive program_step :: "'v engine \<Rightarrow> (nat \<Rightarrow> nat effect) \<Rightarrow> program \<Rightarrow> program \<Rightarrow> bool"
  for eng :: "'v engine" and eff :: "nat \<Rightarrow> nat effect" where
  new_deferred: "runs_js p \<Longrightarrow> mutex_free (cpu p) \<Longrightarrow> submit (next_job p) (cpu p) = Inr c \<Longrightarrow>
    Deferred_constructor eng True True args = Some w0 \<Longrightarrow> (deferred_step eng)\<^sup>*\<^sup>* w0 w \<Longrightarrow> job w \<Longrightarrow>
    cbs = events (workerThreadExecution eng lk w) \<Longrightarrow>
    program_step eng eff p (p\<lparr>cpu := c, posts := (posts p)(next_job p := cbs),
      left := (left p)(next_job p := cbs)\<rparr>)"
| pool_moves: "pool_step (cpu p) c \<Longrightarrow> pool_allowed p c \<Longrightarrow> program_step eng eff p (p\<lparr>cpu := c\<rparr>)"
| job_posts: "W_task j \<in> set (workers (cpu p)) \<Longrightarrow> left p j = c # cs \<Longrightarrow>
    program_step eng eff p (p\<lparr>loop := EventLoop.enqueueCallback (Of_job j c) (loop p),
      left := (left p)(j := cs)\<rparr>)"
| other_posts: "phase p \<noteq> Gone \<Longrightarrow>
    program_step eng eff p (p\<lparr>loop := EventLoop.enqueueCallback (Foreign k) (loop p)\<rparr>)"
| eval_returns: "phase p = Evaluating \<Longrightarrow> program_step eng eff p (p\<lparr>phase := Draining\<rparr>)"
| no_drain: "phase p = Evaluating \<Longrightarrow> program_step eng eff p (p\<lparr>phase := Shutting_cpu\<rparr>)"
| round_begins: "phase p = Draining \<Longrightarrow> loop_pc (loop p) = Idle \<Longrightarrow> hasPendingCallbacks (loop p) \<Longrightarrow>
    program_step eng eff p (p\<lparr>loop := take_queue (loop p)\<rparr>)"
| callback_runs: "loop_pc (loop p) = Running_callbacks (cb # cbs) \<Longrightarrow>
    program_step eng eff p
      (p\<lparr>loop := (guarded_call (effect_of eff) cb (loop p))\<lparr>loop_pc := Running_callbacks cbs\<rparr>\<rparr>)"
| round_ends: "phase p = Draining \<Longrightarrow> loop_pc (loop p) = Running_callbacks [] \<Longrightarrow>
    program_step eng eff p (p\<lparr>loop := leave_calls (loop p)\<rparr>)"
| time_out: "phase p = Draining \<Longrightarrow> loop_pc (loop p) = Running_callbacks [] \<Longrightarrow>
    program_step eng eff p (p\<lparr>phase := Last_round, loop := leave_calls (loop p)\<rparr>)"
| none_pending: "phase p = Draining \<Longrightarrow> loop_pc (loop p) = Idle \<Longrightarrow> \<not> hasPendingCallbacks (loop p) \<Longrightarrow>
    program_step eng eff p (p\<lparr>phase := Last_round\<rparr>)"
| last_begins: "phase p = Last_round \<Longrightarrow>
    program_step eng eff p (p\<lparr>phase := Last_calls, loop := take_queue (loop p),
      at_last := length (accepted (loop p))\<rparr>)"
| last_ends: "phase p = Last_calls \<Longrightarrow> loop_pc (loop p) = Running_callbacks [] \<Longrightarrow>
    program_step eng eff p (p\<lparr>phase := Shutting_cpu, loop := leave_calls (loop p)\<rparr>)"
| cpu_down: "phase p = Shutting_cpu \<Longrightarrow> shut (cpu p) = S_done \<Longrightarrow>
    program_step eng eff p (p\<lparr>phase := Shutting_io\<rparr>)"
| io_down: "phase p = Shutting_io \<Longrightarrow> program_step eng eff p (p\<lparr>phase := Runtime_freed\<rparr>)"
| exits: "phase p = Runtime_freed \<Longrightarrow> program_step eng eff p (exit_process p)"

section \<open>What a job posts\<close>

lemma job_posts_something:
  assumes "Deferred_constructor eng wr ml args = Some w0" "(deferred_step eng)\<^sup>*\<^sup>* w0 w" "job w"
  shows "length (events (workerThreadExecution eng lk w)) \<in> {1, 2}"
proof -
  have i: "deferred_inv 0 w" using deferred_inv_run [OF assms(1,2)] .
  then obtain t where t: "shared w = Some t" "serializedResult t = None" "events w = []"
    using assms(3) by (auto simp: deferred_inv_def shared_ok_def split: option.splits)
  have "deferred_inv 0 (workerThreadExecution eng lk w)" using i assms(3) by (rule deferred_inv_worker)
  moreover have "events (workerThreadExecution eng lk w) \<noteq> []"
    using worker_shape [OF assms(3) t(3,1,2), of eng lk]
    by (auto simp: posted_def stored_def dest!: arg_cong [where f = events])
  ultimately show ?thesis by (auto simp: deferred_inv_def events_ok_def)
qed

section \<open>Invariant\<close>

text \<open>The callbacks of one job in a list of callbacks.\<close>

fun callbacks_of :: "nat \<Rightarrow> program_callback list \<Rightarrow> callback list" where
  "callbacks_of j [] = []"
| "callbacks_of j (Of_job i c # cbs) = (if i = j then [c] else []) @ callbacks_of j cbs"
| "callbacks_of j (Foreign k # cbs) = callbacks_of j cbs"

lemma callbacks_of_append [simp]: "callbacks_of j (xs @ ys) = callbacks_of j xs @ callbacks_of j ys"
  by (induction j xs rule: callbacks_of.induct) auto

lemma callbacks_of_foreign [simp]: "callbacks_of j (map Foreign ks) = []"
  by (induction ks) auto

definition jobs_ok :: "program \<Rightarrow> bool" where
  "jobs_ok p \<longleftrightarrow> submitted (cpu p) = [0 ..< next_job p] \<and>
     (\<forall>j < next_job p. callbacks_of j (accepted (loop p)) @ left p j = posts p j) \<and>
     (\<forall>j \<ge> next_job p. callbacks_of j (accepted (loop p)) = []) \<and>
     (\<forall>j < next_job p. length (posts p j) \<in> {1, 2}) \<and>
     (\<forall>j \<in> set (finished (cpu p)). left p j = [])"

definition main_ok :: "program \<Rightarrow> bool" where
  "main_ok p \<longleftrightarrow>
     accepted (loop p) = executed (loop p) @ local_queue (loop p) @ callbackQueue (loop p) @ destroyed p \<and>
     (phase p \<noteq> Gone \<longrightarrow> destroyed p = []) \<and>
     (phase p \<in> {Shutting_io, Runtime_freed, Gone} \<longrightarrow> shut (cpu p) = S_done) \<and>
     (phase p \<notin> {Draining, Last_calls} \<longrightarrow> local_queue (loop p) = []) \<and>
     (phase p = Evaluating \<longrightarrow> executed (loop p) = [] \<and> at_last p = 0) \<and>
     (phase p = Gone \<longrightarrow> callbackQueue (loop p) = []) \<and>
     (phase p \<in> {Last_calls, Shutting_cpu, Shutting_io, Runtime_freed, Gone} \<longrightarrow>
        at_last p = length (executed (loop p) @ local_queue (loop p)))"

definition program_inv :: "program \<Rightarrow> bool" where
  "program_inv p \<longleftrightarrow>
     (pool_inv (cpu p) \<and> \<not> shutdownNowFlag (cpu p)) \<and> jobs_ok p \<and> main_ok p"

text \<open>What a step of the pool may do to the histories.\<close>

lemma pool_step_finished:
  "pool_step s t \<Longrightarrow> finished t = finished s \<or> (\<exists>j. finished t = finished s @ [j])"
  by (induction rule: pool_step.induct)
    (auto simp: submit_def worker_section_def notify_all_def shutdown_test_def shutdownNow_section_def
      split: if_splits list.splits)

lemma pool_step_not_now:
  "pool_step s t \<Longrightarrow> now t = N_none \<Longrightarrow> \<not> shutdownNowFlag s \<Longrightarrow> \<not> shutdownNowFlag t"
  by (induction rule: pool_step.induct)
    (auto simp: submit_def worker_section_def notify_all_def shutdown_test_def shutdownNow_section_def
      split: if_splits list.splits)

lemma running_submitted:
  assumes "pool_inv s" "W_task j \<in> set (workers s)"
  shows "j \<in> set (submitted s)"
proof -
  have "j \<in># mset (running_tasks s)"
    using assms(2) by (force simp: running_tasks_def tasks_of_def)
  then have "j \<in># mset (started s)" using assms(1) by (simp add: pool_inv_def)
  then show ?thesis using assms(1) by (simp add: pool_inv_def)
qed

lemma done_idle: "pool_inv s \<Longrightarrow> shut s = S_done \<Longrightarrow> W_task j \<notin> set (workers s)"
  by (auto simp: pool_inv_def all_exited_def list_all_iff)

lemmas loop_ops = EventLoop.enqueueCallback_def guarded_call_eq take_queue_def leave_calls_def
  local_queue_def hasPendingCallbacks_def

lemma finished_submitted: "pool_inv s \<Longrightarrow> j \<in> set (finished s) \<Longrightarrow> j \<in> set (submitted s)"
proof -
  assume i: "pool_inv s" and j: "j \<in> set (finished s)"
  then have "j \<in># mset (finished s) + mset (running_tasks s)" by simp
  then have "j \<in># mset (started s)" using i by (simp add: pool_inv_def)
  then show "j \<in> set (submitted s)" using i by (simp add: pool_inv_def)
qed

lemma jobs_ok_submit:
  assumes "jobs_ok p" "pool_inv (cpu p)" "submit (next_job p) (cpu p) = Inr c" "length cbs \<in> {1, 2}"
  shows "jobs_ok (p\<lparr>cpu := c, posts := (posts p)(next_job p := cbs), left := (left p)(next_job p := cbs)\<rparr>)"
proof -
  have c: "submitted c = submitted (cpu p) @ [next_job p]" "finished c = finished (cpu p)"
    using assms(3) by (auto simp: submit_def split: if_splits)
  have "next_job p \<notin> set (finished (cpu p))"
    using finished_submitted [OF assms(2)] assms(1) by (auto simp: jobs_ok_def)
  then show ?thesis
    using assms(1,4) c by (auto simp: jobs_ok_def next_job_def less_Suc_eq)
qed

lemma jobs_ok_pool:
  assumes "jobs_ok p" "pool_step (cpu p) c" "pool_allowed p c"
  shows "jobs_ok (p\<lparr>cpu := c\<rparr>)"
  using assms pool_step_finished [OF assms(2)]
  by (auto simp: jobs_ok_def pool_allowed_def next_job_def)

lemma jobs_ok_post:
  assumes "jobs_ok p" "j < next_job p" "left p j = c # cs"
  shows "jobs_ok (p\<lparr>loop := EventLoop.enqueueCallback (Of_job j c) (loop p), left := (left p)(j := cs)\<rparr>)"
  using assms by (auto simp: jobs_ok_def next_job_def EventLoop.enqueueCallback_def)

text \<open>The effect of a callback adds no callback of a job.\<close>

lemma jobs_ok_call:
  "jobs_ok p \<Longrightarrow>
    jobs_ok (p\<lparr>loop := (guarded_call (effect_of eff) cb (loop p))\<lparr>loop_pc := l\<rparr>\<rparr>)"
  by (auto simp: jobs_ok_def next_job_def guarded_call_eq effect_of_def split: program_callback.splits)

lemma jobs_ok_frame [simp]:
  "jobs_ok (p\<lparr>phase := x\<rparr>) = jobs_ok p" "jobs_ok (p\<lparr>at_last := n\<rparr>) = jobs_ok p"
  "jobs_ok (p\<lparr>destroyed := cbs\<rparr>) = jobs_ok p"
  "accepted l = accepted (loop p) \<Longrightarrow> jobs_ok (p\<lparr>loop := l\<rparr>) = jobs_ok p"
  "jobs_ok (p\<lparr>loop := EventLoop.enqueueCallback (Foreign k) (loop p)\<rparr>) = jobs_ok p"
  by (simp_all add: jobs_ok_def next_job_def EventLoop.enqueueCallback_def)

lemma main_ok_frame [simp]:
  "main_ok (p\<lparr>posts := f\<rparr>) = main_ok p" "main_ok (p\<lparr>left := g\<rparr>) = main_ok p"
  by (simp_all add: main_ok_def)

lemma main_ok_cpu: "main_ok p \<Longrightarrow> shut c = shut (cpu p) \<or> phase p = Shutting_cpu \<Longrightarrow> main_ok (p\<lparr>cpu := c\<rparr>)"
  by (erule disjE; simp add: main_ok_def)

lemma main_ok_post:
  "main_ok p \<Longrightarrow> phase p \<noteq> Gone \<Longrightarrow> main_ok (p\<lparr>loop := EventLoop.enqueueCallback cb (loop p)\<rparr>)"
  by (simp add: main_ok_def EventLoop.enqueueCallback_def local_queue_def)

lemma main_ok_call:
  assumes "main_ok p" "loop_pc (loop p) = Running_callbacks (cb # cbs)"
  shows "main_ok (p\<lparr>loop := (guarded_call (effect_of eff) cb (loop p))\<lparr>loop_pc := Running_callbacks cbs\<rparr>\<rparr>)"
proof -
  have "local_queue (loop p) = cb # cbs" using assms(2) by (simp add: local_queue_def)
  moreover from this have "phase p = Draining \<or> phase p = Last_calls"
    using assms(1) by (cases "phase p") (simp_all add: main_ok_def)
  ultimately show ?thesis
    using assms(1) by (elim disjE; simp add: main_ok_def local_queue_def guarded_call_eq)
qed

lemma program_step_inv: "program_step eng eff p q \<Longrightarrow> program_inv p \<Longrightarrow> program_inv q"
proof (induction rule: program_step.induct)
  case (new_deferred p c args w0 w cbs lk)
  have "length cbs \<in> {1, 2}"
    using job_posts_something [OF new_deferred.hyps(4-6), of lk] new_deferred.hyps(7) by simp
  moreover have "shut c = shut (cpu p)" "shutdownNowFlag c = shutdownNowFlag (cpu p)"
    using new_deferred.hyps(3) by (auto simp: submit_def split: if_splits)
  ultimately show ?case
    using new_deferred inv_submit [of "cpu p" "next_job p" c] jobs_ok_submit [of p c cbs] main_ok_cpu [of p c]
    by (simp add: program_inv_def)
next
  case (pool_moves p c)
  then show ?case
    using pool_step_inv [of "cpu p" c] jobs_ok_pool [of p c] pool_step_not_now [of "cpu p" c] main_ok_cpu [of p c]
    by (simp add: program_inv_def pool_allowed_def disj_commute)
next
  case (job_posts j p c cs)
  have i: "pool_inv (cpu p)" "jobs_ok p" "main_ok p" using job_posts.prems by (simp_all add: program_inv_def)
  have "j < next_job p" using running_submitted [OF i(1) job_posts.hyps(1)] i(2) by (simp add: jobs_ok_def)
  moreover have "phase p \<noteq> Gone"
    using i(3) job_posts.hyps(1) done_idle [OF i(1)] by (auto simp: main_ok_def)
  ultimately show ?case
    using job_posts i jobs_ok_post [of p j c cs] main_ok_post [of p "Of_job j c"] by (simp add: program_inv_def)
next
  case (other_posts p k)
  then show ?case by (simp add: program_inv_def main_ok_post)
next
  case (callback_runs p cb cbs)
  then show ?case by (simp add: program_inv_def jobs_ok_call main_ok_call)
qed (simp_all add: program_inv_def main_ok_def loop_ops exit_process_def)

lemma pool_start_fresh:
  "pool_start c \<Longrightarrow> shutdownNowFlag c = False \<and> submitted c = [] \<and> finished c = [] \<and> shut c = S_none"
  by (cases c) (auto simp: pool_start_def ThreadPoolExecutor_def split: if_splits)

lemma program_start_inv: "program_start p \<Longrightarrow> program_inv p"
  using pool_start_fresh [of "cpu p"] pool_start_inv [of "cpu p"]
  by (auto simp: program_start_def program_inv_def main_ok_def jobs_ok_def next_job_def loop_init_def local_queue_def)

interpretation program_system: transition_invariant program_start "program_step eng eff" program_inv
  for eng :: "'v engine" and eff :: "nat \<Rightarrow> nat effect"
  by unfold_locales (auto intro: program_start_inv program_step_inv)

section \<open>A run whose callback comes too late\<close>

text \<open>One worker, one Deferred. The job posts its callback while the pool is being shut down.\<close>

definition lone :: "nat list \<Rightarrow> bool \<Rightarrow> nat \<Rightarrow> nat worker_pc \<Rightarrow> shutdown_pc \<Rightarrow> nat list \<Rightarrow> nat list \<Rightarrow> nat pool" where
  "lone q f a w sh st fin = \<lparr>taskQueue = q, shutdownFlag = f, shutdownNowFlag = False, activeCount = a,
     workers = [w], notifies = 1, shut = sh, now = N_none, submitted = [0], started = st, finished = fin,
     dropped = []\<rparr>"

definition late :: "phase \<Rightarrow> nat pool \<Rightarrow> program_callback list \<Rightarrow> callback list \<Rightarrow> program" where
  "late ph c q lf = \<lparr>phase = ph, cpu = c, loop = loop_init\<lparr>callbackQueue := q, accepted := q\<rparr>,
     posts = (\<lambda>_. [])(0 := [Deliver]), left = (\<lambda>_. [])(0 := lf), destroyed = [], at_last = 0\<rparr>"

definition late_start :: program where
  "late_start = \<lparr>phase = Evaluating, cpu = one_worker, loop = loop_init, posts = (\<lambda>_. []),
     left = (\<lambda>_. []), destroyed = [], at_last = 0\<rparr>"

lemma late_starts: "program_start late_start"
  by (simp add: program_start_def late_start_def one_worker_start)

lemmas late_defs = late_def lone_def loop_init_def

lemma late_new:
  "program_step example_engine eff late_start (late Evaluating (lone [0] False 0 W_top S_none [] []) [] [Deliver])"
proof -
  have "submit (next_job late_start) (cpu late_start) = Inr (lone [0] False 0 W_top S_none [] [])"
    by (simp add: late_start_def next_job_def one_worker_def ThreadPoolExecutor_def submit_def lone_def)
  from new_deferred [OF _ _ this example_start(1) rtranclp.rtrancl_refl example_states(1)
      example_states(2) [symmetric], of eff]
  have "program_step example_engine eff late_start (late_start\<lparr>cpu := lone [0] False 0 W_top S_none [] [],
      posts := (posts late_start)(next_job late_start := [Deliver]),
      left := (left late_start)(next_job late_start := [Deliver])\<rparr>)"
    by (simp add: late_start_def runs_js_def mutex_free_def one_worker_def ThreadPoolExecutor_def)
  then show ?thesis
    by (simp add: late_start_def late_defs next_job_def one_worker_def ThreadPoolExecutor_def)
qed

lemma late_pool:
  assumes "pool_step c c'" "submitted c' = submitted c" "now c' = N_none"
    "ph = Shutting_cpu \<or> shut c' = shut c" "finished c' = finished c \<or> lf = []"
  shows "program_step eng eff (late ph c q lf) (late ph c' q lf)"
  using pool_moves [of "late ph c q lf" c' eng eff] assms
  by (auto simp: late_def pool_allowed_def)

lemma lone_steps:
  "pool_step (lone [0] False 0 W_top S_none [] []) (lone [] False 1 (W_task 0) S_none [0] [])"
  "pool_step (lone [] False 1 (W_task 0) S_none [0] []) (lone [] False 1 W_done S_none [0] [0])"
  "pool_step (lone [] False 1 W_done S_none [0] [0]) (lone [] False 0 W_notify S_none [0] [0])"
  "pool_step (lone [] False 0 W_notify S_none [0] [0]) (lone [] False 0 W_top S_none [0] [0])"
  "pool_step (lone [] False 0 W_top S_none [0] [0]) (lone [] True 0 W_top S_notify [0] [0])"
  "pool_step (lone [] True 0 W_top S_notify [0] [0]) (lone [] True 0 W_top S_test [0] [0])"
  "pool_step (lone [] True 0 W_top S_test [0] [0]) (lone [] True 0 W_top S_join [0] [0])"
  "pool_step (lone [] True 0 W_top S_join [0] [0]) (lone [] True 0 W_exit S_join [0] [0])"
  "pool_step (lone [] True 0 W_exit S_join [0] [0]) (lone [] True 0 W_exit S_done [0] [0])"
  subgoal using pool_step.worker [of 0 "lone [0] False 0 W_top S_none [] []"]
    by (simp add: lone_def worker_section_def mutex_free_def)
  subgoal using task_returns [of 0 "lone [] False 1 (W_task 0) S_none [0] []"] by (simp add: lone_def)
  subgoal using decrement [of 0 "lone [] False 1 W_done S_none [0] [0]"] by (simp add: lone_def)
  subgoal using notify [of 0 "lone [] False 0 W_notify S_none [0] [0]"]
    by (simp add: lone_def notify_all_def wake_worker_def wake_shutdown_def)
  subgoal using shutdown_begin [of "lone [] False 0 W_top S_none [0] [0]"] by (simp add: lone_def)
  subgoal using shutdown_notify [of "lone [] True 0 W_top S_notify [0] [0]"]
    by (simp add: lone_def notify_all_def wake_worker_def wake_shutdown_def)
  subgoal using shutdown_tests [of "lone [] True 0 W_top S_test [0] [0]"]
    by (simp add: lone_def shutdown_test_def)
  subgoal using pool_step.worker [of 0 "lone [] True 0 W_top S_join [0] [0]"]
    by (simp add: lone_def worker_section_def mutex_free_def)
  subgoal using shutdown_joins [of "lone [] True 0 W_exit S_join [0] [0]"]
    by (simp add: lone_def all_exited_def)
  done

lemma late_main:
  "program_step eng eff (late Evaluating c [] lf) (late Draining c [] lf)"
  "program_step eng eff (late Draining c [] lf) (late Last_round c [] lf)"
  "(program_step eng eff)\<^sup>*\<^sup>* (late Last_round c [] lf) (late Shutting_cpu c [] lf)"
  subgoal using eval_returns [of "late Evaluating c [] lf" eng eff] by (simp add: late_def)
  subgoal using none_pending [of "late Draining c [] lf" eng eff]
    by (simp add: late_defs hasPendingCallbacks_def)
  subgoal using last_begins [of "late Last_round c [] lf" eng eff]
      last_ends [of "(late Last_calls c [] lf)\<lparr>loop := take_queue loop_init\<rparr>" eng eff]
    by (auto simp: late_defs take_queue_def leave_calls_def intro: rtranclp_trans)
  done

text \<open>The job returns, and \<open>shutdown\<close> and the worker end.\<close>

lemma late_shutdown:
  "(program_step eng eff)\<^sup>*\<^sup>* (late Shutting_cpu (lone [] False 1 (W_task 0) S_none [0] []) q [])
     (late Shutting_cpu (lone [] True 0 W_exit S_done [0] [0]) q [])"
proof -
  have move: "(program_step eng eff)\<^sup>*\<^sup>* (late Shutting_cpu c q []) x"
    if "pool_step c c'" "submitted c' = submitted c" "now c' = N_none"
      "(program_step eng eff)\<^sup>*\<^sup>* (late Shutting_cpu c' q []) x" for c c' x
    using late_pool [OF that(1-3), of Shutting_cpu "[]" eng eff q] that(4)
    by (simp add: converse_rtranclp_into_rtranclp)
  show ?thesis
    by (rule move [OF lone_steps(2)], simp add: lone_def, simp add: lone_def,
        rule move [OF lone_steps(3)], simp add: lone_def, simp add: lone_def,
        rule move [OF lone_steps(4)], simp add: lone_def, simp add: lone_def,
        rule move [OF lone_steps(5)], simp add: lone_def, simp add: lone_def,
        rule move [OF lone_steps(6)], simp add: lone_def, simp add: lone_def,
        rule move [OF lone_steps(7)], simp add: lone_def, simp add: lone_def,
        rule move [OF lone_steps(8)], simp add: lone_def, simp add: lone_def,
        rule move [OF lone_steps(9)], simp add: lone_def, simp add: lone_def) simp
qed

definition late_end :: program where
  "late_end = exit_process (late Runtime_freed (lone [] True 0 W_exit S_done [0] [0]) [Of_job 0 Deliver] [])"

lemma late_posts:
  "program_step eng eff (late Shutting_cpu (lone [] False 1 (W_task 0) S_none [0] []) [] [Deliver])
     (late Shutting_cpu (lone [] False 1 (W_task 0) S_none [0] []) [Of_job 0 Deliver] [])"
  using job_posts [of 0 "late Shutting_cpu (lone [] False 1 (W_task 0) S_none [0] []) [] [Deliver]" Deliver "[]" eng eff]
  by (simp add: late_defs EventLoop.enqueueCallback_def)

lemma late_exit:
  "(program_step eng eff)\<^sup>*\<^sup>*
     (late Shutting_cpu (lone [] True 0 W_exit S_done [0] [0]) [Of_job 0 Deliver] []) late_end"
proof -
  let ?c = "lone [] True 0 W_exit S_done [0] [0]" and ?q = "[Of_job 0 Deliver]"
  have "program_step eng eff (late Shutting_cpu ?c ?q []) (late Shutting_io ?c ?q [])"
    using cpu_down [of "late Shutting_cpu ?c ?q []" eng eff] by (simp add: late_def lone_def)
  moreover have "program_step eng eff (late Shutting_io ?c ?q []) (late Runtime_freed ?c ?q [])"
    using io_down [of "late Shutting_io ?c ?q []" eng eff] by (simp add: late_def)
  moreover have "program_step eng eff (late Runtime_freed ?c ?q []) late_end"
    using exits [of "late Runtime_freed ?c ?q []" eng eff] by (simp add: late_end_def late_def)
  ultimately show ?thesis by (meson converse_rtranclp_into_rtranclp rtranclp.rtrancl_refl)
qed

lemma late_run: "(program_step example_engine eff)\<^sup>*\<^sup>* late_start late_end"
proof -
  let ?c = "lone [] False 1 (W_task 0) S_none [0] []"
  have "program_step example_engine eff (late Evaluating (lone [0] False 0 W_top S_none [] []) [] [Deliver])
      (late Evaluating ?c [] [Deliver])"
    by (rule late_pool [OF lone_steps(1)]) (simp_all add: lone_def)
  then have "(program_step example_engine eff)\<^sup>*\<^sup>* late_start (late Draining ?c [] [Deliver])"
    using late_new late_main(1) by (meson converse_rtranclp_into_rtranclp rtranclp.rtrancl_refl)
  then have "(program_step example_engine eff)\<^sup>*\<^sup>* late_start (late Shutting_cpu ?c [] [Deliver])"
    using late_main(2,3) by (meson rtranclp.rtrancl_into_rtrancl rtranclp_trans)
  then show ?thesis
    using late_posts late_shutdown late_exit by (meson rtranclp.rtrancl_into_rtrancl rtranclp_trans)
qed

lemma late_end_facts:
  "phase late_end = Gone" "finished (cpu late_end) = [0]" "executed (loop late_end) = []"
  "destroyed late_end = [Of_job 0 Deliver]" "next_job late_end = 1"
  by (simp_all add: late_end_def exit_process_def late_defs next_job_def)

section \<open>Properties\<close>



text \<open>\<open>main\<close> does not wait for Deferreds: it waits while callbacks are queued, and not while jobs run. There is
  a run from the start of the script to the end of the process in which a Deferred's function returns and
  its result is posted, nothing is ever delivered, and the callback is destroyed, with the buffers of
  the task, after the runtime they belong to has been freed.\<close>

theorem deferred_lost_at_exit:
  "\<exists>p0 p. program_start p0 \<and> (program_step example_engine eff)\<^sup>*\<^sup>* p0 p \<and> phase p = Gone \<and>
     finished (cpu p) = [0] \<and> executed (loop p) = [] \<and> destroyed p = [Of_job 0 Deliver]"
  using late_starts late_run [of eff] late_end_facts by blast

end
